(* ===== verification/Prelude.thy ===== *)
theory Prelude
  imports Main "HOL-Library.Word" "HOL-Library.Multiset" "HOL-Library.Monad_Syntax"
begin

text \<open>
  Shared vocabulary of the development: the machine integers of the C sources (LP64: \<open>int\<close> and
  \<open>unsigned int\<close> of 32 bits, \<open>unsigned long\<close>, \<open>u64\<close> and pointers of 64 bits), the kernel error
  codes, the result type of the entry points, the alignment arithmetic used by the window, DMA
  and mmap code, two generic contracts (partial codecs and state machines with an invariant) and
  list lemmas used by several components.
\<close>

unbundle bit_operations_syntax

named_theorems hw_consts \<open>numeric constants of the headers\<close>

named_theorems align_simps \<open>natural-number readings of the masking idioms\<close>

type_synonym u8 = "8 word"

type_synonym u16 = "16 word"

type_synonym u32 = "32 word"

type_synonym u64 = "64 word"

text \<open>Kernel error codes returned (negated) by the driver; \<open>E_KERNEL\<close> is any other code that a
  kernel service hands back and the driver passes on.\<close>

datatype errno =
    EINVAL | EBUSY | ENOMEM | EFAULT | ENODEV | ENXIO | ETIME | EDEADLK
  | ERESTARTSYS | ENOIOCTLCMD | EPERM | EBADF | EINTR | ENOTTY | EACCES | E_KERNEL int

text \<open>An \<open>int\<close> result that is 0 on success and a negated error code otherwise.\<close>

type_synonym rc = "errno + unit"

abbreviation OK :: rc where
  "OK \<equiv> Inr ()"

subsection \<open>Alignment\<close>

text \<open>The rounding idioms of the sources: \<open>x & 0xffff\<close>, \<open>x & ~0xffff\<close>, \<open>x & PAGE_MASK\<close>.\<close>

lemma and_not_mask_eq_push_drop: "(x :: 'a::len word) AND NOT (mask n) = push_bit n (drop_bit n x)"
  by (rule bit_eqI) (auto simp: bit_simps)

lemma and_not_mask_eq_minus: "(x :: 'a::len word) AND NOT (mask n) = x - (x AND mask n)"
  using bits_ident [of n x]
  by (simp add: and_not_mask_eq_push_drop take_bit_eq_mask algebra_simps)

lemma unat_and_mask: "unat (x AND mask n) = unat (x :: 'a::len word) mod 2 ^ n"
  by (metis take_bit_eq_mask take_bit_eq_mod unsigned_take_bit_eq)

lemma unat_and_not_mask: "unat (x AND NOT (mask n)) = unat (x :: 'a::len word) - unat x mod 2 ^ n"
proof -
  have "x AND mask n \<le> x" by (simp add: word_and_le2)
  then show ?thesis by (simp add: and_not_mask_eq_minus unat_sub unat_and_mask)
qed

lemma mask_64k: "(0xffff :: u32) = mask 16"
  by (simp add: mask_eq_exp_minus_1)

lemma mask_page: "(0xfff :: u32) = mask 12"
  by (simp add: mask_eq_exp_minus_1)

lemma unat_and_64k [align_simps]: "unat ((x :: u32) AND 0xffff) = unat x mod 0x10000"
  by (simp only: mask_64k unat_and_mask) simp

lemma unat_down_64k [align_simps]: "unat ((x :: u32) AND NOT 0xffff) = unat x - unat x mod 0x10000"
  by (simp only: mask_64k unat_and_not_mask) simp

lemma unat_and_page [align_simps]: "unat ((x :: u32) AND 0xfff) = unat x mod 0x1000"
  by (simp only: mask_page unat_and_mask) simp

lemma unat_down_page [align_simps]: "unat ((x :: u32) AND NOT 0xfff) = unat x - unat x mod 0x1000"
  by (simp only: mask_page unat_and_not_mask) simp

lemma and_64k_zero_iff [align_simps]: "(x :: u32) AND 0xffff = 0 \<longleftrightarrow> unat x mod 0x10000 = 0"
  by (metis unat_and_64k unat_eq_zero)

lemma and_page_zero_iff [align_simps]: "(x :: u32) AND 0xfff = 0 \<longleftrightarrow> unat x mod 0x1000 = 0"
  by (metis unat_and_page unat_eq_zero)

lemma down_64k_aligned: "((x :: u32) AND NOT 0xffff) AND 0xffff = 0"
  by (simp only: mask_64k) (rule bit_eqI, auto simp: bit_simps)

lemma down_64k_id: "(x :: u32) AND 0xffff = 0 \<Longrightarrow> x AND NOT 0xffff = x"
  by (simp add: mask_64k and_not_mask_eq_minus)

text \<open>The same in the simplifier's normal form of the complemented masks.\<close>

lemma down_64k_norm [align_simps]:
  "unat ((x :: u32) AND - 0x10000) = unat x - unat x mod 0x10000"
  "(x AND 0xffff = 0) \<Longrightarrow> x AND - 0x10000 = x"
  "(x AND - 0x10000) AND 0xffff = 0"
  using unat_down_64k [of x] down_64k_id [of x] down_64k_aligned [of x] by simp_all

lemma unat_down_page_norm [align_simps]:
  "unat ((x :: u32) AND - 0x1000) = unat x - unat x mod 0x1000"
  using unat_down_page [of x] by simp

text \<open>Unsigned sums that do not wrap.\<close>

lemma unat_add_nowrap: "unat (x :: 'a::len word) + unat y < 2 ^ LENGTH('a) \<Longrightarrow> unat (x + y) = unat x + unat y"
  by (simp add: unat_word_ariths)

lemma unat_add_u32: "unat (x :: u32) + unat y < 0x100000000 \<Longrightarrow> unat (x + y) = unat x + unat y"
  by (simp add: unat_word_ariths)

lemma unat_u32_bound: "unat (x :: u32) < 0x100000000"
  using unsigned_less [of x, where ?'a = nat] by simp

lemma mod_less_twice: "n < 2 * m \<Longrightarrow> n mod m = (if n < m then n else n - m)" for n m :: nat
  by (simp add: mod_if)

lemma unat_add_u32_cases: "unat ((x :: u32) + y) =
   (if unat x + unat y < 0x100000000 then unat x + unat y else unat x + unat y - 0x100000000)"
  using unat_u32_bound [of x] unat_u32_bound [of y]
  by (simp add: unat_word_ariths mod_less_twice)

lemma unat_add_u64_cases: "unat ((x :: u64) + y) =
   (if unat x + unat y < 0x10000000000000000 then unat x + unat y
    else unat x + unat y - 0x10000000000000000)"
  using unsigned_less [of x, where ?'a = nat] unsigned_less [of y, where ?'a = nat]
  by (simp add: unat_word_ariths mod_less_twice)

lemma unat_ucast_u32: "unat (ucast (l :: u32) :: u64) = unat l"
  using unat_u32_bound [of l] by (simp add: unsigned_ucast_eq take_bit_eq_mod)

subsection \<open>Partial codecs\<close>

text \<open>
  An encoder that accepts part of its domain, with a decoder that inverts it there: the address
  modifier, data width and transfer rate codes are all of this shape.
\<close>

locale partial_codec =
  fixes enc :: "'a \<Rightarrow> 'b option"
    and dec :: "'b \<Rightarrow> 'a"
  assumes dec_enc: "enc a = Some b \<Longrightarrow> dec b = a"
begin

lemma enc_inj: "enc a = Some b \<Longrightarrow> enc a' = Some b \<Longrightarrow> a = a'"
  using dec_enc by blast

lemma inj_on_dom: "inj_on enc (dom enc)"
  by (rule inj_onI) (auto dest: enc_inj)

lemma image_dec: "dec ` ran enc = dom enc"
proof
  show "dec ` ran enc \<subseteq> dom enc"
    by (auto simp: ran_def dom_def dest: dec_enc)
  show "dom enc \<subseteq> dec ` ran enc"
  proof
    fix a assume "a \<in> dom enc"
    then obtain b where "enc a = Some b" by auto
    then show "a \<in> dec ` ran enc"
      using dec_enc by (intro image_eqI [of _ _ b]) (auto intro: ranI)
  qed
qed

end

subsection \<open>State machines with an invariant\<close>

locale inv_machine =
  fixes step :: "'op \<Rightarrow> 's \<Rightarrow> 's"
    and inv :: "'s \<Rightarrow> bool"
  assumes step_inv: "inv s \<Longrightarrow> inv (step x s)"
begin

lemma run_inv: "inv s \<Longrightarrow> inv (fold step xs s)"
  by (induction xs arbitrary: s) (auto intro: step_inv)

end

subsection \<open>Lists\<close>

lemma all_nth_update:
  assumes "\<forall>i < length xs. P i (xs ! i)" and "P k x"
  shows "\<forall>i < length xs. P i (xs[k := x] ! i)"
proof (intro allI impI)
  fix i assume "i < length xs"
  with assms show "P i (xs[k := x] ! i)" by (cases "i = k") simp_all
qed

text \<open>Replacing one element, seen through a filter and a projection.\<close>

lemma mset_filter_update:
  assumes "i < length xs"
  shows "mset (map f (filter P (xs[i := x]))) + (if P (xs ! i) then {#f (xs ! i)#} else {#})
     = mset (map f (filter P xs)) + (if P x then {#f x#} else {#})"
proof -
  have "filter P xs = filter P (take i xs @ xs ! i # drop (Suc i) xs)"
    using id_take_nth_drop [OF assms] by simp
  then show ?thesis using assms by (simp add: upd_conv_take_nth_drop)
qed

end
