(* ===== verification/Vmebus.thy ===== *)
theory Vmebus
  imports Prelude
begin

text \<open>
  The public data of the PCI-VME bridge API, \<open>src/vmebridge/driver/vmebus.h\<close>: the enumerations
  (as datatypes with the source's constructors; descriptors arrive from user space, so each has
  one more constructor for a value outside the enumeration) and the descriptor structures (as
  records; flags that the code only tests for non-zero are \<open>bool\<close>).
\<close>

subsection \<open>Enumerations\<close>

datatype vme_read_prefetch_size =
    VME_PREFETCH_2 | VME_PREFETCH_4 | VME_PREFETCH_8 | VME_PREFETCH_16 | VME_PREFETCH_OTHER u32

fun prefetch_code :: "vme_read_prefetch_size \<Rightarrow> u32" where
  "prefetch_code VME_PREFETCH_2 = 0"
| "prefetch_code VME_PREFETCH_4 = 1"
| "prefetch_code VME_PREFETCH_8 = 2"
| "prefetch_code VME_PREFETCH_16 = 3"
| "prefetch_code (VME_PREFETCH_OTHER w) = w"

definition prefetch_of_code :: "u32 \<Rightarrow> vme_read_prefetch_size" where
  "prefetch_of_code w =
     (if w = 0 then VME_PREFETCH_2 else if w = 1 then VME_PREFETCH_4
      else if w = 2 then VME_PREFETCH_8 else if w = 3 then VME_PREFETCH_16
      else VME_PREFETCH_OTHER w)"

datatype vme_data_width = VME_D8 | VME_D16 | VME_D32 | VME_D64 | VME_DW_OTHER u32

datatype vme_2esst_mode = VME_SST160 | VME_SST267 | VME_SST320 | VME_SST_OTHER u32

fun sst_code :: "vme_2esst_mode \<Rightarrow> u32" where
  "sst_code VME_SST160 = 0"
| "sst_code VME_SST267 = 1"
| "sst_code VME_SST320 = 2"
| "sst_code (VME_SST_OTHER w) = w"

definition sst_of_code :: "u32 \<Rightarrow> vme_2esst_mode" where
  "sst_of_code w =
     (if w = 0 then VME_SST160 else if w = 1 then VME_SST267
      else if w = 2 then VME_SST320 else VME_SST_OTHER w)"

datatype vme_address_modifier =
    VME_A64_MBLT | VME_A64_SCT | VME_A64_BLT | VME_A64_LCK | VME_A32_LCK
  | VME_A32_USER_MBLT | VME_A32_USER_DATA_SCT | VME_A32_USER_PRG_SCT | VME_A32_USER_BLT
  | VME_A32_SUP_MBLT | VME_A32_SUP_DATA_SCT | VME_A32_SUP_PRG_SCT | VME_A32_SUP_BLT
  | VME_2e6U | VME_2e3U | VME_A16_USER | VME_A16_LCK | VME_A16_SUP | VME_CR_CSR
  | VME_A40_SCT | VME_A40_LCK | VME_A40_BLT
  | VME_A24_USER_MBLT | VME_A24_USER_DATA_SCT | VME_A24_USER_PRG_SCT | VME_A24_USER_BLT
  | VME_A24_SUP_MBLT | VME_A24_SUP_DATA_SCT | VME_A24_SUP_PRG_SCT | VME_A24_SUP_BLT
  | VME_AM_OTHER u32

text \<open>The enumerators with the values the header gives them.\<close>

definition am_table :: "(vme_address_modifier \<times> u32) list" where
  "am_table =
    [(VME_A64_MBLT, 0x00), (VME_A64_SCT, 0x01), (VME_A64_BLT, 0x03), (VME_A64_LCK, 0x04),
     (VME_A32_LCK, 0x05), (VME_A32_USER_MBLT, 0x08), (VME_A32_USER_DATA_SCT, 0x09),
     (VME_A32_USER_PRG_SCT, 0x0a), (VME_A32_USER_BLT, 0x0b), (VME_A32_SUP_MBLT, 0x0c),
     (VME_A32_SUP_DATA_SCT, 0x0d), (VME_A32_SUP_PRG_SCT, 0x0e), (VME_A32_SUP_BLT, 0x0f),
     (VME_2e6U, 0x20), (VME_2e3U, 0x21), (VME_A16_USER, 0x29), (VME_A16_LCK, 0x2c),
     (VME_A16_SUP, 0x2d), (VME_CR_CSR, 0x2f), (VME_A40_SCT, 0x34), (VME_A40_LCK, 0x35),
     (VME_A40_BLT, 0x37), (VME_A24_USER_MBLT, 0x38), (VME_A24_USER_DATA_SCT, 0x39),
     (VME_A24_USER_PRG_SCT, 0x3a), (VME_A24_USER_BLT, 0x3b), (VME_A24_SUP_MBLT, 0x3c),
     (VME_A24_SUP_DATA_SCT, 0x3d), (VME_A24_SUP_PRG_SCT, 0x3e), (VME_A24_SUP_BLT, 0x3f)]"

definition am_code :: "vme_address_modifier \<Rightarrow> u32" where
  "am_code a = (case a of VME_AM_OTHER w \<Rightarrow> w | _ \<Rightarrow> the (map_of am_table a))"

definition am_of_code :: "u32 \<Rightarrow> vme_address_modifier" where
  "am_of_code w = (case find (\<lambda>p. snd p = w) am_table of Some p \<Rightarrow> fst p | None \<Rightarrow> VME_AM_OTHER w)"

definition am_enumerated :: "vme_address_modifier \<Rightarrow> bool" where
  "am_enumerated a \<longleftrightarrow> (case a of VME_AM_OTHER w \<Rightarrow> False | _ \<Rightarrow> True)"

datatype vme_dma_dir = VME_DMA_TO_DEVICE | VME_DMA_FROM_DEVICE | VME_DMA_DIR_OTHER u32

subsection \<open>Descriptors\<close>

record vme_mapping =
  window_num :: int
  kernel_va :: u64
  user_va :: u64
  fd :: int
  window_enabled :: bool
  data_width :: vme_data_width
  am :: vme_address_modifier
  read_prefetch_enabled :: bool
  read_prefetch_size :: vme_read_prefetch_size
  v2esst_mode :: vme_2esst_mode
  bcast_select :: u32
  pci_addru :: u32
  pci_addrl :: u32
  sizeu :: u32
  sizel :: u32
  vme_addru :: u32
  vme_addrl :: u32

text \<open>A descriptor with every byte zero, as \<open>kzalloc\<close>, \<open>calloc\<close> and static storage give it
  (a zero data width is none of the enumerators).\<close>

definition vme_mapping_zero :: vme_mapping where
  "vme_mapping_zero = \<lparr> window_num = 0, kernel_va = 0, user_va = 0, fd = 0, window_enabled = False,
     data_width = VME_DW_OTHER 0, am = VME_A64_MBLT, read_prefetch_enabled = False,
     read_prefetch_size = VME_PREFETCH_2, v2esst_mode = VME_SST160, bcast_select = 0,
     pci_addru = 0, pci_addrl = 0, sizeu = 0, sizel = 0, vme_addru = 0, vme_addrl = 0 \<rparr>"

record vme_dma_attr =
  attr_data_width :: vme_data_width
  attr_am :: vme_address_modifier
  attr_v2esst_mode :: vme_2esst_mode
  attr_bcast_select :: u32
  addru :: u32
  addrl :: u32

record vme_dma_ctrl =
  vme_block_size :: u32
  vme_backoff_time :: u32
  pci_block_size :: u32
  pci_backoff_time :: u32

record vme_dma =
  dma_status :: u32
  dma_length :: u32
  novmeinc :: bool
  dir :: vme_dma_dir
  dma_src :: vme_dma_attr
  dma_dst :: vme_dma_attr
  dma_ctrl :: vme_dma_ctrl

record vme_bus_error =
  berr_address :: u64
  berr_am :: vme_address_modifier

record vme_bus_error_desc =
  berr_error :: vme_bus_error
  berr_valid :: bool

subsection \<open>Codes\<close>

lemma am_code_simps [simp]:
  "am_code VME_A64_MBLT = 0x00" "am_code VME_A64_SCT = 0x01" "am_code VME_A64_BLT = 0x03"
  "am_code VME_A64_LCK = 0x04" "am_code VME_A32_LCK = 0x05" "am_code VME_A32_USER_MBLT = 0x08"
  "am_code VME_A32_USER_DATA_SCT = 0x09" "am_code VME_A32_USER_PRG_SCT = 0x0a"
  "am_code VME_A32_USER_BLT = 0x0b" "am_code VME_A32_SUP_MBLT = 0x0c"
  "am_code VME_A32_SUP_DATA_SCT = 0x0d" "am_code VME_A32_SUP_PRG_SCT = 0x0e"
  "am_code VME_A32_SUP_BLT = 0x0f" "am_code VME_2e6U = 0x20" "am_code VME_2e3U = 0x21"
  "am_code VME_A16_USER = 0x29" "am_code VME_A16_LCK = 0x2c" "am_code VME_A16_SUP = 0x2d"
  "am_code VME_CR_CSR = 0x2f" "am_code VME_A40_SCT = 0x34" "am_code VME_A40_LCK = 0x35"
  "am_code VME_A40_BLT = 0x37" "am_code VME_A24_USER_MBLT = 0x38"
  "am_code VME_A24_USER_DATA_SCT = 0x39" "am_code VME_A24_USER_PRG_SCT = 0x3a"
  "am_code VME_A24_USER_BLT = 0x3b" "am_code VME_A24_SUP_MBLT = 0x3c"
  "am_code VME_A24_SUP_DATA_SCT = 0x3d" "am_code VME_A24_SUP_PRG_SCT = 0x3e"
  "am_code VME_A24_SUP_BLT = 0x3f" "am_code (VME_AM_OTHER w) = w"
  by (simp_all add: am_code_def am_table_def)

lemma am_of_code_am_code: "am_enumerated a \<Longrightarrow> am_of_code (am_code a) = a"
  by (cases a) (simp_all add: am_of_code_def am_table_def am_enumerated_def)

lemma am_code_am_of_code: "am_code (am_of_code w) = w"
  by (auto simp: am_of_code_def am_table_def split: option.splits if_splits)

lemma prefetch_code_of_code [simp]: "prefetch_code (prefetch_of_code w) = w"
  by (simp add: prefetch_of_code_def)

lemma sst_code_of_code [simp]: "sst_code (sst_of_code w) = w"
  by (simp add: sst_of_code_def)

interpretation am_codec: partial_codec
  "\<lambda>a. if am_enumerated a then Some (am_code a) else None" am_of_code
  by unfold_locales (auto simp: am_of_code_am_code split: if_splits)

end
