(* ===== verification/Tsi148_Regs.thy ===== *)
theory Tsi148_Regs
  imports Vmebus
begin

text \<open>
  The TSI148 chip as the driver sees it, \<open>src/vmebridge/driver/tsi148.h\<close>: the register groups the
  driver reads or writes outside the procfs dumps, the bit definitions, and the inline accessors.
  \<open>iowrite32be\<close> stores into the register file and \<open>ioread32be\<close> reads it back; what the device
  does to its own status registers between two accesses is an argument of the routines that
  depend on it.
\<close>

subsection \<open>Resources and encodings\<close>

definition TSI148_NUM_OUT_WINDOWS :: nat where [hw_consts]: "TSI148_NUM_OUT_WINDOWS = 8"

definition TSI148_NUM_DMA_CHANNELS :: nat where [hw_consts]: "TSI148_NUM_DMA_CHANNELS = 2"

definition PCI_VENDOR_ID_TUNDRA :: u32 where [hw_consts]: "PCI_VENDOR_ID_TUNDRA = 0x10e3"

definition PCI_DEVICE_ID_TUNDRA_TSI148 :: u32 where [hw_consts]: "PCI_DEVICE_ID_TUNDRA_TSI148 = 0x0148"

definition TSI148_A16 :: u32 where [hw_consts]: "TSI148_A16 = 0"

definition TSI148_A24 :: u32 where [hw_consts]: "TSI148_A24 = 1"

definition TSI148_A32 :: u32 where [hw_consts]: "TSI148_A32 = 2"

definition TSI148_A64 :: u32 where [hw_consts]: "TSI148_A64 = 4"

definition TSI148_CRCSR :: u32 where [hw_consts]: "TSI148_CRCSR = 5"

definition TSI148_USER1 :: u32 where [hw_consts]: "TSI148_USER1 = 8"

definition TSI148_USER2 :: u32 where [hw_consts]: "TSI148_USER2 = 9"

definition TSI148_USER3 :: u32 where [hw_consts]: "TSI148_USER3 = 10"

definition TSI148_USER4 :: u32 where [hw_consts]: "TSI148_USER4 = 11"

definition TSI148_USER :: u32 where [hw_consts]: "TSI148_USER = 0"

definition TSI148_SUPER :: u32 where [hw_consts]: "TSI148_SUPER = 1"

definition TSI148_DATA :: u32 where [hw_consts]: "TSI148_DATA = 0"

definition TSI148_PROG :: u32 where [hw_consts]: "TSI148_PROG = 1"

definition TSI148_SCT :: u32 where [hw_consts]: "TSI148_SCT = 0"

definition TSI148_BLT :: u32 where [hw_consts]: "TSI148_BLT = 1"

definition TSI148_MBLT :: u32 where [hw_consts]: "TSI148_MBLT = 2"

definition TSI148_2eVME :: u32 where [hw_consts]: "TSI148_2eVME = 3"

definition TSI148_2eSST :: u32 where [hw_consts]: "TSI148_2eSST = 4"

definition TSI148_2eSSTB :: u32 where [hw_consts]: "TSI148_2eSSTB = 5"

definition TSI148_DW_16 :: u32 where [hw_consts]: "TSI148_DW_16 = 0"

definition TSI148_DW_32 :: u32 where [hw_consts]: "TSI148_DW_32 = 1"

subsection \<open>Register groups\<close>

record tsi148_otrans =
  otsau :: u32
  otsal :: u32
  oteau :: u32
  oteal :: u32
  otofu :: u32
  otofl :: u32
  otbs :: u32
  otat :: u32

record tsi148_dma_desc =
  dsau :: u32
  dsal :: u32
  ddau :: u32
  ddal :: u32
  dsat :: u32
  ddat :: u32
  dnlau :: u32
  dnlal :: u32
  dcnt :: u32
  ddbs :: u32

text \<open>A channel's register block: control, status and the first descriptor.\<close>

record tsi148_dma =
  dctl :: u32
  dsta :: u32
  dma_desc :: tsi148_dma_desc

record tsi148_lcsr =
  otrans :: "tsi148_otrans list"
  itat :: "u32 list"
  vmctrl :: u32
  vstat :: u32
  pstat :: u32
  veau :: u32
  veal :: u32
  veat :: u32
  edpau :: u32
  edpal :: u32
  edpxa :: u32
  edpxs :: u32
  edpat :: u32
  cbau :: u32
  cbal :: u32
  crgat :: u32
  lmat :: u32
  vicr :: u32
  inten :: u32
  inteo :: u32
  intc :: u32
  intm1 :: u32
  intm2 :: u32
  dma :: "tsi148_dma list"

definition otrans_zero :: tsi148_otrans where
  "otrans_zero = \<lparr> otsau = 0, otsal = 0, oteau = 0, oteal = 0, otofu = 0, otofl = 0, otbs = 0, otat = 0 \<rparr>"

definition dma_desc_zero :: tsi148_dma_desc where
  "dma_desc_zero = \<lparr> dsau = 0, dsal = 0, ddau = 0, ddal = 0, dsat = 0, ddat = 0, dnlau = 0, dnlal = 0,
     dcnt = 0, ddbs = 0 \<rparr>"

text \<open>The register file has as many banks as the chip has windows and DMA channels.\<close>

definition chip_wf :: "tsi148_lcsr \<Rightarrow> bool" where
  "chip_wf c \<longleftrightarrow> length (otrans c) = TSI148_NUM_OUT_WINDOWS \<and> length (itat c) = TSI148_NUM_OUT_WINDOWS
     \<and> length (dma c) = TSI148_NUM_DMA_CHANNELS"

subsection \<open>Bit definitions\<close>

definition TSI148_LCSR_OTSAL_M :: u32 where [hw_consts]: "TSI148_LCSR_OTSAL_M = 0xffff0000"

definition TSI148_LCSR_OTBS_M :: u32 where [hw_consts]: "TSI148_LCSR_OTBS_M = 0xfffff"

definition TSI148_LCSR_OTAT_EN :: u32 where [hw_consts]: "TSI148_LCSR_OTAT_EN = 0x80000000"

definition TSI148_LCSR_OTAT_MRPFD :: u32 where [hw_consts]: "TSI148_LCSR_OTAT_MRPFD = 0x40000"

definition TSI148_LCSR_OTAT_PFS_SHIFT :: nat where [hw_consts]: "TSI148_LCSR_OTAT_PFS_SHIFT = 16"

definition TSI148_LCSR_OTAT_PFS_M :: u32 where [hw_consts]: "TSI148_LCSR_OTAT_PFS_M = 0x30000"

definition TSI148_LCSR_OTAT_2eSSTM_SHIFT :: nat where [hw_consts]: "TSI148_LCSR_OTAT_2eSSTM_SHIFT = 11"

definition TSI148_LCSR_OTAT_2eSSTM_M :: u32 where [hw_consts]: "TSI148_LCSR_OTAT_2eSSTM_M = 0x3800"

definition TSI148_LCSR_OTAT_TM_SHIFT :: nat where [hw_consts]: "TSI148_LCSR_OTAT_TM_SHIFT = 8"

definition TSI148_LCSR_OTAT_TM_M :: u32 where [hw_consts]: "TSI148_LCSR_OTAT_TM_M = 0x700"

definition TSI148_LCSR_OTAT_DBW_SHIFT :: nat where [hw_consts]: "TSI148_LCSR_OTAT_DBW_SHIFT = 6"

definition TSI148_LCSR_OTAT_DBW_M :: u32 where [hw_consts]: "TSI148_LCSR_OTAT_DBW_M = 0xc0"

definition TSI148_LCSR_OTAT_DBW_16 :: u32 where [hw_consts]: "TSI148_LCSR_OTAT_DBW_16 = 0"

definition TSI148_LCSR_OTAT_DBW_32 :: u32 where [hw_consts]: "TSI148_LCSR_OTAT_DBW_32 = 0x40"

definition TSI148_LCSR_OTAT_SUP :: u32 where [hw_consts]: "TSI148_LCSR_OTAT_SUP = 0x20"

definition TSI148_LCSR_OTAT_PGM :: u32 where [hw_consts]: "TSI148_LCSR_OTAT_PGM = 0x10"

definition TSI148_LCSR_OTAT_AMODE_SHIFT :: nat where [hw_consts]: "TSI148_LCSR_OTAT_AMODE_SHIFT = 0"

definition TSI148_LCSR_OTAT_AMODE_M :: u32 where [hw_consts]: "TSI148_LCSR_OTAT_AMODE_M = 0xf"

definition TSI148_LCSR_VMCTRL_VTON_M :: u32 where [hw_consts]: "TSI148_LCSR_VMCTRL_VTON_M = 0x700"

definition TSI148_LCSR_VMCTRL_VTON_512 :: u32 where [hw_consts]: "TSI148_LCSR_VMCTRL_VTON_512 = 0x700"

definition TSI148_LCSR_VMCTRL_VREL_M :: u32 where [hw_consts]: "TSI148_LCSR_VMCTRL_VREL_M = 0x18"

definition TSI148_LCSR_VMCTRL_VREL_T_D_R :: u32 where [hw_consts]: "TSI148_LCSR_VMCTRL_VREL_T_D_R = 0x18"

definition TSI148_LCSR_VSTAT_CPURST :: u32 where [hw_consts]: "TSI148_LCSR_VSTAT_CPURST = 0x8000"

definition TSI148_LCSR_VSTAT_BDFAIL :: u32 where [hw_consts]: "TSI148_LCSR_VSTAT_BDFAIL = 0x4000"

definition TSI148_LCSR_PCSR_SRTO :: u32 where [hw_consts]: "TSI148_LCSR_PCSR_SRTO = 0x7000000"

definition TSI148_LCSR_PCSR_SRTE :: u32 where [hw_consts]: "TSI148_LCSR_PCSR_SRTE = 0x400"

definition TSI148_LCSR_PCSR_DTTE :: u32 where [hw_consts]: "TSI148_LCSR_PCSR_DTTE = 0x200"

definition TSI148_LCSR_PCSR_MRCE :: u32 where [hw_consts]: "TSI148_LCSR_PCSR_MRCE = 0x100"

definition TSI148_LCSR_VEAT_VES :: u32 where [hw_consts]: "TSI148_LCSR_VEAT_VES = 0x80000000"

definition TSI148_LCSR_VEAT_VESCL :: u32 where [hw_consts]: "TSI148_LCSR_VEAT_VESCL = 0x20000000"

definition TSI148_LCSR_VEAT_AM_SHIFT :: nat where [hw_consts]: "TSI148_LCSR_VEAT_AM_SHIFT = 8"

definition TSI148_LCSR_VEAT_AM :: u32 where [hw_consts]: "TSI148_LCSR_VEAT_AM = 0x3f00"

definition TSI148_LCSR_EDPAT_EDPCL :: u32 where [hw_consts]: "TSI148_LCSR_EDPAT_EDPCL = 0x20000000"

definition TSI148_LCSR_CRGAT_EN :: u32 where [hw_consts]: "TSI148_LCSR_CRGAT_EN = 0x80"

definition TSI148_LCSR_CRGAT_AS_16 :: u32 where [hw_consts]: "TSI148_LCSR_CRGAT_AS_16 = 0"

definition TSI148_LCSR_CRGAT_AS_24 :: u32 where [hw_consts]: "TSI148_LCSR_CRGAT_AS_24 = 0x10"

definition TSI148_LCSR_CRGAT_AS_32 :: u32 where [hw_consts]: "TSI148_LCSR_CRGAT_AS_32 = 0x20"

definition TSI148_LCSR_CRGAT_AS_64 :: u32 where [hw_consts]: "TSI148_LCSR_CRGAT_AS_64 = 0x40"

definition TSI148_LCSR_CRGAT_SUPR :: u32 where [hw_consts]: "TSI148_LCSR_CRGAT_SUPR = 8"

definition TSI148_LCSR_CRGAT_NPRIV :: u32 where [hw_consts]: "TSI148_LCSR_CRGAT_NPRIV = 4"

definition TSI148_LCSR_CRGAT_PGM :: u32 where [hw_consts]: "TSI148_LCSR_CRGAT_PGM = 2"

definition TSI148_LCSR_CRGAT_DATA :: u32 where [hw_consts]: "TSI148_LCSR_CRGAT_DATA = 1"

definition TSI148_LCSR_VICR_IRQC :: u32 where [hw_consts]: "TSI148_LCSR_VICR_IRQC = 0x8000"

definition TSI148_LCSR_VICR_IRQS :: u32 where [hw_consts]: "TSI148_LCSR_VICR_IRQS = 0x800"

definition TSI148_LCSR_VICR_IRQL_M :: u32 where [hw_consts]: "TSI148_LCSR_VICR_IRQL_M = 0x700"

definition TSI148_LCSR_VICR_STID_M :: u32 where [hw_consts]: "TSI148_LCSR_VICR_STID_M = 0xff"

definition TSI148_LCSR_INT_DMA_SHIFT :: nat where [hw_consts]: "TSI148_LCSR_INT_DMA_SHIFT = 24"

definition TSI148_LCSR_INT_DMA_M :: u32 where [hw_consts]: "TSI148_LCSR_INT_DMA_M = 0x3000000"

definition TSI148_LCSR_INT_LM_SHIFT :: nat where [hw_consts]: "TSI148_LCSR_INT_LM_SHIFT = 20"

definition TSI148_LCSR_INT_LM_M :: u32 where [hw_consts]: "TSI148_LCSR_INT_LM_M = 0xf00000"

definition TSI148_LCSR_INT_MB_SHIFT :: nat where [hw_consts]: "TSI148_LCSR_INT_MB_SHIFT = 16"

definition TSI148_LCSR_INT_MB_M :: u32 where [hw_consts]: "TSI148_LCSR_INT_MB_M = 0xf0000"

definition TSI148_LCSR_INT_PERR :: u32 where [hw_consts]: "TSI148_LCSR_INT_PERR = 0x2000"

definition TSI148_LCSR_INT_VERR :: u32 where [hw_consts]: "TSI148_LCSR_INT_VERR = 0x1000"

definition TSI148_LCSR_INT_IRQM :: u32 where [hw_consts]: "TSI148_LCSR_INT_IRQM = 0xfe"

definition TSI148_LCSR_DCTL_ABT :: u32 where [hw_consts]: "TSI148_LCSR_DCTL_ABT = 0x8000000"

definition TSI148_LCSR_DCTL_DGO :: u32 where [hw_consts]: "TSI148_LCSR_DCTL_DGO = 0x2000000"

definition TSI148_LCSR_DCTL_MOD :: u32 where [hw_consts]: "TSI148_LCSR_DCTL_MOD = 0x800000"

definition TSI148_LCSR_DCTL_VBKS_SHIFT :: nat where [hw_consts]: "TSI148_LCSR_DCTL_VBKS_SHIFT = 12"

definition TSI148_LCSR_DCTL_VBKS_M :: u32 where [hw_consts]: "TSI148_LCSR_DCTL_VBKS_M = 0x7000"

definition TSI148_LCSR_DCTL_VBOT_SHIFT :: nat where [hw_consts]: "TSI148_LCSR_DCTL_VBOT_SHIFT = 8"

definition TSI148_LCSR_DCTL_VBOT_M :: u32 where [hw_consts]: "TSI148_LCSR_DCTL_VBOT_M = 0x700"

definition TSI148_LCSR_DCTL_PBKS_SHIFT :: nat where [hw_consts]: "TSI148_LCSR_DCTL_PBKS_SHIFT = 4"

definition TSI148_LCSR_DCTL_PBKS_M :: u32 where [hw_consts]: "TSI148_LCSR_DCTL_PBKS_M = 0x70"

definition TSI148_LCSR_DCTL_PBOT_SHIFT :: nat where [hw_consts]: "TSI148_LCSR_DCTL_PBOT_SHIFT = 0"

definition TSI148_LCSR_DCTL_PBOT_M :: u32 where [hw_consts]: "TSI148_LCSR_DCTL_PBOT_M = 7"

definition TSI148_LCSR_DSTA_DON :: u32 where [hw_consts]: "TSI148_LCSR_DSTA_DON = 0x2000000"

definition TSI148_LCSR_DSTA_BSY :: u32 where [hw_consts]: "TSI148_LCSR_DSTA_BSY = 0x1000000"

definition TSI148_LCSR_DSAT_TYP_PCI :: u32 where [hw_consts]: "TSI148_LCSR_DSAT_TYP_PCI = 0"

definition TSI148_LCSR_DSAT_TYP_VME :: u32 where [hw_consts]: "TSI148_LCSR_DSAT_TYP_VME = 0x10000000"

definition TSI148_LCSR_DSAT_2eSSTM_SHIFT :: nat where [hw_consts]: "TSI148_LCSR_DSAT_2eSSTM_SHIFT = 11"

definition TSI148_LCSR_DSAT_2eSSTM_M :: u32 where [hw_consts]: "TSI148_LCSR_DSAT_2eSSTM_M = 0x1800"

definition TSI148_LCSR_DSAT_TM_SHIFT :: nat where [hw_consts]: "TSI148_LCSR_DSAT_TM_SHIFT = 8"

definition TSI148_LCSR_DSAT_TM_M :: u32 where [hw_consts]: "TSI148_LCSR_DSAT_TM_M = 0x700"

definition TSI148_LCSR_DSAT_DBW_SHIFT :: nat where [hw_consts]: "TSI148_LCSR_DSAT_DBW_SHIFT = 6"

definition TSI148_LCSR_DSAT_DBW_M :: u32 where [hw_consts]: "TSI148_LCSR_DSAT_DBW_M = 0xc0"

definition TSI148_LCSR_DSAT_SUP :: u32 where [hw_consts]: "TSI148_LCSR_DSAT_SUP = 0x20"

definition TSI148_LCSR_DSAT_PGM :: u32 where [hw_consts]: "TSI148_LCSR_DSAT_PGM = 0x10"

definition TSI148_LCSR_DSAT_AMODE_SHIFT :: nat where [hw_consts]: "TSI148_LCSR_DSAT_AMODE_SHIFT = 0"

definition TSI148_LCSR_DSAT_AMODE_M :: u32 where [hw_consts]: "TSI148_LCSR_DSAT_AMODE_M = 0xf"

definition TSI148_LCSR_DDAT_TYP_PCI :: u32 where [hw_consts]: "TSI148_LCSR_DDAT_TYP_PCI = 0"

definition TSI148_LCSR_DDAT_TYP_VME :: u32 where [hw_consts]: "TSI148_LCSR_DDAT_TYP_VME = 0x10000000"

definition TSI148_LCSR_DNLAL_DNLAL_M :: u32 where [hw_consts]: "TSI148_LCSR_DNLAL_DNLAL_M = 0xfffffff8"

definition TSI148_LCSR_DNLAL_LLA :: u32 where [hw_consts]: "TSI148_LCSR_DNLAL_LLA = 1"

subsection \<open>Inline accessors\<close>

definition tsi148_get_slotnum :: "tsi148_lcsr \<Rightarrow> u32" where
  "tsi148_get_slotnum regs = vstat regs AND 0x1f"

definition tsi148_get_syscon :: "tsi148_lcsr \<Rightarrow> bool" where
  "tsi148_get_syscon regs \<longleftrightarrow> vstat regs AND 0x100 \<noteq> 0"

text \<open>\<open>impl\<close> says which value the enable registers hold after a write: reserved bits need not
  stick, which is what the read-back check of the source detects.\<close>

definition tsi148_set_interrupts :: "(u32 \<Rightarrow> u32) \<Rightarrow> u32 \<Rightarrow> tsi148_lcsr \<Rightarrow> bool \<times> tsi148_lcsr" where
  "tsi148_set_interrupts impl m regs =
     (let regs1 = regs\<lparr>inteo := impl m\<rparr>; regs2 = regs1\<lparr>inten := impl m\<rparr>
      in (\<not> (inteo regs2 \<noteq> m \<or> inten regs2 \<noteq> m), regs2))"

definition tsi148_get_int_enabled :: "tsi148_lcsr \<Rightarrow> u32" where
  "tsi148_get_int_enabled regs = inteo regs"

definition tsi148_clear_int :: "u32 \<Rightarrow> tsi148_lcsr \<Rightarrow> tsi148_lcsr" where
  "tsi148_clear_int m regs = regs\<lparr>intc := m\<rparr>"

text \<open>An 8-bit IACK cycle: \<open>viack irq\<close> is the byte the bus answers at the level's IACK register.\<close>

definition tsi148_iack8 :: "(nat \<Rightarrow> u8) \<Rightarrow> nat \<Rightarrow> nat" where
  "tsi148_iack8 viack irq = unat ((ucast (viack irq) :: u32) AND 0xff)"

definition tsi148_bus_error_chk :: "bool \<Rightarrow> tsi148_lcsr \<Rightarrow> bool \<times> tsi148_lcsr" where
  "tsi148_bus_error_chk clear regs =
     (if veat regs AND TSI148_LCSR_VEAT_VES \<noteq> 0
      then (True, if clear then regs\<lparr>veat := TSI148_LCSR_VEAT_VESCL\<rparr> else regs)
      else (False, regs))"

lemma tsi148_iack8_bound: "tsi148_iack8 viack irq < 256"
proof -
  have "(ucast (viack irq) :: u32) AND 0xff \<le> 0xff" by (rule word_and_le1)
  then have "unat ((ucast (viack irq) :: u32) AND 0xff) \<le> unat (0xff :: u32)"
    by (simp only: word_le_nat_alt)
  then show ?thesis by (simp add: tsi148_iack8_def)
qed

end
