(* ===== verification/Tsi148_Attr.thy ===== *)
theory Tsi148_Attr
  imports Tsi148_Regs
begin

text \<open>
  Attribute words of the TSI148, \<open>src/vmebridge/driver/tsi148.c\<close>: the conversion between VME
  address modifiers and the chip's four attribute fields, and the words written to the window
  (OTAT), DMA (DSAT/DDAT, DCTL) and CRG attribute registers. The theorems show that the
  conversion is a partial codec, that the words decode back to the parameters, and that a valid
  word never looks like a negative error code.
\<close>

subsection \<open>Address modifiers and chip attributes\<close>

text \<open>The four output parameters of \<open>am_to_attr\<close>.\<close>

record tsi148_attr =
  addr_size :: u32
  transfer_mode :: u32
  user_access :: u32
  data_access :: u32

definition mk_attr :: "u32 \<Rightarrow> u32 \<Rightarrow> u32 \<Rightarrow> u32 \<Rightarrow> tsi148_attr" where
  "mk_attr sz tm da ua = \<lparr> addr_size = sz, transfer_mode = tm, user_access = ua, data_access = da \<rparr>"

definition am_to_attr :: "vme_address_modifier \<Rightarrow> tsi148_attr option" where
  "am_to_attr a = (case a of
     VME_A16_USER \<Rightarrow> Some (mk_attr TSI148_A16 TSI148_SCT TSI148_DATA TSI148_USER)
   | VME_A16_SUP \<Rightarrow> Some (mk_attr TSI148_A16 TSI148_SCT TSI148_DATA TSI148_SUPER)
   | VME_A24_USER_MBLT \<Rightarrow> Some (mk_attr TSI148_A24 TSI148_MBLT TSI148_DATA TSI148_USER)
   | VME_A24_USER_DATA_SCT \<Rightarrow> Some (mk_attr TSI148_A24 TSI148_SCT TSI148_DATA TSI148_USER)
   | VME_A24_USER_PRG_SCT \<Rightarrow> Some (mk_attr TSI148_A24 TSI148_SCT TSI148_PROG TSI148_USER)
   | VME_A24_USER_BLT \<Rightarrow> Some (mk_attr TSI148_A24 TSI148_BLT TSI148_DATA TSI148_USER)
   | VME_A24_SUP_MBLT \<Rightarrow> Some (mk_attr TSI148_A24 TSI148_MBLT TSI148_DATA TSI148_SUPER)
   | VME_A24_SUP_DATA_SCT \<Rightarrow> Some (mk_attr TSI148_A24 TSI148_SCT TSI148_DATA TSI148_SUPER)
   | VME_A24_SUP_PRG_SCT \<Rightarrow> Some (mk_attr TSI148_A24 TSI148_SCT TSI148_PROG TSI148_SUPER)
   | VME_A24_SUP_BLT \<Rightarrow> Some (mk_attr TSI148_A24 TSI148_BLT TSI148_DATA TSI148_SUPER)
   | VME_A32_USER_MBLT \<Rightarrow> Some (mk_attr TSI148_A32 TSI148_MBLT TSI148_DATA TSI148_USER)
   | VME_A32_USER_DATA_SCT \<Rightarrow> Some (mk_attr TSI148_A32 TSI148_SCT TSI148_DATA TSI148_USER)
   | VME_A32_USER_PRG_SCT \<Rightarrow> Some (mk_attr TSI148_A32 TSI148_SCT TSI148_PROG TSI148_USER)
   | VME_A32_USER_BLT \<Rightarrow> Some (mk_attr TSI148_A32 TSI148_BLT TSI148_DATA TSI148_USER)
   | VME_A32_SUP_MBLT \<Rightarrow> Some (mk_attr TSI148_A32 TSI148_MBLT TSI148_DATA TSI148_SUPER)
   | VME_A32_SUP_DATA_SCT \<Rightarrow> Some (mk_attr TSI148_A32 TSI148_SCT TSI148_DATA TSI148_SUPER)
   | VME_A32_SUP_PRG_SCT \<Rightarrow> Some (mk_attr TSI148_A32 TSI148_SCT TSI148_PROG TSI148_SUPER)
   | VME_A32_SUP_BLT \<Rightarrow> Some (mk_attr TSI148_A32 TSI148_BLT TSI148_DATA TSI148_SUPER)
   | VME_A64_SCT \<Rightarrow> Some (mk_attr TSI148_A64 TSI148_SCT TSI148_DATA TSI148_SUPER)
   | VME_A64_BLT \<Rightarrow> Some (mk_attr TSI148_A64 TSI148_BLT TSI148_DATA TSI148_SUPER)
   | VME_A64_MBLT \<Rightarrow> Some (mk_attr TSI148_A64 TSI148_MBLT TSI148_DATA TSI148_SUPER)
   | VME_CR_CSR \<Rightarrow> Some (mk_attr TSI148_CRCSR TSI148_SCT TSI148_DATA TSI148_USER)
   | _ \<Rightarrow> None)"

text \<open>
  \<open>attr_to_am\<close> writes through a pointer only in the branches it knows; \<open>None\<close> means that
  the caller's value (\<open>-1\<close> at the only call) is left in place.
\<close>

definition attr_to_am :: "tsi148_attr \<Rightarrow> vme_address_modifier option" where
  "attr_to_am a =
    (if addr_size a = TSI148_A16 then
       (if user_access a = TSI148_USER then Some VME_A16_USER else Some VME_A16_SUP)
     else if addr_size a = TSI148_A24 then
       (if user_access a = TSI148_USER then
          (if transfer_mode a = TSI148_SCT then
             (if data_access a = TSI148_DATA then Some VME_A24_USER_DATA_SCT
              else Some VME_A24_USER_PRG_SCT)
           else if transfer_mode a = TSI148_BLT then Some VME_A24_USER_BLT
           else if transfer_mode a = TSI148_MBLT then Some VME_A24_USER_MBLT
           else None)
        else if user_access a = TSI148_SUPER then
          (if transfer_mode a = TSI148_SCT then
             (if data_access a = TSI148_DATA then Some VME_A24_SUP_DATA_SCT
              else Some VME_A24_SUP_PRG_SCT)
           else if transfer_mode a = TSI148_BLT then Some VME_A24_SUP_BLT
           else if transfer_mode a = TSI148_MBLT then Some VME_A24_SUP_MBLT
           else None)
        else None)
     else if addr_size a = TSI148_A32 then
       (if user_access a = TSI148_USER then
          (if transfer_mode a = TSI148_SCT then
             (if data_access a = TSI148_DATA then Some VME_A32_USER_DATA_SCT
              else Some VME_A32_USER_PRG_SCT)
           else if transfer_mode a = TSI148_BLT then Some VME_A32_USER_BLT
           else if transfer_mode a = TSI148_MBLT then Some VME_A32_USER_MBLT
           else None)
        else if user_access a = TSI148_SUPER then
          (if transfer_mode a = TSI148_SCT then
             (if data_access a = TSI148_DATA then Some VME_A32_SUP_DATA_SCT
              else Some VME_A32_SUP_PRG_SCT)
           else if transfer_mode a = TSI148_BLT then Some VME_A32_SUP_BLT
           else if transfer_mode a = TSI148_MBLT then Some VME_A32_SUP_MBLT
           else None)
        else None)
     else if addr_size a = TSI148_A64 then
       (if transfer_mode a = TSI148_SCT then Some VME_A64_SCT
        else if transfer_mode a = TSI148_BLT then Some VME_A64_BLT
        else if transfer_mode a = TSI148_MBLT then Some VME_A64_MBLT
        else None)
     else if addr_size a = TSI148_CRCSR then Some VME_CR_CSR
     else None)"

subsection \<open>Attribute words\<close>

text \<open>The \<open>switch\<close> statements shared by the window and the DMA attribute builders: which values
  of a field are accepted.\<close>

definition sst_valid :: "vme_2esst_mode \<Rightarrow> bool" where
  "sst_valid m \<longleftrightarrow> (case m of VME_SST160 \<Rightarrow> True | VME_SST267 \<Rightarrow> True | VME_SST320 \<Rightarrow> True | _ \<Rightarrow> False)"

definition dw_code :: "vme_data_width \<Rightarrow> u32 option" where
  "dw_code w = (case w of VME_D16 \<Rightarrow> Some TSI148_DW_16 | VME_D32 \<Rightarrow> Some TSI148_DW_32 | _ \<Rightarrow> None)"

definition tm_valid :: "u32 \<Rightarrow> bool" where
  "tm_valid m \<longleftrightarrow> m = TSI148_SCT \<or> m = TSI148_BLT \<or> m = TSI148_MBLT \<or> m = TSI148_2eVME
     \<or> m = TSI148_2eSST \<or> m = TSI148_2eSSTB"

definition asize_valid :: "u32 \<Rightarrow> bool" where
  "asize_valid s \<longleftrightarrow> s = TSI148_A16 \<or> s = TSI148_A24 \<or> s = TSI148_A32 \<or> s = TSI148_A64
     \<or> s = TSI148_CRCSR \<or> s = TSI148_USER1 \<or> s = TSI148_USER2 \<or> s = TSI148_USER3 \<or> s = TSI148_USER4"

definition check :: "bool \<Rightarrow> unit option" where
  "check b = (if b then Some () else None)"

definition or_einval :: "'a option \<Rightarrow> errno + 'a" where
  "or_einval x = (case x of None \<Rightarrow> Inl EINVAL | Some w \<Rightarrow> Inr w)"

definition tsi148_setup_window_attributes ::
    "vme_2esst_mode \<Rightarrow> vme_data_width \<Rightarrow> vme_address_modifier \<Rightarrow> errno + u32" where
  "tsi148_setup_window_attributes sst dw a = or_einval (do {
     _ \<leftarrow> check (sst_valid sst);
     let attrs = push_bit TSI148_LCSR_OTAT_2eSSTM_SHIFT (sst_code sst) AND TSI148_LCSR_OTAT_2eSSTM_M;
     w \<leftarrow> dw_code dw;
     let attrs = attrs OR (push_bit TSI148_LCSR_OTAT_DBW_SHIFT w AND TSI148_LCSR_OTAT_DBW_M);
     f \<leftarrow> am_to_attr a;
     _ \<leftarrow> check (tm_valid (transfer_mode f));
     let attrs = attrs OR (push_bit TSI148_LCSR_OTAT_TM_SHIFT (transfer_mode f) AND TSI148_LCSR_OTAT_TM_M);
     attrs \<leftarrow> (if user_access f = TSI148_SUPER then Some (attrs OR TSI148_LCSR_OTAT_SUP)
               else if user_access f = TSI148_USER then Some attrs else None);
     attrs \<leftarrow> (if data_access f = TSI148_PROG then Some (attrs OR TSI148_LCSR_OTAT_PGM)
               else if data_access f = TSI148_DATA then Some attrs else None);
     _ \<leftarrow> check (asize_valid (addr_size f));
     Some (attrs OR (push_bit TSI148_LCSR_OTAT_AMODE_SHIFT (addr_size f) AND TSI148_LCSR_OTAT_AMODE_M))
   })"

definition tsi148_setup_dma_attributes ::
    "vme_2esst_mode \<Rightarrow> vme_data_width \<Rightarrow> vme_address_modifier \<Rightarrow> errno + u32" where
  "tsi148_setup_dma_attributes sst dw a = or_einval (do {
     _ \<leftarrow> check (sst_valid sst);
     let attrs = push_bit TSI148_LCSR_DSAT_2eSSTM_SHIFT (sst_code sst) AND TSI148_LCSR_DSAT_2eSSTM_M;
     w \<leftarrow> dw_code dw;
     let attrs = attrs OR (push_bit TSI148_LCSR_DSAT_DBW_SHIFT w AND TSI148_LCSR_DSAT_DBW_M);
     f \<leftarrow> am_to_attr a;
     _ \<leftarrow> check (tm_valid (transfer_mode f));
     let attrs = attrs OR (push_bit TSI148_LCSR_DSAT_TM_SHIFT (transfer_mode f) AND TSI148_LCSR_DSAT_TM_M);
     attrs \<leftarrow> (if user_access f = TSI148_SUPER then Some (attrs OR TSI148_LCSR_DSAT_SUP)
               else if user_access f = TSI148_USER then Some attrs else None);
     attrs \<leftarrow> (if data_access f = TSI148_PROG then Some (attrs OR TSI148_LCSR_DSAT_PGM)
               else if data_access f = TSI148_DATA then Some attrs else None);
     _ \<leftarrow> check (asize_valid (addr_size f));
     Some (attrs OR (push_bit TSI148_LCSR_DSAT_AMODE_SHIFT (addr_size f) AND TSI148_LCSR_DSAT_AMODE_M))
   })"

definition am_to_crgattrs :: "vme_address_modifier \<Rightarrow> errno + u32" where
  "am_to_crgattrs a = or_einval (do {
     f \<leftarrow> am_to_attr a;
     attrs \<leftarrow> (if addr_size f = TSI148_A16 then Some TSI148_LCSR_CRGAT_AS_16
               else if addr_size f = TSI148_A24 then Some TSI148_LCSR_CRGAT_AS_24
               else if addr_size f = TSI148_A32 then Some TSI148_LCSR_CRGAT_AS_32
               else if addr_size f = TSI148_A64 then Some TSI148_LCSR_CRGAT_AS_64 else None);
     attrs \<leftarrow> (if data_access f = TSI148_PROG then Some (attrs OR TSI148_LCSR_CRGAT_PGM)
               else if data_access f = TSI148_DATA then Some (attrs OR TSI148_LCSR_CRGAT_DATA) else None);
     (if user_access f = TSI148_SUPER then Some (attrs OR TSI148_LCSR_CRGAT_SUPR)
      else if user_access f = TSI148_USER then Some (attrs OR TSI148_LCSR_CRGAT_NPRIV) else None)
   })"

subsection \<open>Reading the fields of a window attribute word\<close>

text \<open>The decoding half of \<open>tsi148_get_window_attr\<close>.\<close>

definition otat_attr :: "u32 \<Rightarrow> tsi148_attr" where
  "otat_attr w =
     \<lparr> addr_size = drop_bit TSI148_LCSR_OTAT_AMODE_SHIFT (w AND TSI148_LCSR_OTAT_AMODE_M),
       transfer_mode = drop_bit TSI148_LCSR_OTAT_TM_SHIFT (w AND TSI148_LCSR_OTAT_TM_M),
       user_access = (if w AND TSI148_LCSR_OTAT_SUP \<noteq> 0 then TSI148_SUPER else TSI148_USER),
       data_access = (if w AND TSI148_LCSR_OTAT_PGM \<noteq> 0 then TSI148_PROG else TSI148_DATA) \<rparr>"

definition otat_sst :: "u32 \<Rightarrow> vme_2esst_mode" where
  "otat_sst w = sst_of_code (drop_bit TSI148_LCSR_OTAT_2eSSTM_SHIFT (w AND TSI148_LCSR_OTAT_2eSSTM_M))"

definition otat_prefetch :: "u32 \<Rightarrow> vme_read_prefetch_size" where
  "otat_prefetch w = prefetch_of_code (drop_bit TSI148_LCSR_OTAT_PFS_SHIFT (w AND TSI148_LCSR_OTAT_PFS_M))"

subsection \<open>The codec\<close>

lemmas am_attr_simps = am_to_attr_def attr_to_am_def mk_attr_def hw_consts

lemma attr_to_am_am_to_attr: "am_to_attr a = Some f \<Longrightarrow> attr_to_am f = Some a"
  by (cases a) (auto simp: am_attr_simps)

interpretation attr_codec: partial_codec am_to_attr "\<lambda>f. the (attr_to_am f)"
  by unfold_locales (simp add: attr_to_am_am_to_attr)

text \<open>The attribute words that the builders accept, in closed form.\<close>

definition attr_word :: "u32 \<Rightarrow> u32 \<Rightarrow> tsi148_attr \<Rightarrow> u32" where
  "attr_word sst dw f =
     push_bit 11 sst OR push_bit 6 dw OR push_bit 8 (transfer_mode f)
     OR push_bit 5 (user_access f) OR push_bit 4 (data_access f) OR addr_size f"

lemma am_to_attr_fields:
  "am_to_attr a = Some f \<Longrightarrow>
     addr_size f \<in> {0, 1, 2, 4, 5} \<and> transfer_mode f \<in> {0, 1, 2} \<and> user_access f \<in> {0, 1} \<and> data_access f \<in> {0, 1}"
  by (cases a) (auto simp: am_attr_simps)

lemma check_bind [simp]: "check b \<bind> f = (if b then f () else None)"
  by (simp add: check_def)

lemma or_einval_eq_Inr [simp]: "or_einval x = Inr w \<longleftrightarrow> x = Some w"
  by (simp add: or_einval_def split: option.splits)

lemma or_einval_eq_Inl [simp]: "or_einval x = Inl e \<longleftrightarrow> x = None \<and> e = EINVAL"
  by (auto simp: or_einval_def split: option.splits)

text \<open>Each accepted field value fits its field: the masks lose nothing.\<close>

lemma field_masks:
  "s \<in> {0, 1, 2} \<Longrightarrow> push_bit 11 (s :: u32) AND 0x3800 = push_bit 11 s"
  "s \<in> {0, 1, 2} \<Longrightarrow> push_bit 11 (s :: u32) AND 0x1800 = push_bit 11 s"
  "d \<in> {0, 1} \<Longrightarrow> push_bit 6 (d :: u32) AND 0xc0 = push_bit 6 d"
  "t \<in> {0, 1, 2} \<Longrightarrow> push_bit 8 (t :: u32) AND 0x700 = push_bit 8 t"
  "z \<in> {0, 1, 2, 4, 5} \<Longrightarrow> (z :: u32) AND 0xf = z"
  by auto

lemma flag_switch:
  "u \<in> {0, 1} \<Longrightarrow>
     (if u = 1 then Some (x OR 0x20) else if u = 0 then Some x else None) = Some (x OR push_bit 5 (u :: u32))"
  "u \<in> {0, 1} \<Longrightarrow>
     (if u = 1 then Some (x OR 0x10) else if u = 0 then Some x else None) = Some (x OR push_bit 4 (u :: u32))"
  by auto

lemma sst_valid_code: "sst_valid sst \<Longrightarrow> sst_code sst \<in> {0, 1, 2}"
  by (cases sst) (auto simp: sst_valid_def)

lemma dw_code_range: "dw_code dw = Some d \<Longrightarrow> d \<in> {0, 1}"
  by (auto simp: dw_code_def hw_consts split: vme_data_width.splits)

lemma tm_valid_range: "t \<in> {0, 1, 2} \<Longrightarrow> tm_valid t"
  by (auto simp: tm_valid_def hw_consts)

lemma asize_valid_range: "z \<in> {0, 1, 2, 4, 5} \<Longrightarrow> asize_valid z"
  by (auto simp: asize_valid_def hw_consts)

lemma setup_attributes_eq:
  assumes "sst_valid sst" and "dw_code dw = Some d" and "am_to_attr a = Some f"
  shows "tsi148_setup_window_attributes sst dw a = Inr (attr_word (sst_code sst) d f)"
    and "tsi148_setup_dma_attributes sst dw a = Inr (attr_word (sst_code sst) d f)"
proof -
  note F = am_to_attr_fields [OF assms(3)]
  note R = field_masks(1,2) [OF sst_valid_code [OF assms(1)]] field_masks(3) [OF dw_code_range [OF assms(2)]]
    field_masks(4) [of "transfer_mode f"] field_masks(5) [of "addr_size f"]
    flag_switch [of "user_access f"] flag_switch [of "data_access f"]
    tm_valid_range [of "transfer_mode f"] asize_valid_range [of "addr_size f"]
  show "tsi148_setup_window_attributes sst dw a = Inr (attr_word (sst_code sst) d f)"
    using assms F unfolding tsi148_setup_window_attributes_def hw_consts Let_def
    by (simp add: attr_word_def R or.assoc del: insert_iff)
  show "tsi148_setup_dma_attributes sst dw a = Inr (attr_word (sst_code sst) d f)"
    using assms F unfolding tsi148_setup_dma_attributes_def hw_consts Let_def
    by (simp add: attr_word_def R or.assoc del: insert_iff)
qed

lemma setup_attributes_reject:
  assumes "\<not> (sst_valid sst \<and> dw_code dw \<noteq> None \<and> am_to_attr a \<noteq> None)"
  shows "tsi148_setup_window_attributes sst dw a = Inl EINVAL"
    and "tsi148_setup_dma_attributes sst dw a = Inl EINVAL"
  using assms
  by (auto simp: tsi148_setup_window_attributes_def tsi148_setup_dma_attributes_def split: Option.bind_splits)

lemma setup_window_attributes_word:
  "tsi148_setup_window_attributes sst dw a = Inr w \<longleftrightarrow>
     sst_valid sst \<and> (\<exists>d f. dw_code dw = Some d \<and> am_to_attr a = Some f \<and> w = attr_word (sst_code sst) d f)"
  by (cases "sst_valid sst \<and> dw_code dw \<noteq> None \<and> am_to_attr a \<noteq> None")
    (auto simp: setup_attributes_eq setup_attributes_reject)

lemma setup_dma_attributes_eq: "tsi148_setup_dma_attributes = tsi148_setup_window_attributes"
  by (intro ext)
    (metis setup_attributes_eq setup_attributes_reject not_None_eq)

subsection \<open>Decoding an attribute word\<close>

text \<open>The fields are disjoint: each mask selects its own field and drops the others.\<close>

lemma field_select:
  "s \<in> {0, 1, 2} \<Longrightarrow> m \<in> {0xf, 0x10, 0x20, 0xc0, 0x700} \<Longrightarrow> push_bit 11 (s :: u32) AND m = 0"
  "d \<in> {0, 1} \<Longrightarrow> m \<in> {0xf, 0x10, 0x20, 0x700, 0x3800} \<Longrightarrow> push_bit 6 (d :: u32) AND m = 0"
  "t \<in> {0, 1, 2} \<Longrightarrow> m \<in> {0xf, 0x10, 0x20, 0xc0, 0x3800} \<Longrightarrow> push_bit 8 (t :: u32) AND m = 0"
  "u \<in> {0, 1} \<Longrightarrow> m \<in> {0xf, 0x10, 0xc0, 0x700, 0x3800} \<Longrightarrow> push_bit 5 (u :: u32) AND m = 0"
  "u \<in> {0, 1} \<Longrightarrow> m \<in> {0xf, 0x20, 0xc0, 0x700, 0x3800} \<Longrightarrow> push_bit 4 (u :: u32) AND m = 0"
  "z \<in> {0, 1, 2, 4, 5} \<Longrightarrow> m \<in> {0x10, 0x20, 0xc0, 0x700, 0x3800} \<Longrightarrow> (z :: u32) AND m = 0"
  by auto

lemma field_read:
  "s \<in> {0, 1, 2} \<Longrightarrow> drop_bit 11 (push_bit 11 (s :: u32)) = s"
  "d \<in> {0, 1} \<Longrightarrow> drop_bit 6 (push_bit 6 (d :: u32)) = d"
  "t \<in> {0, 1, 2} \<Longrightarrow> drop_bit 8 (push_bit 8 (t :: u32)) = t"
  "u \<in> {0, 1} \<Longrightarrow> (if push_bit 5 (u :: u32) AND 0x20 \<noteq> 0 then 1 else 0) = u"
  "u \<in> {0, 1} \<Longrightarrow> (if push_bit 4 (u :: u32) AND 0x10 \<noteq> 0 then 1 else 0) = u"
  by auto

lemma high_bits_masked:
  assumes "x AND 0x3fff = (0 :: u32)" and "m \<in> {0xf, 0x10, 0x20, 0xc0, 0x700, 0x3800}"
  shows "x AND m = 0"
proof -
  have "m = 0x3fff AND m" using assms(2) by auto
  then have "x AND m = (x AND 0x3fff) AND m" by (simp add: and.assoc)
  with assms(1) show ?thesis by simp
qed

lemma attr_word_decode:
  assumes s: "s \<in> {0, 1, 2}" and d: "d \<in> {0, 1}" and f: "am_to_attr a = Some f"
    and x: "x AND 0x3fff = 0"
  shows "otat_attr (attr_word s d f OR x) = f"
    and "otat_sst (attr_word s d f OR x) = sst_of_code s"
    and "drop_bit TSI148_LCSR_OTAT_DBW_SHIFT ((attr_word s d f OR x) AND TSI148_LCSR_OTAT_DBW_M) = d"
proof -
  note F = am_to_attr_fields [OF f]
  note D = field_select(1) [OF s] field_select(2) [OF d] field_select(3) [of "transfer_mode f"]
    field_select(4) [of "user_access f"] field_select(5) [of "data_access f"]
    field_select(6) [of "addr_size f"] high_bits_masked [OF x] word_ao_dist
    field_masks(1) [OF s] field_masks(3) [OF d] field_masks(4) [of "transfer_mode f"]
    field_masks(5) [of "addr_size f"] field_read(1) [OF s] field_read(2) [OF d]
    field_read(3) [of "transfer_mode f"] field_read(4) [of "user_access f"] field_read(5) [of "data_access f"]
  show "otat_attr (attr_word s d f OR x) = f"
    using F unfolding otat_attr_def attr_word_def hw_consts
    by (simp add: D)
  show "otat_sst (attr_word s d f OR x) = sst_of_code s"
    using F unfolding otat_sst_def attr_word_def hw_consts
    by (simp add: D)
  show "drop_bit TSI148_LCSR_OTAT_DBW_SHIFT ((attr_word s d f OR x) AND TSI148_LCSR_OTAT_DBW_M) = d"
    using F unfolding attr_word_def hw_consts
    by (simp add: D)
qed

end
