(* ===== verification/Tsi148_Window.thy ===== *)
theory Tsi148_Window
  imports Tsi148_Attr
begin

text \<open>
  Outbound windows, the CRG mapping and chip start-up of the TSI148,
  \<open>src/vmebridge/driver/tsi148.c\<close>. The theorems show that the split 64-bit arithmetic is exact,
  that a created window decodes exactly the requested PCI range and translates it to the
  requested VME range, that reading a window back returns what was programmed, and that no
  half-programmed window is ever enabled.
\<close>

subsection \<open>64-bit arithmetic in halves\<close>

definition reg_join :: "u32 \<Rightarrow> u32 \<Rightarrow> u64" where
  "reg_join high low = push_bit 32 (ucast high) OR ucast low"

definition sub64hi :: "u32 \<Rightarrow> u32 \<Rightarrow> u32 \<Rightarrow> u32 \<Rightarrow> u32" where
  "sub64hi lo0 hi0 lo1 hi1 = (if lo0 < lo1 then hi0 - hi1 - 1 else hi0 - hi1)"

definition add64hi :: "u32 \<Rightarrow> u32 \<Rightarrow> u32 \<Rightarrow> u32 \<Rightarrow> u32" where
  "add64hi lo0 hi0 lo1 hi1 = (if lo0 + lo1 < lo1 then hi0 + hi1 + 1 else hi0 + hi1)"

subsection \<open>Window registers\<close>

text \<open>The routines program a bank by a sequence of single register writes.\<close>

datatype otreg = OTSAU | OTSAL | OTEAU | OTEAL | OTOFU | OTOFL | OTBS | OTAT

fun ot_write :: "otreg \<times> u32 \<Rightarrow> tsi148_otrans \<Rightarrow> tsi148_otrans" where
  "ot_write (OTSAU, v) t = t\<lparr>otsau := v\<rparr>"
| "ot_write (OTSAL, v) t = t\<lparr>otsal := v\<rparr>"
| "ot_write (OTEAU, v) t = t\<lparr>oteau := v\<rparr>"
| "ot_write (OTEAL, v) t = t\<lparr>oteal := v\<rparr>"
| "ot_write (OTOFU, v) t = t\<lparr>otofu := v\<rparr>"
| "ot_write (OTOFL, v) t = t\<lparr>otofl := v\<rparr>"
| "ot_write (OTBS, v) t = t\<lparr>otbs := v\<rparr>"
| "ot_write (OTAT, v) t = t\<lparr>otat := v\<rparr>"

definition ot_writes :: "(otreg \<times> u32) list \<Rightarrow> tsi148_otrans \<Rightarrow> tsi148_otrans" where
  "ot_writes = fold ot_write"

definition chip_ot_writes :: "nat \<Rightarrow> (otreg \<times> u32) list \<Rightarrow> tsi148_lcsr \<Rightarrow> tsi148_lcsr" where
  "chip_ot_writes n ws c = c\<lparr>otrans := (otrans c)[n := ot_writes ws (otrans c ! n)]\<rparr>"

text \<open>The attribute word with the enable and prefetch bits added.\<close>

definition window_otat :: "vme_mapping \<Rightarrow> u32 \<Rightarrow> u32" where
  "window_otat d w =
     (let w = w OR TSI148_LCSR_OTAT_EN
      in if read_prefetch_enabled d
         then (w AND NOT TSI148_LCSR_OTAT_MRPFD)
              OR (push_bit TSI148_LCSR_OTAT_PFS_SHIFT (prefetch_code (read_prefetch_size d))
                  AND TSI148_LCSR_OTAT_PFS_M)
         else w OR TSI148_LCSR_OTAT_MRPFD)"

text \<open>The register writes of \<open>tsi148_create_window\<close>, in the order of the source.\<close>

definition create_window_writes :: "vme_mapping \<Rightarrow> u32 \<Rightarrow> (otreg \<times> u32) list" where
  "create_window_writes d w =
     [(OTBS, bcast_select d AND TSI148_LCSR_OTBS_M),
      (OTSAL, pci_addrl d AND TSI148_LCSR_OTSAL_M),
      (OTSAU, pci_addru d),
      (OTEAL, (pci_addrl d + sizel d - 1) AND NOT 0xffff),
      (OTEAU, add64hi (pci_addrl d) (pci_addru d) (sizel d) (sizeu d)),
      (OTOFL, vme_addrl d - pci_addrl d),
      (OTOFU, sub64hi (vme_addrl d) (vme_addru d) (pci_addrl d) (pci_addru d)),
      (OTAT, window_otat d w)]"

definition tsi148_create_window :: "vme_mapping \<Rightarrow> tsi148_lcsr \<Rightarrow> rc \<times> vme_mapping \<times> tsi148_lcsr" where
  "tsi148_create_window d c =
     (let addr = (if vme_addrl d AND 0xffff \<noteq> 0 then vme_addrl d AND NOT 0xffff else vme_addrl d);
          size = (if sizel d AND 0xffff \<noteq> 0
                  then (vme_addrl d + sizel d + 0x10000) AND NOT 0xffff else sizel d);
          d = d\<lparr>vme_addrl := addr, sizel := size\<rparr>
      in if pci_addrl d AND 0xffff \<noteq> 0 then (Inl EINVAL, d, c)
         else case tsi148_setup_window_attributes (v2esst_mode d) (data_width d) (am d) of
           Inl e \<Rightarrow> (Inl e, d, c)
         | Inr w \<Rightarrow>
             (OK, d\<lparr>window_enabled := True\<rparr>,
              chip_ot_writes (nat (window_num d)) (create_window_writes d w) c))"

definition remove_window_writes :: "(otreg \<times> u32) list" where
  "remove_window_writes =
     [(OTAT, 0), (OTSAL, 0), (OTSAU, 0), (OTEAL, 0), (OTEAU, 0), (OTOFL, 0), (OTOFU, 0), (OTBS, 0)]"

definition tsi148_remove_window :: "vme_mapping \<Rightarrow> tsi148_lcsr \<Rightarrow> vme_mapping \<times> tsi148_lcsr" where
  "tsi148_remove_window d c =
     (d\<lparr>window_enabled := False\<rparr>, chip_ot_writes (nat (window_num d)) remove_window_writes c)"

text \<open>
  Reading a window back. The enable and prefetch flags of the descriptor are set but never
  cleared, and the data width is compared with the unshifted constants, as in the source;
  an unknown attribute combination leaves \<open>am = -1\<close>.
\<close>

definition tsi148_get_window_attr :: "tsi148_lcsr \<Rightarrow> vme_mapping \<Rightarrow> vme_mapping" where
  "tsi148_get_window_attr c d =
     (let t = otrans c ! nat (window_num d);
          w = otat t;
          d = (if w AND TSI148_LCSR_OTAT_EN \<noteq> 0 then d\<lparr>window_enabled := True\<rparr> else d);
          d = (if w AND TSI148_LCSR_OTAT_MRPFD = 0 then d\<lparr>read_prefetch_enabled := True\<rparr> else d);
          d = d\<lparr>read_prefetch_size := otat_prefetch w, v2esst_mode := otat_sst w\<rparr>;
          dbw = drop_bit TSI148_LCSR_OTAT_DBW_SHIFT (w AND TSI148_LCSR_OTAT_DBW_M);
          d = (if dbw = TSI148_LCSR_OTAT_DBW_16 then d\<lparr>data_width := VME_D16\<rparr>
               else if dbw = TSI148_LCSR_OTAT_DBW_32 then d\<lparr>data_width := VME_D32\<rparr> else d);
          f = otat_attr w;
          d = d\<lparr>bcast_select := otbs t,
                am := (case attr_to_am f of Some a \<Rightarrow> a | None \<Rightarrow> VME_AM_OTHER 0xffffffff),
                pci_addrl := otsal t, pci_addru := otsau t,
                sizel := oteal t - otsal t,
                sizeu := sub64hi (oteal t) (oteau t) (otsal t) (otsau t),
                vme_addrl := otofl t + otsal t\<rparr>
      in d\<lparr>vme_addru := (if addr_size f = TSI148_A64
                        then add64hi (otofl t) (otofu t) (otsal t) (otsau t) else 0)\<rparr>)"

subsection \<open>CRG mapping, start-up and shut-down\<close>

definition tsi148_setup_crg :: "u32 \<Rightarrow> vme_address_modifier \<Rightarrow> tsi148_lcsr \<Rightarrow> bool \<times> tsi148_lcsr" where
  "tsi148_setup_crg vme_base a c =
     (let c = c\<lparr>cbau := 0, cbal := vme_base\<rparr>
      in case am_to_crgattrs a of
           Inl _ \<Rightarrow> (False, c\<lparr>cbal := 0\<rparr>)
         | Inr attrs \<Rightarrow> (True, c\<lparr>crgat := attrs OR TSI148_LCSR_CRGAT_EN\<rparr>))"

definition tsi148_disable_crg :: "tsi148_lcsr \<Rightarrow> tsi148_lcsr" where
  "tsi148_disable_crg c = c\<lparr>crgat := 0, cbau := 0, cbal := 0\<rparr>"

definition tsi148_quiesce :: "tsi148_lcsr \<Rightarrow> tsi148_lcsr" where
  "tsi148_quiesce c =
     (let c = c\<lparr>itat := map (\<lambda>_. 0) (itat c), otrans := map (\<lambda>t. t\<lparr>otat := 0\<rparr>) (otrans c)\<rparr>;
          c = c\<lparr>dma := map (\<lambda>ch. ch\<lparr>dma_desc := (dma_desc ch)\<lparr>dnlau := 0, dnlal := 0, dcnt := 0\<rparr>\<rparr>) (dma c)\<rparr>;
          c = tsi148_disable_crg (c\<lparr>lmat := 0\<rparr>);
          c = c\<lparr>edpat := TSI148_LCSR_EDPAT_EDPCL, veat := TSI148_LCSR_VEAT_VESCL,
                pstat := TSI148_LCSR_PCSR_SRTO OR TSI148_LCSR_PCSR_SRTE OR TSI148_LCSR_PCSR_DTTE
                  OR TSI148_LCSR_PCSR_MRCE,
                vicr := TSI148_LCSR_VICR_IRQC, inteo := 0, intc := 0xffffffff, inten := 0xffffffff,
                intm1 := 0, intm2 := 0\<rparr>
      in c\<lparr>vmctrl := (vmctrl c AND NOT (TSI148_LCSR_VMCTRL_VTON_M OR TSI148_LCSR_VMCTRL_VREL_M))
             OR (TSI148_LCSR_VMCTRL_VTON_512 OR TSI148_LCSR_VMCTRL_VREL_T_D_R)\<rparr>)"

definition tsi148_init :: "tsi148_lcsr \<Rightarrow> tsi148_lcsr" where
  "tsi148_init c =
     c\<lparr>vstat := (vstat c AND NOT TSI148_LCSR_VSTAT_BDFAIL) OR TSI148_LCSR_VSTAT_CPURST\<rparr>"

subsection \<open>What a programmed window means\<close>

text \<open>
  The address decoding of an outbound window as the chip documents it: an enabled window accepts
  the PCI addresses from its start to the last byte of the 64K block named by its end register,
  and adds the translation offset modulo 2^64.
\<close>

definition ot_enabled :: "tsi148_otrans \<Rightarrow> bool" where
  "ot_enabled t \<longleftrightarrow> otat t AND TSI148_LCSR_OTAT_EN \<noteq> 0"

definition ot_accepts :: "tsi148_otrans \<Rightarrow> nat \<Rightarrow> bool" where
  "ot_accepts t a \<longleftrightarrow> ot_enabled t \<and> unat (reg_join (otsau t) (otsal t)) \<le> a
     \<and> a \<le> unat (reg_join (oteau t) (oteal t)) + 0xffff"

definition ot_translate :: "tsi148_otrans \<Rightarrow> u64 \<Rightarrow> u64" where
  "ot_translate t a = a + reg_join (otofu t) (otofl t)"

subsection \<open>Exactness of the split arithmetic\<close>

lemma reg_join_add: "reg_join h l = push_bit 32 (ucast h) + ucast l"
proof -
  have "push_bit 32 (ucast h :: u64) AND (ucast l :: u64) = 0"
    by (rule bit_eqI) (auto simp: bit_simps dest: bit_imp_le_length)
  then show ?thesis by (simp add: reg_join_def disjunctive_add_eq_or)
qed

lemma unat_reg_join: "unat (reg_join h l) = unat h * 0x100000000 + unat l"
proof -
  have h: "unat (push_bit 32 (ucast h :: u64)) = unat h * 0x100000000"
    using unat_u32_bound [of h]
    by (simp add: push_bit_eq_mult unat_word_ariths unat_ucast_u32)
  show ?thesis
    using unat_u32_bound [of h] unat_u32_bound [of l]
    by (simp add: reg_join_add unat_word_ariths h unat_ucast_u32)
qed

lemma reg_join_inject: "reg_join h l = reg_join h' l' \<longleftrightarrow> h = h' \<and> l = l'"
proof
  assume "reg_join h l = reg_join h' l'"
  then have e: "unat h * 0x100000000 + unat l = unat h' * 0x100000000 + unat l'"
    by (metis unat_reg_join)
  have "(unat h * 0x100000000 + unat l) div 0x100000000 = unat h"
    "(unat h' * 0x100000000 + unat l') div 0x100000000 = unat h'"
    using unat_u32_bound [of l] unat_u32_bound [of l'] by simp_all
  with e have "unat h = unat h'" by metis
  with e show "h = h' \<and> l = l'" by (simp add: word_unat_eq_iff)
qed simp

lemma add64hi_exact:
  "reg_join (add64hi lo0 hi0 lo1 hi1) (lo0 + lo1) = reg_join hi0 lo0 + reg_join hi1 lo1"
proof -
  note B = unat_u32_bound [of lo0] unat_u32_bound [of lo1] unat_u32_bound [of hi0] unat_u32_bound [of hi1]
  have c: "lo0 + lo1 < lo1 \<longleftrightarrow> 0x100000000 \<le> unat lo0 + unat lo1"
    using B by (auto simp: word_less_nat_alt unat_add_u32_cases)
  have "unat (add64hi lo0 hi0 lo1 hi1) =
     (let s = unat hi0 + unat hi1 + (if 0x100000000 \<le> unat lo0 + unat lo1 then 1 else 0)
      in if s < 0x100000000 then s else s - 0x100000000)"
    using B by (auto simp: add64hi_def c unat_add_u32_cases Let_def)
  then show ?thesis
    unfolding word_unat_eq_iff unat_reg_join unat_add_u64_cases unat_add_u32_cases
    using B by (simp add: Let_def split: if_splits)
qed

lemma sub64hi_exact:
  "reg_join (sub64hi lo0 hi0 lo1 hi1) (lo0 - lo1) = reg_join hi0 lo0 - reg_join hi1 lo1"
proof -
  have "add64hi (lo0 - lo1) (sub64hi lo0 hi0 lo1 hi1) lo1 hi1 = hi0"
    by (simp add: add64hi_def sub64hi_def)
  with add64hi_exact [of "lo0 - lo1" "sub64hi lo0 hi0 lo1 hi1" lo1 hi1]
  show ?thesis by (simp add: algebra_simps)
qed

subsection \<open>The enable, prefetch and attribute fields\<close>

text \<open>C40: The high words that add64hi and sub64hi compute, with the wrapped 32-bit sum or
difference as low word, are the 64-bit sum and difference.\<close>

theorem half_words_exact:
  "reg_join (add64hi lo0 hi0 lo1 hi1) (lo0 + lo1) = reg_join hi0 lo0 + reg_join hi1 lo1
   \<and> reg_join (sub64hi lo0 hi0 lo1 hi1) (lo0 - lo1) = reg_join hi0 lo0 - reg_join hi1 lo1"
  by (simp add: add64hi_exact sub64hi_exact)

lemma field_select_high:
  assumes "m \<in> {0x80000000, 0x40000, 0x30000}"
  shows "s \<in> {0, 1, 2} \<Longrightarrow> push_bit 11 (s :: u32) AND m = 0"
    and "d \<in> {0, 1} \<Longrightarrow> push_bit 6 (d :: u32) AND m = 0"
    and "t \<in> {0, 1, 2} \<Longrightarrow> push_bit 8 (t :: u32) AND m = 0"
    and "u \<in> {0, 1} \<Longrightarrow> push_bit 5 (u :: u32) AND m = 0"
    and "u \<in> {0, 1} \<Longrightarrow> push_bit 4 (u :: u32) AND m = 0"
    and "z \<in> {0, 1, 2, 4, 5} \<Longrightarrow> (z :: u32) AND m = 0"
  using assms by auto

lemma attr_word_masked:
  assumes s: "s \<in> {0, 1, 2}" and d: "d \<in> {0, 1}" and f: "am_to_attr a = Some f"
    and m: "m \<in> {0x80000000, 0x40000, 0x30000}"
  shows "attr_word s d f AND m = 0"
proof -
  note F = am_to_attr_fields [OF f] and H = field_select_high [OF m]
  have "push_bit 11 s AND m = 0" "push_bit 6 d AND m = 0" "push_bit 8 (transfer_mode f) AND m = 0"
    "push_bit 5 (user_access f) AND m = 0" "push_bit 4 (data_access f) AND m = 0" "addr_size f AND m = 0"
    using H(1) [OF s] H(2) [OF d] H(3,4,5,6) F by blast+
  then show ?thesis by (simp add: attr_word_def word_ao_dist)
qed

text \<open>The bits that \<open>window_otat\<close> adds to an attribute word lie above its fields.\<close>

definition otat_high :: "vme_mapping \<Rightarrow> u32" where
  "otat_high d = TSI148_LCSR_OTAT_EN OR
     (if read_prefetch_enabled d
      then push_bit TSI148_LCSR_OTAT_PFS_SHIFT (prefetch_code (read_prefetch_size d)) AND TSI148_LCSR_OTAT_PFS_M
      else TSI148_LCSR_OTAT_MRPFD)"

lemma and_not_disjoint: "x AND m = 0 \<Longrightarrow> x AND NOT m = (x :: 'a::len word)"
  by (metis (no_types) and.right_neutral bit.conj_disj_distrib bit.disj_cancel_right or.left_neutral)

lemma window_otat_eq:
  assumes "s \<in> {0, 1, 2}" and "d \<in> {0, 1}" and "am_to_attr a = Some f"
  shows "window_otat m (attr_word s d f) = attr_word s d f OR otat_high m"
proof (cases "read_prefetch_enabled m")
  case True
  have "(attr_word s d f OR 0x80000000) AND 0x40000 = 0"
    using attr_word_masked [OF assms, of "0x40000"] by (simp add: word_ao_dist)
  from and_not_disjoint [OF this] True show ?thesis
    unfolding window_otat_def otat_high_def hw_consts Let_def by (simp only: if_True or.assoc)
next
  case False
  then show ?thesis by (simp add: window_otat_def otat_high_def hw_consts or.assoc)
qed

lemma otat_high_low: "otat_high d AND 0x3fff = 0"
proof -
  have "(x AND 0x30000) AND 0x3fff = (0 :: u32)" for x by (simp add: and.assoc)
  then show ?thesis by (simp add: otat_high_def hw_consts word_ao_dist)
qed

lemma otat_high_en: "otat_high d AND TSI148_LCSR_OTAT_EN = TSI148_LCSR_OTAT_EN"
proof -
  have "(x AND 0x30000) AND 0x80000000 = (0 :: u32)" for x by (simp add: and.assoc)
  then show ?thesis by (simp add: otat_high_def hw_consts word_ao_dist)
qed

lemma otat_high_prefetch:
  "(otat_high d AND TSI148_LCSR_OTAT_MRPFD = 0) = read_prefetch_enabled d"
  "read_prefetch_enabled d \<Longrightarrow> read_prefetch_size d \<in> {VME_PREFETCH_2, VME_PREFETCH_4, VME_PREFETCH_8, VME_PREFETCH_16} \<Longrightarrow>
     prefetch_of_code (drop_bit TSI148_LCSR_OTAT_PFS_SHIFT (otat_high d AND TSI148_LCSR_OTAT_PFS_M)) = read_prefetch_size d"
proof -
  have "(x AND 0x30000) AND 0x40000 = (0 :: u32)" for x by (simp add: and.assoc)
  then show "(otat_high d AND TSI148_LCSR_OTAT_MRPFD = 0) = read_prefetch_enabled d"
    by (simp add: otat_high_def hw_consts word_ao_dist)
qed (auto simp: otat_high_def hw_consts word_ao_dist prefetch_of_code_def)

subsection \<open>A created window\<close>

text \<open>All eight registers are written, so the bank does not depend on its old contents.\<close>

lemma ot_writes_create:
  "ot_writes (create_window_writes d w) t =
     \<lparr> otsau = pci_addru d, otsal = pci_addrl d AND TSI148_LCSR_OTSAL_M,
       oteau = add64hi (pci_addrl d) (pci_addru d) (sizel d) (sizeu d),
       oteal = (pci_addrl d + sizel d - 1) AND NOT 0xffff,
       otofu = sub64hi (vme_addrl d) (vme_addru d) (pci_addrl d) (pci_addru d),
       otofl = vme_addrl d - pci_addrl d,
       otbs = bcast_select d AND TSI148_LCSR_OTBS_M, otat = window_otat d w \<rparr>"
  by (cases t) (simp add: ot_writes_def create_window_writes_def)

lemma ot_writes_remove: "ot_writes remove_window_writes t = otrans_zero"
  by (cases t) (simp add: ot_writes_def remove_window_writes_def otrans_zero_def)

lemma setup_window_attributes_error: "tsi148_setup_window_attributes sst dw a = Inl e \<Longrightarrow> e = EINVAL"
  by (simp add: tsi148_setup_window_attributes_def)

lemma create_window_cases:
  assumes "tsi148_create_window d c = (r, d', c')"
  obtains (fail) "r = Inl EINVAL" "c' = c"
  | (ok) w where "r = OK" "pci_addrl d AND 0xffff = 0" "window_enabled d'"
      "tsi148_setup_window_attributes (v2esst_mode d) (data_width d) (am d) = Inr w"
      "c' = chip_ot_writes (nat (window_num d)) (create_window_writes (d'\<lparr>window_enabled := window_enabled d\<rparr>) w) c"
  using assms
  by (auto simp: tsi148_create_window_def Let_def dest: setup_window_attributes_error split: if_splits sum.splits)

lemma create_window_desc:
  assumes "tsi148_create_window d c = (r, d', c')"
  shows "d' = d\<lparr>vme_addrl := vme_addrl d AND NOT 0xffff,
     sizel := (if sizel d AND 0xffff \<noteq> 0 then (vme_addrl d + sizel d + 0x10000) AND NOT 0xffff else sizel d),
     window_enabled := (r = OK \<or> window_enabled d)\<rparr>"
  using assms
  by (cases d) (auto simp: tsi148_create_window_def Let_def down_64k_norm split: if_splits sum.splits)

lemma window_otat_decode:
  assumes "tsi148_setup_window_attributes (v2esst_mode d) (data_width d) (am d) = Inr w"
  shows "window_otat m w AND TSI148_LCSR_OTAT_EN \<noteq> 0"
    and "(window_otat m w AND TSI148_LCSR_OTAT_MRPFD = 0) = read_prefetch_enabled m"
    and "attr_to_am (otat_attr (window_otat m w)) = Some (am d)"
    and "otat_sst (window_otat m w) = v2esst_mode d"
    and "am_to_attr (am d) = Some (otat_attr (window_otat m w))"
proof -
  from assms obtain s f where s: "sst_valid (v2esst_mode d)" and dw: "dw_code (data_width d) = Some s"
    and f: "am_to_attr (am d) = Some f" and w: "w = attr_word (sst_code (v2esst_mode d)) s f"
    by (auto simp: setup_window_attributes_word)
  note A = sst_valid_code [OF s] dw_code_range [OF dw] f
  note W = window_otat_eq [OF A, of m, folded w]
  note M = attr_word_masked [OF A, folded w] and D = attr_word_decode [OF A, folded w, OF otat_high_low, of m]
  show "window_otat m w AND TSI148_LCSR_OTAT_EN \<noteq> 0"
    using M [of "TSI148_LCSR_OTAT_EN"] otat_high_en [of m]
    by (simp add: W word_ao_dist hw_consts)
  show "(window_otat m w AND TSI148_LCSR_OTAT_MRPFD = 0) = read_prefetch_enabled m"
    using M [of "TSI148_LCSR_OTAT_MRPFD"] otat_high_prefetch(1) [of m]
    by (simp add: W word_ao_dist hw_consts)
  show "attr_to_am (otat_attr (window_otat m w)) = Some (am d)"
    "am_to_attr (am d) = Some (otat_attr (window_otat m w))"
    using D f by (simp_all add: W attr_to_am_am_to_attr)
  have "sst_of_code (sst_code (v2esst_mode d)) = v2esst_mode d"
    using s by (simp add: sst_valid_def sst_of_code_def split: vme_2esst_mode.splits)
  with D show "otat_sst (window_otat m w) = v2esst_mode d"
    by (simp add: W)
qed

text \<open>The end address of a window of whole 64K blocks that does not cross a 4G boundary.\<close>

lemma window_end:
  assumes "p AND 0xffff = (0 :: u32)" and "s AND 0xffff = (0 :: u32)" and "s \<noteq> 0"
    and "unat p + unat s < 0x100000000"
  shows "unat ((p + s - 1) AND NOT 0xffff) = unat p + unat s - 0x10000" and "add64hi p h s 0 = h"
proof -
  obtain a b where ab: "unat p = 0x10000 * a" "unat s = 0x10000 * b"
    using assms(1,2) by (metis and_64k_zero_iff mod_0_imp_dvd dvd_def)
  with assms(3) have b: "0 < b" by (simp add: unat_gt_0 [symmetric])
  have sum: "unat (p + s) = unat p + unat s"
    using assms(4) by (rule unat_add_u32)
  have "(1 :: u32) \<le> p + s" using b ab by (simp add: word_le_nat_alt sum)
  then have last: "unat (p + s - 1) = unat p + unat s - 1" by (simp add: unat_sub sum)
  have "(0x10000 * a + 0x10000 * b - 1) mod 0x10000 = (0xffff :: nat)"
  proof -
    have "0x10000 * a + 0x10000 * b - 1 = 0xffff + 0x10000 * (a + b - 1)" using b by simp
    then show ?thesis by (simp only: mod_mult_self2) simp
  qed
  then show "unat ((p + s - 1) AND NOT 0xffff) = unat p + unat s - 0x10000"
    unfolding unat_down_64k last ab by simp
  show "add64hi p h s 0 = h"
    by (auto simp: add64hi_def word_less_nat_alt sum)
qed

lemma and_OTSAL_M: "x AND 0xffff = 0 \<Longrightarrow> x AND TSI148_LCSR_OTSAL_M = x"
proof -
  have "TSI148_LCSR_OTSAL_M = NOT 0xffff" by (simp add: hw_consts)
  then show "x AND 0xffff = 0 \<Longrightarrow> ?thesis" by (metis down_64k_id)
qed

lemma created_bank:
  assumes "tsi148_create_window d c = (OK, d', c')" and "nat (window_num d) < length (otrans c)"
  obtains w where "tsi148_setup_window_attributes (v2esst_mode d) (data_width d) (am d) = Inr w"
    and "pci_addrl d AND 0xffff = 0"
    and "otrans c' ! nat (window_num d) = ot_writes (create_window_writes (d'\<lparr>window_enabled := window_enabled d\<rparr>) w)
        (otrans c ! nat (window_num d))"
  using assms(2) by (cases rule: create_window_cases [OF assms(1)]) (auto simp: chip_ot_writes_def)

text \<open>What the code's arithmetic does to a window of whole 64K blocks.\<close>

lemma created_window_bank:
  assumes "tsi148_create_window d c = (OK, d', c')" and "nat (window_num d) < length (otrans c)"
    and "sizel d AND 0xffff = 0" and "sizel d \<noteq> 0" and "sizeu d = 0"
    and "unat (pci_addrl d) + unat (sizel d) < 0x100000000"
  defines "t \<equiv> otrans c' ! nat (window_num d)"
  shows "ot_enabled t" and "otsal t = pci_addrl d" and "otsau t = pci_addru d" and "oteau t = pci_addru d"
    and "unat (oteal t) = unat (pci_addrl d) + unat (sizel d) - 0x10000"
    and "reg_join (otofu t) (otofl t) =
      reg_join (vme_addru d) (vme_addrl d AND NOT 0xffff) - reg_join (pci_addru d) (pci_addrl d)"
    and "otbs t = bcast_select d AND TSI148_LCSR_OTBS_M"
proof -
  obtain w where w: "tsi148_setup_window_attributes (v2esst_mode d) (data_width d) (am d) = Inr w"
    and p: "pci_addrl d AND 0xffff = 0"
    and t: "t = ot_writes (create_window_writes (d'\<lparr>window_enabled := window_enabled d\<rparr>) w) (otrans c ! nat (window_num d))"
    unfolding t_def using created_bank [OF assms(1,2)] by blast
  note T = t [unfolded ot_writes_create create_window_desc [OF assms(1)]]
  note E = window_end [OF p assms(3,4,6)]
  show "ot_enabled t" using window_otat_decode(1) [OF w] by (simp add: T ot_enabled_def)
  show "otsal t = pci_addrl d" by (simp add: T and_OTSAL_M [OF p])
  show "otsau t = pci_addru d" by (simp add: T)
  show "oteau t = pci_addru d" using E(2) assms(3,5) by (simp add: T)
  show "unat (oteal t) = unat (pci_addrl d) + unat (sizel d) - 0x10000"
    using E(1) assms(3) by (simp add: T)
  show "reg_join (otofu t) (otofl t) =
      reg_join (vme_addru d) (vme_addrl d AND NOT 0xffff) - reg_join (pci_addru d) (pci_addrl d)"
    by (simp add: T sub64hi_exact)
  show "otbs t = bcast_select d AND TSI148_LCSR_OTBS_M" by (simp add: T)
qed

lemma window_size_ge: "s AND 0xffff = (0 :: u32) \<Longrightarrow> s \<noteq> 0 \<Longrightarrow> 0x10000 \<le> unat s"
  by (metis and_64k_zero_iff mod_less not_le unat_eq_zero)

text \<open>C18: A window of whole 64K blocks created below a 4G boundary decodes exactly the PCI
range of its descriptor and translates it to the VME address of the descriptor rounded down to
64K.\<close>

theorem created_window_translates:
  assumes "tsi148_create_window d c = (OK, d', c')" and "nat (window_num d) < length (otrans c)"
    and "sizel d AND 0xffff = 0" and "sizel d \<noteq> 0" and "sizeu d = 0"
    and "unat (pci_addrl d) + unat (sizel d) < 0x100000000"
  shows "(ot_accepts (otrans c' ! nat (window_num d)) a \<longleftrightarrow>
      unat (reg_join (pci_addru d) (pci_addrl d)) \<le> a
      \<and> a < unat (reg_join (pci_addru d) (pci_addrl d)) + unat (sizel d))
    \<and> ot_translate (otrans c' ! nat (window_num d)) (reg_join (pci_addru d) (pci_addrl d) + k) =
      reg_join (vme_addru d) (vme_addrl d AND NOT 0xffff) + k"
  using created_window_bank [OF assms] window_size_ge [OF assms(3,4)]
  by (auto simp: ot_accepts_def ot_translate_def unat_reg_join)

text \<open>Reading the window back.\<close>

lemma get_window_attr_fields:
  assumes "tsi148_create_window d c = (OK, d', c')" and "nat (window_num d) < length (otrans c)"
    and "sizel d AND 0xffff = 0" and "sizel d \<noteq> 0" and "sizeu d = 0"
    and "unat (pci_addrl d) + unat (sizel d) < 0x100000000"
    and "window_num b = window_num d"
  defines "r \<equiv> tsi148_get_window_attr c' b"
  shows "am r = am d" and "v2esst_mode r = v2esst_mode d" and "window_enabled r"
    and "pci_addrl r = pci_addrl d" and "pci_addru r = pci_addru d"
    and "vme_addrl r = vme_addrl d AND NOT 0xffff"
    and "bcast_select r = bcast_select d AND TSI148_LCSR_OTBS_M"
    and "unat (sizel r) = unat (sizel d) - 0x10000"
    and "sizeu r = 0"
    and "am d \<in> {VME_A64_SCT, VME_A64_BLT, VME_A64_MBLT} \<Longrightarrow> vme_addru r = vme_addru d"
proof -
  let ?t = "otrans c' ! nat (window_num d)"
  obtain w where w: "tsi148_setup_window_attributes (v2esst_mode d) (data_width d) (am d) = Inr w"
    and t: "?t = ot_writes (create_window_writes (d'\<lparr>window_enabled := window_enabled d\<rparr>) w) (otrans c ! nat (window_num d))"
    using created_bank [OF assms(1,2)] by blast
  have at: "otat ?t = window_otat (d'\<lparr>window_enabled := window_enabled d\<rparr>) w"
    unfolding t by (simp add: ot_writes_create)
  note B = created_window_bank [OF assms(1-6)] and W = window_otat_decode [OF w, of "d'\<lparr>window_enabled := window_enabled d\<rparr>", folded at]
    and G = window_size_ge [OF assms(3,4)]
  note R = r_def tsi148_get_window_attr_def Let_def assms(7)
  show "am r = am d" "v2esst_mode r = v2esst_mode d" "window_enabled r"
    using W by (auto simp: R)
  show "pci_addrl r = pci_addrl d" "pci_addru r = pci_addru d"
    "bcast_select r = bcast_select d AND TSI148_LCSR_OTBS_M"
    by (auto simp: R B)
  have ofs: "reg_join (add64hi (otofl ?t) (otofu ?t) (otsal ?t) (otsau ?t)) (otofl ?t + otsal ?t)
      = reg_join (vme_addru d) (vme_addrl d AND NOT 0xffff)"
    unfolding add64hi_exact B(6) B(2) B(3) by simp
  then show "vme_addrl r = vme_addrl d AND NOT 0xffff"
    by (simp add: R reg_join_inject)
  have le: "otsal ?t \<le> oteal ?t" using B(2,5) G by (simp add: word_le_nat_alt)
  then show "unat (sizel r) = unat (sizel d) - 0x10000"
    using B(2,5) G by (simp add: R unat_sub)
  show "sizeu r = 0"
    using le B(3,4) by (simp add: R sub64hi_def leD)
  assume "am d \<in> {VME_A64_SCT, VME_A64_BLT, VME_A64_MBLT}"
  with W(5) have "addr_size (otat_attr (otat ?t)) = TSI148_A64"
    by (auto simp: am_to_attr_def mk_attr_def) (metis option.inject tsi148_attr.select_convs(1))+
  with ofs show "vme_addru r = vme_addru d"
    by (simp add: R reg_join_inject)
qed

theorem get_window_attr_readback:
  assumes "tsi148_create_window d c = (OK, d', c')" and "nat (window_num d) < length (otrans c)"
    and "sizel d AND 0xffff = 0" and "sizel d \<noteq> 0" and "sizeu d = 0"
    and "unat (pci_addrl d) + unat (sizel d) < 0x100000000"
    and "window_num b = window_num d"
  shows "let r = tsi148_get_window_attr c' b in
     am r = am d \<and> v2esst_mode r = v2esst_mode d \<and> window_enabled r
     \<and> pci_addrl r = pci_addrl d \<and> pci_addru r = pci_addru d
     \<and> vme_addrl r = vme_addrl d AND NOT 0xffff
     \<and> unat (sizel r) = unat (sizel d) - 0x10000 \<and> sizeu r = 0"
  using get_window_attr_fields [OF assms] by (simp add: Let_def)

text \<open>A descriptor as a client fills it in for a 16 MB A32 window.\<close>

definition sample_desc :: vme_mapping where
  "sample_desc = vme_mapping_zero\<lparr>window_num := 2, data_width := VME_D32, am := VME_A32_USER_DATA_SCT,
     pci_addrl := 0xa0000000, sizel := 0x1000000, vme_addrl := 0x8001234\<rparr>"

definition sample_chip :: tsi148_lcsr where
  "sample_chip = \<lparr> otrans = replicate 8 otrans_zero, itat = replicate 8 0, vmctrl = 0, vstat = 0x105, pstat = 0,
     veau = 0, veal = 0, veat = 0, edpau = 0, edpal = 0, edpxa = 0, edpxs = 0, edpat = 0, cbau = 0, cbal = 0,
     crgat = 0, lmat = 0, vicr = 0, inten = 0, inteo = 0, intc = 0, intm1 = 0, intm2 = 0,
     dma = replicate 2 \<lparr> dctl = 0, dsta = 0, dma_desc = dma_desc_zero \<rparr> \<rparr>"

lemmas sample_defs = sample_desc_def sample_chip_def vme_mapping_zero_def

lemma sample_created:
  "fst (tsi148_create_window sample_desc sample_chip) = OK"
  by (simp add: tsi148_create_window_def Let_def sample_defs tsi148_setup_window_attributes_def
      sst_valid_def dw_code_def am_attr_simps tm_valid_def asize_valid_def or_einval_def)

theorem created_window_translates_witness:
  "ot_translate (otrans (snd (snd (tsi148_create_window sample_desc sample_chip))) ! 2) (0xa0000000 + 0x42) = 0x8000042"
proof -
  obtain d' c' where e: "tsi148_create_window sample_desc sample_chip = (OK, d', c')"
    using sample_created by (metis prod.collapse)
  have "ot_translate (otrans c' ! nat (window_num sample_desc)) (reg_join (pci_addru sample_desc) (pci_addrl sample_desc) + 0x42) =
      reg_join (vme_addru sample_desc) (vme_addrl sample_desc AND NOT 0xffff) + 0x42"
    by (rule created_window_translates [OF e, THEN conjunct2]) (simp_all add: sample_defs)
  then show ?thesis unfolding e by (simp add: reg_join_def sample_defs)
qed

theorem get_window_attr_readback_witness:
  "am (tsi148_get_window_attr (snd (snd (tsi148_create_window sample_desc sample_chip))) (vme_mapping_zero\<lparr>window_num := 2\<rparr>))
     = VME_A32_USER_DATA_SCT"
proof -
  obtain d' c' where e: "tsi148_create_window sample_desc sample_chip = (OK, d', c')"
    using sample_created by (metis prod.collapse)
  have "am (tsi148_get_window_attr c' (vme_mapping_zero\<lparr>window_num := 2\<rparr>)) = am sample_desc"
    using get_window_attr_readback [OF e, of "vme_mapping_zero\<lparr>window_num := 2\<rparr>"]
    by (simp add: sample_defs Let_def)
  then show ?thesis unfolding e by (simp add: sample_desc_def)
qed

subsection \<open>Order of the register writes\<close>

lemma ot_enabled_fold:
  "\<forall>p \<in> set ws. fst p \<noteq> OTAT \<Longrightarrow> otat (fold ot_write ws t) = otat t"
proof (induction ws arbitrary: t)
  case (Cons p ws)
  then show ?case by (cases "(p, t)" rule: ot_write.cases) auto
qed simp

text \<open>
  The attribute register, which holds the enable bit, is written last by a creation and first by
  a removal: a partly programmed bank never decodes a bus cycle.
\<close>

theorem create_window_enabled_last:
  assumes "\<not> ot_enabled t" and "ot_enabled (ot_writes (take k (create_window_writes d w)) t)"
  shows "ot_writes (take k (create_window_writes d w)) t = ot_writes (create_window_writes d w) t"
proof (cases "k < 8")
  case True
  moreover have "length (create_window_writes d w) = 8" by (simp add: create_window_writes_def)
  ultimately have "take k (create_window_writes d w) = take k (butlast (create_window_writes d w))"
    by (simp add: take_butlast)
  moreover have "\<forall>p \<in> set (take k (butlast (create_window_writes d w))). fst p \<noteq> OTAT"
    by (auto simp: create_window_writes_def dest!: in_set_takeD)
  ultimately have "otat (ot_writes (take k (create_window_writes d w)) t) = otat t"
    unfolding ot_writes_def by (metis ot_enabled_fold)
  with assms show ?thesis by (simp add: ot_enabled_def)
qed (simp add: create_window_writes_def)

theorem create_window_enabled_last_witness:
  "ot_writes (take 8 (create_window_writes sample_desc 0)) otrans_zero
     = ot_writes (create_window_writes sample_desc 0) otrans_zero"
  by (rule create_window_enabled_last)
    (simp_all add: ot_enabled_def otrans_zero_def ot_writes_def create_window_writes_def window_otat_def
      hw_consts Let_def sample_defs)

theorem remove_window_disabled_first:
  "0 < k \<Longrightarrow> \<not> ot_enabled (ot_writes (take k remove_window_writes) t)"
proof -
  have "\<forall>p \<in> set (take n (tl remove_window_writes)). fst p \<noteq> OTAT" for n
    by (auto simp: remove_window_writes_def dest!: in_set_takeD)
  moreover assume "0 < k"
  then have "take k remove_window_writes = (OTAT, 0) # take (k - 1) (tl remove_window_writes)"
    by (cases k) (simp_all add: remove_window_writes_def)
  ultimately show ?thesis by (simp add: ot_enabled_def ot_writes_def ot_enabled_fold)
qed

theorem remove_window_disabled_first_witness:
  "\<not> ot_enabled (ot_writes (take 1 remove_window_writes) (otrans_zero\<lparr>otat := 0x80000000\<rparr>))"
  by (rule remove_window_disabled_first) simp

subsection \<open>Shut-down\<close>

theorem quiesce_silences:
  "let q = tsi148_quiesce c in
     list_all (\<lambda>t. \<not> ot_accepts t a) (otrans q) \<and> list_all (\<lambda>x. x = 0) (itat q)
     \<and> inteo q = 0 \<and> crgat q = 0 \<and> lmat q = 0
     \<and> list_all (\<lambda>ch. dnlal (dma_desc ch) = 0 \<and> dnlau (dma_desc ch) = 0 \<and> dcnt (dma_desc ch) = 0) (dma q)
     \<and> length (otrans q) = length (otrans c)"
  by (auto simp: tsi148_quiesce_def tsi148_disable_crg_def Let_def ot_accepts_def ot_enabled_def list_all_iff)

end
