(* ===== verification/Vme_Window.thy ===== *)
theory Vme_Window
  imports Tsi148_Window
begin

text \<open>
  PCI-VME window management, \<open>src/vmebridge/driver/vme_window.c\<close>: the table of hardware windows,
  the logical mappings on top of them, and every operation that changes either.

  Entry points take and return the state of the module; a descriptor passed by pointer is returned
  as the caller finds it afterwards. The kernel's services are the record \<open>kernel\<close>; two of them are
  lists of outcomes that the calls consume, one per call and quiet when exhausted: \<open>signals\<close> (was
  \<open>mutex_lock_interruptible\<close> interrupted) and \<open>ooms\<close> (did an allocation fail). Four fields of the
  state are bookkeeping that the C code leaves to the kernel: \<open>lock_fault\<close> is set by a lock of a
  held mutex or an unlock of a free one, \<open>claimed\<close> and \<open>iomaps\<close> are the bus resources and
  mappings held, \<open>remaps\<close> are the page ranges mapped into user space.
\<close>

subsection \<open>State\<close>

text \<open>A \<open>struct resource\<close>; \<open>rsrc_name\<close> says whether a name buffer is attached.\<close>

record resource =
  rsrc_start :: u64
  rsrc_end :: u64
  rsrc_mem :: bool
  rsrc_name :: bool

definition resource_zero :: resource where
  "resource_zero = \<lparr> rsrc_start = 0, rsrc_end = 0, rsrc_mem = False, rsrc_name = False \<rparr>"

text \<open>Open files are identified by numbers; \<open>None\<close> is the \<open>NULL\<close> of requests from the kernel.\<close>

type_synonym filp = nat

record vme_taskinfo =
  pid_nr :: int
  name :: string
  client_file :: "filp option"

record mapping =
  map_desc :: vme_mapping
  client :: vme_taskinfo

record window =
  locked :: bool
  active :: bool
  rsrc :: resource
  desc :: vme_mapping
  mappings :: "mapping list"
  users :: int

record kernel =
  pci_bus_alloc_resource :: "(u64 \<times> u64) list \<Rightarrow> u32 \<Rightarrow> errno + u64"
  ioremap :: "u64 \<Rightarrow> u32 \<Rightarrow> u64"
  io_remap_pfn_range :: "u64 \<Rightarrow> u64 \<Rightarrow> u64 \<Rightarrow> rc"
  current_pid :: int
  current_comm :: string

record wstate =
  window_table :: "window list"
  vme_create_on_find_fail :: u32
  vme_destroy_on_remove :: u32
  chip :: tsi148_lcsr
  signals :: "bool list"
  ooms :: "bool list"
  lock_fault :: bool
  claimed :: "(u64 \<times> u64) list"
  iomaps :: "u64 list"
  remaps :: "(u64 \<times> u64 \<times> u64) list"

definition upd_window :: "nat \<Rightarrow> (window \<Rightarrow> window) \<Rightarrow> wstate \<Rightarrow> wstate" where
  "upd_window i f s = s\<lparr>window_table := (window_table s)[i := f (window_table s ! i)]\<rparr>"

definition window_num_ok :: "int \<Rightarrow> bool" where
  "window_num_ok n \<longleftrightarrow> \<not> (n < 0 \<or> n \<ge> int TSI148_NUM_OUT_WINDOWS)"

subsection \<open>Kernel services\<close>

definition mutex_lock_interruptible :: "nat \<Rightarrow> wstate \<Rightarrow> bool \<times> wstate" where
  "mutex_lock_interruptible i s =
     (case signals s of
        True # r \<Rightarrow> (True, s\<lparr>signals := r\<rparr>)
      | _ \<Rightarrow>
         (let s = s\<lparr>signals := tl (signals s)\<rparr>
          in (False, if locked (window_table s ! i) then s\<lparr>lock_fault := True\<rparr>
                     else upd_window i (\<lambda>w. w\<lparr>locked := True\<rparr>) s)))"

definition mutex_unlock :: "nat \<Rightarrow> wstate \<Rightarrow> wstate" where
  "mutex_unlock i s =
     (if locked (window_table s ! i) then upd_window i (\<lambda>w. w\<lparr>locked := False\<rparr>) s
      else s\<lparr>lock_fault := True\<rparr>)"

text \<open>An allocation; the result says whether it succeeded.\<close>

definition kmalloc :: "wstate \<Rightarrow> bool \<times> wstate" where
  "kmalloc s = (case ooms s of True # r \<Rightarrow> (False, s\<lparr>ooms := r\<rparr>) | _ \<Rightarrow> (True, s\<lparr>ooms := tl (ooms s)\<rparr>))"

definition release_resource :: "resource \<Rightarrow> wstate \<Rightarrow> wstate" where
  "release_resource r s = s\<lparr>claimed := remove1 (rsrc_start r, rsrc_end r) (claimed s)\<rparr>"

definition iounmap :: "u64 \<Rightarrow> wstate \<Rightarrow> wstate" where
  "iounmap va s = s\<lparr>iomaps := remove1 va (iomaps s)\<rparr>"

subsection \<open>Helpers on one window\<close>

fun drop_file_mappings :: "filp \<Rightarrow> mapping list \<Rightarrow> int \<Rightarrow> mapping list \<times> int" where
  "drop_file_mappings f [] u = ([], u)"
| "drop_file_mappings f (m # ms) u =
     (if client_file (client m) = Some f then drop_file_mappings f ms (u - 1)
      else (let (ms', u') = drop_file_mappings f ms u in (m # ms', u')))"

definition add_mapping :: "kernel \<Rightarrow> nat \<Rightarrow> vme_mapping \<Rightarrow> filp option \<Rightarrow> wstate \<Rightarrow> rc \<times> wstate" where
  "add_mapping k i d f s =
     (let (ok, s) = kmalloc s
      in if \<not> ok then (Inl ENOMEM, s)
         else let c = (case f of
                    Some _ \<Rightarrow> \<lparr> pid_nr = current_pid k, name = current_comm k, client_file = f \<rparr>
                  | None \<Rightarrow> \<lparr> pid_nr = 0, name = ''kernel'', client_file = None \<rparr>)
              in (OK, upd_window i (\<lambda>w. w\<lparr>mappings := mappings w @ [\<lparr> map_desc = d, client = c \<rparr>],
                                          users := users w + 1\<rparr>) s))"

definition mapping_matches :: "vme_mapping \<Rightarrow> filp option \<Rightarrow> mapping \<Rightarrow> bool" where
  "mapping_matches d f m \<longleftrightarrow>
     vme_addru (map_desc m) = vme_addru d \<and> vme_addrl (map_desc m) = vme_addrl d
     \<and> sizeu (map_desc m) = sizeu d \<and> sizel (map_desc m) = sizel d
     \<and> kernel_va (map_desc m) = kernel_va d
     \<and> (f = None \<or> client_file (client m) = f)"

fun remove_first :: "('a \<Rightarrow> bool) \<Rightarrow> 'a list \<Rightarrow> 'a list option" where
  "remove_first p [] = None"
| "remove_first p (x # xs) = (if p x then Some xs else map_option (Cons x) (remove_first p xs))"

definition remove_mapping :: "nat \<Rightarrow> vme_mapping \<Rightarrow> filp option \<Rightarrow> wstate \<Rightarrow> rc \<times> wstate" where
  "remove_mapping i d f s =
     (case remove_first (mapping_matches d f) (mappings (window_table s ! i)) of
        Some ms \<Rightarrow> (OK, upd_window i (\<lambda>w. w\<lparr>mappings := ms, users := users w - 1\<rparr>) s)
      | None \<Rightarrow> (Inl EINVAL, s))"

subsection \<open>Release of a device file\<close>

fun vme_window_release_loop :: "filp \<Rightarrow> nat list \<Rightarrow> wstate \<Rightarrow> rc \<times> wstate" where
  "vme_window_release_loop f [] s = (OK, s)"
| "vme_window_release_loop f (i # is) s =
     (let (intr, s) = mutex_lock_interruptible i s
      in if intr then (Inl ERESTARTSYS, s)
         else let w = window_table s ! i;
                  s = (if \<not> active w \<or> mappings w = [] then s
                       else let (ms, u) = drop_file_mappings f (mappings w) (users w)
                            in upd_window i (\<lambda>w. w\<lparr>mappings := ms, users := u\<rparr>) s)
              in vme_window_release_loop f is (mutex_unlock i s))"

definition vme_window_release :: "filp \<Rightarrow> wstate \<Rightarrow> rc \<times> wstate" where
  "vme_window_release f s = vme_window_release_loop f [0..<TSI148_NUM_OUT_WINDOWS] s"

subsection \<open>Look-ups\<close>

text \<open>\<open>logaddr\<close> is a 32-bit \<open>unsigned\<close> and is compared with the 64-bit kernel address.\<close>

fun find_vme_mapping_loop :: "u32 \<Rightarrow> nat list \<Rightarrow> wstate \<Rightarrow> vme_mapping option \<times> wstate" where
  "find_vme_mapping_loop logaddr [] s = (None, s)"
| "find_vme_mapping_loop logaddr (i # is) s =
     (let (intr, s) = mutex_lock_interruptible i s
      in if intr then (None, s)
         else case find (\<lambda>m. kernel_va (map_desc m) = ucast logaddr) (mappings (window_table s ! i)) of
             Some m \<Rightarrow> (Some (map_desc m), mutex_unlock i s)
           | None \<Rightarrow> find_vme_mapping_loop logaddr is (mutex_unlock i s))"

definition find_vme_mapping_from_addr :: "u32 \<Rightarrow> wstate \<Rightarrow> vme_mapping option \<times> wstate" where
  "find_vme_mapping_from_addr logaddr s = find_vme_mapping_loop logaddr [0..<TSI148_NUM_OUT_WINDOWS] s"

definition vme_get_window_attr :: "vme_mapping \<Rightarrow> wstate \<Rightarrow> rc \<times> vme_mapping \<times> wstate" where
  "vme_get_window_attr d s =
     (if \<not> window_num_ok (window_num d) then (Inl EINVAL, d, s)
      else let i = nat (window_num d); (intr, s) = mutex_lock_interruptible i s
           in if intr then (Inl ERESTARTSYS, d, s)
              else let d = desc (window_table s ! i);
                       d = tsi148_get_window_attr (chip s) d
                   in (OK, d, mutex_unlock i s))"

subsection \<open>Creating and destroying windows\<close>

text \<open>The alignment of the request. The size correction of the source subtracts the new address
  from itself, since \<open>vme_addrl\<close> has been overwritten by then.\<close>

definition align_request :: "vme_mapping \<Rightarrow> vme_mapping" where
  "align_request d =
     (let d = (if vme_addrl d AND 0xffff \<noteq> 0
               then let lowaddr = vme_addrl d AND NOT 0xffff;
                        d = d\<lparr>vme_addrl := lowaddr\<rparr>
                    in d\<lparr>sizel := sizel d + (vme_addrl d - lowaddr)\<rparr>
               else d)
      in if sizel d AND 0xffff \<noteq> 0
         then d\<lparr>sizel := (sizel d + 0x10000) AND NOT 0xffff\<rparr> else d)"

text \<open>The error exits of \<open>vme_create_window\<close>, innermost first.\<close>

definition create_out_unlock :: "nat \<Rightarrow> wstate \<Rightarrow> wstate" where
  "create_out_unlock i s = mutex_unlock i s"

definition create_out_free :: "nat \<Rightarrow> wstate \<Rightarrow> wstate" where
  "create_out_free i s = create_out_unlock i (upd_window i (\<lambda>w. w\<lparr>rsrc := resource_zero\<rparr>) s)"

definition create_out_release :: "nat \<Rightarrow> wstate \<Rightarrow> wstate" where
  "create_out_release i s = create_out_free i (release_resource (rsrc (window_table s ! i)) s)"

definition create_out_unmap :: "nat \<Rightarrow> u64 \<Rightarrow> wstate \<Rightarrow> wstate" where
  "create_out_unmap i va s = create_out_release i (iounmap va s)"

text \<open>The part of \<open>vme_create_window\<close> that runs with the window's mutex held.\<close>

definition create_window_locked ::
    "kernel \<Rightarrow> nat \<Rightarrow> vme_mapping \<Rightarrow> wstate \<Rightarrow> rc \<times> vme_mapping \<times> wstate" where
  "create_window_locked k i d s =
     (if active (window_table s ! i) then (Inl EBUSY, d, create_out_unlock i s)
      else let (named, s) = kmalloc s;
               s = upd_window i (\<lambda>w. w\<lparr>rsrc := \<lparr> rsrc_start = 0, rsrc_end = ucast (sizel d), rsrc_mem = True,
                                               rsrc_name = named \<rparr>\<rparr>) s
      in case pci_bus_alloc_resource k (claimed s) (sizel d) of
           Inl e \<Rightarrow> (Inl e, d, create_out_free i s)
         | Inr start \<Rightarrow>
             let s = upd_window i (\<lambda>w. w\<lparr>rsrc := (rsrc w)\<lparr>rsrc_start := start,
                                        rsrc_end := start + ucast (sizel d) - 1\<rparr>\<rparr>) s;
                 s = s\<lparr>claimed := (start, start + ucast (sizel d) - 1) # claimed s\<rparr>;
                 va = ioremap k start (sizel d);
                 d = d\<lparr>kernel_va := va\<rparr>
             in if va = 0 then (Inl ENOMEM, d, create_out_release i s)
                else let s = s\<lparr>iomaps := va # iomaps s\<rparr>;
                         d = d\<lparr>pci_addrl := ucast start\<rparr>;
                         (r, d', c) = tsi148_create_window d (chip s);
                         s = s\<lparr>chip := c\<rparr>
                     in case r of
                          Inl e \<Rightarrow> (Inl e, d', create_out_unmap i va s)
                        | Inr _ \<Rightarrow> (OK, d', mutex_unlock i
                            (upd_window i (\<lambda>w. w\<lparr>desc := d', active := True\<rparr>) s)))"

definition vme_create_window :: "kernel \<Rightarrow> vme_mapping \<Rightarrow> wstate \<Rightarrow> rc \<times> vme_mapping \<times> wstate" where
  "vme_create_window k d s =
     (if \<not> window_num_ok (window_num d) then (Inl EINVAL, d, s)
      else if sizel d = 0 then (Inl EINVAL, d, s)
      else let d = align_request d; i = nat (window_num d); (intr, s) = mutex_lock_interruptible i s
      in if intr then (Inl ERESTARTSYS, d, s) else create_window_locked k i d s)"

text \<open>Likewise for \<open>vme_destroy_window\<close>.\<close>

definition destroy_window_locked :: "nat \<Rightarrow> wstate \<Rightarrow> rc \<times> wstate" where
  "destroy_window_locked i s =
     (if \<not> active (window_table s ! i) then (Inl EINVAL, mutex_unlock i s)
      else let w = window_table s ! i;
               w = (if users w > 0 then w\<lparr>users := users w - int (length (mappings w)), mappings := []\<rparr> else w);
               w = w\<lparr>active := False\<rparr>;
               s = iounmap (kernel_va (desc w)) s;
               w = w\<lparr>desc := (desc w)\<lparr>kernel_va := 0\<rparr>\<rparr>;
               (d', c) = tsi148_remove_window (desc w) (chip s);
               w = w\<lparr>desc := d'\<rparr>;
               s = release_resource (rsrc w) (s\<lparr>chip := c\<rparr>);
               w = w\<lparr>rsrc := resource_zero\<rparr>
           in (OK, mutex_unlock i (upd_window i (\<lambda>_. w) s)))"

definition vme_destroy_window :: "int \<Rightarrow> wstate \<Rightarrow> rc \<times> wstate" where
  "vme_destroy_window n s =
     (if \<not> window_num_ok n then (Inl EINVAL, s)
      else let i = nat n; (intr, s) = mutex_lock_interruptible i s
      in if intr then (Inl ERESTARTSYS, s) else destroy_window_locked i s)"

subsection \<open>Finding and releasing mappings\<close>

definition a24_modifiers :: "vme_address_modifier list" where
  "a24_modifiers = [VME_A24_USER_MBLT, VME_A24_USER_DATA_SCT, VME_A24_USER_PRG_SCT, VME_A24_USER_BLT,
     VME_A24_SUP_MBLT, VME_A24_SUP_DATA_SCT, VME_A24_SUP_PRG_SCT, VME_A24_SUP_BLT]"

definition a16_modifiers :: "vme_address_modifier list" where
  "a16_modifiers = [VME_A16_USER, VME_A16_LCK, VME_A16_SUP]"

definition a32_modifiers :: "vme_address_modifier list" where
  "a32_modifiers = [VME_A32_LCK, VME_A32_USER_MBLT, VME_A32_USER_DATA_SCT, VME_A32_USER_PRG_SCT,
     VME_A32_USER_BLT, VME_A32_SUP_MBLT, VME_A32_SUP_DATA_SCT, VME_A32_SUP_PRG_SCT, VME_A32_SUP_BLT]"

definition a40_modifiers :: "vme_address_modifier list" where
  "a40_modifiers = [VME_A40_SCT, VME_A40_LCK, VME_A40_BLT]"

definition vme_optimize_window_size :: "vme_mapping \<Rightarrow> vme_mapping" where
  "vme_optimize_window_size d =
     (let resize = (if am d \<in> set a24_modifiers then 0x1000000
                    else if am d \<in> set a16_modifiers then 0x10000 else 0)
      in if resize = 0 then d
         else d\<lparr>sizeu := 0, sizel := resize, vme_addru := 0, vme_addrl := 0\<rparr>)"

definition vme_mapping_sanity_check :: "vme_mapping \<Rightarrow> rc" where
  "vme_mapping_sanity_check m =
     (let err =
        (if am m \<in> set a16_modifiers then vme_addru m \<noteq> 0 \<or> vme_addrl m AND NOT 0xffff \<noteq> 0
         else if am m \<in> set a24_modifiers then vme_addru m \<noteq> 0 \<or> vme_addrl m AND NOT 0xffffff \<noteq> 0
         else if am m \<in> set a32_modifiers then vme_addru m \<noteq> 0
         else if am m \<in> set a40_modifiers then vme_addru m AND NOT 0xff \<noteq> 0
         else False)
      in if err then Inl EINVAL else OK)"

text \<open>The tests on one window in the search loop.\<close>

definition window_matches :: "vme_mapping \<Rightarrow> window \<Rightarrow> bool" where
  "window_matches m w \<longleftrightarrow>
     active w \<and> window_enabled (desc w)
     \<and> \<not> (vme_addru (desc w) \<noteq> 0 \<or> sizeu (desc w) \<noteq> 0)
     \<and> \<not> (am (desc w) \<noteq> am m \<or> data_width (desc w) \<noteq> data_width m)
     \<and> \<not> (vme_addrl (desc w) > vme_addrl m
           \<or> vme_addrl (desc w) + sizel (desc w) < vme_addrl m + sizel m)
     \<and> \<not> (am (desc w) = VME_2e6U \<and> v2esst_mode (desc w) \<noteq> v2esst_mode m)"

text \<open>The search loop: a match leaves its window locked.\<close>

datatype search_result = Interrupted | Window_Found nat | No_Match

fun find_window_loop :: "vme_mapping \<Rightarrow> nat list \<Rightarrow> wstate \<Rightarrow> search_result \<times> wstate" where
  "find_window_loop m [] s = (No_Match, s)"
| "find_window_loop m (i # is) s =
     (let (intr, s) = mutex_lock_interruptible i s
      in if intr then (Interrupted, s)
         else if window_matches m (window_table s ! i) then (Window_Found i, s)
         else find_window_loop m is (mutex_unlock i s))"

text \<open>Where a mapping lies in its window.\<close>

definition place_mapping :: "vme_mapping \<Rightarrow> vme_mapping \<Rightarrow> int \<Rightarrow> vme_mapping" where
  "place_mapping wd m n =
     (let offset = vme_addrl m - vme_addrl wd
      in m\<lparr>kernel_va := kernel_va wd + ucast offset, pci_addrl := pci_addrl wd + offset, window_num := n\<rparr>)"

definition vme_find_mapping_file ::
    "kernel \<Rightarrow> vme_mapping \<Rightarrow> bool \<Rightarrow> filp option \<Rightarrow> wstate \<Rightarrow> rc \<times> vme_mapping \<times> wstate" where
  "vme_find_mapping_file k m force f s =
     (case vme_mapping_sanity_check m of
        Inl e \<Rightarrow> (Inl e, m, s)
      | Inr _ \<Rightarrow>
        (let (found, s) = find_window_loop m [0..<TSI148_NUM_OUT_WINDOWS] s
         in case found of
            Interrupted \<Rightarrow> (Inl ERESTARTSYS, m, s)
          | Window_Found i \<Rightarrow>
              (let m = place_mapping (desc (window_table s ! i)) m (int i);
                   (r, s) = add_mapping k i m f s
               in (r, m, mutex_unlock i s))
          | No_Match \<Rightarrow>
              if \<not> force then (Inl EBUSY, m, s)
              else (case find (\<lambda>i. \<not> active (window_table s ! i)) [0..<TSI148_NUM_OUT_WINDOWS] of
                  None \<Rightarrow> (Inl EBUSY, m, s)
                | Some i \<Rightarrow>
                    (let wnd = vme_optimize_window_size (m\<lparr>window_num := int i\<rparr>);
                         (r, wnd, s) = vme_create_window k wnd s
                     in case r of
                          Inl e \<Rightarrow> (Inl e, m, s)
                        | Inr _ \<Rightarrow>
                            (let j = nat (window_num wnd);
                                 m = place_mapping (desc (window_table s ! j)) m (window_num wnd);
                                 (r, s) = add_mapping k j m f s
                             in (r, m, s))))))"

definition vme_find_mapping :: "kernel \<Rightarrow> vme_mapping \<Rightarrow> bool \<Rightarrow> wstate \<Rightarrow> rc \<times> vme_mapping \<times> wstate" where
  "vme_find_mapping k m force s = vme_find_mapping_file k m force None s"

definition vme_release_mapping_file :: "vme_mapping \<Rightarrow> bool \<Rightarrow> filp option \<Rightarrow> wstate \<Rightarrow> rc \<times> wstate" where
  "vme_release_mapping_file d force f s =
     (if \<not> window_num_ok (window_num d) then (Inl EINVAL, s)
      else let i = nat (window_num d); (intr, s) = mutex_lock_interruptible i s
      in if intr then (Inl ERESTARTSYS, s)
      else if \<not> active (window_table s ! i) then (Inl EINVAL, mutex_unlock i s)
      else let (r, s) = remove_mapping i d f s
           in case r of
                Inl e \<Rightarrow> (Inl e, mutex_unlock i s)
              | Inr _ \<Rightarrow>
                  if users (window_table s ! i) = 0 \<and> force
                  then vme_destroy_window (window_num d) (mutex_unlock i s)
                  else (OK, mutex_unlock i s))"

definition vme_release_mapping :: "vme_mapping \<Rightarrow> bool \<Rightarrow> wstate \<Rightarrow> rc \<times> wstate" where
  "vme_release_mapping d force s = vme_release_mapping_file d force None s"

subsection \<open>Mapping into user space\<close>

datatype vm_flag = VM_IO | VM_RESERVED | VM_DONTCOPY | VM_DONTEXPAND

record vm_area_struct =
  vm_start :: u64
  vm_end :: u64
  vm_pgoff :: u64
  vm_flags :: "vm_flag set"
  vm_noncached :: bool

definition PAGE_SHIFT :: nat where
  "PAGE_SHIFT = 12"

definition vme_remap_pfn_range :: "kernel \<Rightarrow> vm_area_struct \<Rightarrow> wstate \<Rightarrow> rc \<times> vm_area_struct \<times> wstate" where
  "vme_remap_pfn_range k vma s =
     (let vma = vma\<lparr>vm_flags := vm_flags vma \<union> {VM_IO, VM_RESERVED, VM_DONTCOPY, VM_DONTEXPAND},
                    vm_noncached := True\<rparr>;
          len = vm_end vma - vm_start vma
      in (io_remap_pfn_range k (vm_start vma) (vm_pgoff vma) len, vma,
          s\<lparr>remaps := (vm_start vma, vm_pgoff vma, len) # remaps s\<rparr>))"

text \<open>\<open>PAGE_MASK\<close> is a 64-bit constant, the addresses are 32-bit: the sums wrap at 32 bits.\<close>

definition vme_check_mmap_region :: "vme_mapping \<Rightarrow> vme_mapping \<Rightarrow> u32 \<Rightarrow> u32 \<Rightarrow> bool" where
  "vme_check_mmap_region wd m addr len =
     (if addr < pci_addrl wd \<or> addr + len > pci_addrl wd + sizel wd then False
      else let aligned_start = pci_addrl m AND NOT 0xfff;
               e = pci_addrl m + sizel m;
               aligned_end = (if e AND 0xfff \<noteq> 0 then (e AND NOT 0xfff) + 0x1000 else e)
           in aligned_start = addr \<and> aligned_end = addr + len)"

fun vme_window_mmap_loop ::
    "kernel \<Rightarrow> filp \<Rightarrow> vm_area_struct \<Rightarrow> nat list \<Rightarrow> wstate \<Rightarrow> rc \<times> vm_area_struct \<times> wstate" where
  "vme_window_mmap_loop k f vma [] s = (Inl EINVAL, vma, s)"
| "vme_window_mmap_loop k f vma (i # is) s =
     (let (intr, s) = mutex_lock_interruptible i s
      in if intr then (Inl ERESTARTSYS, vma, s)
         else let w = window_table s ! i;
                  addr = ucast (push_bit PAGE_SHIFT (vm_pgoff vma));
                  len = ucast (vm_end vma - vm_start vma)
              in if active w \<and> mappings w \<noteq> []
                   \<and> (\<exists>m \<in> set (mappings w). client_file (client m) = Some f
                        \<and> vme_check_mmap_region (desc w) (map_desc m) addr len)
                 then (let (r, vma, s) = vme_remap_pfn_range k vma s in (r, vma, mutex_unlock i s))
                 else vme_window_mmap_loop k f vma is (mutex_unlock i s))"

definition vme_window_mmap :: "kernel \<Rightarrow> filp \<Rightarrow> vm_area_struct \<Rightarrow> wstate \<Rightarrow> rc \<times> vm_area_struct \<times> wstate" where
  "vme_window_mmap k f vma s = vme_window_mmap_loop k f vma [0..<TSI148_NUM_OUT_WINDOWS] s"

subsection \<open>Start-up and exit\<close>

definition vme_window_init :: "wstate \<Rightarrow> wstate" where
  "vme_window_init s =
     s\<lparr>window_table := map (\<lambda>w. w\<lparr>mappings := [], locked := False, active := False\<rparr>) (window_table s)\<rparr>"

fun vme_window_exit_loop :: "nat list \<Rightarrow> wstate \<Rightarrow> wstate" where
  "vme_window_exit_loop [] s = s"
| "vme_window_exit_loop (i # is) s =
     vme_window_exit_loop is (if active (window_table s ! i) then snd (vme_destroy_window (int i) s) else s)"

definition vme_window_exit :: "wstate \<Rightarrow> wstate" where
  "vme_window_exit s = vme_window_exit_loop [0..<TSI148_NUM_OUT_WINDOWS] s"

text \<open>The module's static storage before \<open>vme_window_init\<close>, and the state it starts from on a
  given chip.\<close>

definition window_zero :: window where
  "window_zero = \<lparr> locked = False, active = False, rsrc = resource_zero, desc = vme_mapping_zero,
     mappings = [], users = 0 \<rparr>"

definition wstate_boot :: "tsi148_lcsr \<Rightarrow> wstate" where
  "wstate_boot c = \<lparr> window_table = replicate TSI148_NUM_OUT_WINDOWS window_zero,
     vme_create_on_find_fail = 0, vme_destroy_on_remove = 0, chip = c, signals = [], ooms = [],
     lock_fault = False, claimed = [], iomaps = [], remaps = [] \<rparr>"

end
