(* ===== verification/Vme_Window_Props.thy ===== *)
theory Vme_Window_Props
  imports Vme_Window
begin

text \<open>
  What the window manager guarantees: an invariant that ties the table to the chip's registers, the
  mutexes and the kernel resources and that every operation keeps on every path; failed calls
  restore the state; the search, placement, release and mmap results.
\<close>

subsection \<open>The window hardware as the manager sees it\<close>

text \<open>
  The contract between the manager and the chip routines: a successful creation enables exactly its
  own window, a failed one changes nothing, a removal disables exactly its own window.
\<close>

locale window_hw =
  fixes create :: "vme_mapping \<Rightarrow> 'c \<Rightarrow> rc \<times> vme_mapping \<times> 'c"
    and remove :: "vme_mapping \<Rightarrow> 'c \<Rightarrow> vme_mapping \<times> 'c"
    and enabled :: "'c \<Rightarrow> nat set"
    and wf :: "'c \<Rightarrow> bool"
  assumes create_fail: "create d c = (Inl e, d', c') \<Longrightarrow> c' = c"
    and create_ok: "create d c = (OK, d', c') \<Longrightarrow> wf c \<Longrightarrow> window_num_ok (window_num d) \<Longrightarrow>
      wf c' \<and> enabled c' = insert (nat (window_num d)) (enabled c) \<and> window_num d' = window_num d \<and> window_enabled d'"
    and remove_ok: "remove d c = (d', c') \<Longrightarrow> wf c \<Longrightarrow> window_num_ok (window_num d) \<Longrightarrow>
      wf c' \<and> enabled c' = enabled c - {nat (window_num d)} \<and> \<not> window_enabled d'"
begin

lemma create_wf: "create d c = (r, d', c') \<Longrightarrow> wf c \<Longrightarrow> window_num_ok (window_num d) \<Longrightarrow> wf c'"
  by (cases r) (auto dest: create_fail create_ok)

lemma create_remove_enabled:
  assumes "create d c = (OK, d', c')" and "remove d' c' = (d'', c'')" and "wf c"
    and "window_num_ok (window_num d)" and "nat (window_num d) \<notin> enabled c"
  shows "enabled c'' = enabled c" and "wf c''"
  using create_ok [OF assms(1,3,4)] remove_ok [OF assms(2)] assms(4,5) by auto

end

definition enabled_windows :: "tsi148_lcsr \<Rightarrow> nat set" where
  "enabled_windows c = {i. i < length (otrans c) \<and> ot_enabled (otrans c ! i)}"

lemma window_num_ok_nat: "window_num_ok n \<longleftrightarrow> 0 \<le> n \<and> nat n < 8"
  by (auto simp: window_num_ok_def hw_consts)

lemma chip_wf_ot_writes [simp]: "chip_wf (chip_ot_writes n ws c) = chip_wf c"
  by (simp add: chip_wf_def chip_ot_writes_def)

lemma enabled_ot_writes:
  "n < length (otrans c) \<Longrightarrow>
     enabled_windows (chip_ot_writes n ws c) =
     (if ot_enabled (ot_writes ws (otrans c ! n)) then insert n (enabled_windows c) else enabled_windows c - {n})"
  by (auto simp: enabled_windows_def chip_ot_writes_def nth_list_update)

interpretation tsi148_hw: window_hw tsi148_create_window tsi148_remove_window enabled_windows chip_wf
proof unfold_locales
  fix d c d' c' e
  show "c' = c" if "tsi148_create_window d c = (Inl e, d', c')"
    using that by (cases rule: create_window_cases [OF that]) auto
next
  fix d c d' c'
  assume c: "tsi148_create_window d c = (OK, d', c')" and wf: "chip_wf c" and n: "window_num_ok (window_num d)"
  from wf n have len: "nat (window_num d) < length (otrans c)"
    by (simp add: chip_wf_def window_num_ok_nat hw_consts)
  show "chip_wf c' \<and> enabled_windows c' = insert (nat (window_num d)) (enabled_windows c)
      \<and> window_num d' = window_num d \<and> window_enabled d'"
  proof (cases rule: create_window_cases [OF c])
    case (2 w)
    have "ot_enabled (ot_writes (create_window_writes (d'\<lparr>window_enabled := window_enabled d\<rparr>) w) t)" for t
      using window_otat_decode(1) [OF 2(4)] by (simp add: ot_writes_create ot_enabled_def)
    with 2 len wf show ?thesis
      by (simp add: enabled_ot_writes create_window_desc [OF c])
  qed simp
next
  fix d c d' c'
  assume "tsi148_remove_window d c = (d', c')" and wf: "chip_wf c" and n: "window_num_ok (window_num d)"
  moreover from wf n have "nat (window_num d) < length (otrans c)"
    by (simp add: chip_wf_def window_num_ok_nat hw_consts)
  ultimately show "chip_wf c' \<and> enabled_windows c' = enabled_windows c - {nat (window_num d)} \<and> \<not> window_enabled d'"
    by (auto simp: tsi148_remove_window_def enabled_ot_writes ot_writes_remove otrans_zero_def ot_enabled_def)
qed

subsection \<open>Windows in the table\<close>

lemma upd_window_sel [simp]:
  "i < length (window_table s) \<Longrightarrow> window_table (upd_window i f s) ! j =
     (if j = i then f (window_table s ! i) else window_table s ! j)"
  "length (window_table (upd_window i f s)) = length (window_table s)"
  "chip (upd_window i f s) = chip s" "signals (upd_window i f s) = signals s" "ooms (upd_window i f s) = ooms s"
  "lock_fault (upd_window i f s) = lock_fault s" "claimed (upd_window i f s) = claimed s"
  "iomaps (upd_window i f s) = iomaps s" "remaps (upd_window i f s) = remaps s"
  "vme_create_on_find_fail (upd_window i f s) = vme_create_on_find_fail s"
  "vme_destroy_on_remove (upd_window i f s) = vme_destroy_on_remove s"
  by (simp_all add: upd_window_def)

lemma upd_window_comm [simp]:
  "upd_window i f (s\<lparr>chip := c\<rparr>) = (upd_window i f s)\<lparr>chip := c\<rparr>"
  "upd_window i f (s\<lparr>signals := b\<rparr>) = (upd_window i f s)\<lparr>signals := b\<rparr>"
  "upd_window i f (s\<lparr>ooms := b\<rparr>) = (upd_window i f s)\<lparr>ooms := b\<rparr>"
  "upd_window i f (s\<lparr>claimed := l\<rparr>) = (upd_window i f s)\<lparr>claimed := l\<rparr>"
  "upd_window i f (s\<lparr>iomaps := m\<rparr>) = (upd_window i f s)\<lparr>iomaps := m\<rparr>"
  "upd_window i f (s\<lparr>remaps := m2\<rparr>) = (upd_window i f s)\<lparr>remaps := m2\<rparr>"
  by (simp_all add: upd_window_def)

lemma upd_window_fuse [simp]:
  "i < length (window_table s) \<Longrightarrow> upd_window i f (upd_window i g s) = upd_window i (f \<circ> g) s"
  by (simp add: upd_window_def)

lemma upd_window_id: "f (window_table s ! i) = window_table s ! i \<Longrightarrow> upd_window i f s = s"
  by (simp add: upd_window_def)

text \<open>Taking and dropping a free mutex.\<close>

lemma lock_free:
  assumes "i < length (window_table s)" and "\<not> locked (window_table s ! i)"
  shows "mutex_lock_interruptible i s =
     (if signals s \<noteq> [] \<and> hd (signals s) then (True, s\<lparr>signals := tl (signals s)\<rparr>)
      else (False, upd_window i (\<lambda>w. w\<lparr>locked := True\<rparr>) (s\<lparr>signals := tl (signals s)\<rparr>)))"
  using assms by (auto simp: mutex_lock_interruptible_def Let_def split: list.splits bool.splits)

lemma unlock_held:
  "i < length (window_table s) \<Longrightarrow> locked (window_table s ! i) \<Longrightarrow>
     mutex_unlock i s = upd_window i (\<lambda>w. w\<lparr>locked := False\<rparr>) s"
  by (simp add: mutex_unlock_def)

lemma kmalloc_cases: "kmalloc s = (fst (kmalloc s), s\<lparr>ooms := tl (ooms s)\<rparr>)"
  by (auto simp: kmalloc_def split: list.splits bool.splits)

subsection \<open>The invariant\<close>

text \<open>The registers of a bank belong to a window descriptor.\<close>

definition bank_ok :: "vme_mapping \<Rightarrow> tsi148_otrans \<Rightarrow> bool" where
  "bank_ok d t \<longleftrightarrow> ot_enabled t \<and> otsal t = pci_addrl d \<and> otsau t = pci_addru d
     \<and> oteal t = (pci_addrl d + sizel d - 1) AND NOT 0xffff
     \<and> oteau t = add64hi (pci_addrl d) (pci_addru d) (sizel d) (sizeu d)
     \<and> reg_join (otofu t) (otofl t) = reg_join (vme_addru d) (vme_addrl d) - reg_join (pci_addru d) (pci_addrl d)"

definition win_ok :: "nat \<Rightarrow> window \<Rightarrow> tsi148_otrans \<Rightarrow> bool" where
  "win_ok i w t \<longleftrightarrow> \<not> locked w \<and> users w = int (length (mappings w)) \<and>
     (if active w
      then window_num (desc w) = int i \<and> window_enabled (desc w) \<and> pci_addrl (desc w) AND 0xffff = 0
        \<and> vme_addrl (desc w) AND 0xffff = 0 \<and> sizel (desc w) AND 0xffff = 0 \<and> bank_ok (desc w) t
      else mappings w = [] \<and> rsrc w = resource_zero \<and> \<not> ot_enabled t)"

definition held_resources :: "window list \<Rightarrow> (u64 \<times> u64) multiset" where
  "held_resources ws = mset (map (\<lambda>w. (rsrc_start (rsrc w), rsrc_end (rsrc w))) (filter active ws))"

definition held_iomaps :: "window list \<Rightarrow> u64 multiset" where
  "held_iomaps ws = mset (map (\<lambda>w. kernel_va (desc w)) (filter active ws))"

definition wins_inv :: "wstate \<Rightarrow> bool" where
  "wins_inv s \<longleftrightarrow> length (window_table s) = 8 \<and> chip_wf (chip s) \<and> \<not> lock_fault s
     \<and> (\<forall>i<8. win_ok i (window_table s ! i) (otrans (chip s) ! i))
     \<and> mset (claimed s) = held_resources (window_table s)
     \<and> mset (iomaps s) = held_iomaps (window_table s)"

text \<open>Two states that differ only in the outcomes consumed from the kernel.\<close>

definition quiet :: "wstate \<Rightarrow> wstate \<Rightarrow> bool" where
  "quiet s s' \<longleftrightarrow> s' = s\<lparr>signals := signals s', ooms := ooms s'\<rparr>"

lemma quiet_refl [simp]: "quiet s s" "quiet s (s\<lparr>signals := b\<rparr>)" "quiet s (s\<lparr>ooms := b\<rparr>)"
  "quiet s (s\<lparr>signals := b, ooms := b'\<rparr>)"
  by (simp_all add: quiet_def)

lemma quiet_trans: "quiet s s' \<Longrightarrow> quiet s' s'' \<Longrightarrow> quiet s s''"
  unfolding quiet_def by (metis (mono_tags, lifting) wstate.surjective wstate.update_convs(5,6))

lemma quiet_sel:
  assumes "quiet s s'"
  shows "window_table s' = window_table s" "chip s' = chip s" "lock_fault s' = lock_fault s"
    "claimed s' = claimed s" "iomaps s' = iomaps s" "remaps s' = remaps s"
    "vme_create_on_find_fail s' = vme_create_on_find_fail s" "vme_destroy_on_remove s' = vme_destroy_on_remove s"
  using assms unfolding quiet_def by (metis (lifting) wstate.surjective wstate.select_convs wstate.update_convs(5,6))+

lemma quiet_inv: "quiet s s' \<Longrightarrow> wins_inv s' = wins_inv s"
  by (simp add: wins_inv_def quiet_sel)

lemma wins_inv_window:
  assumes "wins_inv s" and "i < 8"
  shows "i < length (window_table s)" "\<not> locked (window_table s ! i)"
    "users (window_table s ! i) = int (length (mappings (window_table s ! i)))"
    "\<not> active (window_table s ! i) \<Longrightarrow> rsrc (window_table s ! i) = resource_zero"
    "\<not> active (window_table s ! i) \<Longrightarrow> mappings (window_table s ! i) = []"
    "active (window_table s ! i) \<Longrightarrow> window_num (desc (window_table s ! i)) = int i"
    "active (window_table s ! i) \<Longrightarrow> bank_ok (desc (window_table s ! i)) (otrans (chip s) ! i)"
    "i < length (otrans (chip s))"
  using assms by (auto simp: wins_inv_def win_ok_def chip_wf_def hw_consts)

lemma window_restore:
  "\<not> locked w \<Longrightarrow> w\<lparr>locked := False\<rparr> = w"
  "\<not> locked w \<Longrightarrow> rsrc w = resource_zero \<Longrightarrow> w\<lparr>locked := False, rsrc := resource_zero\<rparr> = w"
  by (cases w; simp)+

subsection \<open>Creation\<close>

lemma align_request_aligned:
  "vme_addrl (align_request d) AND 0xffff = 0" "sizel (align_request d) AND 0xffff = 0"
  "window_num (align_request d) = window_num d" "am (align_request d) = am d"
  "vme_addrl (align_request d) = vme_addrl d AND NOT 0xffff"
  by (simp_all add: align_request_def Let_def down_64k_norm)

lemma create_window_aligned:
  assumes "tsi148_create_window d c = (r, d', c')" and "vme_addrl d AND 0xffff = 0" and "sizel d AND 0xffff = 0"
  shows "d' = d\<lparr>window_enabled := (r = OK \<or> window_enabled d)\<rparr>"
  using create_window_desc [OF assms(1)] assms(2,3) by (cases d) (simp add: down_64k_norm)

text \<open>
  What a successful creation makes of the state, and the locked part of a creation: it either
  fails with the state as it was, or allocates, maps and programs one window.
\<close>

definition created_state :: "kernel \<Rightarrow> nat \<Rightarrow> vme_mapping \<Rightarrow> vme_mapping \<Rightarrow> tsi148_lcsr \<Rightarrow> bool \<Rightarrow> u64 \<Rightarrow> wstate \<Rightarrow> wstate" where
  "created_state k i a d' c named start s =
     s\<lparr>claimed := (start, start + ucast (sizel a) - 1) # claimed s,
       iomaps := ioremap k start (sizel a) # iomaps s, chip := c,
       window_table := (window_table s)[i := (window_table s ! i)\<lparr>
         rsrc := \<lparr>rsrc_start = start, rsrc_end = start + ucast (sizel a) - 1, rsrc_mem = True, rsrc_name = named\<rparr>,
         desc := d', active := True, locked := False\<rparr>]\<rparr>"

definition create_request :: "kernel \<Rightarrow> vme_mapping \<Rightarrow> u64 \<Rightarrow> vme_mapping" where
  "create_request k a start = a\<lparr>kernel_va := ioremap k start (sizel a), pci_addrl := ucast start\<rparr>"

lemma create_outs:
  assumes "i < length (window_table s)" and "locked (window_table s ! i)"
  shows "create_out_unlock i s = upd_window i (\<lambda>w. w\<lparr>locked := False\<rparr>) s"
    and "create_out_free i s = upd_window i (\<lambda>w. w\<lparr>rsrc := resource_zero, locked := False\<rparr>) s"
  using assms by (simp_all add: create_out_unlock_def create_out_free_def unlock_held comp_def)

lemma create_window_locked_cases:
  assumes i: "i < length (window_table s)" and l: "locked (window_table s ! i)"
    and z: "\<not> active (window_table s ! i) \<Longrightarrow> rsrc (window_table s ! i) = resource_zero"
    and r: "create_window_locked k i d s = (r, d', s')"
  shows "(\<exists>e b. r = Inl e \<and> s' = upd_window i (\<lambda>w. w\<lparr>locked := False\<rparr>) (s\<lparr>ooms := b\<rparr>)) \<or>
    (\<exists>start c b. r = OK \<and> \<not> active (window_table s ! i)
      \<and> pci_bus_alloc_resource k (claimed s) (sizel d) = Inr start \<and> ioremap k start (sizel d) \<noteq> 0
      \<and> tsi148_create_window (create_request k d start) (chip s) = (OK, d', c)
      \<and> s' = created_state k i d d' c b start (s\<lparr>ooms := tl (ooms s)\<rparr>))"
proof (cases "active (window_table s ! i)")
  case True
  with r i l show ?thesis
    by (auto simp: create_window_locked_def create_outs intro!: exI [of _ "ooms s"])
next
  case False
  obtain nm where km: "kmalloc s = (nm, s\<lparr>ooms := tl (ooms s)\<rparr>)"
    using kmalloc_cases by metis
  let ?s = "upd_window i (\<lambda>w. w\<lparr>rsrc := \<lparr> rsrc_start = 0, rsrc_end = ucast (sizel d), rsrc_mem = True, rsrc_name = nm \<rparr>\<rparr>)
     (s\<lparr>ooms := tl (ooms s)\<rparr>)"
  have undo: "upd_window i (\<lambda>w. w\<lparr>rsrc := resource_zero, locked := False\<rparr>) s = upd_window i (\<lambda>w. w\<lparr>locked := False\<rparr>) s"
    using z [OF False] by (cases "window_table s ! i") (simp add: upd_window_def)
  show ?thesis
  proof (cases "pci_bus_alloc_resource k (claimed s) (sizel d)")
    case (Inl e)
    with r False i l undo show ?thesis
      by (auto simp: create_window_locked_def km create_outs comp_def)
  next
    case (Inr start)
    show ?thesis
    proof (cases "ioremap k start (sizel d) = 0")
      case True
      with Inr r False i l undo show ?thesis
        by (auto simp: create_window_locked_def km create_outs comp_def create_out_release_def release_resource_def
            intro!: exI [of _ "tl (ooms s)"] wstate.equality)
    next
      case va: False
      obtain q d1 c where q: "tsi148_create_window (create_request k d start) (chip s) = (q, d1, c)"
        by (cases "tsi148_create_window (create_request k d start) (chip s)") auto
      show ?thesis
      proof (cases q)
        case (Inl e)
        with q have "c = chip s" by (auto dest: tsi148_hw.create_fail)
        with Inl Inr va r False i l undo q show ?thesis
          by (auto simp: create_window_locked_def km create_outs comp_def create_out_release_def release_resource_def
              create_out_unmap_def iounmap_def create_request_def Let_def intro!: exI [of _ "tl (ooms s)"] wstate.equality)
      next
        case (Inr u)
        with va r False i l q \<open>pci_bus_alloc_resource k (claimed s) (sizel d) = Inr start\<close> show ?thesis
          by (auto simp: create_window_locked_def km comp_def unlock_held created_state_def create_request_def
              Let_def upd_window_def)
      qed
    qed
  qed
qed

lemma vme_create_window_cases:
  assumes inv: "wins_inv s" and r: "vme_create_window k d s = (r, d', s')"
  shows "(\<exists>e. r = Inl e \<and> quiet s s') \<or>
    (\<exists>i start c b s1. r = OK \<and> i < 8 \<and> window_num d = int i \<and> sizel d \<noteq> 0 \<and> quiet s s1
      \<and> \<not> active (window_table s ! i)
      \<and> pci_bus_alloc_resource k (claimed s) (sizel (align_request d)) = Inr start
      \<and> ioremap k start (sizel (align_request d)) \<noteq> 0
      \<and> tsi148_create_window (create_request k (align_request d) start) (chip s) = (OK, d', c)
      \<and> s' = created_state k i (align_request d) d' c b start s1)"
proof (cases "window_num_ok (window_num d) \<and> sizel d \<noteq> 0")
  case False
  with r have "\<exists>e. r = Inl e \<and> s' = s" by (auto simp: vme_create_window_def split: if_splits)
  then show ?thesis by auto
next
  case True
  define i where "i = nat (window_num d)"
  with True have i: "i < 8" "window_num d = int i" by (auto simp: window_num_ok_nat)
  note W = wins_inv_window [OF inv i(1)]
  let ?a = "align_request d"
  have n: "nat (window_num ?a) = i" by (simp add: align_request_aligned i(2))
  show ?thesis
  proof (cases "signals s \<noteq> [] \<and> hd (signals s)")
    case True': True
    with r True W(1,2) show ?thesis by (auto simp: vme_create_window_def Let_def n lock_free)
  next
    case False
    let ?s = "upd_window i (\<lambda>w. w\<lparr>locked := True\<rparr>) (s\<lparr>signals := tl (signals s)\<rparr>)"
    from False r True W(1,2) have "create_window_locked k i ?a ?s = (r, d', s')"
      by (auto simp: vme_create_window_def Let_def n lock_free)
    from create_window_locked_cases [OF _ _ _ this] W(1,4)
    have "(\<exists>e b. r = Inl e \<and> s' = upd_window i (\<lambda>w. w\<lparr>locked := False\<rparr>) (?s\<lparr>ooms := b\<rparr>)) \<or>
      (\<exists>start c b. r = OK \<and> \<not> active (window_table s ! i)
        \<and> pci_bus_alloc_resource k (claimed s) (sizel ?a) = Inr start \<and> ioremap k start (sizel ?a) \<noteq> 0
        \<and> tsi148_create_window (create_request k ?a start) (chip s) = (OK, d', c)
        \<and> s' = created_state k i ?a d' c b start (?s\<lparr>ooms := tl (ooms s)\<rparr>))"
      by simp
    moreover have "upd_window i (\<lambda>w. w\<lparr>locked := False\<rparr>) (?s\<lparr>ooms := b\<rparr>) = s\<lparr>signals := tl (signals s), ooms := b\<rparr>" for b
      using W(1,2) by (simp add: comp_def upd_window_id window_restore)
    moreover have "created_state k i ?a d' c b start (?s\<lparr>ooms := tl (ooms s)\<rparr>) =
        created_state k i ?a d' c b start (s\<lparr>signals := tl (signals s), ooms := tl (ooms s)\<rparr>)" for c b start
      using W(1) by (simp add: created_state_def upd_window_def)
    ultimately show ?thesis
      using i True quiet_refl(4) [of s] by metis
  qed
qed

subsection \<open>Creation keeps the invariant\<close>

lemma held_update:
  assumes "i < length ws"
  shows "held_resources (ws[i := w]) + (if active (ws ! i) then {#(rsrc_start (rsrc (ws ! i)), rsrc_end (rsrc (ws ! i)))#} else {#})
      = held_resources ws + (if active w then {#(rsrc_start (rsrc w), rsrc_end (rsrc w))#} else {#})"
    and "held_iomaps (ws[i := w]) + (if active (ws ! i) then {#kernel_va (desc (ws ! i))#} else {#})
      = held_iomaps ws + (if active w then {#kernel_va (desc w)#} else {#})"
  unfolding held_resources_def held_iomaps_def
  using mset_filter_update [OF assms, of "\<lambda>w. (rsrc_start (rsrc w), rsrc_end (rsrc w))" active w]
    mset_filter_update [OF assms, of "\<lambda>w. kernel_va (desc w)" active w] by simp_all

lemma created_bank_ok:
  assumes "tsi148_create_window d c = (OK, d', c')" and "nat (window_num d) < length (otrans c)"
  shows "bank_ok d' (otrans c' ! nat (window_num d))" and "j \<noteq> nat (window_num d) \<Longrightarrow> otrans c' ! j = otrans c ! j"
proof -
  obtain w where w: "tsi148_setup_window_attributes (v2esst_mode d) (data_width d) (am d) = Inr w"
    and p: "pci_addrl d AND 0xffff = 0"
    and t: "otrans c' ! nat (window_num d) = ot_writes (create_window_writes (d'\<lparr>window_enabled := window_enabled d\<rparr>) w) (otrans c ! nat (window_num d))"
    using created_bank [OF assms] by blast
  have "pci_addrl d' = pci_addrl d" by (simp add: create_window_desc [OF assms(1)])
  with p have "pci_addrl d' AND TSI148_LCSR_OTSAL_M = pci_addrl d'" by (simp add: and_OTSAL_M)
  with t window_otat_decode(1) [OF w] show "bank_ok d' (otrans c' ! nat (window_num d))"
    by (simp add: bank_ok_def ot_enabled_def ot_writes_create sub64hi_exact)
  show "j \<noteq> nat (window_num d) \<Longrightarrow> otrans c' ! j = otrans c ! j"
    by (cases rule: create_window_cases [OF assms(1)]) (simp_all add: chip_ot_writes_def)
qed

text \<open>Replacing window \<open>i\<close> and its bank in a state that satisfies the invariant.\<close>

lemma wins_inv_update:
  assumes inv: "wins_inv s" and i: "i < 8" and c: "chip_wf c"
    and frame: "\<And>j. j \<noteq> i \<Longrightarrow> otrans c ! j = otrans (chip s) ! j"
    and ok: "win_ok i w (otrans c ! i)"
    and tab: "window_table s' = (window_table s)[i := w]" and s': "chip s' = c" "lock_fault s' = lock_fault s"
    and cl: "mset (claimed s') = held_resources (window_table s')"
    and io: "mset (iomaps s') = held_iomaps (window_table s')"
  shows "wins_inv s'"
proof -
  have "\<forall>j<8. win_ok j ((window_table s)[i := w] ! j) (otrans c ! j)"
  proof (intro allI impI)
    fix j :: nat assume "j < 8"
    with inv i ok frame [of j] show "win_ok j ((window_table s)[i := w] ! j) (otrans c ! j)"
      by (cases "j = i") (auto simp: wins_inv_def)
  qed
  with inv c tab s' cl io show ?thesis by (simp add: wins_inv_def)
qed

lemma created_state_inv:
  assumes inv: "wins_inv s" and i: "i < 8" "window_num a = int i" and na: "\<not> active (window_table s ! i)"
    and al: "vme_addrl a AND 0xffff = 0" "sizel a AND 0xffff = 0"
    and cr: "tsi148_create_window (create_request k a start) (chip s) = (OK, d', c)"
  shows "wins_inv (created_state k i a d' c b start s)"
proof -
  note W = wins_inv_window [OF inv i(1)]
  have n: "nat (window_num (create_request k a start)) = i" by (simp add: create_request_def i(2))
  have d': "d' = (create_request k a start)\<lparr>window_enabled := True\<rparr>"
    using create_window_aligned [OF cr] al by (simp add: create_request_def)
  have p: "pci_addrl (create_request k a start) AND 0xffff = 0"
    by (cases rule: create_window_cases [OF cr]) simp_all
  have wf: "chip_wf c"
    using tsi148_hw.create_wf [OF cr] inv i by (simp add: wins_inv_def create_request_def window_num_ok_nat)
  have bank: "bank_ok d' (otrans c ! i)" and frame: "\<And>j. j \<noteq> i \<Longrightarrow> otrans c ! j = otrans (chip s) ! j"
    using created_bank_ok [OF cr] W(8) n by auto
  let ?w = "(window_table s ! i)\<lparr>
         rsrc := \<lparr>rsrc_start = start, rsrc_end = start + ucast (sizel a) - 1, rsrc_mem = True, rsrc_name = b\<rparr>,
         desc := d', active := True, locked := False\<rparr>"
  have ok: "win_ok i ?w (otrans c ! i)"
    using bank W(3) al i p by (simp add: win_ok_def d' create_request_def)
  show ?thesis
    by (rule wins_inv_update [OF inv i(1) wf frame ok])
      (use inv na W(1) held_update [OF W(1), of ?w] in
        \<open>simp_all add: created_state_def wins_inv_def d' create_request_def\<close>)
qed

lemma vme_create_window_inv:
  assumes "wins_inv s" and "vme_create_window k d s = (r, d', s')"
  shows "wins_inv s'"
  using vme_create_window_cases [OF assms]
proof (elim disjE exE conjE)
  fix i start c b s1
  assume "i < 8" "window_num d = int i" "quiet s s1" "\<not> active (window_table s ! i)"
    and "tsi148_create_window (create_request k (align_request d) start) (chip s) = (OK, d', c)"
    and "s' = created_state k i (align_request d) d' c b start s1"
  with assms(1) show ?thesis
    using created_state_inv [of s1 i "align_request d" k start d' c b]
    by (simp add: quiet_inv quiet_sel align_request_aligned(1-4))
qed (use assms(1) quiet_inv in blast)

subsection \<open>Destruction\<close>

definition destroyed_window :: "window \<Rightarrow> window" where
  "destroyed_window w = w\<lparr>locked := False, active := False, rsrc := resource_zero,
     desc := (desc w)\<lparr>kernel_va := 0, window_enabled := False\<rparr>, mappings := [], users := 0\<rparr>"

definition destroyed_state :: "nat \<Rightarrow> wstate \<Rightarrow> wstate" where
  "destroyed_state i s =
     (let w = window_table s ! i
      in s\<lparr>iomaps := remove1 (kernel_va (desc w)) (iomaps s),
           chip := chip_ot_writes (nat (window_num (desc w))) remove_window_writes (chip s),
           claimed := remove1 (rsrc_start (rsrc w), rsrc_end (rsrc w)) (claimed s),
           window_table := (window_table s)[i := destroyed_window w]\<rparr>)"

lemma destroy_window_locked_active:
  assumes "i < length (window_table s)" and "locked (window_table s ! i)" and "active (window_table s ! i)"
    and "users (window_table s ! i) = int (length (mappings (window_table s ! i)))"
  shows "destroy_window_locked i s = (OK, destroyed_state i s)"
  using assms
  by (cases "window_table s ! i")
    (auto simp: destroy_window_locked_def Let_def tsi148_remove_window_def iounmap_def release_resource_def
        destroyed_state_def destroyed_window_def unlock_held upd_window_def)

lemma vme_destroy_window_cases:
  assumes inv: "wins_inv s" and r: "vme_destroy_window n s = (r, s')"
  shows "(\<exists>e. r = Inl e \<and> quiet s s') \<or>
    (\<exists>i s1. r = OK \<and> i < 8 \<and> n = int i \<and> quiet s s1 \<and> active (window_table s ! i) \<and> s' = destroyed_state i s1)"
proof (cases "window_num_ok n")
  case False
  with r show ?thesis by (auto simp: vme_destroy_window_def)
next
  case True
  then obtain i where i: "i < 8" "n = int i" by (auto simp: window_num_ok_nat intro: that [of "nat n"])
  note W = wins_inv_window [OF inv i(1)]
  let ?s = "upd_window i (\<lambda>w. w\<lparr>locked := True\<rparr>) (s\<lparr>signals := tl (signals s)\<rparr>)"
  show ?thesis
  proof (cases "signals s \<noteq> [] \<and> hd (signals s)")
    case True': True
    with r True i W(1,2) show ?thesis by (auto simp: vme_destroy_window_def Let_def lock_free)
  next
    case False
    then have l: "destroy_window_locked i ?s = (r, s')"
      using r True i W(1,2) by (auto simp: vme_destroy_window_def Let_def lock_free)
    show ?thesis
    proof (cases "active (window_table s ! i)")
      case True
      then have "destroy_window_locked i ?s = (OK, destroyed_state i ?s)"
        using W(1,3) by (intro destroy_window_locked_active) auto
      moreover have "destroyed_state i ?s = destroyed_state i (s\<lparr>signals := tl (signals s)\<rparr>)"
        using W(1) by (simp add: destroyed_state_def destroyed_window_def upd_window_def Let_def)
      ultimately show ?thesis using l i True by (metis prod.inject quiet_refl(2))
    next
      case False
      with l have "r = Inl EINVAL \<and> s' = s\<lparr>signals := tl (signals s)\<rparr>"
        using W(1,2) by (auto simp: destroy_window_locked_def unlock_held comp_def upd_window_id window_restore)
      then show ?thesis by simp
    qed
  qed
qed

lemma destroyed_state_inv:
  assumes inv: "wins_inv s" and i: "i < 8" and a: "active (window_table s ! i)"
  shows "wins_inv (destroyed_state i s)"
proof -
  note W = wins_inv_window [OF inv i]
  let ?w = "window_table s ! i" and ?c = "chip_ot_writes i remove_window_writes (chip s)"
  have n: "nat (window_num (desc ?w)) = i" using W(6) [OF a] by simp
  have frame: "\<And>j. j \<noteq> i \<Longrightarrow> otrans ?c ! j = otrans (chip s) ! j" by (simp add: chip_ot_writes_def)
  have ok: "win_ok i (destroyed_window ?w) (otrans ?c ! i)"
    using W(8) by (simp add: win_ok_def destroyed_window_def chip_ot_writes_def ot_writes_remove otrans_zero_def ot_enabled_def)
  have wf: "chip_wf ?c" using inv by (simp add: wins_inv_def)
  have "add_mset (rsrc_start (rsrc ?w), rsrc_end (rsrc ?w)) (held_resources ((window_table s)[i := destroyed_window ?w]))
      = held_resources (window_table s)"
    "add_mset (kernel_va (desc ?w)) (held_iomaps ((window_table s)[i := destroyed_window ?w])) = held_iomaps (window_table s)"
    using held_update [OF W(1), of "destroyed_window ?w"] a by (simp_all add: destroyed_window_def)
  then have "held_resources ((window_table s)[i := destroyed_window ?w]) =
      held_resources (window_table s) - {#(rsrc_start (rsrc ?w), rsrc_end (rsrc ?w))#}"
    "held_iomaps ((window_table s)[i := destroyed_window ?w]) = held_iomaps (window_table s) - {#kernel_va (desc ?w)#}"
    by (metis add_mset_remove_trivial)+
  with inv n show ?thesis
    by (intro wins_inv_update [OF inv i wf frame ok])
      (simp_all add: destroyed_state_def wins_inv_def Let_def)
qed

lemma vme_destroy_window_inv:
  assumes "wins_inv s" and "vme_destroy_window n s = (r, s')"
  shows "wins_inv s'"
  using vme_destroy_window_cases [OF assms] assms(1)
  by (auto simp: quiet_inv quiet_sel intro!: destroyed_state_inv)

subsection \<open>Mappings of a window\<close>

definition set_mappings :: "nat \<Rightarrow> mapping list \<Rightarrow> wstate \<Rightarrow> wstate" where
  "set_mappings i ms s = upd_window i (\<lambda>w. w\<lparr>mappings := ms, users := int (length ms)\<rparr>) s"

lemma set_mappings_sel [simp]:
  "i < length (window_table s) \<Longrightarrow> window_table (set_mappings i ms s) ! j =
     (if j = i then (window_table s ! i)\<lparr>mappings := ms, users := int (length ms)\<rparr> else window_table s ! j)"
  "chip (set_mappings i ms s) = chip s" "claimed (set_mappings i ms s) = claimed s"
  "iomaps (set_mappings i ms s) = iomaps s" "length (window_table (set_mappings i ms s)) = length (window_table s)"
  by (simp_all add: set_mappings_def)

lemma set_mappings_inv:
  assumes inv: "wins_inv s" and i: "i < 8" and a: "active (window_table s ! i)"
  shows "wins_inv (set_mappings i ms s)"
proof -
  let ?w = "(window_table s ! i)\<lparr>mappings := ms, users := int (length ms)\<rparr>"
  have ok: "win_ok i ?w (otrans (chip s) ! i)"
    using inv i a by (auto simp: wins_inv_def win_ok_def)
  note W = wins_inv_window [OF inv i]
  show ?thesis
    using inv a held_update [OF W(1), of ?w]
    by (intro wins_inv_update [OF inv i _ _ ok]) (simp_all add: set_mappings_def upd_window_def wins_inv_def)
qed

definition new_client :: "kernel \<Rightarrow> filp option \<Rightarrow> vme_taskinfo" where
  "new_client k f = (case f of
       Some _ \<Rightarrow> \<lparr> pid_nr = current_pid k, name = current_comm k, client_file = f \<rparr>
     | None \<Rightarrow> \<lparr> pid_nr = 0, name = ''kernel'', client_file = None \<rparr>)"

lemma new_client_file [simp]: "client_file (new_client k f) = f"
  by (simp add: new_client_def split: option.splits)

lemma add_mapping_cases:
  assumes "i < length (window_table s)"
    and "users (window_table s ! i) = int (length (mappings (window_table s ! i)))"
    and "add_mapping k i d f s = (r, s')"
  shows "(r = Inl ENOMEM \<and> s' = s\<lparr>ooms := tl (ooms s)\<rparr>) \<or>
    (r = OK \<and> s' = set_mappings i (mappings (window_table s ! i) @ [\<lparr> map_desc = d, client = new_client k f \<rparr>])
       (s\<lparr>ooms := tl (ooms s)\<rparr>))"
proof -
  obtain nm where km: "kmalloc s = (nm, s\<lparr>ooms := tl (ooms s)\<rparr>)"
    using kmalloc_cases by metis
  from assms show ?thesis
    by (auto simp: add_mapping_def km Let_def set_mappings_def upd_window_def new_client_def add.commute split: if_splits option.splits)
qed

subsection \<open>The search\<close>

lemma window_matches_locked [simp]: "window_matches m (w\<lparr>locked := b\<rparr>) = window_matches m w"
  by (simp add: window_matches_def)

lemma lock_unlock:
  assumes "i < length (window_table s)" and "\<not> locked (window_table s ! i)"
  shows "mutex_unlock i (upd_window i (\<lambda>w. w\<lparr>locked := True\<rparr>) s) = s"
  using assms by (simp add: unlock_held comp_def upd_window_id window_restore)

definition lock_window :: "nat \<Rightarrow> wstate \<Rightarrow> wstate" where
  "lock_window i s = upd_window i (\<lambda>w. w\<lparr>locked := True\<rparr>) s"

lemma lock_step:
  assumes "wins_inv s" and "i < 8"
  obtains (intr) "mutex_lock_interruptible i s = (True, s\<lparr>signals := tl (signals s)\<rparr>)"
  | (held) "mutex_lock_interruptible i s = (False, lock_window i (s\<lparr>signals := tl (signals s)\<rparr>))"
      "mutex_unlock i (lock_window i (s\<lparr>signals := tl (signals s)\<rparr>)) = s\<lparr>signals := tl (signals s)\<rparr>"
proof -
  note W = wins_inv_window [OF assms]
  have "mutex_unlock i (lock_window i (s\<lparr>signals := tl (signals s)\<rparr>)) = s\<lparr>signals := tl (signals s)\<rparr>"
    unfolding lock_window_def using W(1,2) by (intro lock_unlock) simp_all
  with lock_free [OF W(1,2)] show thesis
    using intr held by (auto simp: lock_window_def split: if_splits)
qed

lemma lock_window_sel [simp]:
  "i < length (window_table s) \<Longrightarrow> window_table (lock_window i s) ! j =
     (if j = i then (window_table s ! i)\<lparr>locked := True\<rparr> else window_table s ! j)"
  "length (window_table (lock_window i s)) = length (window_table s)"
  "chip (lock_window i s) = chip s" "claimed (lock_window i s) = claimed s" "iomaps (lock_window i s) = iomaps s"
  "ooms (lock_window i s) = ooms s" "signals (lock_window i s) = signals s"
  by (simp_all add: lock_window_def)

lemma find_window_loop_cases:
  assumes "wins_inv s" and "set is \<subseteq> {..<8}" and "find_window_loop m is s = (r, s')"
  shows "\<exists>s1. quiet s s1 \<and>
    ((r = Interrupted \<and> s' = s1)
     \<or> (\<exists>i. r = Window_Found i \<and> find (\<lambda>i. window_matches m (window_table s ! i)) is = Some i \<and> s' = lock_window i s1)
     \<or> (r = No_Match \<and> find (\<lambda>i. window_matches m (window_table s ! i)) is = None \<and> s' = s1))"
  using assms
proof (induction "is" arbitrary: s)
  case Nil
  then show ?case by auto
next
  case (Cons i "is")
  let ?s = "s\<lparr>signals := tl (signals s)\<rparr>"
  have i: "i < 8" using Cons.prems(2) by simp
  note W = wins_inv_window [OF Cons.prems(1) i]
  show ?case
  proof (cases rule: lock_step [OF Cons.prems(1) i])
    case 1
    with Cons.prems(3) show ?thesis by (intro exI [of _ ?s]) auto
  next
    case 2
    show ?thesis
    proof (cases "window_matches m (window_table s ! i)")
      case True
      with 2 Cons.prems(3) W(1) show ?thesis by (intro exI [of _ ?s]) auto
    next
      case False
      with 2 Cons.prems(3) W(1) have "find_window_loop m is ?s = (r, s')" by simp
      with Cons.IH [of ?s] Cons.prems False obtain s1 where "quiet ?s s1" and
        "(r = Interrupted \<and> s' = s1)
         \<or> (\<exists>i. r = Window_Found i \<and> find (\<lambda>i. window_matches m (window_table s ! i)) is = Some i \<and> s' = lock_window i s1)
         \<or> (r = No_Match \<and> find (\<lambda>i. window_matches m (window_table s ! i)) is = None \<and> s' = s1)"
        using quiet_inv [of s ?s] by auto
      with False show ?thesis
        using quiet_trans [OF quiet_refl(2)] by (intro exI [of _ s1]) auto
    qed
  qed
qed

subsection \<open>Finding a mapping\<close>

abbreviation first_match :: "vme_mapping \<Rightarrow> wstate \<Rightarrow> nat option" where
  "first_match m s \<equiv> find (\<lambda>i. window_matches m (window_table s ! i)) [0..<8]"

abbreviation first_unused :: "wstate \<Rightarrow> nat option" where
  "first_unused s \<equiv> find (\<lambda>i. \<not> active (window_table s ! i)) [0..<8]"

definition mapped_state :: "kernel \<Rightarrow> nat \<Rightarrow> vme_mapping \<Rightarrow> filp option \<Rightarrow> wstate \<Rightarrow> wstate" where
  "mapped_state k i m f s =
     set_mappings i (mappings (window_table s ! i) @ [\<lparr> map_desc = m, client = new_client k f \<rparr>]) s"

lemma find_bound: "find p [0..<n] = Some i \<Longrightarrow> i < n \<and> p i"
  by (auto simp: find_Some_iff)

lemma unlock_add:
  assumes "wins_inv s" and "i < 8" and "add_mapping k i d f (lock_window i s) = (r, s')"
  shows "\<exists>s1. quiet s s1 \<and> ((r = Inl ENOMEM \<and> mutex_unlock i s' = s1)
      \<or> (r = OK \<and> mutex_unlock i s' = mapped_state k i d f s1))"
proof -
  note W = wins_inv_window [OF assms(1,2)]
  let ?s = "s\<lparr>ooms := tl (ooms s)\<rparr>"
  have q: "quiet s ?s" by simp
  have u: "mutex_unlock i (lock_window i s\<lparr>ooms := b\<rparr>) = s\<lparr>ooms := b\<rparr>" for b
    using W(1,2) by (simp add: lock_window_def unlock_held comp_def upd_window_id window_restore)
  have v: "mutex_unlock i (set_mappings i (mappings (window_table s ! i) @ [x]) (lock_window i s\<lparr>ooms := b\<rparr>))
      = set_mappings i (mappings (window_table s ! i) @ [x]) (s\<lparr>ooms := b\<rparr>)" for x b
    using W(1,2) by (cases "window_table s ! i") (simp add: set_mappings_def lock_window_def unlock_held upd_window_def)
  from add_mapping_cases [OF _ _ assms(3)] W(1,3) show ?thesis
    by (intro exI [of _ ?s]) (auto simp: u v mapped_state_def)
qed

lemma vme_find_mapping_cases:
  assumes inv: "wins_inv s" and r: "vme_find_mapping_file k m force f s = (r, m', s')"
  shows "(\<exists>e. r = Inl e \<and> quiet s s') \<or>
    (\<exists>i s1. r = OK \<and> first_match m s = Some i \<and> quiet s s1
       \<and> m' = place_mapping (desc (window_table s ! i)) m (int i) \<and> s' = mapped_state k i m' f s1) \<or>
    (\<exists>i s1 s2 wnd. force \<and> first_match m s = None \<and> first_unused s = Some i \<and> quiet s s1
       \<and> vme_create_window k (vme_optimize_window_size (m\<lparr>window_num := int i\<rparr>)) s1 = (OK, wnd, s2)
       \<and> m' = place_mapping (desc (window_table s2 ! i)) m (int i)
       \<and> ((r = OK \<and> (\<exists>b. s' = mapped_state k i m' f (s2\<lparr>ooms := b\<rparr>))) \<or> (r = Inl ENOMEM \<and> quiet s2 s')))"
proof (cases "vme_mapping_sanity_check m")
  case (Inl e)
  with r show ?thesis by (intro disjI1 exI [of _ e]) (auto simp: vme_find_mapping_file_def)
next
  case (Inr u)
  obtain q s0 where q: "find_window_loop m [0..<8] s = (q, s0)" by fastforce
  obtain s1 where s1: "quiet s s1" and cases: "(q = Interrupted \<and> s0 = s1)
       \<or> (\<exists>i. q = Window_Found i \<and> first_match m s = Some i \<and> s0 = lock_window i s1)
       \<or> (q = No_Match \<and> first_match m s = None \<and> s0 = s1)"
    using find_window_loop_cases [OF inv _ q] by (auto simp: atLeast0LessThan)
  have inv1: "wins_inv s1" using inv s1 by (simp add: quiet_inv)
  from cases show ?thesis
  proof (elim disjE exE conjE)
    assume "q = Interrupted" "s0 = s1"
    with Inr q r s1 show ?thesis by (intro disjI1) (auto simp: vme_find_mapping_file_def hw_consts)
  next
    fix i assume i: "q = Window_Found i" "first_match m s = Some i" "s0 = lock_window i s1"
    then have i8: "i < 8" by (auto dest: find_bound)
    let ?m = "place_mapping (desc (window_table s ! i)) m (int i)"
    obtain r2 s2 where a: "add_mapping k i ?m f (lock_window i s1) = (r2, s2)" by fastforce
    have "r = r2 \<and> m' = ?m \<and> s' = mutex_unlock i s2"
      using Inr q r i a i8 wins_inv_window(1) [OF inv1 i8]
      by (auto simp: vme_find_mapping_file_def hw_consts Let_def quiet_sel [OF s1])
    with unlock_add [OF inv1 i8 a] i s1 show ?thesis
      using quiet_trans [OF s1] by metis
  next
    assume n: "q = No_Match" "first_match m s = None" "s0 = s1"
    show ?thesis
    proof (cases "force \<and> first_unused s \<noteq> None")
      case False
      with Inr q r n s1 show ?thesis
        by (intro disjI1)
          (auto simp: vme_find_mapping_file_def hw_consts quiet_sel [OF s1] split: if_splits option.splits)
    next
      case True
      then obtain i where i: "first_unused s = Some i" by auto
      then have i8: "i < 8" by (auto dest: find_bound)
      let ?w = "vme_optimize_window_size (m\<lparr>window_num := int i\<rparr>)"
      have wn: "window_num ?w = int i" by (simp add: vme_optimize_window_size_def Let_def)
      obtain rc wnd s2 where c: "vme_create_window k ?w s1 = (rc, wnd, s2)" by (metis prod_cases3)
      have inv2: "wins_inv s2" using vme_create_window_inv [OF inv1 c] .
      show ?thesis
      proof (cases rc)
        case (Inl e)
        with vme_create_window_cases [OF inv1 c] have "quiet s1 s2" by auto
        with Inl Inr q r n s1 i c True show ?thesis
          using quiet_trans [OF s1]
          by (intro disjI1) (auto simp: vme_find_mapping_file_def hw_consts quiet_sel [OF s1])
      next
        case Inr': (Inr u')
        with vme_create_window_cases [OF inv1 c] have w: "window_num wnd = int i"
          using create_window_aligned(1) wn
          by (auto simp: create_request_def align_request_aligned(1-4) dest!: create_window_desc)
        let ?m = "place_mapping (desc (window_table s2 ! i)) m (int i)"
        obtain r3 s3 where a: "add_mapping k i ?m f s2 = (r3, s3)" by fastforce
        have "r = r3 \<and> m' = ?m \<and> s' = s3"
          using Inr Inr' q r n i c a True by (auto simp: vme_find_mapping_file_def hw_consts quiet_sel [OF s1] Let_def w)
        with add_mapping_cases [OF wins_inv_window(1,3) [OF inv2 i8] a] n i s1 c Inr' True show ?thesis
          by (auto simp: mapped_state_def)
      qed
    qed
  qed
qed

lemma mapped_state_inv: "wins_inv s \<Longrightarrow> i < 8 \<Longrightarrow> active (window_table s ! i) \<Longrightarrow> wins_inv (mapped_state k i m f s)"
  by (simp add: mapped_state_def set_mappings_inv)

lemma created_active:
  assumes "wins_inv s" and "vme_create_window k d s = (OK, d', s')" and "window_num d = int i"
  shows "active (window_table s' ! i)" and "desc (window_table s' ! i) = d'"
  using vme_create_window_cases [OF assms(1,2)] assms(1,3) wins_inv_window(1) [OF assms(1), of i]
  by (auto simp: created_state_def quiet_sel)

lemma optimize_window_num [simp]: "window_num (vme_optimize_window_size d) = window_num d"
  by (simp add: vme_optimize_window_size_def Let_def)

lemma vme_find_mapping_inv:
  assumes inv: "wins_inv s" and r: "vme_find_mapping_file k m force f s = (r, m', s')"
  shows "wins_inv s'"
  using vme_find_mapping_cases [OF assms]
proof (elim disjE exE conjE)
  fix e assume "quiet s s'"
  then show ?thesis using inv by (simp add: quiet_inv)
next
  fix i s1 assume "first_match m s = Some i" "quiet s s1" "s' = mapped_state k i m' f s1"
  then show ?thesis
    using inv find_bound by (force simp: window_matches_def quiet_inv quiet_sel intro!: mapped_state_inv)
next
  fix i s1 s2 wnd b
  assume u: "first_unused s = Some i" "quiet s s1"
    and c: "vme_create_window k (vme_optimize_window_size (m\<lparr>window_num := int i\<rparr>)) s1 = (OK, wnd, s2)"
  have inv1: "wins_inv s1" using inv u(2) by (simp add: quiet_inv)
  note inv2 = vme_create_window_inv [OF inv1 c] and act = created_active(1) [OF inv1 c, of i]
  { assume "s' = mapped_state k i m' f (s2\<lparr>ooms := b\<rparr>)"
    with u act show ?thesis
      using quiet_inv [of s2 "s2\<lparr>ooms := b\<rparr>"] inv2 find_bound [OF u(1)] by (simp add: mapped_state_inv) }
  { assume "quiet s2 s'"
    with inv2 show ?thesis by (simp add: quiet_inv) }
qed

subsection \<open>Releasing mappings\<close>

lemma remove_first_length: "remove_first p xs = Some ys \<Longrightarrow> length xs = Suc (length ys)"
  by (induction xs arbitrary: ys) (auto split: if_splits)

lemma vme_release_mapping_cases:
  assumes inv: "wins_inv s" and r: "vme_release_mapping_file d force f s = (r, s')"
  shows "(\<exists>e. r = Inl e \<and> quiet s s') \<or>
    (\<exists>i ms s1. i < 8 \<and> window_num d = int i \<and> active (window_table s ! i) \<and> quiet s s1
       \<and> remove_first (mapping_matches d f) (mappings (window_table s ! i)) = Some ms
       \<and> (if ms = [] \<and> force then vme_destroy_window (window_num d) (set_mappings i ms s1) = (r, s')
          else r = OK \<and> s' = set_mappings i ms s1))"
proof (cases "window_num_ok (window_num d)")
  case False
  with r show ?thesis by (intro disjI1) (auto simp: vme_release_mapping_file_def)
next
  case True
  define i where "i = nat (window_num d)"
  with True have i: "i < 8" "window_num d = int i" by (auto simp: window_num_ok_nat)
  note W = wins_inv_window [OF inv i(1)]
  let ?s = "s\<lparr>signals := tl (signals s)\<rparr>"
  show ?thesis
  proof (cases rule: lock_step [OF inv i(1)])
    case 1
    with r True i show ?thesis by (intro disjI1) (auto simp: vme_release_mapping_file_def)
  next
    case 2
    show ?thesis
    proof (cases "remove_first (mapping_matches d f) (mappings (window_table s ! i))")
      case None
      with 2 r True i W(1) have "(\<exists>e. r = Inl e) \<and> s' = ?s"
        by (auto simp: vme_release_mapping_file_def Let_def remove_mapping_def split: if_splits)
      then show ?thesis by (intro disjI1) auto
    next
      case (Some ms)
      let ?t = "upd_window i (\<lambda>w. w\<lparr>mappings := ms, users := users w - 1\<rparr>) (lock_window i ?s)"
      have rm: "remove_mapping i d f (lock_window i ?s) = (OK, ?t)"
        using Some W(1) by (simp add: remove_mapping_def)
      have len: "length (mappings (window_table s ! i)) = Suc (length ms)"
        by (rule remove_first_length [OF Some])
      have u: "mutex_unlock i ?t = set_mappings i ms ?s"
        using W(1,2,3) len
        by (cases "window_table s ! i") (simp add: lock_window_def set_mappings_def unlock_held upd_window_def)
      show ?thesis
      proof (cases "active (window_table s ! i)")
        case False
        with W(5) Some show ?thesis by simp
      next
        case act: True
        with 2 r True i W(1,3) rm u len
        have "if ms = [] \<and> force then vme_destroy_window (window_num d) (set_mappings i ms ?s) = (r, s')
          else r = OK \<and> s' = set_mappings i ms ?s"
          by (auto simp: vme_release_mapping_file_def Let_def split: if_splits)
        with i act Some show ?thesis
          by (intro disjI2) (rule exI [of _ i], rule exI [of _ ms], rule exI [of _ ?s], simp)
      qed
    qed
  qed
qed

lemma vme_release_mapping_inv:
  assumes inv: "wins_inv s" and r: "vme_release_mapping_file d force f s = (r, s')"
  shows "wins_inv s'"
  using vme_release_mapping_cases [OF assms]
proof (elim disjE exE conjE)
  fix i ms s1
  assume i: "i < 8" and "active (window_table s ! i)" and q: "quiet s s1"
    and c: "if ms = [] \<and> force then vme_destroy_window (window_num d) (set_mappings i ms s1) = (r, s')
          else r = OK \<and> s' = set_mappings i ms s1"
  then have "wins_inv (set_mappings i ms s1)"
    using inv by (intro set_mappings_inv) (simp_all add: quiet_inv quiet_sel)
  with c show ?thesis by (auto intro: vme_destroy_window_inv split: if_splits)
qed (use inv quiet_inv in blast)

subsection \<open>Closing a device file\<close>

definition not_of_file :: "filp \<Rightarrow> mapping \<Rightarrow> bool" where
  "not_of_file f m \<longleftrightarrow> client_file (client m) \<noteq> Some f"

lemma drop_file_mappings_eq:
  "drop_file_mappings f ms u = (filter (not_of_file f) ms, u - int (length ms) + int (length (filter (not_of_file f) ms)))"
  by (induction ms arbitrary: u) (auto simp: not_of_file_def)

lemma release_step:
  assumes inv: "wins_inv s" and i: "i < 8"
    and h: "mutex_lock_interruptible i s = (False, s1)"
  shows "vme_window_release_loop f (i # is) s = vme_window_release_loop f is
     (set_mappings i (filter (not_of_file f) (mappings (window_table s ! i))) (s\<lparr>signals := tl (signals s)\<rparr>))"
proof -
  note W = wins_inv_window [OF inv i]
  have s1: "s1 = lock_window i (s\<lparr>signals := tl (signals s)\<rparr>)"
    using h by (cases rule: lock_step [OF inv i]) simp_all
  have "mutex_unlock i (if \<not> active (window_table s1 ! i) \<or> mappings (window_table s1 ! i) = [] then s1
       else let (ms, u) = drop_file_mappings f (mappings (window_table s1 ! i)) (users (window_table s1 ! i))
            in upd_window i (\<lambda>w. w\<lparr>mappings := ms, users := u\<rparr>) s1)
     = set_mappings i (filter (not_of_file f) (mappings (window_table s ! i))) (s\<lparr>signals := tl (signals s)\<rparr>)"
    using W(1,2,3,5)
    by (cases "window_table s ! i")
      (auto simp: s1 lock_window_def set_mappings_def drop_file_mappings_eq unlock_held upd_window_def)
  with h show ?thesis by (simp add: Let_def)
qed

lemma set_mappings_same_inv:
  assumes "wins_inv s" and "i < 8"
  shows "wins_inv (set_mappings i (filter p (mappings (window_table s ! i))) s)"
proof (cases "active (window_table s ! i)")
  case False
  with wins_inv_window [OF assms] have "set_mappings i (filter p (mappings (window_table s ! i))) s = s"
    by (cases "window_table s ! i") (auto simp: set_mappings_def intro!: upd_window_id)
  with assms show ?thesis by simp
qed (use assms set_mappings_inv in blast)

lemma vme_window_release_loop_result:
  assumes "wins_inv s" and "set is \<subseteq> {..<8}" and "vme_window_release_loop f is s = (r, s')"
  shows "wins_inv s' \<and> chip s' = chip s \<and> claimed s' = claimed s
    \<and> (\<forall>j<8. active (window_table s' ! j) = active (window_table s ! j) \<and> desc (window_table s' ! j) = desc (window_table s ! j)
        \<and> filter (not_of_file f) (mappings (window_table s' ! j)) = filter (not_of_file f) (mappings (window_table s ! j))
        \<and> (j \<notin> set is \<longrightarrow> mappings (window_table s' ! j) = mappings (window_table s ! j)))
    \<and> (r = OK \<longrightarrow> (\<forall>j \<in> set is. mappings (window_table s' ! j) = filter (not_of_file f) (mappings (window_table s ! j))))"
  using assms
proof (induction "is" arbitrary: s)
  case Nil
  then show ?case by simp
next
  case (Cons i "is")
  let ?t = "s\<lparr>signals := tl (signals s)\<rparr>"
  have i: "i < 8" using Cons.prems(2) by simp
  show ?case
  proof (cases rule: lock_step [OF Cons.prems(1) i])
    case 1
    with Cons.prems have "r = Inl ERESTARTSYS" "quiet s s'" by auto
    with Cons.prems(1) show ?thesis by (simp add: quiet_inv quiet_sel)
  next
    case 2
    let ?n = "set_mappings i (filter (not_of_file f) (mappings (window_table s ! i))) ?t"
    have inv: "wins_inv ?n"
      using set_mappings_same_inv [of ?t i] Cons.prems(1) i quiet_inv [of s ?t] by simp
    have "vme_window_release_loop f is ?n = (r, s')"
      using release_step [OF Cons.prems(1) i 2(1)] Cons.prems(3) by metis
    note IH = Cons.IH [OF inv _ this] and L = wins_inv_window(1) [OF Cons.prems(1) i]
    have "mappings (window_table s' ! i) = filter (not_of_file f) (mappings (window_table s ! i))" if "r = OK"
      using IH that Cons.prems(2) L i by (cases "i \<in> set is") auto
    with IH Cons.prems(2) L show ?thesis by auto
  qed
qed

subsection \<open>Look-ups, mmap, start-up and exit\<close>

lemma vme_get_window_attr_cases:
  assumes inv: "wins_inv s" and r: "vme_get_window_attr d s = (r, d', s')"
  shows "quiet s s' \<and> (r = OK \<longrightarrow> window_num_ok (window_num d)
     \<and> d' = tsi148_get_window_attr (chip s) (desc (window_table s ! nat (window_num d))))"
proof (cases "window_num_ok (window_num d)")
  case True
  then have i: "nat (window_num d) < 8" by (simp add: window_num_ok_nat)
  show ?thesis
    using True r wins_inv_window(1) [OF inv i]
    by (cases rule: lock_step [OF inv i]) (auto simp: vme_get_window_attr_def Let_def)
qed (use r in \<open>auto simp: vme_get_window_attr_def\<close>)

lemma find_vme_mapping_loop_result:
  assumes "wins_inv s" and "set is \<subseteq> {..<8}" and "find_vme_mapping_loop a is s = (r, s')"
  shows "quiet s s' \<and> (\<forall>d. r = Some d \<longrightarrow> kernel_va d = ucast a \<and> (\<exists>i \<in> set is. d \<in> map_desc ` set (mappings (window_table s ! i))))"
  using assms
proof (induction "is" arbitrary: s)
  case (Cons i "is")
  let ?t = "s\<lparr>signals := tl (signals s)\<rparr>"
  have i: "i < 8" using Cons.prems(2) by simp
  note L = wins_inv_window(1) [OF Cons.prems(1) i]
  show ?case
  proof (cases rule: lock_step [OF Cons.prems(1) i])
    case 1
    with Cons.prems show ?thesis by auto
  next
    case 2
    show ?thesis
    proof (cases "find (\<lambda>m. kernel_va (map_desc m) = ucast a) (mappings (window_table s ! i))")
      case None
      then have "find_vme_mapping_loop a is ?t = (r, s')" using 2 Cons.prems(3) L by simp
      with Cons.IH [of ?t] Cons.prems(1,2) show ?thesis
        using quiet_inv [of s ?t] quiet_trans [OF quiet_refl(2)] by auto
    next
      case (Some m)
      then have "m \<in> set (mappings (window_table s ! i))" "kernel_va (map_desc m) = ucast a"
        by (auto simp: find_Some_iff)
      with Some 2 Cons.prems(3) L show ?thesis by auto
    qed
  qed
qed simp

text \<open>The mapping that an mmap call refers to.\<close>

definition mmap_target :: "filp \<Rightarrow> vm_area_struct \<Rightarrow> window \<Rightarrow> bool" where
  "mmap_target f vma w \<longleftrightarrow> active w \<and> (\<exists>m \<in> set (mappings w). client_file (client m) = Some f
     \<and> vme_check_mmap_region (desc w) (map_desc m) (ucast (push_bit PAGE_SHIFT (vm_pgoff vma))) (ucast (vm_end vma - vm_start vma)))"

lemma vme_window_mmap_loop_result:
  assumes "wins_inv s" and "set is \<subseteq> {..<8}" and "vme_window_mmap_loop k f vma is s = (r, vma', s')"
  shows "wins_inv s' \<and> window_table s' = window_table s \<and>
     (quiet s s' \<and> vma' = vma \<and> r \<noteq> OK \<or>
      (\<exists>i \<in> set is. mmap_target f vma (window_table s ! i)
         \<and> r = io_remap_pfn_range k (vm_start vma) (vm_pgoff vma) (vm_end vma - vm_start vma)
         \<and> remaps s' = (vm_start vma, vm_pgoff vma, vm_end vma - vm_start vma) # remaps s
         \<and> {VM_IO, VM_RESERVED, VM_DONTCOPY, VM_DONTEXPAND} \<subseteq> vm_flags vma' \<and> vm_noncached vma'))"
  using assms
proof (induction "is" arbitrary: s)
  case (Cons i "is")
  let ?t = "s\<lparr>signals := tl (signals s)\<rparr>" and ?e = "(vm_start vma, vm_pgoff vma, vm_end vma - vm_start vma)"
  have i: "i < 8" using Cons.prems(2) by simp
  note W = wins_inv_window [OF Cons.prems(1) i]
  have inv: "wins_inv ?t" using Cons.prems(1) quiet_inv [of s ?t] by simp
  show ?case
  proof (cases rule: lock_step [OF Cons.prems(1) i])
    case 1
    with Cons.prems inv show ?thesis by auto
  next
    case 2
    have t: "(active (window_table s ! i) \<and> mappings (window_table s ! i) \<noteq> [] \<and> (\<exists>m \<in> set (mappings (window_table s ! i)).
        client_file (client m) = Some f \<and> vme_check_mmap_region (desc (window_table s ! i)) (map_desc m)
          (ucast (push_bit PAGE_SHIFT (vm_pgoff vma))) (ucast (vm_end vma - vm_start vma))))
      = mmap_target f vma (window_table s ! i)"
      by (auto simp: mmap_target_def)
    show ?thesis
    proof (cases "mmap_target f vma (window_table s ! i)")
      case True
      have u: "mutex_unlock i (lock_window i ?t\<lparr>remaps := ?e # remaps s\<rparr>) = ?t\<lparr>remaps := ?e # remaps s\<rparr>"
        using W(1,2) by (simp add: lock_window_def unlock_held comp_def upd_window_id window_restore)
      have "s' = ?t\<lparr>remaps := ?e # remaps s\<rparr>"
        "r = io_remap_pfn_range k (vm_start vma) (vm_pgoff vma) (vm_end vma - vm_start vma)"
        "{VM_IO, VM_RESERVED, VM_DONTCOPY, VM_DONTEXPAND} \<subseteq> vm_flags vma'" "vm_noncached vma'"
        using 2 Cons.prems(3) W(1) True t u by (auto simp: vme_remap_pfn_range_def Let_def lock_window_def)
      moreover have "wins_inv (?t\<lparr>remaps := ?e # remaps s\<rparr>)" using inv by (simp add: wins_inv_def)
      ultimately show ?thesis using True by auto
    next
      case False
      then have "vme_window_mmap_loop k f vma is ?t = (r, vma', s')"
        using 2 Cons.prems(3) W(1) t by simp
      with Cons.IH [OF inv] Cons.prems(2) show ?thesis
        using quiet_trans [OF quiet_refl(2)] by auto
    qed
  qed
qed auto

lemma vme_destroy_window_ok:
  assumes "wins_inv s" and "i < 8" and "active (window_table s ! i)" and "signals s = []"
  shows "vme_destroy_window (int i) s = (OK, destroyed_state i s)"
proof -
  note W = wins_inv_window [OF assms(1,2)]
  have sig: "s\<lparr>signals := []\<rparr> = s" using assms(4) by (cases s) simp
  have "window_num_ok (int i)" using assms(2) by (simp add: window_num_ok_nat)
  moreover have "destroyed_state i (upd_window i (\<lambda>w. w\<lparr>locked := True\<rparr>) s) = destroyed_state i s"
    using W(1) by (simp add: destroyed_state_def destroyed_window_def upd_window_def Let_def)
  ultimately show ?thesis
    using assms(3,4) W(1-3) by (simp add: vme_destroy_window_def lock_free sig destroy_window_locked_active)
qed

lemma vme_window_exit_loop_result:
  assumes "wins_inv s" and "set is \<subseteq> {..<8}" and "signals s = []"
  shows "wins_inv (vme_window_exit_loop is s) \<and> (\<forall>i \<in> set is. \<not> active (window_table (vme_window_exit_loop is s) ! i))
    \<and> (\<forall>i < 8. \<not> active (window_table s ! i) \<longrightarrow> \<not> active (window_table (vme_window_exit_loop is s) ! i))"
  using assms
proof (induction "is" arbitrary: s)
  case (Cons i "is")
  have i: "i < 8" using Cons.prems(2) by simp
  note L = wins_inv_window(1) [OF Cons.prems(1) i]
  let ?t = "if active (window_table s ! i) then snd (vme_destroy_window (int i) s) else s"
  have t: "?t = (if active (window_table s ! i) then destroyed_state i s else s)"
    using vme_destroy_window_ok [OF Cons.prems(1) i] Cons.prems(3) by simp
  have "wins_inv ?t" "signals ?t = []"
    using destroyed_state_inv [OF Cons.prems(1) i] Cons.prems(1,3) by (simp_all add: t destroyed_state_def Let_def)
  note IH = Cons.IH [OF this(1) _ this(2)]
  moreover have "\<not> active (window_table ?t ! i)" "\<forall>j. \<not> active (window_table s ! j) \<longrightarrow> \<not> active (window_table ?t ! j)"
    using L by (auto simp: t destroyed_state_def destroyed_window_def Let_def nth_list_update)
  ultimately show ?case using Cons.prems(2) i by simp
qed simp

subsection \<open>The manager as a state machine\<close>

text \<open>Every entry point of the module, and the kernel choosing the outcomes of its next calls.\<close>

datatype wop =
    Create_Window vme_mapping
  | Destroy_Window int
  | Find_Mapping vme_mapping bool "filp option"
  | Release_Mapping vme_mapping bool "filp option"
  | Close_File filp
  | Get_Window_Attr vme_mapping
  | From_Addr u32
  | Mmap filp vm_area_struct
  | Outcomes "bool list" "bool list"

fun wop_step :: "kernel \<Rightarrow> wop \<Rightarrow> wstate \<Rightarrow> wstate" where
  "wop_step k (Create_Window d) s = snd (snd (vme_create_window k d s))"
| "wop_step k (Destroy_Window n) s = snd (vme_destroy_window n s)"
| "wop_step k (Find_Mapping d b f) s = snd (snd (vme_find_mapping_file k d b f s))"
| "wop_step k (Release_Mapping d b f) s = snd (vme_release_mapping_file d b f s)"
| "wop_step k (Close_File f) s = snd (vme_window_release f s)"
| "wop_step k (Get_Window_Attr d) s = snd (snd (vme_get_window_attr d s))"
| "wop_step k (From_Addr a) s = snd (find_vme_mapping_from_addr a s)"
| "wop_step k (Mmap f vma) s = snd (snd (vme_window_mmap k f vma s))"
| "wop_step k (Outcomes sg oo) s = s\<lparr>signals := sg, ooms := oo\<rparr>"

lemma all_windows: "set [0..<8] \<subseteq> {..<8::nat}"
  by auto

lemma wop_step_inv:
  assumes inv: "wins_inv s"
  shows "wins_inv (wop_step k x s)"
proof (cases x)
  case (Create_Window d)
  with vme_create_window_inv [OF inv] show ?thesis by (metis wop_step.simps(1) prod.collapse)
next
  case (Destroy_Window n)
  with vme_destroy_window_inv [OF inv] show ?thesis by (metis wop_step.simps(2) prod.collapse)
next
  case (Find_Mapping d b f)
  with vme_find_mapping_inv [OF inv] show ?thesis by (metis wop_step.simps(3) prod.collapse)
next
  case (Release_Mapping d b f)
  with vme_release_mapping_inv [OF inv] show ?thesis by (metis wop_step.simps(4) prod.collapse)
next
  case (Close_File f)
  with vme_window_release_loop_result [OF inv all_windows, of f] show ?thesis
    by (simp add: vme_window_release_def hw_consts) (metis prod.collapse)
next
  case (Get_Window_Attr d)
  with vme_get_window_attr_cases [OF inv] quiet_inv inv show ?thesis by (metis wop_step.simps(6) prod.collapse)
next
  case (From_Addr a)
  with find_vme_mapping_loop_result [OF inv all_windows, of a] quiet_inv inv show ?thesis
    by (simp add: find_vme_mapping_from_addr_def hw_consts) (metis prod.collapse)
next
  case (Mmap f vma)
  with vme_window_mmap_loop_result [OF inv all_windows, of k f vma] show ?thesis
    by (simp add: vme_window_mmap_def hw_consts) (metis prod.collapse)
next
  case (Outcomes sg oo)
  with inv show ?thesis by (simp add: quiet_inv [OF quiet_refl(4)])
qed

interpretation window_machine: inv_machine "wop_step k" wins_inv for k
  by unfold_locales (rule wop_step_inv)

lemma boot_inv: "chip_wf c \<Longrightarrow> wins_inv (vme_window_init (wstate_boot (tsi148_quiesce c)))"
  by (auto simp: wins_inv_def vme_window_init_def wstate_boot_def window_zero_def win_ok_def chip_wf_def hw_consts
      held_resources_def held_iomaps_def tsi148_quiesce_def tsi148_disable_crg_def Let_def ot_enabled_def)

text \<open>C1: After start-up on a quiesced chip, every sequence of window-manager entry points
(creation, destruction, find, release, close, attribute read, address look-up, mmap), with any
signals and allocation failures, keeps the invariant: all window mutexes are free and no lock was
taken twice or dropped unheld, the user count of each window is the length of its mapping list, a
window is active exactly when its chip bank is enabled and programmed from its descriptor, and the
bus resources and I/O mappings held are exactly those of the active windows.\<close>

theorem windows_invariant:
  assumes "chip_wf c"
  shows "wins_inv (fold (wop_step k) ops (vme_window_init (wstate_boot (tsi148_quiesce c))))"
  using boot_inv [OF assms] by (rule window_machine.run_inv)

lemma sample_chip_wf: "chip_wf sample_chip"
  by (simp add: chip_wf_def sample_chip_def hw_consts)

text \<open>A kernel that hands out the region at 2.5G and maps it high.\<close>

definition sample_kernel :: kernel where
  "sample_kernel = \<lparr> pci_bus_alloc_resource = (\<lambda>used n. if used = [] then Inr 0xa0000000 else Inl EBUSY),
     ioremap = (\<lambda>start n. 0xffffc90000000000 + start), io_remap_pfn_range = (\<lambda>va pfn n. OK),
     current_pid = 1234, current_comm = ''client'' \<rparr>"

definition sample_state :: wstate where
  "sample_state = vme_window_init (wstate_boot (tsi148_quiesce sample_chip))"

lemma sample_inv: "wins_inv sample_state"
  unfolding sample_state_def by (rule boot_inv [OF sample_chip_wf])

theorem windows_invariant_witness:
  "wins_inv (fold (wop_step sample_kernel) [Create_Window sample_desc, Close_File 3, Destroy_Window 2]
     (vme_window_init (wstate_boot (tsi148_quiesce sample_chip))))"
  by (rule windows_invariant [OF sample_chip_wf])

end
