(* ===== verification/Vme_Window_Spec.thy ===== *)
theory Vme_Window_Spec
  imports Vme_Window_Props
begin

text \<open>
  The window manager's promises, from the case analyses of the previous theory: failed creations
  leave no trace, creation and destruction undo each other, a mapping lands where the chip
  translates it to the requested VME address, releases remove exactly the mappings they should,
  and mmap only maps page ranges of the caller's own mappings.
\<close>

subsection \<open>Creation and destruction\<close>

text \<open>C16: A failed window creation (bad number or size, interrupted lock, busy window, no
bus region, no I/O mapping, rejected attributes) leaves the table, the chip, the bus resources and
the I/O mappings as they were.\<close>

theorem failed_create_restores:
  assumes "wins_inv s" and "vme_create_window k d s = (Inl e, d', s')"
  shows "s' = s\<lparr>signals := signals s', ooms := ooms s'\<rparr>"
  using vme_create_window_cases [OF assms] by (auto simp: quiet_def)

theorem failed_create_restores_witness:
  "let (r, d', s') = vme_create_window (sample_kernel\<lparr>ioremap := (\<lambda>_ _. 0)\<rparr>) sample_desc sample_state
   in r = Inl ENOMEM \<and> s' = sample_state\<lparr>signals := signals s', ooms := ooms s'\<rparr>"
proof -
  let ?k = "sample_kernel\<lparr>ioremap := (\<lambda>_ _. 0)\<rparr>"
  obtain r d' s' where c: "vme_create_window ?k sample_desc sample_state = (r, d', s')" by (metis prod_cases3)
  have "fst (vme_create_window ?k sample_desc sample_state) = Inl ENOMEM" by code_simp
  with c have "r = Inl ENOMEM" by simp
  with failed_create_restores [OF sample_inv] c show ?thesis by auto
qed

lemma created_state_destroyed:
  assumes inv: "wins_inv s" and c: "vme_create_window k d s = (OK, d', s')" and i: "window_num d = int i"
  shows "claimed (destroyed_state i s') = claimed s" "iomaps (destroyed_state i s') = iomaps s"
    "enabled_windows (chip (destroyed_state i s')) = enabled_windows (chip s)"
    "map active (window_table (destroyed_state i s')) = map active (window_table s)" "i < 8"
proof -
  have "\<exists>start c b s1. i < 8 \<and> quiet s s1 \<and> \<not> active (window_table s ! i)
      \<and> tsi148_create_window (create_request k (align_request d) start) (chip s) = (OK, d', c)
      \<and> s' = created_state k i (align_request d) d' c b start s1"
    using vme_create_window_cases [OF inv c] i by force
  then obtain start c b s1 where q: "i < 8" "quiet s s1" "\<not> active (window_table s ! i)"
      and t: "tsi148_create_window (create_request k (align_request d) start) (chip s) = (OK, d', c)"
      and s': "s' = created_state k i (align_request d) d' c b start s1" by blast
  note W = wins_inv_window [OF inv q(1)]
  have d': "d' = (create_request k (align_request d) start)\<lparr>window_enabled := True\<rparr>"
    using create_window_aligned [OF t] align_request_aligned(1,2) [of d] by (simp add: create_request_def)
  have w: "window_table s' ! i = (window_table s ! i)\<lparr>
         rsrc := \<lparr>rsrc_start = start, rsrc_end = start + ucast (sizel (align_request d)) - 1, rsrc_mem = True, rsrc_name = b\<rparr>,
         desc := d', active := True, locked := False\<rparr>"
    using W(1) by (simp add: s' created_state_def quiet_sel [OF q(2)])
  have n: "nat (window_num d') = i" using i by (simp add: d' create_request_def align_request_aligned(3))
  show "claimed (destroyed_state i s') = claimed s" "iomaps (destroyed_state i s') = iomaps s"
    by (simp_all add: destroyed_state_def Let_def w)
      (simp_all add: s' created_state_def quiet_sel [OF q(2)] d' create_request_def)
  have e: "enabled_windows c = insert i (enabled_windows (chip s))" "i \<notin> enabled_windows (chip s)"
    "i < length (otrans c)"
    using tsi148_hw.create_ok [OF t] inv i q W(8)
    by (auto simp: wins_inv_def create_request_def align_request_aligned(3) window_num_ok_nat enabled_windows_def
        win_ok_def chip_wf_def hw_consts)
  then show "enabled_windows (chip (destroyed_state i s')) = enabled_windows (chip s)"
    by (auto simp: destroyed_state_def Let_def w n enabled_ot_writes ot_writes_remove otrans_zero_def ot_enabled_def)
      (auto simp: s' created_state_def enabled_ot_writes ot_writes_remove otrans_zero_def ot_enabled_def)
  show "map active (window_table (destroyed_state i s')) = map active (window_table s)"
    using q W(1) by (auto simp: destroyed_state_def Let_def destroyed_window_def s' created_state_def quiet_sel [OF q(2)]
      intro!: nth_equalityI simp: nth_list_update split: if_splits)
qed (use vme_create_window_cases [OF inv c] i in force)

text \<open>C35: When no signal is pending after a window was created, destroying it succeeds and
gives back the resources, the I/O mappings, the set of enabled chip windows and the set of active
windows from before the creation.\<close>

theorem create_destroy_roundtrip:
  assumes "wins_inv s" and "vme_create_window k d s = (OK, d', s1)" and "signals s1 = []"
  shows "\<exists>s2. vme_destroy_window (window_num d) s1 = (OK, s2) \<and> claimed s2 = claimed s \<and> iomaps s2 = iomaps s
     \<and> enabled_windows (chip s2) = enabled_windows (chip s)
     \<and> map active (window_table s2) = map active (window_table s)"
proof -
  obtain i where i: "window_num d = int i" "i < 8"
    using vme_create_window_cases [OF assms(1,2)] by auto
  have "vme_destroy_window (int i) s1 = (OK, destroyed_state i s1)"
    using vme_destroy_window_ok [OF vme_create_window_inv [OF assms(1,2)] i(2) created_active(1) [OF assms(1,2) i(1)] assms(3)] .
  with created_state_destroyed [OF assms(1,2) i(1)] i(1) show ?thesis by auto
qed

theorem create_destroy_roundtrip_witness:
  "\<exists>s2. vme_destroy_window 2 (snd (snd (vme_create_window sample_kernel sample_desc sample_state))) = (OK, s2)
     \<and> claimed s2 = []"
proof -
  obtain r d' s1 where c: "vme_create_window sample_kernel sample_desc sample_state = (r, d', s1)" by (metis prod_cases3)
  have "fst (vme_create_window sample_kernel sample_desc sample_state) = OK"
    "signals (snd (snd (vme_create_window sample_kernel sample_desc sample_state))) = []"
    by code_simp+
  with c have "r = OK" "signals s1 = []" by simp_all
  with create_destroy_roundtrip [OF sample_inv, of sample_kernel sample_desc] c
  obtain s2 where "vme_destroy_window (window_num sample_desc) s1 = (OK, s2)" "claimed s2 = claimed sample_state" by blast
  moreover have "window_num sample_desc = 2" "claimed sample_state = []" by (simp_all add: sample_defs sample_state_def wstate_boot_def vme_window_init_def)
  ultimately show ?thesis using c by simp
qed

subsection \<open>Where mappings land\<close>

text \<open>
  The windows a mapping can be found in: aligned PCI address below 4G with no upper half, and
  no wrap-around on either bus. The upper half of the PCI address is supplied by the caller and documented to
  be 0; the address itself comes from the kernel's allocator.
\<close>

definition plain_window :: "vme_mapping \<Rightarrow> bool" where
  "plain_window d \<longleftrightarrow> pci_addru d = 0 \<and> sizel d \<noteq> 0 \<and> unat (pci_addrl d) + unat (sizel d) < 0x100000000
     \<and> unat (vme_addrl d) + unat (sizel d) < 0x100000000"

lemma bank_ok_accepts:
  assumes b: "bank_ok d t" and al: "pci_addrl d AND 0xffff = 0" "sizel d AND 0xffff = 0"
    and p: "plain_window d" and z: "sizeu d = 0"
  shows "ot_accepts t a \<longleftrightarrow> unat (pci_addrl d) \<le> a \<and> a < unat (pci_addrl d) + unat (sizel d)"
proof -
  have s: "sizel d \<noteq> 0" "unat (pci_addrl d) + unat (sizel d) < 0x100000000" "pci_addru d = 0"
    using p by (simp_all add: plain_window_def)
  note E = window_end [OF al s(1,2)] and G = window_size_ge [OF al(2) s(1)]
  from b z s(3) E(2) have "oteau t = 0" "otsau t = 0" "otsal t = pci_addrl d" "ot_enabled t"
    "oteal t = (pci_addrl d + sizel d - 1) AND NOT 0xffff"
    by (simp_all add: bank_ok_def)
  with E(1) G show ?thesis by (auto simp: ot_accepts_def unat_reg_join)
qed

lemma bank_ok_translate:
  "bank_ok d t \<Longrightarrow> ot_translate t (reg_join (pci_addru d) (pci_addrl d) + x) = reg_join (vme_addru d) (vme_addrl d) + x"
  by (simp add: bank_ok_def ot_translate_def)

lemma reg_join_low: "reg_join 0 x = ucast x"
  by (simp add: reg_join_def)

lemma ucast_add_nowrap:
  "unat (x :: u32) + unat y < 0x100000000 \<Longrightarrow> (ucast (x + y) :: u64) = ucast x + ucast y"
  by (simp add: word_unat_eq_iff unat_ucast_u32 unat_add_u64_cases unat_add_u32)

lemma placed_inside:
  assumes m: "window_matches m w" and p: "plain_window (desc w)"
    and nw: "unat (vme_addrl m) + unat (sizel m) < 0x100000000"
    and m': "m' = place_mapping (desc w) m n"
  shows "unat (pci_addrl m') = unat (pci_addrl (desc w)) + (unat (vme_addrl m) - unat (vme_addrl (desc w)))"
    and "unat (pci_addrl m') + unat (sizel m) \<le> unat (pci_addrl (desc w)) + unat (sizel (desc w))"
    and "unat (vme_addrl (desc w)) \<le> unat (vme_addrl m)"
    and "pci_addrl m' = pci_addrl (desc w) + (vme_addrl m - vme_addrl (desc w))"
proof -
  from m have le: "unat (vme_addrl (desc w)) \<le> unat (vme_addrl m)"
    and "\<not> vme_addrl (desc w) + sizel (desc w) < vme_addrl m + sizel m"
    by (auto simp: window_matches_def word_less_nat_alt)
  then have e: "unat (vme_addrl m) + unat (sizel m) \<le> unat (vme_addrl (desc w)) + unat (sizel (desc w))"
    using p nw by (simp add: plain_window_def word_less_nat_alt unat_add_u32)
  have o: "unat (vme_addrl m - vme_addrl (desc w)) = unat (vme_addrl m) - unat (vme_addrl (desc w))"
    using le by (simp add: unat_sub word_le_nat_alt)
  have s: "unat (pci_addrl (desc w)) + unat (vme_addrl m - vme_addrl (desc w)) < 0x100000000"
    unfolding o using e le p [unfolded plain_window_def] by linarith
  show pe: "pci_addrl m' = pci_addrl (desc w) + (vme_addrl m - vme_addrl (desc w))"
    by (simp add: m' place_mapping_def Let_def)
  show pu: "unat (pci_addrl m') = unat (pci_addrl (desc w)) + (unat (vme_addrl m) - unat (vme_addrl (desc w)))"
    unfolding pe using unat_add_u32 [OF s] o by simp
  show "unat (pci_addrl m') + unat (sizel m) \<le> unat (pci_addrl (desc w)) + unat (sizel (desc w))"
    using pu e le by simp
  show "unat (vme_addrl (desc w)) \<le> unat (vme_addrl m)" by (rule le)
qed

lemma mapping_translates:
  assumes inv: "wins_inv s" and f: "vme_find_mapping_file k m force f s = (OK, m', s')"
    and i: "first_match m s = Some i" and p: "plain_window (desc (window_table s ! i))"
    and nw: "unat (vme_addrl m) + unat (sizel m) < 0x100000000" and n: "n < unat (sizel m)"
  shows "window_num m' = int i
    \<and> ot_accepts (otrans (chip s') ! i) (unat (pci_addrl m') + n)
    \<and> ot_translate (otrans (chip s') ! i) (ucast (pci_addrl m') + of_nat n) = ucast (vme_addrl m) + of_nat n
    \<and> kernel_va m' = kernel_va (desc (window_table s ! i)) + (ucast (pci_addrl m') - ucast (pci_addrl (desc (window_table s ! i))))"
proof -
  let ?d = "desc (window_table s ! i)"
  have i8: "i < 8" and mt: "window_matches m (window_table s ! i)" using find_bound [OF i] by auto
  from vme_find_mapping_cases [OF inv f] i obtain s1 where q: "quiet s s1"
    and m': "m' = place_mapping ?d m (int i)" and s': "s' = mapped_state k i m' f s1" by auto
  have b: "bank_ok ?d (otrans (chip s) ! i)" "pci_addrl ?d AND 0xffff = 0" "sizel ?d AND 0xffff = 0"
    using inv i8 mt by (auto simp: wins_inv_def win_ok_def window_matches_def)
  have z: "sizeu ?d = 0" "vme_addru ?d = 0" "pci_addru ?d = 0"
    using mt p by (auto simp: window_matches_def plain_window_def)
  have c: "chip s' = chip s" by (simp add: s' mapped_state_def quiet_sel [OF q])
  note P = placed_inside [OF mt p nw m']
  let ?o = "vme_addrl m - vme_addrl ?d"
  have ou: "unat ?o = unat (vme_addrl m) - unat (vme_addrl ?d)"
    using P(3) by (simp add: unat_sub word_le_nat_alt)
  have pc: "(ucast (pci_addrl m') :: u64) = ucast (pci_addrl ?d) + ucast ?o"
    unfolding P(4) using P(1,2) ou p by (intro ucast_add_nowrap) (simp add: plain_window_def)
  have vc: "(ucast (vme_addrl m) :: u64) = ucast (vme_addrl ?d) + ucast ?o"
    using ucast_add_nowrap [of "vme_addrl ?d" ?o] ou P(3) unat_u32_bound [of "vme_addrl m"] by simp
  have "ot_accepts (otrans (chip s') ! i) (unat (pci_addrl m') + n)"
    using P(1,2) n by (simp add: c bank_ok_accepts [OF b p z(1)])
  moreover have "ot_translate (otrans (chip s') ! i) (ucast (pci_addrl m') + of_nat n) = ucast (vme_addrl m) + of_nat n"
    using bank_ok_translate [OF b(1), of "ucast ?o + of_nat n"]
    by (simp add: c z reg_join_low pc vc add.assoc)
  ultimately show ?thesis
    using pc by (simp add: m' place_mapping_def Let_def)
qed

text \<open>C2: A mapping granted in an existing window lies inside it: the chip bank of that
window accepts every PCI address of the mapping and translates it to the requested VME address,
and the kernel address returned has the same offset in the window; the window and the request must
not wrap around 4G.\<close>

theorem found_mapping_translates:
  assumes inv: "wins_inv s" and f: "vme_find_mapping_file k m force f s = (OK, m', s')"
    and i: "first_match m s = Some i" and p: "plain_window (desc (window_table s ! i))"
    and nw: "unat (vme_addrl m) + unat (sizel m) < 0x100000000" and n: "n < unat (sizel m)"
  shows "window_num m' = int i
    \<and> ot_accepts (otrans (chip s') ! i) (unat (pci_addrl m') + n)
    \<and> ot_translate (otrans (chip s') ! i) (ucast (pci_addrl m') + of_nat n) = ucast (vme_addrl m) + of_nat n
    \<and> kernel_va m' = kernel_va (desc (window_table s ! i)) + (ucast (pci_addrl m') - ucast (pci_addrl (desc (window_table s ! i))))"
  by (rule mapping_translates [OF assms])

definition sample_state1 :: wstate where
  "sample_state1 = snd (snd (vme_create_window sample_kernel sample_desc sample_state))"

definition sample_request :: vme_mapping where
  "sample_request = sample_desc\<lparr>window_num := 0, pci_addrl := 0, vme_addrl := 0x8012340, sizel := 0x200\<rparr>"

lemma sample_inv1: "wins_inv sample_state1"
  unfolding sample_state1_def using vme_create_window_inv [OF sample_inv] by (metis prod.collapse)

lemma sample_plain1: "plain_window (desc (window_table sample_state1 ! 2))"
proof -
  have "pci_addru (desc (window_table sample_state1 ! 2)) = 0" "sizel (desc (window_table sample_state1 ! 2)) = 0x1000000"
    "pci_addrl (desc (window_table sample_state1 ! 2)) = 0xa0000000" "vme_addrl (desc (window_table sample_state1 ! 2)) = 0x8000000"
    by code_simp+
  then show ?thesis by (simp add: plain_window_def)
qed

theorem found_mapping_translates_witness:
  "\<exists>m' s'. vme_find_mapping_file sample_kernel sample_request False (Some 3) sample_state1 = (OK, m', s')
     \<and> ot_translate (otrans (chip s') ! 2) (ucast (pci_addrl m') + 7) = 0x8012347"
proof -
  obtain r m' s' where c: "vme_find_mapping_file sample_kernel sample_request False (Some 3) sample_state1 = (r, m', s')"
    by (metis prod_cases3)
  have "fst (vme_find_mapping_file sample_kernel sample_request False (Some 3) sample_state1) = OK"
    "first_match sample_request sample_state1 = Some 2"
    by code_simp+
  moreover have "plain_window (desc (window_table sample_state1 ! 2))" by (rule sample_plain1)
  moreover have "vme_addrl sample_request = 0x8012340" "sizel sample_request = 0x200"
    by (simp_all add: sample_request_def)
  ultimately show ?thesis
    using c found_mapping_translates [OF sample_inv1, of sample_kernel sample_request False "Some 3" m' s' 2 7] by auto
qed

text \<open>
  The bounds test of the search adds the start and the size of the request modulo 2^32: a request
  that runs over the top of the address space is granted in a window that does not contain it.
\<close>

theorem wrapping_request_granted:
  "\<exists>m w. window_matches m w \<and> plain_window (desc w)
     \<and> unat (vme_addrl m) + unat (sizel m) > unat (vme_addrl (desc w)) + unat (sizel (desc w))"
proof -
  let ?w = "window_zero\<lparr>active := True, desc := vme_mapping_zero\<lparr>window_enabled := True, vme_addrl := 0x10000000, sizel := 0x10000\<rparr>\<rparr>"
  let ?m = "vme_mapping_zero\<lparr>vme_addrl := 0xfffff000, sizel := 0x2000\<rparr>"
  have "window_matches ?m ?w" by code_simp
  moreover have "plain_window (desc ?w)"
    "unat (vme_addrl ?m) + unat (sizel ?m) > unat (vme_addrl (desc ?w)) + unat (sizel (desc ?w))"
    by (simp_all add: plain_window_def vme_mapping_zero_def)
  ultimately show ?thesis by blast
qed

text \<open>
  A new window for an unaligned request is rounded down to 64K, but its size is not extended by what
  the rounding moved the start: the end of the mapping can lie outside of its window.
\<close>

theorem unaligned_mapping_sticks_out:
  "\<exists>m' s'. vme_find_mapping_file sample_kernel (sample_request\<lparr>sizel := 0xf000\<rparr>) True None sample_state = (OK, m', s')
     \<and> \<not> ot_accepts (otrans (chip s') ! nat (window_num m')) (unat (pci_addrl m') + 0xefff)"
proof -
  let ?r = "vme_find_mapping_file sample_kernel (sample_request\<lparr>sizel := 0xf000\<rparr>) True None sample_state"
  have "fst ?r = OK" "oteau (otrans (chip (snd (snd ?r))) ! nat (window_num (fst (snd ?r)))) = 0"
    "oteal (otrans (chip (snd (snd ?r))) ! nat (window_num (fst (snd ?r)))) = 0xa0000000"
    "pci_addrl (fst (snd ?r)) = 0xa0002340"
    by code_simp+
  then have "fst ?r = OK" "\<not> ot_accepts (otrans (chip (snd (snd ?r))) ! nat (window_num (fst (snd ?r)))) (unat (pci_addrl (fst (snd ?r))) + 0xefff)"
    by (simp_all add: ot_accepts_def unat_reg_join)
  then show ?thesis by (metis prod.collapse)
qed

subsection \<open>Sharing of A24 and A16 windows\<close>

lemma sanity_a24:
  "am m \<in> set a24_modifiers \<Longrightarrow> vme_mapping_sanity_check m = OK \<Longrightarrow> vme_addru m = 0"
  by (auto simp: vme_mapping_sanity_check_def a24_modifiers_def a16_modifiers_def Let_def split: if_splits)

lemma align_request_id:
  "vme_addrl d AND 0xffff = 0 \<Longrightarrow> sizel d AND 0xffff = 0 \<Longrightarrow> align_request d = d"
  by (simp add: align_request_def Let_def)

lemma created_desc:
  assumes inv: "wins_inv s" and c: "vme_create_window k d s = (OK, d', s')"
  shows "\<exists>start va. d' = (align_request d)\<lparr>kernel_va := va, pci_addrl := start, window_enabled := True\<rparr>"
proof -
  from vme_create_window_cases [OF inv c] obtain start c
    where t: "tsi148_create_window (create_request k (align_request d) start) (chip s) = (OK, d', c)" by auto
  have "d' = (create_request k (align_request d) start)\<lparr>window_enabled := True\<rparr>"
    using create_window_aligned [OF t] align_request_aligned(1,2) [of d] by (simp add: create_request_def)
  then show ?thesis by (auto simp: create_request_def)
qed

theorem a24_window_shared:
  assumes inv: "wins_inv s" and a24: "am m \<in> set a24_modifiers"
    and new: "first_match m s = None" and f: "vme_find_mapping_file k m True f s = (OK, m', s')"
    and req: "am q = am m" "data_width q = data_width m" "unat (vme_addrl q) + unat (sizel q) \<le> 0x1000000"
  shows "first_match q s' \<noteq> None"
proof -
  from vme_find_mapping_cases [OF inv f] new obtain i s1 s2 wnd b where u: "first_unused s = Some i" and q: "quiet s s1"
    and c: "vme_create_window k (vme_optimize_window_size (m\<lparr>window_num := int i\<rparr>)) s1 = (OK, wnd, s2)"
    and s': "s' = mapped_state k i m' f (s2\<lparr>ooms := b\<rparr>)" by auto
  have i: "i < 8" using find_bound [OF u] by simp
  have inv1: "wins_inv s1" using inv q by (simp add: quiet_inv)
  note inv2 = vme_create_window_inv [OF inv1 c]
  have opt: "vme_optimize_window_size (m\<lparr>window_num := int i\<rparr>) =
      m\<lparr>window_num := int i, sizeu := 0, sizel := 0x1000000, vme_addru := 0, vme_addrl := 0\<rparr>"
    using a24 by (simp add: vme_optimize_window_size_def Let_def)
  obtain va st where d: "wnd = m\<lparr>window_num := int i, sizeu := 0, sizel := 0x1000000, vme_addru := 0, vme_addrl := 0,
      kernel_va := va, pci_addrl := st, window_enabled := True\<rparr>"
    using created_desc [OF inv1 c] by (auto simp: opt align_request_id)
  have "active (window_table s' ! i)" "desc (window_table s' ! i) = wnd"
    using created_active [OF inv1 c, of i] wins_inv_window(1) [OF inv2 i] by (simp_all add: s' mapped_state_def)
  moreover have "am m \<noteq> VME_2e6U" using a24 by (auto simp: a24_modifiers_def)
  moreover have "\<not> 0x1000000 < vme_addrl q + sizel q"
    using req(3) by (simp add: word_less_nat_alt unat_add_u32)
  ultimately have "window_matches q (window_table s' ! i)"
    using req by (simp add: window_matches_def d)
  with i show ?thesis by (auto simp: find_None_iff)
qed

theorem a24_window_shared_witness:
  "let m = sample_request\<lparr>am := VME_A24_SUP_DATA_SCT, vme_addrl := 0x123450\<rparr>;
       s' = snd (snd (vme_find_mapping_file sample_kernel m True None sample_state))
   in first_match (m\<lparr>vme_addrl := 0xfff000\<rparr>) s' \<noteq> None"
proof -
  let ?m = "sample_request\<lparr>am := VME_A24_SUP_DATA_SCT, vme_addrl := 0x123450\<rparr>"
  obtain r m' s' where c: "vme_find_mapping_file sample_kernel ?m True None sample_state = (r, m', s')" by (metis prod_cases3)
  have "fst (vme_find_mapping_file sample_kernel ?m True None sample_state) = OK"
    "first_match ?m sample_state = None" "am ?m \<in> set a24_modifiers"
    by code_simp+
  moreover have "am (?m\<lparr>vme_addrl := 0xfff000\<rparr>) = am ?m" "data_width (?m\<lparr>vme_addrl := 0xfff000\<rparr>) = data_width ?m"
    "unat (vme_addrl (?m\<lparr>vme_addrl := 0xfff000\<rparr>)) + unat (sizel (?m\<lparr>vme_addrl := 0xfff000\<rparr>)) \<le> 0x1000000"
    by (simp_all add: sample_request_def)
  ultimately show ?thesis
    using c a24_window_shared [OF sample_inv, of ?m sample_kernel None m' s' "?m\<lparr>vme_addrl := 0xfff000\<rparr>"]
    unfolding Let_def by (metis fst_conv snd_conv)
qed

subsection \<open>Releasing mappings\<close>

text \<open>The part of a mapping that a release compares.\<close>

definition mapping_key :: "mapping \<Rightarrow> (u32 \<times> u32 \<times> u32 \<times> u32 \<times> u64) \<times> filp option" where
  "mapping_key m = (let d = map_desc m in
     ((vme_addru d, vme_addrl d, sizeu d, sizel d, kernel_va d), client_file (client m)))"

lemma mapping_matches_key:
  "mapping_matches d (Some f) m \<longleftrightarrow> mapping_key m = ((vme_addru d, vme_addrl d, sizeu d, sizel d, kernel_va d), Some f)"
  by (auto simp: mapping_matches_def mapping_key_def Let_def)

lemma remove_first_mset:
  "remove_first p xs = Some ys \<Longrightarrow> \<exists>x \<in> set xs. p x \<and> mset xs = add_mset x (mset ys)"
proof (induction xs arbitrary: ys)
  case (Cons a xs)
  then show ?case by (cases "p a") (auto simp: ex_in_conv)
qed simp

lemma remove_first_exists: "x \<in> set xs \<Longrightarrow> p x \<Longrightarrow> \<exists>ys. remove_first p xs = Some ys"
  by (induction xs) auto

lemma vme_release_mapping_eq:
  assumes inv: "wins_inv s" and sg: "signals s = []" and n: "window_num d = int i" "i < 8"
    and a: "active (window_table s ! i)"
    and m: "remove_first (mapping_matches d f) (mappings (window_table s ! i)) = Some ms"
  shows "vme_release_mapping_file d force f s
    = (if ms = [] \<and> force then vme_destroy_window (window_num d) (set_mappings i ms s) else (OK, set_mappings i ms s))"
proof -
  note W = wins_inv_window [OF inv n(2)]
  have self: "s\<lparr>signals := []\<rparr> = s" using sg by (cases s) simp
  have ok: "window_num_ok (window_num d)" using n by (simp add: window_num_ok_nat)
  have l: "mutex_lock_interruptible i s = (False, lock_window i s)"
    using lock_free [OF W(1,2)] sg self by (simp add: lock_window_def)
  have len: "length (mappings (window_table s ! i)) = Suc (length ms)" by (rule remove_first_length [OF m])
  have u: "mutex_unlock i (upd_window i (\<lambda>w. w\<lparr>mappings := ms, users := users w - 1\<rparr>) (lock_window i s)) = set_mappings i ms s"
    using W(1,2,3) len
    by (cases "window_table s ! i") (simp add: lock_window_def set_mappings_def unlock_held upd_window_def)
  show ?thesis
    using ok l u n a m W(1,3) len
    by (auto simp: vme_release_mapping_file_def Let_def remove_mapping_def)
qed

lemma vme_release_mapping_ok:
  assumes "wins_inv s" and "signals s = []" and "window_num d = int i" "i < 8" and "active (window_table s ! i)"
    and "remove_first (mapping_matches d f) (mappings (window_table s ! i)) = Some ms" and "ms \<noteq> [] \<or> \<not> force"
  shows "vme_release_mapping_file d force f s = (OK, set_mappings i ms s)"
  using vme_release_mapping_eq [OF assms(1-6)] assms(7) by auto

text \<open>The release of a mapping that is there succeeds, whether or not it destroys the window.\<close>

lemma vme_release_mapping_succeeds:
  assumes inv: "wins_inv s" and sg: "signals s = []" and n: "window_num d = int i" "i < 8" and a: "active (window_table s ! i)"
    and x: "x \<in> set (mappings (window_table s ! i))" "mapping_matches d f x"
  shows "fst (vme_release_mapping_file d force f s) = OK"
proof -
  obtain ms where m: "remove_first (mapping_matches d f) (mappings (window_table s ! i)) = Some ms" using remove_first_exists [of x _ "mapping_matches d f"] x by blast
  have inv': "wins_inv (set_mappings i ms s)" by (rule set_mappings_inv [OF inv n(2) a])
  have "active (window_table (set_mappings i ms s) ! i)" "signals (set_mappings i ms s) = []"
    using a sg wins_inv_window(1) [OF inv n(2)] n(2) by (simp_all add: set_mappings_def upd_window_def)
  from vme_destroy_window_ok [OF inv' n(2) this] vme_release_mapping_eq [OF inv sg n a m, of force] n(1) show ?thesis by auto
qed

theorem find_release_roundtrip:
  assumes inv: "wins_inv s" and f: "vme_find_mapping_file k m force (Some f) s = (OK, m', s')"
    and i: "first_match m s = Some i" and sg: "signals s' = []"
  shows "\<exists>s2. vme_release_mapping_file m' False (Some f) s' = (OK, s2)
     \<and> mset (map mapping_key (mappings (window_table s2 ! i))) = mset (map mapping_key (mappings (window_table s ! i)))
     \<and> users (window_table s2 ! i) = users (window_table s ! i)"
proof -
  have i8: "i < 8" and mt: "window_matches m (window_table s ! i)" using find_bound [OF i] by auto
  from vme_find_mapping_cases [OF inv f] i obtain s1 where q: "quiet s s1"
    and m': "m' = place_mapping (desc (window_table s ! i)) m (int i)" and s': "s' = mapped_state k i m' (Some f) s1" by auto
  let ?ms = "mappings (window_table s ! i)" and ?x = "\<lparr> map_desc = m', client = new_client k (Some f) \<rparr>"
  note L = wins_inv_window [OF inv i8]
  have ms: "mappings (window_table s' ! i) = ?ms @ [?x]" "active (window_table s' ! i)"
    using L(1) mt by (simp_all add: s' mapped_state_def quiet_sel [OF q] window_matches_def)
  have x: "mapping_matches m' (Some f) ?x" by (simp add: mapping_matches_def)
  obtain ys where ys: "remove_first (mapping_matches m' (Some f)) (?ms @ [?x]) = Some ys"
    using remove_first_exists [of ?x "?ms @ [?x]" "mapping_matches m' (Some f)"] x by auto
  then obtain y where y: "mapping_matches m' (Some f) y" "mset (?ms @ [?x]) = add_mset y (mset ys)"
    using remove_first_mset by metis
  then have k: "mapping_key y = mapping_key ?x" using x by (simp add: mapping_matches_key)
  have "image_mset mapping_key (mset (?ms @ [?x])) = add_mset (mapping_key y) (image_mset mapping_key (mset ys))"
    unfolding y(2) by simp
  then have keys: "mset (map mapping_key ys) = mset (map mapping_key ?ms)" using k by simp
  have inv': "wins_inv s'" using vme_find_mapping_inv [OF inv f] .
  have "vme_release_mapping_file m' False (Some f) s' = (OK, set_mappings i ys s')"
    using vme_release_mapping_ok [OF inv' sg _ i8 ms(2)] ys ms(1) by (simp add: m' place_mapping_def Let_def)
  moreover have "length ys = length ?ms" using remove_first_length [OF ys] by simp
  ultimately show ?thesis
    using keys L(3) wins_inv_window(1) [OF inv' i8] by (intro exI [of _ "set_mappings i ys s'"]) simp
qed

theorem find_release_roundtrip_witness:
  "let (r, m', s') = vme_find_mapping_file sample_kernel sample_request False (Some 3) sample_state1
   in \<exists>s2. vme_release_mapping_file m' False (Some 3) s' = (OK, s2) \<and> users (window_table s2 ! 2) = users (window_table sample_state1 ! 2)"
proof -
  let ?r = "vme_find_mapping_file sample_kernel sample_request False (Some 3) sample_state1"
  obtain r m' s' where c: "?r = (r, m', s')" by (metis prod_cases3)
  have "fst ?r = OK" "first_match sample_request sample_state1 = Some 2" "signals (snd (snd ?r)) = []"
    by code_simp+
  with c find_release_roundtrip [OF sample_inv1, of sample_kernel sample_request False 3 m' s' 2] show ?thesis by auto
qed

text \<open>C36: Closing a device file, when its release is not interrupted at a lock and returns
OK, removes exactly the mappings that belong to the file, in every window, keeps the user counts
exact and leaves the windows and the chip alone.\<close>

theorem close_file_releases:
  assumes "wins_inv s" and "vme_window_release f s = (OK, s')" and "i < 8"
  shows "mappings (window_table s' ! i) = filter (\<lambda>m. client_file (client m) \<noteq> Some f) (mappings (window_table s ! i))
    \<and> users (window_table s' ! i) = int (length (mappings (window_table s' ! i)))
    \<and> active (window_table s' ! i) = active (window_table s ! i) \<and> chip s' = chip s"
proof -
  have "wins_inv s' \<and> chip s' = chip s \<and> active (window_table s' ! i) = active (window_table s ! i)
      \<and> mappings (window_table s' ! i) = filter (not_of_file f) (mappings (window_table s ! i))"
    using vme_window_release_loop_result [OF assms(1) all_windows, of f OK s'] assms(2,3)
    by (simp add: vme_window_release_def hw_consts)
  moreover have "not_of_file f = (\<lambda>m. client_file (client m) \<noteq> Some f)" by (simp add: fun_eq_iff not_of_file_def)
  ultimately show ?thesis using wins_inv_window(3) [of s' i] assms(3) by simp
qed

definition sample_state2 :: wstate where
  "sample_state2 = snd (snd (vme_find_mapping_file sample_kernel sample_request False (Some 3) sample_state1))"

lemma sample_inv2: "wins_inv sample_state2"
  unfolding sample_state2_def using vme_find_mapping_inv [OF sample_inv1] by (metis prod.collapse)

theorem close_file_releases_witness:
  "mappings (window_table (snd (vme_window_release 3 sample_state2)) ! 2) = [] \<and> mappings (window_table sample_state2 ! 2) \<noteq> []"
proof -
  obtain r s' where c: "vme_window_release 3 sample_state2 = (r, s')" by fastforce
  have "fst (vme_window_release 3 sample_state2) = OK"
    "filter (\<lambda>m. client_file (client m) \<noteq> Some 3) (mappings (window_table sample_state2 ! 2)) = []"
    "mappings (window_table sample_state2 ! 2) \<noteq> []"
    by code_simp+
  with c close_file_releases [OF sample_inv2, of 3 s' 2] show ?thesis by simp
qed

text \<open>
  A release on behalf of the kernel compares no owner: it can take away the mapping of a process.
\<close>

theorem kernel_release_takes_user_mapping:
  "\<exists>d. fst (vme_release_mapping d False sample_state2) = OK
     \<and> map (client_file \<circ> client) (mappings (window_table sample_state2 ! 2)) = [Some 3]
     \<and> mappings (window_table (snd (vme_release_mapping d False sample_state2)) ! 2) = []"
proof -
  let ?d = "sample_request\<lparr>window_num := 2, kernel_va := 0xffffc900a0012340\<rparr>"
  have "fst (vme_release_mapping ?d False sample_state2) = OK" by code_simp
  moreover have "map (client_file \<circ> client) (mappings (window_table sample_state2 ! 2)) = [Some 3]" by code_simp
  moreover have "mappings (window_table (snd (vme_release_mapping ?d False sample_state2)) ! 2) = []" by code_simp
  ultimately show ?thesis by (intro exI [of _ ?d] conjI)
qed

subsection \<open>Mapping into user space\<close>

definition page_down :: "nat \<Rightarrow> nat" where
  "page_down a = a div 0x1000 * 0x1000"

definition page_up :: "nat \<Rightarrow> nat" where
  "page_up a = (a + 0xfff) div 0x1000 * 0x1000"

lemma page_up_cases: "page_up a = (if a mod 0x1000 = 0 then a else a - a mod 0x1000 + 0x1000)"
proof -
  define q r where "q = a div 0x1000" and "r = a mod 0x1000"
  then have a: "a = 0x1000 * q + r" and r: "r < 0x1000" by simp_all
  have "(a + 0xfff) div 0x1000 = q + (r + 0xfff) div 0x1000"
    unfolding a by (simp add: add.assoc)
  moreover have "(r + 0xfff) div 0x1000 = (if r = 0 then 0 else 1)"
    using r by (cases r) simp_all
  ultimately show ?thesis unfolding page_up_def r_def [symmetric] using a by auto
qed

theorem check_mmap_region_iff:
  assumes r: "unat addr + unat len < 0x100000000"
    and m: "unat (pci_addrl m) + unat (sizel m) + 0xfff < 0x100000000"
    and w: "unat (pci_addrl wd) + unat (sizel wd) < 0x100000000"
  shows "vme_check_mmap_region wd m addr len \<longleftrightarrow>
     unat addr = page_down (unat (pci_addrl m)) \<and> unat addr + unat len = page_up (unat (pci_addrl m) + unat (sizel m))
     \<and> unat (pci_addrl wd) \<le> unat addr \<and> unat addr + unat len \<le> unat (pci_addrl wd) + unat (sizel wd)"
proof -
  let ?e = "pci_addrl m + sizel m"
  have e: "unat ?e = unat (pci_addrl m) + unat (sizel m)" using m by (intro unat_add_u32) simp
  have sums: "unat (addr + len) = unat addr + unat len"
    "unat (pci_addrl wd + sizel wd) = unat (pci_addrl wd) + unat (sizel wd)"
    using r w by (simp_all add: unat_add_u32)
  have up: "unat (if ?e AND 0xfff \<noteq> 0 then (?e AND NOT 0xfff) + 0x1000 else ?e) = page_up (unat ?e)"
  proof (cases "unat ?e mod 0x1000 = 0")
    case False
    have "unat (?e AND NOT 0xfff) + unat (0x1000 :: u32) < 0x100000000"
      using m e mod_less_divisor [of "0x1000" "unat ?e"] False unfolding unat_down_page by simp
    from unat_add_u32 [OF this] False show ?thesis
      by (simp only: and_page_zero_iff unat_down_page page_up_cases) simp
  qed (simp add: and_page_zero_iff page_up_cases)
  have down: "unat (pci_addrl m AND NOT 0xfff) = page_down (unat (pci_addrl m))"
    by (simp only: unat_down_page page_down_def minus_mod_eq_div_mult)
  have start: "pci_addrl m AND NOT 0xfff = addr \<longleftrightarrow> unat addr = page_down (unat (pci_addrl m))"
    unfolding word_unat_eq_iff down by auto
  have stop: "(if ?e AND 0xfff \<noteq> 0 then (?e AND NOT 0xfff) + 0x1000 else ?e) = addr + len \<longleftrightarrow>
      unat addr + unat len = page_up (unat (pci_addrl m) + unat (sizel m))"
    unfolding word_unat_eq_iff [of _ "addr + len"] up sums e by auto
  have out: "(addr < pci_addrl wd \<or> addr + len > pci_addrl wd + sizel wd) \<longleftrightarrow>
      \<not> (unat (pci_addrl wd) \<le> unat addr \<and> unat addr + unat len \<le> unat (pci_addrl wd) + unat (sizel wd))"
    unfolding word_less_nat_alt sums by auto
  show ?thesis
    unfolding vme_check_mmap_region_def Let_def start stop out by auto
qed

lemma page_up_page_down_example: "page_down 0xa0012340 = 0xa0012000" "page_up 0xa0012540 = 0xa0013000"
  by (simp_all add: page_down_def page_up_def)

theorem check_mmap_region_iff_witness:
  "vme_check_mmap_region (sample_desc\<lparr>pci_addrl := 0xa0000000\<rparr>) (sample_request\<lparr>pci_addrl := 0xa0012340\<rparr>) 0xa0012000 0x1000"
proof -
  have "vme_check_mmap_region (sample_desc\<lparr>pci_addrl := 0xa0000000\<rparr>) (sample_request\<lparr>pci_addrl := 0xa0012340\<rparr>) 0xa0012000 0x1000
     \<longleftrightarrow> unat (0xa0012000 :: u32) = page_down 0xa0012340 \<and> unat (0xa0012000 :: u32) + unat (0x1000 :: u32) = page_up (0xa0012340 + 0x200)
     \<and> unat (0xa0000000 :: u32) \<le> unat (0xa0012000 :: u32)
     \<and> unat (0xa0012000 :: u32) + unat (0x1000 :: u32) \<le> unat (0xa0000000 :: u32) + unat (0x1000000 :: u32)"
    by (subst check_mmap_region_iff) (simp_all add: sample_request_def sample_defs)
  then show ?thesis by (simp add: page_up_page_down_example)
qed

theorem mmap_only_own_mappings:
  assumes "wins_inv s" and "vme_window_mmap k f vma s = (OK, vma', s')"
  shows "\<exists>i<8. active (window_table s ! i) \<and> (\<exists>m \<in> set (mappings (window_table s ! i)). client_file (client m) = Some f
      \<and> vme_check_mmap_region (desc (window_table s ! i)) (map_desc m)
          (ucast (push_bit PAGE_SHIFT (vm_pgoff vma))) (ucast (vm_end vma - vm_start vma)))
    \<and> remaps s' = (vm_start vma, vm_pgoff vma, vm_end vma - vm_start vma) # remaps s
    \<and> {VM_IO, VM_RESERVED, VM_DONTCOPY, VM_DONTEXPAND} \<subseteq> vm_flags vma' \<and> vm_noncached vma'"
  using vme_window_mmap_loop_result [OF assms(1) all_windows, of k f vma OK vma' s'] assms(2)
  by (fastforce simp: vme_window_mmap_def hw_consts mmap_target_def)

definition sample_vma :: vm_area_struct where
  "sample_vma = \<lparr> vm_start = 0x7f0000000000, vm_end = 0x7f0000001000, vm_pgoff = 0xa0012, vm_flags = {}, vm_noncached = False \<rparr>"

theorem mmap_only_own_mappings_witness:
  "\<exists>vma' s'. vme_window_mmap sample_kernel 3 sample_vma sample_state2 = (OK, vma', s') \<and> vm_noncached vma'"
proof -
  obtain r vma' s' where c: "vme_window_mmap sample_kernel 3 sample_vma sample_state2 = (r, vma', s')" by (metis prod_cases3)
  have "fst (vme_window_mmap sample_kernel 3 sample_vma sample_state2) = OK" by code_simp
  with c mmap_only_own_mappings [OF sample_inv2, of sample_kernel 3 sample_vma vma' s'] show ?thesis by auto
qed

subsection \<open>Module exit\<close>

lemma window_exit_empties:
  assumes "wins_inv s" and "signals s = []"
  shows "claimed (vme_window_exit s) = [] \<and> iomaps (vme_window_exit s) = [] \<and> wins_inv (vme_window_exit s)
    \<and> (\<forall>i<8. \<not> active (window_table (vme_window_exit s) ! i))"
proof -
  let ?s = "vme_window_exit s"
  have inv: "wins_inv ?s" and off: "\<forall>i<8. \<not> active (window_table ?s ! i)"
    using vme_window_exit_loop_result [OF assms(1) all_windows assms(2)] by (auto simp: vme_window_exit_def hw_consts)
  then have "\<forall>w \<in> set (window_table ?s). \<not> active w" by (auto simp: wins_inv_def in_set_conv_nth)
  then have "filter active (window_table ?s) = []" by (simp add: filter_empty_conv)
  with inv off show ?thesis by (auto simp: wins_inv_def held_resources_def held_iomaps_def)
qed

theorem window_exit_clean:
  assumes "wins_inv s" and "signals s = []"
  shows "claimed (vme_window_exit s) = [] \<and> iomaps (vme_window_exit s) = []
    \<and> enabled_windows (chip (vme_window_exit s)) = {} \<and> (\<forall>i<8. mappings (window_table (vme_window_exit s) ! i) = [])"
  using window_exit_empties [OF assms]
  by (auto simp: wins_inv_def win_ok_def enabled_windows_def chip_wf_def hw_consts)

theorem window_exit_clean_witness:
  "claimed (vme_window_exit sample_state2) = [] \<and> claimed sample_state2 \<noteq> []"
proof -
  have "signals sample_state2 = []" "claimed sample_state2 \<noteq> []" by code_simp+
  with window_exit_clean [OF sample_inv2] show ?thesis by simp
qed

end
