(* ===== verification/Tsi148_Dma.thy ===== *)
theory Tsi148_Dma
  imports Tsi148_Window
begin

text \<open>
  The DMA engine of the TSI148, \<open>src/vmebridge/driver/tsi148.c\<close> and \<open>vme_dma.h\<close>: control and
  attribute words, and the linked list of hardware descriptors for a scatter-gather transfer.

  Descriptors live in memory at bus addresses (\<open>dma_mem\<close>, in host byte order: the stores of the
  source convert to big endian); \<open>pool_live\<close> are the addresses that the descriptor pool has handed
  out, \<open>kmalloc_fails\<close> the outcomes of the next \<open>kmalloc\<close> calls. The address that the pool chooses,
  or \<open>None\<close> when it is exhausted, is the parameter \<open>pool\<close>, given the addresses in use.
\<close>

subsection \<open>Channels and descriptor memory\<close>

text \<open>An entry of a mapped scatter-gather list: \<open>sg_dma_address\<close> and \<open>sg_dma_len\<close>.\<close>

type_synonym sg_entry = "u64 \<times> u32"

record dma_channel =
  busy :: bool
  num :: nat
  ch_desc :: vme_dma
  chained :: bool
  sgl :: "sg_entry list"
  sg_pages :: int
  sg_mapped :: nat
  hw_desc_list :: "u64 list"

record dma_heap =
  dma_mem :: "u64 \<Rightarrow> tsi148_dma_desc"
  pool_live :: "u64 list"
  kmalloc_fails :: "bool list"

definition next_fails :: "dma_heap \<Rightarrow> bool \<times> dma_heap" where
  "next_fails h = (case kmalloc_fails h of [] \<Rightarrow> (False, h) | b # r \<Rightarrow> (b, h\<lparr>kmalloc_fails := r\<rparr>))"

definition pci_pool_alloc :: "(u64 list \<Rightarrow> u64 option) \<Rightarrow> dma_heap \<Rightarrow> u64 option \<times> dma_heap" where
  "pci_pool_alloc pool h =
     (case pool (pool_live h) of
        None \<Rightarrow> (None, h)
      | Some p \<Rightarrow> (Some p, h\<lparr>pool_live := p # pool_live h\<rparr>))"

definition pci_pool_free :: "u64 \<Rightarrow> dma_heap \<Rightarrow> dma_heap" where
  "pci_pool_free p h = h\<lparr>pool_live := remove1 p (pool_live h)\<rparr>"

definition store_desc :: "u64 \<Rightarrow> tsi148_dma_desc \<Rightarrow> dma_heap \<Rightarrow> dma_heap" where
  "store_desc p d h = h\<lparr>dma_mem := (dma_mem h)(p := d)\<rparr>"

subsection \<open>Status\<close>

definition tsi148_dma_get_status :: "tsi148_lcsr \<Rightarrow> dma_channel \<Rightarrow> u32" where
  "tsi148_dma_get_status c chan = dsta (dma c ! num chan)"

definition tsi148_dma_busy :: "tsi148_lcsr \<Rightarrow> dma_channel \<Rightarrow> bool" where
  "tsi148_dma_busy c chan \<longleftrightarrow> tsi148_dma_get_status c chan AND TSI148_LCSR_DSTA_BSY \<noteq> 0"

definition tsi148_dma_done :: "tsi148_lcsr \<Rightarrow> dma_channel \<Rightarrow> bool" where
  "tsi148_dma_done c chan \<longleftrightarrow> tsi148_dma_get_status c chan AND TSI148_LCSR_DSTA_DON \<noteq> 0"

subsection \<open>Attribute and control words\<close>

definition tsi148_dma_setup_src :: "vme_dma \<Rightarrow> errno + u32" where
  "tsi148_dma_setup_src d =
     (case dir d of
        VME_DMA_TO_DEVICE \<Rightarrow> Inr TSI148_LCSR_DSAT_TYP_PCI
      | VME_DMA_FROM_DEVICE \<Rightarrow>
          (case tsi148_setup_dma_attributes (attr_v2esst_mode (dma_src d)) (attr_data_width (dma_src d)) (attr_am (dma_src d)) of
             Inl e \<Rightarrow> Inl e | Inr w \<Rightarrow> Inr (w OR TSI148_LCSR_DSAT_TYP_VME))
      | VME_DMA_DIR_OTHER _ \<Rightarrow> Inl EINVAL)"

definition tsi148_dma_setup_dst :: "vme_dma \<Rightarrow> errno + u32" where
  "tsi148_dma_setup_dst d =
     (case dir d of
        VME_DMA_TO_DEVICE \<Rightarrow>
          (case tsi148_setup_dma_attributes (attr_v2esst_mode (dma_dst d)) (attr_data_width (dma_dst d)) (attr_am (dma_dst d)) of
             Inl e \<Rightarrow> Inl e | Inr w \<Rightarrow> Inr (w OR TSI148_LCSR_DDAT_TYP_VME))
      | VME_DMA_FROM_DEVICE \<Rightarrow> Inr TSI148_LCSR_DDAT_TYP_PCI
      | VME_DMA_DIR_OTHER _ \<Rightarrow> Inl EINVAL)"

definition VME_DMA_BSIZE_4096 :: u32 where [hw_consts]: "VME_DMA_BSIZE_4096 = 7"
definition VME_DMA_BACKOFF_64 :: u32 where [hw_consts]: "VME_DMA_BACKOFF_64 = 7"

definition tsi148_dma_setup_ctl :: "vme_dma \<Rightarrow> errno + u32" where
  "tsi148_dma_setup_ctl d =
     (let k = dma_ctrl d in
      if vme_block_size k > VME_DMA_BSIZE_4096 then Inl EINVAL
      else if vme_backoff_time k > VME_DMA_BACKOFF_64 then Inl EINVAL
      else if pci_block_size k > VME_DMA_BSIZE_4096 then Inl EINVAL
      else if pci_backoff_time k > VME_DMA_BACKOFF_64 then Inl EINVAL
      else Inr ((push_bit TSI148_LCSR_DCTL_VBKS_SHIFT (vme_block_size k) AND TSI148_LCSR_DCTL_VBKS_M)
             OR (push_bit TSI148_LCSR_DCTL_VBOT_SHIFT (vme_backoff_time k) AND TSI148_LCSR_DCTL_VBOT_M)
             OR (push_bit TSI148_LCSR_DCTL_PBKS_SHIFT (pci_block_size k) AND TSI148_LCSR_DCTL_PBKS_M)
             OR (push_bit TSI148_LCSR_DCTL_PBOT_SHIFT (pci_backoff_time k) AND TSI148_LCSR_DCTL_PBOT_M)))"

subsection \<open>The descriptor chain\<close>

definition tsi148_dma_free_chain :: "dma_channel \<Rightarrow> dma_heap \<Rightarrow> dma_channel \<times> dma_heap" where
  "tsi148_dma_free_chain chan h = (chan\<lparr>hw_desc_list := []\<rparr>, fold pci_pool_free (hw_desc_list chan) h)"

definition get_vmeaddr :: "vme_dma \<Rightarrow> errno + u32" where
  "get_vmeaddr d = (case dir d of
       VME_DMA_TO_DEVICE \<Rightarrow> Inr (addrl (dma_dst d))
     | VME_DMA_FROM_DEVICE \<Rightarrow> Inr (addrl (dma_src d))
     | VME_DMA_DIR_OTHER _ \<Rightarrow> Inl EINVAL)"

definition hwdesc_init ::
    "(u64 list \<Rightarrow> u64 option) \<Rightarrow> dma_channel \<Rightarrow> dma_heap \<Rightarrow> (errno + u64) \<times> dma_channel \<times> dma_heap" where
  "hwdesc_init pool chan h =
     (case pci_pool_alloc pool h of
        (None, h) \<Rightarrow> (Inl ENOMEM, chan, h)
      | (Some p, h) \<Rightarrow>
          (case next_fails h of
             (True, h) \<Rightarrow> (Inl ENOMEM, chan, pci_pool_free p h)
           | (False, h) \<Rightarrow> (Inr p, chan\<lparr>hw_desc_list := hw_desc_list chan @ [p]\<rparr>, h)))"

definition tsi148_fill_dma_desc ::
    "vme_dma \<Rightarrow> tsi148_dma_desc \<Rightarrow> u32 \<Rightarrow> u64 \<Rightarrow> u32 \<Rightarrow> u32 \<Rightarrow> u32 \<Rightarrow> rc \<times> tsi148_dma_desc" where
  "tsi148_fill_dma_desc d t vme_addr dma_addr len dsat_w ddat_w =
     (let t = t\<lparr>dsau := 0, ddau := 0\<rparr>;
          rest = (\<lambda>t. t\<lparr>dcnt := len, dsat := dsat_w, ddat := ddat_w, dnlau := 0, dnlal := TSI148_LCSR_DNLAL_LLA\<rparr>)
      in case dir d of
           VME_DMA_TO_DEVICE \<Rightarrow>
             (OK, rest (t\<lparr>dsal := ucast dma_addr, ddal := vme_addr, ddbs := attr_bcast_select (dma_dst d)\<rparr>))
         | VME_DMA_FROM_DEVICE \<Rightarrow> (OK, rest (t\<lparr>dsal := vme_addr, ddal := ucast dma_addr, ddbs := 0\<rparr>))
         | VME_DMA_DIR_OTHER _ \<Rightarrow> (Inl EINVAL, t))"

definition tsi148_get_bshift_am :: "vme_address_modifier \<Rightarrow> nat" where
  "tsi148_get_bshift_am a = (case a of
       VME_A64_MBLT \<Rightarrow> 11 | VME_A32_USER_MBLT \<Rightarrow> 11 | VME_A32_SUP_MBLT \<Rightarrow> 11
     | VME_A24_USER_MBLT \<Rightarrow> 11 | VME_A24_SUP_MBLT \<Rightarrow> 11
     | VME_A64_BLT \<Rightarrow> 8 | VME_A32_USER_BLT \<Rightarrow> 8 | VME_A32_SUP_BLT \<Rightarrow> 8 | VME_A40_BLT \<Rightarrow> 8
     | VME_A24_USER_BLT \<Rightarrow> 8 | VME_A24_SUP_BLT \<Rightarrow> 8
     | _ \<Rightarrow> 0)"

definition tsi148_get_bshift :: "dma_channel \<Rightarrow> nat" where
  "tsi148_get_bshift chan =
     (let d = ch_desc chan
      in tsi148_get_bshift_am (if dir d = VME_DMA_FROM_DEVICE then attr_am (dma_src d) else attr_am (dma_dst d)))"

definition tsi148_get_bsize :: "nat \<Rightarrow> u64" where
  "tsi148_get_bsize bshift = push_bit bshift 1"

definition tsi148_get_bmask :: "u64 \<Rightarrow> u64" where
  "tsi148_get_bmask bsize = bsize - 1"

text \<open>The length of the next piece: up to the block boundary, and no further than the end.\<close>

definition piece_len :: "nat \<Rightarrow> u32 \<Rightarrow> u64 \<Rightarrow> u64 \<Rightarrow> u32 \<Rightarrow> u32" where
  "piece_len bshift vme da da_end len =
     (let len = (if bshift \<noteq> 0
                 then let bsize = tsi148_get_bsize bshift; bmask = tsi148_get_bmask bsize;
                          unaligned = (ucast (ucast vme AND bmask) :: u32)
                      in ucast (bsize - ucast unaligned)
                 else len)
      in if da + ucast len > da_end then ucast (da_end - da) else len)"

text \<open>
  The loop of \<open>tsi148_dma_link_add\<close>. It ends because the bus address \<open>da\<close> grows to \<open>da_end\<close>,
  unless it wraps around 2^64; \<open>None\<close> stands for a loop that never ends. A result carries the
  return code, \<open>next\<close>, the channel and the memory. \<open>next\<close> is only changed by an allocation.
\<close>

partial_function (option) link_add_loop ::
    "(u64 list \<Rightarrow> u64 option) \<Rightarrow> bool \<Rightarrow> nat \<Rightarrow> u32 \<Rightarrow> u32 \<Rightarrow> u32 \<Rightarrow> u64 \<Rightarrow> u32 \<Rightarrow> u64 \<Rightarrow> u32
     \<Rightarrow> u64 option \<Rightarrow> u64 option \<Rightarrow> dma_channel \<Rightarrow> dma_heap \<Rightarrow> (rc \<times> u64 option \<times> dma_channel \<times> dma_heap) option" where
  "link_add_loop pool again bshift dsat_w ddat_w vme_end da_end vme da len cur nxt chan h =
     (if vme < vme_end \<and> da < da_end
      then let len = piece_len bshift vme da da_end len;
               p = the cur;
               d = ch_desc chan;
               h = store_desc p (snd (tsi148_fill_dma_desc d (dma_mem h p) vme da len dsat_w ddat_w)) h;
               vme = (if novmeinc d then vme else vme + len);
               da = da + ucast len
           in if again \<or> da < da_end
              then (case hwdesc_init pool chan h of
                      (Inl e, chan, h) \<Rightarrow> Some (Inl e, nxt, chan, h)
                    | (Inr q, chan, h) \<Rightarrow>
                        link_add_loop pool again bshift dsat_w ddat_w vme_end da_end vme da len (Some q) (Some q) chan
                          (store_desc p ((dma_mem h p)\<lparr>dnlau := 0, dnlal := ucast q AND TSI148_LCSR_DNLAL_DNLAL_M\<rparr>) h))
              else link_add_loop pool again bshift dsat_w ddat_w vme_end da_end vme da len nxt nxt chan h
      else Some (OK, nxt, chan, h))"

declare link_add_loop.simps [code]

text \<open>\<open>virt\<close> is \<open>*virt\<close>; a \<open>NULL\<close> there is a kernel BUG, which ends the machine: no result.\<close>

definition tsi148_dma_link_add ::
    "(u64 list \<Rightarrow> u64 option) \<Rightarrow> dma_channel \<Rightarrow> u64 option \<Rightarrow> u32 \<Rightarrow> u64 \<Rightarrow> u32 \<Rightarrow> nat \<Rightarrow> nat \<Rightarrow> nat \<Rightarrow> u32 \<Rightarrow> u32
     \<Rightarrow> dma_heap \<Rightarrow> (rc \<times> u64 option \<times> dma_channel \<times> dma_heap) option" where
  "tsi148_dma_link_add pool chan virt vme_addr dma_addr len numpages index bshift dsat_w ddat_w h =
     (case virt of None \<Rightarrow> None
      | Some cur \<Rightarrow>
        map_option (\<lambda>(r, nxt, chan, h). (r, if r = OK then nxt else virt, chan, h))
          (link_add_loop pool (int index < int numpages - 1) bshift dsat_w ddat_w (vme_addr + len) (dma_addr + ucast len)
             vme_addr dma_addr len (Some cur) None chan h))"

text \<open>The loop of \<open>tsi148_dma_setup_chain\<close> over the mapped entries, the first of index \<open>i\<close>.\<close>

fun setup_chain_loop ::
    "(u64 list \<Rightarrow> u64 option) \<Rightarrow> nat \<Rightarrow> u32 \<Rightarrow> u32 \<Rightarrow> nat \<Rightarrow> sg_entry list \<Rightarrow> nat \<Rightarrow> u32 \<Rightarrow> u64 option
     \<Rightarrow> dma_channel \<Rightarrow> dma_heap \<Rightarrow> (rc \<times> dma_channel \<times> dma_heap) option" where
  "setup_chain_loop pool bshift dsat_w ddat_w numpages [] i vme_addr cur chan h = Some (OK, chan, h)"
| "setup_chain_loop pool bshift dsat_w ddat_w numpages ((dma_addr, len) # sgs) i vme_addr cur chan h =
     (case tsi148_dma_link_add pool chan cur vme_addr dma_addr len numpages i bshift dsat_w ddat_w h of
        None \<Rightarrow> None
      | Some (Inl e, cur, chan, h) \<Rightarrow> Some (Inl e, chan, h)
      | Some (Inr _, cur, chan, h) \<Rightarrow>
          setup_chain_loop pool bshift dsat_w ddat_w numpages sgs (i + 1)
            (if novmeinc (ch_desc chan) then vme_addr else vme_addr + len) cur chan h)"

definition upd_dma :: "nat \<Rightarrow> (tsi148_dma \<Rightarrow> tsi148_dma) \<Rightarrow> tsi148_lcsr \<Rightarrow> tsi148_lcsr" where
  "upd_dma n f c = c\<lparr>dma := (dma c)[n := f (dma c ! n)]\<rparr>"

definition tsi148_dma_setup_chain ::
    "(u64 list \<Rightarrow> u64 option) \<Rightarrow> dma_channel \<Rightarrow> u32 \<Rightarrow> u32 \<Rightarrow> tsi148_lcsr \<Rightarrow> dma_heap
     \<Rightarrow> (rc \<times> dma_channel \<times> tsi148_lcsr \<times> dma_heap) option" where
  "tsi148_dma_setup_chain pool chan dsat_w ddat_w c h =
     (let bshift = tsi148_get_bshift chan in
      case hwdesc_init pool chan h of
        (Inl e, chan, h) \<Rightarrow> Some (Inl e, chan, c, h)
      | (Inr phys_start, chan, h) \<Rightarrow>
          (case get_vmeaddr (ch_desc chan) of
             Inl e \<Rightarrow> (let (chan, h) = tsi148_dma_free_chain chan h in Some (Inl e, chan, c, h))
           | Inr vme_addr \<Rightarrow>
               (case setup_chain_loop pool bshift dsat_w ddat_w (sg_mapped chan) (take (sg_mapped chan) (sgl chan)) 0 vme_addr
                       (Some phys_start) chan h of
                  None \<Rightarrow> None
                | Some (Inl e, chan, h) \<Rightarrow> (let (chan, h) = tsi148_dma_free_chain chan h in Some (Inl e, chan, c, h))
                | Some (Inr _, chan, h) \<Rightarrow>
                    Some (OK, chan,
                      upd_dma (num chan) (\<lambda>r. r\<lparr>dma_desc := (dma_desc r)\<lparr>dnlau := 0,
                        dnlal := ucast phys_start AND TSI148_LCSR_DNLAL_DNLAL_M\<rparr>\<rparr>) c, h))))"

definition tsi148_dma_setup ::
    "(u64 list \<Rightarrow> u64 option) \<Rightarrow> dma_channel \<Rightarrow> tsi148_lcsr \<Rightarrow> dma_heap
     \<Rightarrow> (rc \<times> dma_channel \<times> tsi148_lcsr \<times> dma_heap) option" where
  "tsi148_dma_setup pool chan c h =
     (case tsi148_dma_setup_src (ch_desc chan) of
        Inl e \<Rightarrow> Some (Inl e, chan, c, h)
      | Inr dsat_w \<Rightarrow>
     (case tsi148_dma_setup_dst (ch_desc chan) of
        Inl e \<Rightarrow> Some (Inl e, chan, c, h)
      | Inr ddat_w \<Rightarrow>
     (case tsi148_dma_setup_ctl (ch_desc chan) of
        Inl e \<Rightarrow> Some (Inl e, chan, c, h)
      | Inr w \<Rightarrow>
          (let chan = chan\<lparr>chained := True\<rparr>;
               c = upd_dma (num chan) (\<lambda>r. r\<lparr>dctl := w AND NOT TSI148_LCSR_DCTL_MOD\<rparr>) c
           in tsi148_dma_setup_chain pool chan dsat_w ddat_w c h))))"

definition tsi148_dma_start :: "dma_channel \<Rightarrow> tsi148_lcsr \<Rightarrow> tsi148_lcsr" where
  "tsi148_dma_start chan c = upd_dma (num chan) (\<lambda>r. r\<lparr>dctl := dctl r OR TSI148_LCSR_DCTL_DGO\<rparr>) c"

definition tsi148_dma_abort :: "dma_channel \<Rightarrow> tsi148_lcsr \<Rightarrow> tsi148_lcsr" where
  "tsi148_dma_abort chan c = upd_dma (num chan) (\<lambda>r. r\<lparr>dctl := dctl r OR TSI148_LCSR_DCTL_ABT\<rparr>) c"

definition tsi148_dma_release :: "dma_channel \<Rightarrow> dma_heap \<Rightarrow> dma_channel \<times> dma_heap" where
  "tsi148_dma_release chan h = (if chained chan then tsi148_dma_free_chain chan h else (chan, h))"

end
