(* ===== verification/Tsi148_Dma_Props.thy ===== *)
theory Tsi148_Dma_Props
  imports Tsi148_Dma
begin

text \<open>
  Correctness of the DMA descriptor chain: the loop ends, the chip that follows the chain performs
  exactly the pieces of the transfer, in order, no piece crosses a VME block boundary, and every
  descriptor is given back on every path.
\<close>

subsection \<open>The pieces of a transfer\<close>

text \<open>
  The specification: \<open>n\<close> bytes from VME address \<open>v\<close> and bus address \<open>a\<close>, cut at the multiples of
  the block size \<open>bs\<close> of the VME address (0: not cut); with \<open>fixed\<close> the VME address stays.
\<close>

definition cut_len :: "nat \<Rightarrow> nat \<Rightarrow> nat \<Rightarrow> nat" where
  "cut_len bs v n = (if bs = 0 then n else min n (bs - v mod bs))"

definition block_size :: "nat \<Rightarrow> nat" where
  "block_size b = (if b = 0 then 0 else 2 ^ b)"

lemma cut_len_bounds: "0 < n \<Longrightarrow> 0 < cut_len bs v n" "cut_len bs v n \<le> n"
  by (auto simp: cut_len_def)

function pieces :: "nat \<Rightarrow> bool \<Rightarrow> nat \<Rightarrow> nat \<Rightarrow> nat \<Rightarrow> (nat \<times> nat \<times> nat) list" where
  "pieces bs fixed v a n =
     (if n = 0 then []
      else (let l = cut_len bs v n in (v, a, l) # pieces bs fixed (if fixed then v else v + l) (a + l) (n - l)))"
  by auto
termination
  by (relation "measure (\<lambda>(bs, fixed, v, a, n). n)") (use cut_len_bounds in auto)

declare pieces.simps [simp del]

lemma pieces_0 [simp]: "pieces bs fixed v a 0 = []"
  by (simp add: pieces.simps)

lemma pieces_step:
  "0 < n \<Longrightarrow> pieces bs fixed v a n =
     (v, a, cut_len bs v n) # pieces bs fixed (if fixed then v else v + cut_len bs v n) (a + cut_len bs v n) (n - cut_len bs v n)"
  by (subst pieces.simps) (simp add: Let_def)

text \<open>The pieces add up, they follow each other on the bus, and none crosses a block boundary.\<close>

lemma pieces_total: "sum_list (map (\<lambda>(v, a, l). l) (pieces bs fixed v a n)) = n"
proof (induction n arbitrary: v a rule: less_induct)
  case (less n)
  show ?case
  proof (cases "n = 0")
    case False
    then have "n - cut_len bs v n < n" using cut_len_bounds [of n bs v] by simp
    from less.IH [OF this] False show ?thesis
      using cut_len_bounds(2) [of bs v n] by (simp add: pieces_step)
  qed simp
qed

lemma pieces_block:
  assumes "(v', a', l) \<in> set (pieces bs fixed v a n)" and "0 < bs"
  shows "0 < l \<and> v' div bs = (v' + l - 1) div bs"
  using assms(1)
proof (induction n arbitrary: v a rule: less_induct)
  case (less n)
  show ?case
  proof (cases "n = 0")
    case False
    then have lt: "n - cut_len bs v n < n" using cut_len_bounds [of n bs v] by simp
    from less.prems False consider "v' = v" "l = cut_len bs v n"
      | "(v', a', l) \<in> set (pieces bs fixed (if fixed then v else v + cut_len bs v n) (a + cut_len bs v n) (n - cut_len bs v n))"
      by (auto simp: pieces_step)
    then show ?thesis
    proof cases
      case 1
      have "0 < l" using 1 False cut_len_bounds by simp
      moreover have "l \<le> bs - v mod bs" using 1 assms(2) by (simp add: cut_len_def)
      then have "v mod bs + (l - 1) < bs" using \<open>0 < l\<close> mod_less_divisor [OF assms(2), of v] by linarith
      then have "(v mod bs + (l - 1) + v div bs * bs) div bs = v div bs"
        using assms(2) by (simp only: div_mult_self1) simp
      moreover have "v + l - 1 = v mod bs + (l - 1) + v div bs * bs" using \<open>0 < l\<close> by simp
      ultimately show ?thesis using 1 \<open>0 < l\<close> by simp
    next
      case 2
      with less.IH [OF lt] show ?thesis by blast
    qed
  qed (use less.prems in simp)
qed

text \<open>The pieces of a scatter-gather list.\<close>

fun sg_pieces :: "nat \<Rightarrow> bool \<Rightarrow> nat \<Rightarrow> sg_entry list \<Rightarrow> (nat \<times> nat \<times> nat) list" where
  "sg_pieces bs fixed v [] = []"
| "sg_pieces bs fixed v ((a, len) # sgs) =
     pieces bs fixed v (unat a) (unat len) @ sg_pieces bs fixed (if fixed then v else v + unat len) sgs"

definition sg_total :: "sg_entry list \<Rightarrow> nat" where
  "sg_total sgs = sum_list (map (\<lambda>(a, len). unat len) sgs)"

lemma sg_pieces_total: "sum_list (map (\<lambda>(v, a, l). l) (sg_pieces bs fixed v sgs)) = sg_total sgs"
  by (induction bs fixed v sgs rule: sg_pieces.induct) (auto simp: sg_total_def pieces_total)

subsection \<open>Descriptors of pieces\<close>

definition piece_desc :: "vme_dma \<Rightarrow> u32 \<Rightarrow> u32 \<Rightarrow> nat \<times> nat \<times> nat \<Rightarrow> u32 \<Rightarrow> tsi148_dma_desc" where
  "piece_desc d dsat_w ddat_w = (\<lambda>(v, a, l) lnk.
     \<lparr> dsau = 0, dsal = (if dir d = VME_DMA_FROM_DEVICE then of_nat v else of_nat a),
       ddau = 0, ddal = (if dir d = VME_DMA_FROM_DEVICE then of_nat a else of_nat v),
       dsat = dsat_w, ddat = ddat_w, dnlau = 0, dnlal = lnk, dcnt = of_nat l,
       ddbs = (if dir d = VME_DMA_FROM_DEVICE then 0 else attr_bcast_select (dma_dst d)) \<rparr>)"

definition good_dir :: "vme_dma \<Rightarrow> bool" where
  "good_dir d \<longleftrightarrow> dir d = VME_DMA_TO_DEVICE \<or> dir d = VME_DMA_FROM_DEVICE"

lemma fill_dma_desc_eq:
  "good_dir d \<Longrightarrow> snd (tsi148_fill_dma_desc d t vme da len dsat_w ddat_w) =
     piece_desc d dsat_w ddat_w (unat vme, unat da, unat len) TSI148_LCSR_DNLAL_LLA"
  by (cases t) (auto simp: good_dir_def tsi148_fill_dma_desc_def piece_desc_def Let_def)

lemma piece_desc_link [simp]:
  "(piece_desc d s t x lnk)\<lparr>dnlau := 0, dnlal := l\<rparr> = piece_desc d s t x l"
  by (simp add: piece_desc_def split: prod.splits)

subsection \<open>The length computation\<close>

lemma bsize_nat:
  assumes "b \<le> 11"
  shows "unat (tsi148_get_bsize b) = 2 ^ b" and "tsi148_get_bmask (tsi148_get_bsize b) = mask b"
    and "(2 :: nat) ^ b \<le> 2048"
proof -
  have p: "(2 :: nat) ^ b \<le> 2 ^ 11" using assms by (intro power_increasing) simp_all
  then show "(2 :: nat) ^ b \<le> 2048" by simp
  show "tsi148_get_bmask (tsi148_get_bsize b) = mask b"
    by (simp add: tsi148_get_bmask_def tsi148_get_bsize_def mask_eq_exp_minus_1 push_bit_eq_mult)
  have "push_bit b (1 :: u64) = of_nat (2 ^ b)" by (simp add: push_bit_eq_mult)
  moreover have "unat (of_nat (2 ^ b) :: u64) = 2 ^ b"
    unfolding unsigned_of_nat using assms by (simp add: take_bit_nat_eq_self)
  ultimately have "unat (push_bit b (1 :: u64)) = 2 ^ b" by metis
  then show "unat (tsi148_get_bsize b) = 2 ^ b" by (simp add: tsi148_get_bsize_def)
qed

lemma unat_ucast_small: "unat (x :: u64) < 0x100000000 \<Longrightarrow> unat (ucast x :: u32) = unat x"
  by (simp add: unsigned_ucast_eq take_bit_eq_mod)

text \<open>The unclipped length of the next piece.\<close>

lemma block_len:
  assumes "b \<le> 11"
  shows "unat (ucast (tsi148_get_bsize b - ucast (ucast (ucast (vme :: u32) AND tsi148_get_bmask (tsi148_get_bsize b)) :: u32)) :: u32)
     = 2 ^ b - unat vme mod 2 ^ b"
proof -
  note B = bsize_nat [OF assms]
  let ?u = "ucast vme AND mask b :: u64"
  have u: "unat ?u = unat vme mod 2 ^ b" by (simp add: unat_and_mask unat_ucast_u32)
  have lt: "unat vme mod 2 ^ b < (2 :: nat) ^ b" by simp
  then have "unat ?u < 0x100000000" using B(3) u by linarith
  then have "unat (ucast (ucast ?u :: u32) :: u64) = unat vme mod 2 ^ b"
    using u by (simp add: unat_ucast_u32 unat_ucast_small)
  moreover from this have "(ucast (ucast ?u :: u32) :: u64) \<le> tsi148_get_bsize b"
    using lt B(1) by (simp add: word_le_nat_alt)
  ultimately have s: "unat (tsi148_get_bsize b - ucast (ucast ?u :: u32)) = 2 ^ b - unat vme mod 2 ^ b"
    using B(1) by (simp add: unat_sub)
  moreover have "2 ^ b - unat vme mod 2 ^ b < (0x100000000 :: nat)" using B(3) by linarith
  ultimately show ?thesis unfolding B(2) by (simp add: unat_ucast_small)
qed

lemma piece_len_nat:
  assumes b: "b \<le> 11" and n: "unat da_end = unat da + n" "n < 0x100000000" "b = 0 \<longrightarrow> unat len = n"
    and nw: "unat da + n + 2048 < 0x10000000000000000"
  shows "unat (piece_len b vme da da_end len) = cut_len (block_size b) (unat vme) n"
proof -
  define l where "l = (if b \<noteq> 0 then ucast (tsi148_get_bsize b -
      ucast (ucast (ucast vme AND tsi148_get_bmask (tsi148_get_bsize b)) :: u32)) else len)"
  have l: "unat l = (if b = 0 then n else 2 ^ b - unat vme mod 2 ^ b)"
    using n(3) block_len [OF b, of vme] by (simp add: l_def)
  then have lb: "unat l \<le> n \<or> unat l \<le> 2048" using bsize_nat(3) [OF b] by auto
  then have s: "unat (da + ucast l) = unat da + unat l"
    using nw by (subst unat_add_u64_cases) (auto simp: unat_ucast_u32)
  have "piece_len b vme da da_end len = (if da + ucast l > da_end then ucast (da_end - da) else l)"
    by (simp add: piece_len_def l_def Let_def)
  moreover have "da + ucast l > da_end \<longleftrightarrow> n < unat l" by (simp add: word_less_nat_alt s n(1))
  moreover have "unat (da_end - da) = n" using n(1) by (simp add: unat_sub word_le_nat_alt)
  then have "unat (ucast (da_end - da) :: u32) = n" using n(2) by (simp add: unat_ucast_small)
  ultimately show ?thesis using l by (auto simp: cut_len_def min_def block_size_def)
qed

subsection \<open>Chains in memory\<close>

definition link_to :: "u64 \<Rightarrow> u32" where
  "link_to q = ucast q AND TSI148_LCSR_DNLAL_DNLAL_M"

text \<open>
  A chain under construction ends in an allocated descriptor that is not filled yet; a closed
  chain ends in a descriptor with the last-link bit.
\<close>

definition opened :: "(u64 \<Rightarrow> tsi148_dma_desc) \<Rightarrow> (u32 \<Rightarrow> tsi148_dma_desc) list \<Rightarrow> u64 list \<Rightarrow> bool" where
  "opened m fs ps \<longleftrightarrow> length ps = Suc (length fs) \<and> (\<forall>j < length fs. m (ps ! j) = (fs ! j) (link_to (ps ! Suc j)))"

definition closed :: "(u64 \<Rightarrow> tsi148_dma_desc) \<Rightarrow> (u32 \<Rightarrow> tsi148_dma_desc) list \<Rightarrow> u64 list \<Rightarrow> bool" where
  "closed m fs ps \<longleftrightarrow> length ps = length fs \<and> ps \<noteq> [] \<and>
     (\<forall>j < length fs. m (ps ! j) = (fs ! j) (if Suc j < length ps then link_to (ps ! Suc j) else TSI148_LCSR_DNLAL_LLA))"

lemma opened_close:
  assumes "opened m fs ps" and "distinct ps" and "p = last ps"
  shows "closed (m(p := f TSI148_LCSR_DNLAL_LLA)) (fs @ [f]) ps"
proof -
  have l: "length ps = Suc (length fs)" "ps \<noteq> []" using assms(1) by (auto simp: opened_def)
  have p: "p = ps ! length fs" using assms(3) l by (simp add: last_conv_nth)
  have "ps ! j \<noteq> p" if "j < length fs" for j
    using that l assms(2) unfolding p by (simp add: nth_eq_iff_index_eq)
  with assms(1) l p show ?thesis by (auto simp: closed_def opened_def nth_append less_Suc_eq)
qed

lemma opened_extend:
  assumes "opened m fs ps" and "distinct ps" and "p = last ps" and "m' = m(p := f (link_to q))"
  shows "opened m' (fs @ [f]) (ps @ [q])"
proof -
  have l: "length ps = Suc (length fs)" "ps \<noteq> []" using assms(1) by (auto simp: opened_def)
  have p: "p = ps ! length fs" using assms(3) l by (simp add: last_conv_nth)
  have "ps ! j \<noteq> p" if "j < length fs" for j
    using that l assms(2) unfolding p by (simp add: nth_eq_iff_index_eq)
  with assms(1,4) l p show ?thesis by (auto simp: opened_def nth_append less_Suc_eq)
qed

subsection \<open>Allocation of descriptors\<close>

text \<open>What the driver relies on: the pool hands out descriptors that are not in use, aligned to 8
  bytes as asked for in \<open>tsi148_dma_init\<close>, with a 32-bit bus address.\<close>

definition desc_addr_ok :: "u64 \<Rightarrow> bool" where
  "desc_addr_ok p \<longleftrightarrow> p AND 7 = 0 \<and> unat p < 0x100000000"

definition fresh_pool :: "(u64 list \<Rightarrow> u64 option) \<Rightarrow> bool" where
  "fresh_pool pool \<longleftrightarrow> (\<forall>used p. pool used = Some p \<longrightarrow> p \<notin> set used \<and> desc_addr_ok p)"

text \<open>The live descriptors are those of the channel and those that others hold.\<close>

definition pool_ok :: "u64 multiset \<Rightarrow> dma_channel \<Rightarrow> dma_heap \<Rightarrow> bool" where
  "pool_ok others chan h \<longleftrightarrow> distinct (pool_live h) \<and> mset (pool_live h) = others + mset (hw_desc_list chan)
     \<and> list_all desc_addr_ok (hw_desc_list chan)"

lemma pool_ok_distinct: "pool_ok o' chan h \<Longrightarrow> distinct (hw_desc_list chan)"
proof -
  assume "pool_ok o' chan h"
  moreover obtain ys where "mset ys = o'" using ex_mset by blast
  ultimately have "mset (pool_live h) = mset (ys @ hw_desc_list chan)" "distinct (pool_live h)"
    by (simp_all add: pool_ok_def)
  then have "distinct (ys @ hw_desc_list chan)" using mset_eq_imp_distinct_iff by blast
  then show ?thesis by simp
qed

lemma pool_ok_store [simp]: "pool_ok o' chan (store_desc p d h) = pool_ok o' chan h"
  by (simp add: pool_ok_def store_desc_def)

lemma hwdesc_init_cases:
  assumes "fresh_pool pool" and "pool_ok others chan h" and "hwdesc_init pool chan h = (r, chan', h')"
  shows "dma_mem h' = dma_mem h \<and> pool_ok others chan' h' \<and>
    ((\<exists>e. r = Inl e \<and> chan' = chan) \<or> (\<exists>q. r = Inr q \<and> chan' = chan\<lparr>hw_desc_list := hw_desc_list chan @ [q]\<rparr>))"
proof (cases "pool (pool_live h)")
  case None
  with assms(2,3) show ?thesis by (auto simp: hwdesc_init_def pci_pool_alloc_def)
next
  case (Some p)
  then have "p \<notin> set (pool_live h)" "desc_addr_ok p" using assms(1) by (simp_all add: fresh_pool_def)
  with Some assms(2,3) show ?thesis
    by (auto simp: hwdesc_init_def pci_pool_alloc_def next_fails_def pci_pool_free_def pool_ok_def
        split: list.splits bool.splits)
qed

text \<open>Freeing the chain gives back exactly the channel's descriptors.\<close>

lemma fold_pool_free: "fold pci_pool_free ps h = h\<lparr>pool_live := fold remove1 ps (pool_live h)\<rparr>"
  by (induction ps arbitrary: h) (simp_all add: pci_pool_free_def)

lemma mset_fold_remove1: "mset (fold remove1 ps xs) = mset xs - mset ps"
  by (induction ps arbitrary: xs) (auto simp: algebra_simps)

lemma free_chain_pool:
  assumes "pool_ok others chan h" and "tsi148_dma_free_chain chan h = (chan', h')"
  shows "mset (pool_live h') = others \<and> hw_desc_list chan' = [] \<and> chan' = chan\<lparr>hw_desc_list := []\<rparr> \<and> dma_mem h' = dma_mem h"
  using assms by (auto simp: tsi148_dma_free_chain_def fold_pool_free pool_ok_def mset_fold_remove1)

subsection \<open>The link loop\<close>

lemma link_add_loop_end:
  "\<not> da < da_end \<Longrightarrow>
     link_add_loop pool again b dsat_w ddat_w vme_end da_end vme da len cur nxt chan h = Some (OK, nxt, chan, h)"
  by (subst link_add_loop.simps) simp

text \<open>One turn of the loop, with the arithmetic done.\<close>

lemma link_add_loop_step:
  assumes b: "b \<le> 11" and g: "good_dir (ch_desc chan)"
    and n: "0 < n" "unat da_end = unat da + n" "n < 0x100000000" "b = 0 \<longrightarrow> unat len = n"
    and nw: "unat da + n + 2048 < 0x10000000000000000" and v: "vme < vme_end"
    and l_def: "l = piece_len b vme da da_end len"
    and f_def: "f = piece_desc (ch_desc chan) dsat_w ddat_w (unat vme, unat da, cut_len (block_size b) (unat vme) n)"
  shows "link_add_loop pool again b dsat_w ddat_w vme_end da_end vme da len (Some p) nxt chan h =
    (let h1 = store_desc p (f TSI148_LCSR_DNLAL_LLA) h;
         vme' = (if novmeinc (ch_desc chan) then vme else vme + l); da' = da + ucast l
     in if again \<or> da' < da_end
        then (case hwdesc_init pool chan h1 of
                (Inl e, chan, h) \<Rightarrow> Some (Inl e, nxt, chan, h)
              | (Inr q, chan, h) \<Rightarrow>
                  link_add_loop pool again b dsat_w ddat_w vme_end da_end vme' da' l (Some q) (Some q) chan
                    (store_desc p ((dma_mem h p)\<lparr>dnlau := 0, dnlal := link_to q\<rparr>) h))
        else link_add_loop pool again b dsat_w ddat_w vme_end da_end vme' da' l nxt nxt chan h1)"
proof -
  have lt: "da < da_end" using n(1,2) by (simp add: word_less_nat_alt)
  have u: "unat l = cut_len (block_size b) (unat vme) n"
    unfolding l_def by (rule piece_len_nat [OF b n(2,3,4) nw])
  have fe: "snd (tsi148_fill_dma_desc (ch_desc chan) t vme da l dsat_w ddat_w) = f TSI148_LCSR_DNLAL_LLA" for t
    unfolding f_def u [symmetric] by (rule fill_dma_desc_eq [OF g])
  show ?thesis
    unfolding link_to_def Let_def
    by (subst link_add_loop.simps) (simp add: v lt fe l_def [symmetric] Let_def)
qed

definition loop_result ::
    "u64 multiset \<Rightarrow> dma_channel \<Rightarrow> bool \<Rightarrow> (u32 \<Rightarrow> tsi148_dma_desc) list \<Rightarrow> rc \<times> u64 option \<times> dma_channel \<times> dma_heap \<Rightarrow> bool" where
  "loop_result others chan again fs = (\<lambda>(r, nxt, chan', h').
     pool_ok others chan' h' \<and> (\<exists>ns. chan' = chan\<lparr>hw_desc_list := hw_desc_list chan @ ns\<rparr>) \<and>
     (r = OK \<longrightarrow> (if again then opened (dma_mem h') fs (hw_desc_list chan') \<and> nxt = Some (last (hw_desc_list chan'))
                  else closed (dma_mem h') fs (hw_desc_list chan'))))"

lemma loop_result_extend:
  "loop_result others (chan\<lparr>hw_desc_list := hw_desc_list chan @ ns\<rparr>) again fs res \<Longrightarrow> loop_result others chan again fs res"
  by (auto simp: loop_result_def split: prod.splits)

lemma link_add_loop_result:
  assumes fp: "fresh_pool pool" and b: "b \<le> 11"
    and "0 < n" "unat da_end = unat da + n" "n < 0x100000000" "b = 0 \<longrightarrow> unat len = n"
    and "unat da + n + 2048 < 0x10000000000000000"
    and "if novmeinc (ch_desc chan) then vme < vme_end else unat vme_end = unat vme + n"
    and "good_dir (ch_desc chan)" and "pool_ok others chan h"
    and "opened (dma_mem h) fs (hw_desc_list chan)" and "cur = Some (last (hw_desc_list chan))"
  shows "\<exists>res. link_add_loop pool again b dsat_w ddat_w vme_end da_end vme da len cur nxt chan h = Some res
    \<and> loop_result others chan again (fs @ map (piece_desc (ch_desc chan) dsat_w ddat_w)
        (pieces (block_size b) (novmeinc (ch_desc chan)) (unat vme) (unat da) n)) res"
  using assms(3-)
proof (induction n arbitrary: vme da len cur nxt chan h fs rule: less_induct)
  case (less n)
  let ?bs = "block_size b" and ?d = "ch_desc chan"
  let ?l = "piece_len b vme da da_end len" and ?p = "last (hw_desc_list chan)"
  let ?c = "cut_len ?bs (unat vme) n"
  let ?f = "piece_desc ?d dsat_w ddat_w (unat vme, unat da, ?c)"
  let ?h1 = "store_desc ?p (?f TSI148_LCSR_DNLAL_LLA) h"
  let ?vme = "if novmeinc ?d then vme else vme + ?l" and ?da = "da + ucast ?l"
  note P = less.prems
  have u: "unat ?l = ?c" by (rule piece_len_nat [OF b P(2,3,4,5)])
  have c: "0 < ?c" "?c \<le> n" using cut_len_bounds P(1) by blast+
  have da: "unat ?da = unat da + ?c"
    using P(5) c(2) u by (subst unat_add_u64_cases) (simp add: unat_ucast_u32)
  have lt: "?da < da_end \<longleftrightarrow> ?c < n" using P(2) da by (simp add: word_less_nat_alt)
  have v: "vme < vme_end" using P(1,6) by (auto simp: word_less_nat_alt split: if_splits)
  have vme: "unat ?vme = (if novmeinc ?d then unat vme else unat vme + ?c)"
    using P(6) u c(2) unat_u32_bound [of vme_end] unat_add_u32 [of vme ?l] by (simp split: if_splits)
  have pieces: "map (piece_desc ?d dsat_w ddat_w) (pieces ?bs (novmeinc ?d) (unat vme) (unat da) n) =
      ?f # map (piece_desc ?d dsat_w ddat_w) (pieces ?bs (novmeinc ?d) (unat ?vme) (unat ?da) (n - ?c))"
    by (simp add: pieces_step [OF P(1)] vme da)
  note dist = pool_ok_distinct [OF P(8)]
  note step = link_add_loop_step [OF b P(7,1,2,3,4,5) v refl refl, of pool again dsat_w ddat_w ?p nxt h, folded P(10)]
  have ok1: "pool_ok others chan ?h1" using P(8) by simp
  show ?case
  proof (cases "again \<or> ?c < n")
    case False
    then have "n - ?c = 0" using c by simp
    have nlt: "\<not> ?da < da_end" and na: "\<not> again" using False lt by simp_all
    have "closed (dma_mem ?h1) (fs @ [?f]) (hw_desc_list chan)"
      using opened_close [OF P(9) dist refl, of ?f] by (simp add: store_desc_def)
    moreover have "link_add_loop pool again b dsat_w ddat_w vme_end da_end vme da len cur nxt chan h = Some (OK, nxt, chan, ?h1)"
      unfolding step Let_def if_not_P [OF nlt] using nlt na by (simp add: link_add_loop_end)
    ultimately show ?thesis
      using \<open>n - ?c = 0\<close> False ok1 pieces by (auto simp: loop_result_def intro!: exI [of _ "[]"])
  next
    case True
    obtain r chan2 h2 where init: "hwdesc_init pool chan ?h1 = (r, chan2, h2)" by (metis prod_cases3)
    note H = hwdesc_init_cases [OF fp ok1 init]
    show ?thesis
    proof (cases r)
      case (Inl e)
      with H have "chan2 = chan" "pool_ok others chan h2" by auto
      with Inl True lt init show ?thesis
        by (subst step) (auto simp: Let_def loop_result_def intro!: exI [of _ "[]"])
    next
      case (Inr q)
      with H have chan2: "chan2 = chan\<lparr>hw_desc_list := hw_desc_list chan @ [q]\<rparr>"
        and mem: "dma_mem h2 = dma_mem ?h1" and ok2: "pool_ok others chan2 h2" by auto
      let ?h3 = "store_desc ?p ((dma_mem h2 ?p)\<lparr>dnlau := 0, dnlal := link_to q\<rparr>) h2"
      have m3: "dma_mem ?h3 = (dma_mem h)(?p := ?f (link_to q))"
        by (auto simp: store_desc_def mem)
      have op: "opened (dma_mem ?h3) (fs @ [?f]) (hw_desc_list chan2)"
        using opened_extend [where f = ?f and q = q, OF P(9) dist refl m3] by (simp add: chan2)
      have loop: "link_add_loop pool again b dsat_w ddat_w vme_end da_end vme da len cur nxt chan h =
        link_add_loop pool again b dsat_w ddat_w vme_end da_end ?vme ?da ?l (Some q) (Some q) chan2 ?h3"
        using Inr True lt init by (subst step) (auto simp: Let_def)
      show ?thesis
      proof (cases "?c < n")
        case False
        then have "n - ?c = 0" "again" using c True by simp_all
        with op ok2 False lt pieces show ?thesis
          unfolding loop by (auto simp: link_add_loop_end loop_result_def chan2 intro!: exI [of _ "[q]"])
      next
        case lt': True
        then have "b \<noteq> 0" by (cases "b = 0") (simp_all add: cut_len_def block_size_def)
        have "\<exists>res. link_add_loop pool again b dsat_w ddat_w vme_end da_end ?vme ?da ?l (Some q) (Some q) chan2 ?h3 = Some res
          \<and> loop_result others chan2 again ((fs @ [?f]) @ map (piece_desc (ch_desc chan2) dsat_w ddat_w)
            (pieces ?bs (novmeinc (ch_desc chan2)) (unat ?vme) (unat ?da) (n - ?c))) res"
          by (rule less.IH)
            (use lt' c P da vme op ok2 \<open>b \<noteq> 0\<close> in \<open>simp_all add: chan2 split: if_splits\<close>)
        moreover have "ch_desc chan2 = ?d" by (simp add: chan2)
        ultimately have "\<exists>res. link_add_loop pool again b dsat_w ddat_w vme_end da_end vme da len cur nxt chan h = Some res
          \<and> loop_result others chan2 again (fs @ map (piece_desc ?d dsat_w ddat_w) (pieces ?bs (novmeinc ?d) (unat vme) (unat da) n)) res"
          unfolding loop pieces by (simp only: append.assoc append.simps)
        then show ?thesis
          unfolding chan2 by (blast intro: loop_result_extend)
      qed
    qed
  qed
qed

subsection \<open>The chain of a scatter-gather list\<close>

text \<open>A list whose entries are not empty and whose addresses do not wrap around.\<close>

definition sg_plain :: "nat \<Rightarrow> sg_entry list \<Rightarrow> bool" where
  "sg_plain v sgs \<longleftrightarrow> v + sg_total sgs < 0x100000000
     \<and> list_all (\<lambda>(a, len). 0 < unat len \<and> unat a + unat len + 2048 < 0x10000000000000000) sgs"

lemma link_add_result:
  assumes fp: "fresh_pool pool" and b: "b \<le> 11" and g: "good_dir (ch_desc chan)"
    and l: "0 < unat len" and aw: "unat a + unat len + 2048 < 0x10000000000000000"
    and vw: "unat vme + unat len < 0x100000000"
    and ok: "pool_ok others chan h" and op: "opened (dma_mem h) fs (hw_desc_list chan)"
    and c: "cur = Some (last (hw_desc_list chan))"
  shows "\<exists>res. tsi148_dma_link_add pool chan cur vme a len numpages i b dsat_w ddat_w h = Some res
    \<and> loop_result others chan (int i < int numpages - 1) (fs @ map (piece_desc (ch_desc chan) dsat_w ddat_w)
        (pieces (block_size b) (novmeinc (ch_desc chan)) (unat vme) (unat a) (unat len))) res"
proof -
  have e: "unat (a + ucast len) = unat a + unat len"
    using aw by (subst unat_add_u64_cases) (simp add: unat_ucast_u32)
  have v: "unat (vme + len) = unat vme + unat len" using vw by (rule unat_add_u32)
  then have "if novmeinc (ch_desc chan) then vme < vme + len else unat (vme + len) = unat vme + unat len"
    using l by (simp add: word_less_nat_alt)
  from link_add_loop_result [OF fp b l e unat_u32_bound _ aw this g ok op c]
  obtain r nxt chan' h' where
    "link_add_loop pool (int i < int numpages - 1) b dsat_w ddat_w (vme + len) (a + ucast len) vme a len cur None chan h = Some (r, nxt, chan', h')"
    and res: "loop_result others chan (int i < int numpages - 1) (fs @ map (piece_desc (ch_desc chan) dsat_w ddat_w)
        (pieces (block_size b) (novmeinc (ch_desc chan)) (unat vme) (unat a) (unat len))) (r, nxt, chan', h')"
    by (metis prod_cases4)
  then have "tsi148_dma_link_add pool chan cur vme a len numpages i b dsat_w ddat_w h = Some (r, if r = OK then nxt else cur, chan', h')"
    by (simp add: tsi148_dma_link_add_def c)
  with res show ?thesis by (auto simp: loop_result_def)
qed

lemma setup_chain_loop_result:
  assumes fp: "fresh_pool pool" and b: "b \<le> 11"
    and "good_dir (ch_desc chan)" "sg_plain (unat vme) sgs" "sgs \<noteq> []" "numpages = i + length sgs"
    and "pool_ok others chan h" "opened (dma_mem h) fs (hw_desc_list chan)" "cur = Some (last (hw_desc_list chan))"
  shows "\<exists>r chan' h'. setup_chain_loop pool b dsat_w ddat_w numpages sgs i vme cur chan h = Some (r, chan', h')
    \<and> pool_ok others chan' h' \<and> (\<exists>ns. chan' = chan\<lparr>hw_desc_list := hw_desc_list chan @ ns\<rparr>)
    \<and> (r = OK \<longrightarrow> closed (dma_mem h') (fs @ map (piece_desc (ch_desc chan) dsat_w ddat_w)
        (sg_pieces (block_size b) (novmeinc (ch_desc chan)) (unat vme) sgs)) (hw_desc_list chan'))"
  using assms(3-)
proof (induction sgs arbitrary: vme i cur chan h fs)
  case (Cons sg sgs)
  obtain a len where sg: "sg = (a, len)" by fastforce
  note P = Cons.prems
  let ?d = "ch_desc chan"
  let ?fs = "fs @ map (piece_desc ?d dsat_w ddat_w) (pieces (block_size b) (novmeinc ?d) (unat vme) (unat a) (unat len))"
  have pl: "0 < unat len" "unat a + unat len + 2048 < 0x10000000000000000" "unat vme + unat len < 0x100000000"
    using P(2) by (simp_all add: sg_plain_def sg sg_total_def)
  have ag: "(int i < int numpages - 1) = (sgs \<noteq> [])" using P(4) by (cases sgs) auto
  obtain r cur2 chan2 h2 where
    la: "tsi148_dma_link_add pool chan cur vme a len numpages i b dsat_w ddat_w h = Some (r, cur2, chan2, h2)"
    and R: "loop_result others chan (sgs \<noteq> []) ?fs (r, cur2, chan2, h2)"
    using link_add_result [OF fp b P(1) pl P(5-7), of numpages i dsat_w ddat_w] unfolding ag by (metis prod_cases4)
  then obtain ns where ok2: "pool_ok others chan2 h2" and chan2: "chan2 = chan\<lparr>hw_desc_list := hw_desc_list chan @ ns\<rparr>"
    by (auto simp: loop_result_def)
  let ?vme = "if novmeinc ?d then vme else vme + len"
  show ?case
  proof (cases r)
    case (Inl e)
    with la ok2 chan2 show ?thesis by (auto simp: sg)
  next
    case (Inr u)
    have loop: "setup_chain_loop pool b dsat_w ddat_w numpages (sg # sgs) i vme cur chan h =
       setup_chain_loop pool b dsat_w ddat_w numpages sgs (i + 1) ?vme cur2 chan2 h2"
      using Inr la by (simp add: sg chan2)
    have vme: "unat ?vme = (if novmeinc ?d then unat vme else unat vme + unat len)"
      using pl(3) by (simp add: unat_add_u32)
    show ?thesis
    proof (cases "sgs = []")
      case True
      with R Inr ok2 chan2 show ?thesis
        unfolding loop by (auto simp: loop_result_def sg)
    next
      case False
      with R Inr have "opened (dma_mem h2) ?fs (hw_desc_list chan2)" "cur2 = Some (last (hw_desc_list chan2))"
        by (auto simp: loop_result_def)
      moreover have "sg_plain (unat ?vme) sgs"
        using P(2) pl(3) vme by (auto simp: sg_plain_def sg sg_total_def)
      moreover have "good_dir (ch_desc chan2)" "numpages = i + 1 + length sgs" using P(1,4) by (simp_all add: chan2)
      ultimately have "\<exists>r chan' h'. setup_chain_loop pool b dsat_w ddat_w numpages sgs (i + 1) ?vme cur2 chan2 h2 = Some (r, chan', h')
        \<and> pool_ok others chan' h' \<and> (\<exists>ns. chan' = chan2\<lparr>hw_desc_list := hw_desc_list chan2 @ ns\<rparr>)
        \<and> (r = OK \<longrightarrow> closed (dma_mem h') (?fs @ map (piece_desc (ch_desc chan2) dsat_w ddat_w)
            (sg_pieces (block_size b) (novmeinc (ch_desc chan2)) (unat ?vme) sgs)) (hw_desc_list chan'))"
        using False ok2 by (intro Cons.IH)
      moreover have "ch_desc chan2 = ?d" by (simp add: chan2)
      moreover have "?fs @ map (piece_desc ?d dsat_w ddat_w) (sg_pieces (block_size b) (novmeinc ?d) (unat ?vme) sgs) =
          fs @ map (piece_desc ?d dsat_w ddat_w) (sg_pieces (block_size b) (novmeinc ?d) (unat vme) (sg # sgs))"
        by (simp add: sg vme)
      ultimately show ?thesis unfolding loop by (auto simp: chan2)
    qed
  qed
qed simp

subsection \<open>Following the chain\<close>

text \<open>
  The chip's side: starting at a descriptor, perform it and go on at its link unless the last-link
  bit is set. \<open>dma_op\<close> is what a descriptor asks for: VME address, bus address and count.
\<close>

fun walk :: "nat \<Rightarrow> (u64 \<Rightarrow> tsi148_dma_desc) \<Rightarrow> u64 \<Rightarrow> tsi148_dma_desc list" where
  "walk 0 m p = []"
| "walk (Suc n) m p = m p # (if dnlal (m p) AND TSI148_LCSR_DNLAL_LLA \<noteq> 0 then []
     else walk n m (reg_join (dnlau (m p)) (dnlal (m p)) AND NOT 7))"

definition dma_op :: "vme_dma \<Rightarrow> tsi148_dma_desc \<Rightarrow> nat \<times> nat \<times> nat" where
  "dma_op d t = (if dir d = VME_DMA_FROM_DEVICE then (unat (dsal t), unat (ddal t), unat (dcnt t))
     else (unat (ddal t), unat (dsal t), unat (dcnt t)))"

text \<open>What the chip performs when it starts at the link registers of a channel.\<close>

definition chip_dma_ops :: "dma_channel \<Rightarrow> tsi148_lcsr \<Rightarrow> dma_heap \<Rightarrow> (nat \<times> nat \<times> nat) list" where
  "chip_dma_ops chan c h =
     (let regs = dma_desc (dma c ! num chan)
      in map (dma_op (ch_desc chan))
           (walk (length (hw_desc_list chan)) (dma_mem h) (reg_join (dnlau regs) (dnlal regs) AND NOT 7)))"

lemma link_to_follow:
  assumes "desc_addr_ok q"
  shows "link_to q AND TSI148_LCSR_DNLAL_LLA = 0" and "reg_join 0 (link_to q) AND NOT 7 = q"
proof -
  have m: "TSI148_LCSR_DNLAL_DNLAL_M = NOT (mask 3)" by (simp add: hw_consts mask_eq_exp_minus_1)
  have seven: "(7 :: u64) = mask 3" by (simp add: mask_eq_exp_minus_1)
  have q: "q AND mask 3 = 0" "unat q < 0x100000000" using assms by (simp_all add: desc_addr_ok_def seven [symmetric])
  have b3: "3 \<le> j" if "bit q j" for j
  proof (rule ccontr)
    assume "\<not> 3 \<le> j"
    with that have "bit (q AND mask 3) j" by (simp add: bit_simps)
    with q(1) show False by simp
  qed
  have eq: "link_to q = ucast q"
    unfolding link_to_def m by (rule bit_eqI) (auto simp: bit_simps dest: b3)
  show "link_to q AND TSI148_LCSR_DNLAL_LLA = 0"
    unfolding eq hw_consts by (rule bit_eqI) (auto simp: bit_simps dest: b3)
  have "reg_join 0 (ucast q) = q"
    using q(2) by (simp add: reg_join_def word_unat_eq_iff unat_ucast_u32 unat_ucast_small)
  moreover have "q AND NOT 7 = q"
    unfolding seven by (rule bit_eqI) (auto simp: bit_simps dest: b3)
  ultimately show "reg_join 0 (link_to q) AND NOT 7 = q" by (simp only: eq)
qed

lemma piece_desc_sel [simp]:
  "dnlal (piece_desc d s t x lnk) = lnk" "dnlau (piece_desc d s t x lnk) = 0"
  by (simp_all add: piece_desc_def split: prod.splits)

lemma closed_walk:
  assumes "closed m (map (piece_desc d s t) xs) ps" and "list_all desc_addr_ok ps"
  shows "walk (length xs) m (hd ps) = map m ps"
  using assms
proof (induction xs arbitrary: ps)
  case Nil
  then show ?case by (simp add: closed_def)
next
  case (Cons x xs)
  then obtain p qs where ps: "ps = p # qs" by (cases ps) (auto simp: closed_def)
  have C: "length qs = length xs" and mp: "m p = piece_desc d s t x (if qs = [] then TSI148_LCSR_DNLAL_LLA else link_to (hd qs))"
    and rest: "\<forall>j < length xs. m (qs ! j) = piece_desc d s t (xs ! j) (if Suc j < length qs then link_to (qs ! Suc j) else TSI148_LCSR_DNLAL_LLA)"
    using Cons.prems(1) by (force simp: closed_def ps hd_conv_nth)+
  show ?case
  proof (cases "qs = []")
    case True
    with mp show ?thesis using C by (simp add: ps hw_consts)
  next
    case False
    then have "desc_addr_ok (hd qs)" using Cons.prems(2) by (cases qs) (simp_all add: ps)
    from link_to_follow [OF this] have "walk (length (x # xs)) m (hd ps) = m p # walk (length xs) m (hd qs)"
      using mp False by (simp add: ps)
    moreover have "closed m (map (piece_desc d s t) xs) qs"
      using rest C False by (simp add: closed_def)
    ultimately show ?thesis using Cons.IH [of qs] Cons.prems(2) by (simp add: ps)
  qed
qed

subsection \<open>Setting up a transfer\<close>

definition chan_bshift :: "vme_dma \<Rightarrow> nat" where
  "chan_bshift d = tsi148_get_bshift_am (if dir d = VME_DMA_FROM_DEVICE then attr_am (dma_src d) else attr_am (dma_dst d))"

definition chan_vme :: "vme_dma \<Rightarrow> u32" where
  "chan_vme d = (if dir d = VME_DMA_FROM_DEVICE then addrl (dma_src d) else addrl (dma_dst d))"

lemma bshift_range: "tsi148_get_bshift_am a \<in> {0, 8, 11}"
  by (simp add: tsi148_get_bshift_am_def split: vme_address_modifier.splits)

lemma bshift_le: "tsi148_get_bshift chan \<le> 11"
proof -
  have "tsi148_get_bshift chan \<in> {0, 8, 11}"
    unfolding tsi148_get_bshift_def Let_def by (rule bshift_range)
  then show ?thesis by auto
qed

text \<open>The transfers whose chain is well-defined: a mapped list that is not empty, no wrap-around,
  and bus addresses of 32 bits, which is all that the descriptors hold.\<close>

definition transfer_ok :: "dma_channel \<Rightarrow> bool" where
  "transfer_ok chan \<longleftrightarrow> good_dir (ch_desc chan) \<and> hw_desc_list chan = [] \<and> sgl chan \<noteq> []
     \<and> sg_mapped chan = length (sgl chan) \<and> sg_plain (unat (chan_vme (ch_desc chan))) (sgl chan)
     \<and> list_all (\<lambda>(a, len). unat a + unat len \<le> 0x100000000) (sgl chan)"

lemma pieces_bounds:
  assumes "(v', a', l) \<in> set (pieces bs fixed v a n)"
  shows "v \<le> v' \<and> v' + l \<le> v + n \<and> a \<le> a' \<and> a' + l \<le> a + n \<and> 0 < l"
  using assms
proof (induction n arbitrary: v a rule: less_induct)
  case (less n)
  show ?case
  proof (cases "n = 0")
    case False
    then have lt: "n - cut_len bs v n < n" "cut_len bs v n \<le> n" "0 < cut_len bs v n"
      using cut_len_bounds(1) [of n bs v] cut_len_bounds(2) [of bs v n] by simp_all
    from less.prems False consider "v' = v" "a' = a" "l = cut_len bs v n"
      | "(v', a', l) \<in> set (pieces bs fixed (if fixed then v else v + cut_len bs v n) (a + cut_len bs v n) (n - cut_len bs v n))"
      by (auto simp: pieces_step)
    then show ?thesis
    proof cases
      case 2
      from less.IH [OF lt(1) this] lt show ?thesis by (auto split: if_splits)
    qed (use lt in auto)
  qed (use less.prems in simp)
qed

lemma sg_pieces_bounds:
  assumes "(v', a', l) \<in> set (sg_pieces bs fixed v sgs)"
    and "list_all (\<lambda>(a, len). unat a + unat len \<le> 0x100000000) sgs"
  shows "v' + l \<le> v + sg_total sgs \<and> a' + l \<le> 0x100000000 \<and> 0 < l"
  using assms
proof (induction sgs arbitrary: v)
  case (Cons sg sgs)
  obtain a len where sg: "sg = (a, len)" by fastforce
  from Cons.prems(1) sg consider "(v', a', l) \<in> set (pieces bs fixed v (unat a) (unat len))"
    | "(v', a', l) \<in> set (sg_pieces bs fixed (if fixed then v else v + unat len) sgs)" by auto
  then show ?case
  proof cases
    case 1
    from pieces_bounds [OF this] Cons.prems(2) show ?thesis by (auto simp: sg sg_total_def)
  next
    case 2
    from Cons.IH [OF this] Cons.prems(2) show ?thesis by (auto simp: sg sg_total_def split: if_splits)
  qed
qed simp

lemma unat_of_nat_u32: "n < 0x100000000 \<Longrightarrow> unat (of_nat n :: u32) = n"
  by (simp add: unsigned_of_nat take_bit_nat_eq_self)

lemma dma_op_piece:
  assumes "good_dir d" and "v < 0x100000000" "a < 0x100000000" "l < 0x100000000"
  shows "dma_op d (piece_desc d s t (v, a, l) lnk) = (v, a, l)"
  using assms by (auto simp: dma_op_def piece_desc_def unat_of_nat_u32 good_dir_def)

lemma closed_ops:
  assumes "closed m (map (piece_desc d s t) xs) ps" and "good_dir d"
    and "\<forall>(v, a, l) \<in> set xs. v < 0x100000000 \<and> a < 0x100000000 \<and> l < 0x100000000"
  shows "map (dma_op d \<circ> m) ps = xs"
proof (rule nth_equalityI)
  show l: "length (map (dma_op d \<circ> m) ps) = length xs" using assms(1) by (simp add: closed_def)
  fix j assume "j < length (map (dma_op d \<circ> m) ps)"
  then have j: "j < length xs" using l by simp
  obtain v a n where x: "xs ! j = (v, a, n)" by (metis prod_cases3)
  have "(v, a, n) \<in> set xs" using j x nth_mem by metis
  then have "v < 0x100000000" "a < 0x100000000" "n < 0x100000000" using assms(3) by auto
  with assms(1) j x l show "map (dma_op d \<circ> m) ps ! j = xs ! j"
    by (simp add: closed_def dma_op_piece [OF assms(2)])
qed

text \<open>The result of the chain set-up, from the loop lemma.\<close>

lemma setup_chain_result:
  assumes fp: "fresh_pool pool" and t: "transfer_ok chan" and d: "distinct (pool_live h)"
  shows "\<exists>r chan' c' h'. tsi148_dma_setup_chain pool chan dsat_w ddat_w c h = Some (r, chan', c', h')
    \<and> (if r = OK
       then pool_ok (mset (pool_live h)) chan' h' \<and> (\<exists>ps. chan' = chan\<lparr>hw_desc_list := ps\<rparr>)
         \<and> closed (dma_mem h') (map (piece_desc (ch_desc chan) dsat_w ddat_w) (sg_pieces (block_size (chan_bshift (ch_desc chan)))
             (novmeinc (ch_desc chan)) (unat (chan_vme (ch_desc chan))) (sgl chan))) (hw_desc_list chan')
         \<and> c' = upd_dma (num chan) (\<lambda>r. r\<lparr>dma_desc := (dma_desc r)\<lparr>dnlau := 0, dnlal := link_to (hd (hw_desc_list chan'))\<rparr>\<rparr>) c
       else mset (pool_live h') = mset (pool_live h) \<and> chan' = chan \<and> c' = c)"
proof -
  let ?d = "ch_desc chan"
  have g: "good_dir ?d" and e: "hw_desc_list chan = []" and sg: "sgl chan \<noteq> []" "sg_mapped chan = length (sgl chan)"
    and pl: "sg_plain (unat (chan_vme ?d)) (sgl chan)" using t by (simp_all add: transfer_ok_def)
  have ok: "pool_ok (mset (pool_live h)) chan h" using d e by (simp add: pool_ok_def)
  have bs: "tsi148_get_bshift chan = chan_bshift ?d" by (simp add: tsi148_get_bshift_def chan_bshift_def Let_def)
  have gv: "get_vmeaddr ?d = Inr (chan_vme ?d)" using g by (auto simp: get_vmeaddr_def chan_vme_def good_dir_def)
  obtain r1 chan1 h1 where i: "hwdesc_init pool chan h = (r1, chan1, h1)" by (metis prod_cases3)
  note H = hwdesc_init_cases [OF fp ok i]
  show ?thesis
  proof (cases r1)
    case (Inl x)
    with H e have "chan1 = chan" "mset (pool_live h1) = mset (pool_live h)" by (auto simp: pool_ok_def)
    with Inl i show ?thesis by (simp add: tsi148_dma_setup_chain_def Let_def)
  next
    case (Inr q)
    with H e have chan1: "chan1 = chan\<lparr>hw_desc_list := [q]\<rparr>" and ok1: "pool_ok (mset (pool_live h)) chan1 h1" by auto
    have op: "opened (dma_mem h1) [] (hw_desc_list chan1)" by (simp add: opened_def chan1)
    obtain r2 chan2 h2 where loop: "setup_chain_loop pool (chan_bshift ?d) dsat_w ddat_w (length (sgl chan)) (sgl chan) 0
         (chan_vme ?d) (Some q) chan1 h1 = Some (r2, chan2, h2)"
      and ok2: "pool_ok (mset (pool_live h)) chan2 h2"
      and ns: "\<exists>ns. chan2 = chan1\<lparr>hw_desc_list := hw_desc_list chan1 @ ns\<rparr>"
      and cl: "r2 = OK \<Longrightarrow> closed (dma_mem h2) (map (piece_desc ?d dsat_w ddat_w)
        (sg_pieces (block_size (chan_bshift ?d)) (novmeinc ?d) (unat (chan_vme ?d)) (sgl chan))) (hw_desc_list chan2)"
      using setup_chain_loop_result [OF fp, of "chan_bshift ?d" chan1 "chan_vme ?d" "sgl chan" "length (sgl chan)" 0
          "mset (pool_live h)" h1 "[]" "Some q" dsat_w ddat_w] bshift_le [of chan] g sg(1) pl ok1 op
      by (auto simp: bs chan1)
    obtain ns' where chan2: "chan2 = chan\<lparr>hw_desc_list := q # ns'\<rparr>" using ns by (auto simp: chan1)
    show ?thesis
    proof (cases r2)
      case Inl': (Inl x)
      obtain chan3 h3 where f: "tsi148_dma_free_chain chan2 h2 = (chan3, h3)" by fastforce
      have "mset (pool_live h3) = mset (pool_live h)" "chan3 = chan"
        using free_chain_pool [OF ok2 f] e by (simp_all add: chan2)
      moreover have "tsi148_dma_setup_chain pool chan dsat_w ddat_w c h = Some (Inl x, chan3, c, h3)"
        using i Inr Inl' loop f sg gv by (simp add: tsi148_dma_setup_chain_def Let_def bs chan1)
      ultimately show ?thesis by simp
    next
      case Inr': (Inr u)
      have "tsi148_dma_setup_chain pool chan dsat_w ddat_w c h = Some (OK, chan2,
          upd_dma (num chan) (\<lambda>r. r\<lparr>dma_desc := (dma_desc r)\<lparr>dnlau := 0, dnlal := link_to q\<rparr>\<rparr>) c, h2)"
        using i Inr Inr' loop sg gv by (simp add: tsi148_dma_setup_chain_def Let_def bs chan1 chan2 link_to_def)
      with ok2 cl Inr' show ?thesis by (auto simp: chan2)
    qed
  qed
qed

lemma dma_chain_walk:
  assumes fp: "fresh_pool pool" and t: "transfer_ok chan" and d: "distinct (pool_live h)"
    and n: "num chan < length (dma c)"
  shows "\<exists>r chan' c' h'. tsi148_dma_setup_chain pool chan dsat_w ddat_w c h = Some (r, chan', c', h')
    \<and> (r = OK \<longrightarrow> chip_dma_ops chan' c' h' =
         sg_pieces (block_size (chan_bshift (ch_desc chan))) (novmeinc (ch_desc chan)) (unat (chan_vme (ch_desc chan))) (sgl chan))"
proof -
  let ?d = "ch_desc chan"
  let ?xs = "sg_pieces (block_size (chan_bshift ?d)) (novmeinc ?d) (unat (chan_vme ?d)) (sgl chan)"
  obtain r chan' c' h' where e: "tsi148_dma_setup_chain pool chan dsat_w ddat_w c h = Some (r, chan', c', h')"
    and R: "if r = OK
       then pool_ok (mset (pool_live h)) chan' h' \<and> (\<exists>ps. chan' = chan\<lparr>hw_desc_list := ps\<rparr>)
         \<and> closed (dma_mem h') (map (piece_desc ?d dsat_w ddat_w) ?xs) (hw_desc_list chan')
         \<and> c' = upd_dma (num chan) (\<lambda>r. r\<lparr>dma_desc := (dma_desc r)\<lparr>dnlau := 0, dnlal := link_to (hd (hw_desc_list chan'))\<rparr>\<rparr>) c
       else mset (pool_live h') = mset (pool_live h) \<and> chan' = chan \<and> c' = c"
    using setup_chain_result [OF fp t d, of dsat_w ddat_w c] by blast
  have b: "\<forall>(v, a, l) \<in> set ?xs. v < 0x100000000 \<and> a < 0x100000000 \<and> l < 0x100000000"
  proof clarify
    fix v a l assume "(v, a, l) \<in> set ?xs"
    from sg_pieces_bounds [OF this] t show "v < 0x100000000 \<and> a < 0x100000000 \<and> l < 0x100000000"
      by (auto simp: transfer_ok_def sg_plain_def)
  qed
  have "chip_dma_ops chan' c' h' = ?xs" if "r = OK"
  proof -
    from R that obtain ps where ok: "pool_ok (mset (pool_live h)) chan' h'" and ch: "chan' = chan\<lparr>hw_desc_list := ps\<rparr>"
      and cl: "closed (dma_mem h') (map (piece_desc ?d dsat_w ddat_w) ?xs) (hw_desc_list chan')"
      and c': "c' = upd_dma (num chan) (\<lambda>r. r\<lparr>dma_desc := (dma_desc r)\<lparr>dnlau := 0, dnlal := link_to (hd (hw_desc_list chan'))\<rparr>\<rparr>) c" by auto
    have al: "list_all desc_addr_ok (hw_desc_list chan')" using ok by (simp add: pool_ok_def)
    have ne: "hw_desc_list chan' \<noteq> []" and len: "length (hw_desc_list chan') = length ?xs" using cl by (simp_all add: closed_def)
    then have hd: "desc_addr_ok (hd (hw_desc_list chan'))" using al by (cases "hw_desc_list chan'") simp_all
    have regs: "reg_join (dnlau (dma_desc (dma c' ! num chan))) (dnlal (dma_desc (dma c' ! num chan))) AND NOT 7 = hd (hw_desc_list chan')"
      using n link_to_follow(2) [OF hd] by (simp add: c' upd_dma_def)
    have "chip_dma_ops chan' c' h' = map (dma_op ?d) (walk (length ?xs) (dma_mem h') (hd (hw_desc_list chan')))"
      unfolding chip_dma_ops_def Let_def len [symmetric] regs [symmetric] by (simp add: ch)
    then show ?thesis
      unfolding closed_walk [OF cl al] using closed_ops [OF cl _ b] t by (simp add: transfer_ok_def)
  qed
  with e show ?thesis by auto
qed

text \<open>C8: Setting up a chain terminates, and when it succeeds the chip, following the linked
list from the channel registers, performs exactly the pieces of the scatter-gather list in order;
for lists of 32-bit bus addresses whose VME range ends below 4G.\<close>

theorem dma_chain_performs_transfer:
  assumes fp: "fresh_pool pool" and t: "transfer_ok chan" and d: "distinct (pool_live h)"
    and n: "num chan < length (dma c)"
  shows "\<exists>r chan' c' h'. tsi148_dma_setup_chain pool chan dsat_w ddat_w c h = Some (r, chan', c', h')
    \<and> (r = OK \<longrightarrow> chip_dma_ops chan' c' h' =
         sg_pieces (block_size (chan_bshift (ch_desc chan))) (novmeinc (ch_desc chan)) (unat (chan_vme (ch_desc chan))) (sgl chan))"
  by (rule dma_chain_walk [OF assms])

text \<open>A pool as the kernel gives it, and a read of 0x1300 bytes from VME address 0x20000f80 into two pages.\<close>

definition sample_pool :: "u64 list \<Rightarrow> u64 option" where
  "sample_pool used = (let p = 0x10000 + 0x40 * of_nat (length used) 
     in if List.member used p \<or> \<not> (p AND 7 = 0 \<and> p < 0x100000000) then None else Some p)"

lemma sample_pool_fresh: "fresh_pool sample_pool"
  by (auto simp: fresh_pool_def sample_pool_def desc_addr_ok_def word_less_nat_alt Let_def split: if_splits)

definition sample_dma :: vme_dma where
  "sample_dma = (let side = \<lparr> attr_data_width = VME_D32, attr_am = VME_A32_USER_MBLT, attr_v2esst_mode = VME_SST160,
       attr_bcast_select = 0, addru = 0, addrl = 0 \<rparr>
     in \<lparr> dma_status = 0, dma_length = 0x1300, novmeinc = False, dir = VME_DMA_FROM_DEVICE,
       dma_src = side\<lparr>addrl := 0x20000f80\<rparr>, dma_dst = side\<lparr>addrl := 0x4000d000\<rparr>,
       dma_ctrl = \<lparr> vme_block_size = 7, vme_backoff_time = 0, pci_block_size = 7, pci_backoff_time = 0 \<rparr> \<rparr>)"

definition sample_chan :: dma_channel where
  "sample_chan = \<lparr> busy = True, num = 0, ch_desc = sample_dma, chained = False,
     sgl = [(0x70000000, 0x1000), (0x70008000, 0x300)], sg_pages = 2, sg_mapped = 2, hw_desc_list = [] \<rparr>"

definition sample_heap :: dma_heap where
  "sample_heap = \<lparr> dma_mem = (\<lambda>_. dma_desc_zero), pool_live = [], kmalloc_fails = [] \<rparr>"

lemmas sample_dma_defs = sample_dma_def sample_chan_def sample_heap_def Let_def

lemma sample_transfer_ok: "transfer_ok sample_chan"
  by (simp add: transfer_ok_def sample_dma_defs good_dir_def sg_plain_def sg_total_def chan_vme_def)

lemma sample_pieces:
  "sg_pieces (block_size (chan_bshift (ch_desc sample_chan))) (novmeinc (ch_desc sample_chan)) (unat (chan_vme (ch_desc sample_chan))) (sgl sample_chan)
     = [(0x20000f80, 0x70000000, 0x80), (0x20001000, 0x70000080, 0x800), (0x20001800, 0x70000880, 0x780),
        (0x20001f80, 0x70008000, 0x80), (0x20002000, 0x70008080, 0x280)]"
  by (simp add: sample_dma_defs block_size_def chan_bshift_def tsi148_get_bshift_am_def chan_vme_def pieces_step cut_len_def)

lemma sample_setup:
  "\<exists>chan' c' h'. tsi148_dma_setup_chain sample_pool sample_chan 0 0 sample_chip sample_heap = Some (OK, chan', c', h')"
proof -
  have "map_option fst (tsi148_dma_setup_chain sample_pool sample_chan 0 0 sample_chip sample_heap) = Some OK"
    by code_simp
  then show ?thesis by auto
qed

lemma sample_heap_pool: "distinct (pool_live sample_heap)" "num sample_chan < length (dma sample_chip)"
  by (simp_all add: sample_heap_def sample_chip_def sample_chan_def)

theorem dma_chain_performs_transfer_witness:
  "\<exists>chan' c' h'. tsi148_dma_setup_chain sample_pool sample_chan 0 0 sample_chip sample_heap = Some (OK, chan', c', h')
    \<and> chip_dma_ops chan' c' h' = [(0x20000f80, 0x70000000, 0x80), (0x20001000, 0x70000080, 0x800), (0x20001800, 0x70000880, 0x780),
        (0x20001f80, 0x70008000, 0x80), (0x20002000, 0x70008080, 0x280)]"
  using sample_setup dma_chain_performs_transfer [OF sample_pool_fresh sample_transfer_ok sample_heap_pool, of 0 0]
  by (auto simp: sample_pieces)

subsection \<open>Block boundaries\<close>

lemma sg_pieces_block:
  "(v', a', l) \<in> set (sg_pieces bs fixed v sgs) \<Longrightarrow> 0 < bs \<Longrightarrow> 0 < l \<and> v' div bs = (v' + l - 1) div bs"
  by (induction bs fixed v sgs rule: sg_pieces.induct) (use pieces_block in auto)

text \<open>The VME64 rules quoted in the source, on what the chip performs.\<close>

definition block_rule :: "vme_address_modifier \<Rightarrow> nat option" where
  "block_rule a = (case am_to_attr a of
     None \<Rightarrow> (if a = VME_A40_BLT then Some 256 else None)
   | Some f \<Rightarrow> (if transfer_mode f = TSI148_BLT then Some 256 else if transfer_mode f = TSI148_MBLT then Some 2048 else None))"

lemma block_rule_bshift: "block_rule a = Some bs \<Longrightarrow> block_size (tsi148_get_bshift_am a) = bs"
  by (cases a) (auto simp: block_rule_def am_to_attr_def mk_attr_def hw_consts tsi148_get_bshift_am_def block_size_def)

text \<open>C38: When the set-up of a chain succeeds, for a list of entries of nonzero length
mapped to bus addresses below 4G and a VME range that ends below 4G, no descriptor of a BLT chain
crosses a 256-byte boundary of VME addresses and none of an MBLT chain a 2048-byte boundary, none
is empty, and their lengths add up to the length of the list.\<close>

theorem dma_chain_respects_blocks:
  assumes fp: "fresh_pool pool" and t: "transfer_ok chan" and d: "distinct (pool_live h)"
    and n: "num chan < length (dma c)"
    and s: "tsi148_dma_setup_chain pool chan dsat_w ddat_w c h = Some (OK, chan', c', h')"
    and bs: "block_rule (if dir (ch_desc chan) = VME_DMA_FROM_DEVICE then attr_am (dma_src (ch_desc chan)) else attr_am (dma_dst (ch_desc chan))) = Some bs"
  shows "list_all (\<lambda>(v, a, l). 0 < l \<and> v div bs = (v + l - 1) div bs) (chip_dma_ops chan' c' h')
    \<and> sum_list (map (\<lambda>(v, a, l). l) (chip_dma_ops chan' c' h')) = sg_total (sgl chan)"
proof -
  have b: "block_size (chan_bshift (ch_desc chan)) = bs"
    unfolding chan_bshift_def by (rule block_rule_bshift [OF bs])
  have "0 < bs" using bs by (auto simp: block_rule_def split: option.splits if_splits)
  moreover have "chip_dma_ops chan' c' h' = sg_pieces bs (novmeinc (ch_desc chan)) (unat (chan_vme (ch_desc chan))) (sgl chan)"
    using dma_chain_walk [OF fp t d n, of dsat_w ddat_w] s b by auto
  ultimately show ?thesis
    using sg_pieces_block sg_pieces_total by (auto simp: list_all_iff)
qed

theorem dma_chain_respects_blocks_witness:
  "\<exists>chan' c' h'. tsi148_dma_setup_chain sample_pool sample_chan 0 0 sample_chip sample_heap = Some (OK, chan', c', h')
     \<and> sum_list (map (\<lambda>(v, a, l). l) (chip_dma_ops chan' c' h')) = 0x1300"
proof -
  obtain chan' c' h' where e: "tsi148_dma_setup_chain sample_pool sample_chan 0 0 sample_chip sample_heap = Some (OK, chan', c', h')"
    using sample_setup by blast
  from dma_chain_respects_blocks [OF sample_pool_fresh sample_transfer_ok sample_heap_pool e, of 2048]
  have "sum_list (map (\<lambda>(v, a, l). l) (chip_dma_ops chan' c' h')) = sg_total (sgl sample_chan)"
    by (simp add: sample_chan_def sample_dma_def Let_def block_rule_def am_to_attr_def mk_attr_def hw_consts)
  with e show ?thesis by (simp add: sg_total_def sample_chan_def)
qed

subsection \<open>Descriptors are given back\<close>

lemma setup_errors:
  "tsi148_dma_setup pool chan c h = Some (r, chan', c', h') \<Longrightarrow> r \<noteq> OK \<Longrightarrow>
     (chan' = chan \<and> h' = h) \<or> (\<exists>w1 w2 c1. tsi148_dma_setup_chain pool (chan\<lparr>chained := True\<rparr>) w1 w2 c1 h = Some (r, chan', c', h'))"
  by (auto simp: tsi148_dma_setup_def Let_def split: sum.splits)

lemma transfer_ok_chained [simp]: "transfer_ok (chan\<lparr>chained := b\<rparr>) = transfer_ok chan"
  by (simp add: transfer_ok_def)

theorem dma_descriptors_returned:
  assumes fp: "fresh_pool pool" and t: "transfer_ok chan" and d: "distinct (pool_live h)"
    and s: "tsi148_dma_setup pool chan c h = Some (r, chan', c', h')"
  shows "mset (pool_live (if r = OK then snd (tsi148_dma_release chan' h') else h')) = mset (pool_live h)"
proof (cases "r = OK")
  case False
  from setup_errors [OF s False] show ?thesis
  proof (elim disjE exE)
    fix w1 w2 c1 assume e: "tsi148_dma_setup_chain pool (chan\<lparr>chained := True\<rparr>) w1 w2 c1 h = Some (r, chan', c', h')"
    from setup_chain_result [OF fp _ d, of "chan\<lparr>chained := True\<rparr>" w1 w2 c1] t e False show ?thesis
      by auto
  qed (use False in simp)
next
  case True
  with s obtain w1 w2 c1 where e: "tsi148_dma_setup_chain pool (chan\<lparr>chained := True\<rparr>) w1 w2 c1 h = Some (OK, chan', c', h')"
    by (auto simp: tsi148_dma_setup_def Let_def split: sum.splits)
  obtain ps where ok: "pool_ok (mset (pool_live h)) chan' h'" and c: "chan' = chan\<lparr>chained := True, hw_desc_list := ps\<rparr>"
    using setup_chain_result [OF fp _ d, of "chan\<lparr>chained := True\<rparr>" w1 w2 c1] t e by auto
  have "chained chan'" by (simp add: c)
  moreover obtain c3 h3 where f: "tsi148_dma_free_chain chan' h' = (c3, h3)" by fastforce
  ultimately have "snd (tsi148_dma_release chan' h') = h3" by (simp add: tsi148_dma_release_def)
  with free_chain_pool [OF ok f] True show ?thesis by simp
qed

theorem dma_descriptors_returned_witness:
  "\<exists>r chan' c' h'. tsi148_dma_setup sample_pool sample_chan sample_chip (sample_heap\<lparr>kmalloc_fails := [False, False, True]\<rparr>) = Some (r, chan', c', h')
     \<and> r = Inl ENOMEM \<and> mset (pool_live h') = {#}"
proof -
  let ?h = "sample_heap\<lparr>kmalloc_fails := [False, False, True]\<rparr>"
  have "map_option fst (tsi148_dma_setup sample_pool sample_chan sample_chip ?h) = Some (Inl ENOMEM)" by code_simp
  then obtain chan' c' h' where e: "tsi148_dma_setup sample_pool sample_chan sample_chip ?h = Some (Inl ENOMEM, chan', c', h')" by auto
  from dma_descriptors_returned [OF sample_pool_fresh sample_transfer_ok _ e] e show ?thesis by (auto simp: sample_heap_def)
qed

subsection \<open>The control word\<close>

lemma le7_cases: "x \<le> (7 :: u32) \<Longrightarrow> x \<in> {0, 1, 2, 3, 4, 5, 6, 7}"
proof -
  assume "x \<le> 7"
  then have "unat x \<le> 7" by (simp add: word_le_nat_alt)
  then have "unat x \<in> {0, 1, 2, 3, 4, 5, 6, 7}" by auto
  then have "(of_nat (unat x) :: u32) \<in> of_nat ` {0, 1, 2, 3, 4, 5, 6, 7}" by blast
  then show ?thesis by simp
qed

lemma ctl_fields:
  assumes "x \<in> {0, 1, 2, 3, 4, 5, 6, (7 :: u32)}"
  shows "push_bit 12 x AND 0x7000 = push_bit 12 x" "push_bit 8 x AND 0x700 = push_bit 8 x"
    "push_bit 4 x AND 0x70 = push_bit 4 x" "x AND 7 = x"
    "drop_bit 12 (push_bit 12 x) = x" "drop_bit 8 (push_bit 8 x) = x" "drop_bit 4 (push_bit 4 x) = x"
    "push_bit 12 x AND 0x700 = 0" "push_bit 12 x AND 0x70 = 0" "push_bit 12 x AND 7 = 0" "push_bit 12 x AND 0xa800000 = 0"
    "push_bit 8 x AND 0x7000 = 0" "push_bit 8 x AND 0x70 = 0" "push_bit 8 x AND 7 = 0" "push_bit 8 x AND 0xa800000 = 0"
    "push_bit 4 x AND 0x7000 = 0" "push_bit 4 x AND 0x700 = 0" "push_bit 4 x AND 7 = 0" "push_bit 4 x AND 0xa800000 = 0"
    "x AND 0x7000 = 0" "x AND 0x700 = 0" "x AND 0x70 = 0" "x AND 0xa800000 = 0"
  using assms by auto

theorem dma_ctl_word:
  assumes "tsi148_dma_setup_ctl d = Inr w"
  shows "drop_bit TSI148_LCSR_DCTL_VBKS_SHIFT (w AND TSI148_LCSR_DCTL_VBKS_M) = vme_block_size (dma_ctrl d)
    \<and> drop_bit TSI148_LCSR_DCTL_VBOT_SHIFT (w AND TSI148_LCSR_DCTL_VBOT_M) = vme_backoff_time (dma_ctrl d)
    \<and> drop_bit TSI148_LCSR_DCTL_PBKS_SHIFT (w AND TSI148_LCSR_DCTL_PBKS_M) = pci_block_size (dma_ctrl d)
    \<and> w AND TSI148_LCSR_DCTL_PBOT_M = pci_backoff_time (dma_ctrl d)
    \<and> w AND (TSI148_LCSR_DCTL_DGO OR TSI148_LCSR_DCTL_ABT OR TSI148_LCSR_DCTL_MOD) = 0"
proof -
  let ?k = "dma_ctrl d"
  from assms have r: "vme_block_size ?k \<le> 7" "vme_backoff_time ?k \<le> 7" "pci_block_size ?k \<le> 7" "pci_backoff_time ?k \<le> 7"
    and w: "w = (push_bit 12 (vme_block_size ?k) AND 0x7000) OR (push_bit 8 (vme_backoff_time ?k) AND 0x700)
      OR (push_bit 4 (pci_block_size ?k) AND 0x70) OR (pci_backoff_time ?k AND 7)"
    by (auto simp: tsi148_dma_setup_ctl_def Let_def hw_consts or.assoc split: if_splits)
  note F = ctl_fields [OF le7_cases [OF r(1)]] ctl_fields [OF le7_cases [OF r(2)]]
    ctl_fields [OF le7_cases [OF r(3)]] ctl_fields [OF le7_cases [OF r(4)]]
  show ?thesis unfolding w hw_consts by (simp add: F word_ao_dist)
qed

theorem dma_ctl_word_witness:
  "\<exists>w. tsi148_dma_setup_ctl sample_dma = Inr w \<and> drop_bit TSI148_LCSR_DCTL_VBKS_SHIFT (w AND TSI148_LCSR_DCTL_VBKS_M) = 7"
proof -
  have "tsi148_dma_setup_ctl sample_dma = Inr 0x7070"
    by (simp add: tsi148_dma_setup_ctl_def sample_dma_def Let_def hw_consts)
  moreover from dma_ctl_word [OF this] have "drop_bit TSI148_LCSR_DCTL_VBKS_SHIFT (0x7070 AND TSI148_LCSR_DCTL_VBKS_M) = (7 :: u32)"
    by (simp add: sample_dma_def Let_def)
  ultimately show ?thesis by blast
qed

subsection \<open>Transfers up to the top of the address space\<close>

text \<open>
  The end of a transfer that reaches VME address 2^32 is computed as 0: the loop is skipped, the
  set-up succeeds, and the chip is started on a descriptor that was never filled in.
\<close>

theorem top_of_space_unfilled:
  assumes "sgl chan = [(a, len)]" and "sg_mapped chan = 1" and "good_dir (ch_desc chan)"
    and "chan_vme (ch_desc chan) + len = 0"
    and "hwdesc_init pool chan h = (Inr q, chan1, h1)" and "ch_desc chan1 = ch_desc chan" "sgl chan1 = sgl chan" "sg_mapped chan1 = 1"
  shows "\<exists>c'. tsi148_dma_setup_chain pool chan dsat_w ddat_w c h = Some (OK, chan1, c', h1)"
proof -
  have v: "get_vmeaddr (ch_desc chan) = Inr (chan_vme (ch_desc chan))"
    using assms(3) by (auto simp: get_vmeaddr_def chan_vme_def good_dir_def)
  have "link_add_loop pool False b dsat_w ddat_w 0 da_end vme a len (Some q) None chan1 h1 = Some (OK, None, chan1, h1)" for b da_end vme
    by (subst link_add_loop.simps) simp
  with assms v show ?thesis
    by (simp add: tsi148_dma_setup_chain_def Let_def tsi148_dma_link_add_def)
qed

text \<open>
  The upper halves of the addresses are always 0, although \<open>vme_bridge_init\<close> asks for a mask of
  \<open>BITS_PER_LONG\<close> bits: two bus addresses that differ above bit 31 give the same descriptor.
\<close>

theorem wide_dma_address_truncated:
  "tsi148_fill_dma_desc d t va (push_bit 32 h OR ucast (lo :: u32)) len ds dd = tsi148_fill_dma_desc d t va (ucast lo) len ds dd"
proof -
  have "(ucast (push_bit 32 h OR ucast lo :: u64) :: u32) = ucast (ucast lo :: u64)"
    by (rule bit_eqI) (simp add: bit_simps)
  then show ?thesis by (simp add: tsi148_fill_dma_desc_def Let_def split: vme_dma_dir.split)
qed

end
