(* ===== verification/Vme_Dma.thy ===== *)
theory Vme_Dma
  imports Tsi148_Dma_Props Vme_Window
begin

text \<open>
  DMA management, \<open>src/vmebridge/driver/vme_dma.c\<close>: scatter-gather lists of user or kernel pages,
  acquisition of a channel under the counting semaphore, and a whole transfer with its clean-up.

  The kernel is the record \<open>dma_kernel\<close>: how many pages \<open>get_user_pages\<close> pins, whether a kernel
  address is usable, which page backs a user or kernel address, the bus mapping of a list, what uninitialised
  list memory holds, and how a wait for the end of a transfer ends (its return code and the chip
  afterwards). \<open>pinned\<close>, \<open>sg_bufs\<close> and \<open>sg_maps\<close> count what the driver holds of pages, list
  buffers and bus mappings.
\<close>

subsection \<open>State\<close>

text \<open>An entry of a list as \<open>sg_set_page\<close> fills it in: page, n_bytes, offset.\<close>

type_synonym sg_page = "nat \<times> u64 \<times> u64"

record dma_kernel =
  get_user_pages :: "u64 \<Rightarrow> nat \<Rightarrow> errno + nat"
  user_page :: "u64 \<Rightarrow> nat"
  is_vmalloc_addr :: "u64 \<Rightarrow> bool"
  virt_addr_valid :: "u64 \<Rightarrow> bool"
  vmalloc_to_page :: "u64 \<Rightarrow> nat"
  virt_to_page :: "u64 \<Rightarrow> nat"
  pci_map_sg :: "sg_page list \<Rightarrow> sg_entry list"
  stale_list :: "nat \<Rightarrow> sg_page list"
  wait_dma :: "nat \<Rightarrow> tsi148_lcsr \<Rightarrow> errno option \<times> tsi148_lcsr"
  desc_pool :: "u64 list \<Rightarrow> u64 option"

record dstate =
  channels :: "dma_channel list"
  dma_semaphore :: nat
  dma_disable :: bool
  dchip :: tsi148_lcsr
  dheap :: dma_heap
  pinned :: "nat list"
  sg_bufs :: nat
  sg_maps :: nat

definition PAGE_SIZE :: u64 where
  "PAGE_SIZE = 0x1000"

definition offset_in_page :: "u64 \<Rightarrow> u64" where
  "offset_in_page a = a AND 0xfff"

subsection \<open>Scatter-gather lists\<close>

definition page_addrs :: "u64 \<Rightarrow> nat \<Rightarrow> u64 list" where
  "page_addrs a nr_pages = map (\<lambda>i. a + PAGE_SIZE * of_nat i) [0..<nr_pages]"

text \<open>The pages of a buffer: the number of pages obtained and the array of their handles.\<close>

definition sgl_fill_user_pages :: "dma_kernel \<Rightarrow> u64 \<Rightarrow> nat \<Rightarrow> (errno + nat) \<times> nat list" where
  "sgl_fill_user_pages k uaddr nr_pages =
     (case get_user_pages k uaddr nr_pages of
        Inl e \<Rightarrow> (Inl e, [])
      | Inr n \<Rightarrow> (Inr n, map (user_page k) (page_addrs uaddr n)))"

definition sgl_fill_kernel_pages :: "dma_kernel \<Rightarrow> u64 \<Rightarrow> nat \<Rightarrow> (errno + nat) \<times> nat list" where
  "sgl_fill_kernel_pages k kaddr nr_pages =
     (if is_vmalloc_addr k kaddr then (Inr nr_pages, map (vmalloc_to_page k) (page_addrs kaddr nr_pages))
      else if \<not> virt_addr_valid k kaddr then (Inl EINVAL, [])
      else (Inr nr_pages, map (virt_to_page k) (page_addrs kaddr nr_pages)))"

fun sgl_rest :: "nat list \<Rightarrow> u64 \<Rightarrow> sg_page list" where
  "sgl_rest [] n_bytes = []"
| "sgl_rest (p # ps) n_bytes =
     (p, if n_bytes < PAGE_SIZE then n_bytes else PAGE_SIZE, 0) # sgl_rest ps (n_bytes - PAGE_SIZE)"

definition sgl_populate :: "nat list \<Rightarrow> u64 \<Rightarrow> u64 \<Rightarrow> sg_page list" where
  "sgl_populate pages uaddr n_bytes =
     (if length pages > 1
      then let off = offset_in_page uaddr; len = PAGE_SIZE - off
           in (hd pages, len, off) # sgl_rest (tl pages) (n_bytes - len)
      else [(hd pages, n_bytes, offset_in_page uaddr)])"

text \<open>
  The result is the returned number of pages (or the error) with the list, \<open>None\<close> when it was left
  uninitialised, and the pages still pinned. Failures to get the pages return their number, too.
\<close>

definition sgl_map_user_pages ::
    "dma_kernel \<Rightarrow> nat \<Rightarrow> u64 \<Rightarrow> u64 \<Rightarrow> bool \<Rightarrow> dma_heap \<Rightarrow> (errno + nat) \<times> sg_page list option \<times> nat list \<times> dma_heap" where
  "sgl_map_user_pages k nr_pages uaddr n_bytes to_user h =
     (case next_fails h of
        (True, h) \<Rightarrow> (Inl ENOMEM, None, [], h)
      | (False, h) \<Rightarrow>
          if to_user
          then (case sgl_fill_user_pages k uaddr nr_pages of
                  (Inl e, _) \<Rightarrow> (Inr nr_pages, None, [], h)
                | (Inr n, pages) \<Rightarrow>
                    if n < nr_pages then (Inr nr_pages, None, fold remove1 pages pages, h)
                    else (Inr nr_pages, Some (sgl_populate pages uaddr n_bytes), pages, h))
          else (case sgl_fill_kernel_pages k uaddr nr_pages of
                  (Inl e, _) \<Rightarrow> (Inr nr_pages, None, [], h)
                | (Inr n, pages) \<Rightarrow> (Inr nr_pages, Some (sgl_populate pages uaddr n_bytes), [], h)))"

definition sgl_unmap_user_pages :: "sg_page list \<Rightarrow> bool \<Rightarrow> dstate \<Rightarrow> dstate" where
  "sgl_unmap_user_pages sgs to_user s =
     (if \<not> to_user then s else s\<lparr>pinned := fold remove1 (map fst sgs) (pinned s)\<rparr>)"

definition dma_uaddr :: "vme_dma \<Rightarrow> u64" where
  "dma_uaddr d = (if dir d = VME_DMA_TO_DEVICE then reg_join (addru (dma_src d)) (addrl (dma_src d))
     else reg_join (addru (dma_dst d)) (addrl (dma_dst d)))"

definition dma_nr_pages :: "u64 \<Rightarrow> u32 \<Rightarrow> nat" where
  "dma_nr_pages uaddr n_bytes = unat (drop_bit PAGE_SHIFT ((uaddr AND 0xfff) + ucast n_bytes + 0xfff))"

definition upd_channel :: "nat \<Rightarrow> (dma_channel \<Rightarrow> dma_channel) \<Rightarrow> dstate \<Rightarrow> dstate" where
  "upd_channel i f s = s\<lparr>channels := (channels s)[i := f (channels s ! i)]\<rparr>"

text \<open>
  Setting up a transfer on channel \<open>i\<close>; the second component is the list that the channel's
  entries were mapped from. \<open>None\<close> stands for a chain set-up that does not end.
\<close>

definition vme_dma_setup :: "dma_kernel \<Rightarrow> nat \<Rightarrow> bool \<Rightarrow> dstate \<Rightarrow> (rc \<times> sg_page list \<times> dstate) option" where
  "vme_dma_setup k i to_user s =
     (let d = ch_desc (channels s ! i); n_bytes = dma_length d; uaddr = dma_uaddr d
      in if uaddr + ucast n_bytes < uaddr then Some (Inl EINVAL, [], s)
      else let nr_pages = dma_nr_pages uaddr n_bytes
      in case next_fails (dheap s) of
           (True, h) \<Rightarrow> Some (Inl ENOMEM, [], s\<lparr>dheap := h\<rparr>)
         | (False, h) \<Rightarrow>
             (let s = s\<lparr>sg_bufs := sg_bufs s + 1\<rparr>;
                  (r, sgs, pages, h) = sgl_map_user_pages k nr_pages uaddr (ucast n_bytes) to_user h;
                  s = s\<lparr>dheap := h, pinned := pages @ pinned s\<rparr>
              in case r of
                   Inl e \<Rightarrow> Some (Inl e, [], (upd_channel i (\<lambda>c. c\<lparr>sg_pages := - 12\<rparr>) s)\<lparr>sg_bufs := sg_bufs s - 1\<rparr>)
                 | Inr n \<Rightarrow>
                     if n = 0 then Some (OK, [], (upd_channel i (\<lambda>c. c\<lparr>sg_pages := 0\<rparr>) s)\<lparr>sg_bufs := sg_bufs s - 1\<rparr>)
                     else
                     (let sgs = (case sgs of Some l \<Rightarrow> l | None \<Rightarrow> stale_list k n);
                          ents = pci_map_sg k sgs;
                          s = upd_channel i (\<lambda>c. c\<lparr>sg_pages := int n, sgl := ents, sg_mapped := length ents\<rparr>) s;
                          s = s\<lparr>sg_maps := sg_maps s + 1\<rparr>
                      in case tsi148_dma_setup (desc_pool k) (channels s ! i) (dchip s) (dheap s) of
                           None \<Rightarrow> None
                         | Some (r, chan, c, h) \<Rightarrow>
                             (let s = (upd_channel i (\<lambda>_. chan) s)\<lparr>dchip := c, dheap := h\<rparr>
                              in case r of
                                   Inr _ \<Rightarrow> Some (OK, sgs, s)
                                 | Inl e \<Rightarrow>
                                     (let s = s\<lparr>sg_maps := sg_maps s - 1\<rparr>;
                                          s = sgl_unmap_user_pages sgs to_user s
                                      in Some (Inl e, [], s\<lparr>sg_bufs := sg_bufs s - 1\<rparr>))))))"

subsection \<open>Channels\<close>

fun lock_avail_loop :: "nat list \<Rightarrow> dma_channel list \<Rightarrow> (errno + nat) \<times> dma_channel list" where
  "lock_avail_loop [] chs = (Inl EDEADLK, chs)"
| "lock_avail_loop (i # is) chs =
     (if \<not> busy (chs ! i) then (Inr i, chs[i := (chs ! i)\<lparr>busy := True\<rparr>]) else lock_avail_loop is chs)"

definition lock_avail_channel :: "dma_channel list \<Rightarrow> (errno + nat) \<times> dma_channel list" where
  "lock_avail_channel chs = lock_avail_loop [0..<TSI148_NUM_DMA_CHANNELS] chs"

definition EINTR :: errno where
  "EINTR = E_KERNEL 4"

text \<open>One caller alone: \<open>down_interruptible\<close> is interrupted, or finds a free unit, with
  \<open>dma_disable\<close> set by \<open>vme_dma_exit\<close> in the meantime or not; \<open>None\<close> is a caller that sleeps for ever.\<close>

datatype sem_wait = Interrupted | Granted bool

definition vme_dma_channel_acquire :: "sem_wait \<Rightarrow> dstate \<Rightarrow> ((errno + nat) \<times> dstate) option" where
  "vme_dma_channel_acquire w s =
     (if dma_disable s then Some (Inl EBUSY, s)
      else (case w of
        Interrupted \<Rightarrow> Some (Inl EINTR, s)
      | Granted exiting \<Rightarrow>
          if dma_semaphore s = 0 then None
          else let s = s\<lparr>dma_semaphore := dma_semaphore s - 1, dma_disable := dma_disable s \<or> exiting\<rparr>
               in if dma_disable s then Some (Inl EBUSY, s\<lparr>dma_semaphore := dma_semaphore s + 1\<rparr>)
                  else let (r, chs) = lock_avail_channel (channels s) in Some (r, s\<lparr>channels := chs\<rparr>)))"

definition vme_dma_channel_release :: "nat \<Rightarrow> dstate \<Rightarrow> dstate" where
  "vme_dma_channel_release i s =
     (let s = upd_channel i (\<lambda>c. c\<lparr>busy := False\<rparr>) s in s\<lparr>dma_semaphore := dma_semaphore s + 1\<rparr>)"

subsection \<open>A transfer\<close>

text \<open>The part of \<open>__vme_do_dma\<close> that runs a transfer that was set up and cleans up after it. The
  wait ends without error when the channel is not busy any more, or with an error on a signal.\<close>

definition dma_run_and_clean ::
    "dma_kernel \<Rightarrow> nat \<Rightarrow> sg_page list \<Rightarrow> bool \<Rightarrow> vme_dma \<Rightarrow> dstate \<Rightarrow> rc \<times> vme_dma \<times> dstate" where
  "dma_run_and_clean k i sgs to_user d s =
     (let s = s\<lparr>dchip := tsi148_dma_start (channels s ! i) (dchip s)\<rparr>;
          (rc, c) = wait_dma k i (dchip s);
          c = (case rc of None \<Rightarrow> c | Some _ \<Rightarrow> tsi148_dma_abort (channels s ! i) c);
          s = s\<lparr>dchip := c\<rparr>;
          d = d\<lparr>dma_status := tsi148_dma_get_status c (channels s ! i)\<rparr>;
          (chan, h) = tsi148_dma_release (channels s ! i) (dheap s);
          s = (upd_channel i (\<lambda>_. chan) s)\<lparr>dheap := h, sg_maps := sg_maps s - 1\<rparr>;
          s = sgl_unmap_user_pages sgs to_user s;
          s = s\<lparr>sg_bufs := sg_bufs s - 1\<rparr>
      in (case rc of None \<Rightarrow> OK | Some e \<Rightarrow> Inl e, d, s))"

definition vme_do_dma_to :: "dma_kernel \<Rightarrow> sem_wait \<Rightarrow> vme_dma \<Rightarrow> bool \<Rightarrow> dstate \<Rightarrow> (rc \<times> vme_dma \<times> dstate) option" where
  "vme_do_dma_to k w d to_user s =
     (if dma_length d = 0 then Some (Inl EINVAL, d, s)
      else if dir d \<noteq> VME_DMA_FROM_DEVICE \<and> dir d \<noteq> VME_DMA_TO_DEVICE then Some (Inl EINVAL, d, s)
      else case vme_dma_channel_acquire w s of
        None \<Rightarrow> None
      | Some (Inl e, s) \<Rightarrow> Some (Inl e, d, s)
      | Some (Inr i, s) \<Rightarrow>
          (let s = upd_channel i (\<lambda>c. c\<lparr>ch_desc := d\<rparr>) s
           in case vme_dma_setup k i to_user s of
                None \<Rightarrow> None
              | Some (Inl e, _, s) \<Rightarrow> Some (Inl e, d, vme_dma_channel_release i s)
              | Some (Inr _, sgs, s) \<Rightarrow>
                  (let (rc, d, s) = dma_run_and_clean k i sgs to_user d s
                   in Some (rc, d, vme_dma_channel_release i s))))"

definition vme_do_dma :: "dma_kernel \<Rightarrow> sem_wait \<Rightarrow> vme_dma \<Rightarrow> dstate \<Rightarrow> (rc \<times> vme_dma \<times> dstate) option" where
  "vme_do_dma k w d s = vme_do_dma_to k w d True s"

definition vme_do_dma_kernel :: "dma_kernel \<Rightarrow> sem_wait \<Rightarrow> vme_dma \<Rightarrow> dstate \<Rightarrow> (rc \<times> vme_dma \<times> dstate) option" where
  "vme_do_dma_kernel k w d s = vme_do_dma_to k w d False s"

text \<open>The ioctl: \<open>START_DMA\<close> with the descriptor the user passes, or any other command. The
  arguments say whether the user memory can be read and written; the result is what is copied out.\<close>

datatype dma_ioctl_cmd = VME_IOCTL_START_DMA vme_dma | DMA_IOCTL_OTHER u32

definition vme_dma_ioctl ::
    "dma_kernel \<Rightarrow> sem_wait \<Rightarrow> bool \<Rightarrow> bool \<Rightarrow> dma_ioctl_cmd \<Rightarrow> dstate \<Rightarrow> (rc \<times> vme_dma option \<times> dstate) option" where
  "vme_dma_ioctl k w rd wr cmd s =
     (case cmd of
        VME_IOCTL_START_DMA d \<Rightarrow>
          if \<not> rd then Some (Inl EFAULT, None, s)
          else (case vme_do_dma k w d s of
                  None \<Rightarrow> None
                | Some (Inl e, d, s) \<Rightarrow> Some (Inl e, None, s)
                | Some (Inr _, d, s) \<Rightarrow> if wr then Some (OK, Some d, s) else Some (Inl EFAULT, None, s))
      | DMA_IOCTL_OTHER _ \<Rightarrow> Some (Inl ENOIOCTLCMD, None, s))"

subsection \<open>Start-up and exit\<close>

definition vme_dma_init :: "bool \<Rightarrow> dstate \<Rightarrow> rc \<times> dstate" where
  "vme_dma_init pool_created s =
     (let s = s\<lparr>channels := map (\<lambda>i. (channels s ! i)\<lparr>num := i, hw_desc_list := []\<rparr>) [0..<TSI148_NUM_DMA_CHANNELS],
               dma_semaphore := TSI148_NUM_DMA_CHANNELS, dma_disable := False\<rparr>
      in (if pool_created then OK else Inl ENOMEM, s))"

definition vme_dma_exit_begin :: "dstate \<Rightarrow> dstate" where
  "vme_dma_exit_begin s =
     (let s = s\<lparr>dma_disable := True\<rparr>
      in s\<lparr>dchip := fold (\<lambda>i. tsi148_dma_abort (channels s ! i)) [0..<TSI148_NUM_DMA_CHANNELS] (dchip s)\<rparr>)"

text \<open>The wait for idle channels takes a unit of the semaphore and gives it back, once per channel;
  \<open>None\<close> is a wait that does not end in this state.\<close>

fun exit_wait :: "nat \<Rightarrow> dstate \<Rightarrow> dstate option" where
  "exit_wait 0 s = Some s"
| "exit_wait (Suc n) s =
     (if dma_semaphore s = 0 then None
      else let s = s\<lparr>dma_semaphore := dma_semaphore s - 1\<rparr>; s = s\<lparr>dma_semaphore := dma_semaphore s + 1\<rparr>
           in exit_wait n s)"

definition vme_dma_exit :: "dstate \<Rightarrow> dstate option" where
  "vme_dma_exit s = exit_wait TSI148_NUM_DMA_CHANNELS (vme_dma_exit_begin s)"

end
