(* ===== verification/Vme_Dma_Props.thy ===== *)
theory Vme_Dma_Props
  imports Vme_Dma
begin

text \<open>
  Correctness of the DMA management: the scatter-gather list of a buffer covers exactly its bytes,
  a transfer gives back the channel, the semaphore unit, the descriptors, the pinned pages and the
  list whatever happens, and the channels are used by one task at a time.
\<close>

subsection \<open>The pages of a buffer\<close>

lemma page_size_nat: "unat PAGE_SIZE = 4096"
  by (simp add: PAGE_SIZE_def)

lemma offset_in_page_nat: "unat (offset_in_page a) = unat a mod 4096"
proof -
  have "(0xfff :: u64) = mask 12" by (simp add: mask_eq_exp_minus_1)
  then show ?thesis using unat_and_mask [of a 12] by (simp add: offset_in_page_def)
qed

lemma nr_pages_nat: "dma_nr_pages a n = (unat a mod 4096 + unat n + 4095) div 4096"
proof -
  have o: "unat (a AND 0xfff) = unat a mod 4096" using offset_in_page_nat [of a] by (simp add: offset_in_page_def)
  obtain m where m: "unat a mod 4096 = m" "m < 4096" by simp
  have "unat ((a AND 0xfff) + ucast n + 0xfff) = unat a mod 4096 + unat n + 4095"
    using m unat_u32_bound [of n] by (simp add: unat_add_u64_cases unat_ucast_u32 o)
  then show ?thesis
    by (simp add: dma_nr_pages_def PAGE_SHIFT_def drop_bit_eq_div unat_div)
qed

definition sg_lens :: "sg_page list \<Rightarrow> nat list" where
  "sg_lens = map (\<lambda>(p, l, off). unat l)"

text \<open>Entries that lie in one page each and are not empty.\<close>

definition sg_in_pages :: "sg_page list \<Rightarrow> bool" where
  "sg_in_pages = list_all (\<lambda>(p, l, off). 0 < unat l \<and> unat off + unat l \<le> 4096)"

lemma sgl_rest_covers:
  assumes "ps \<noteq> []" and "4096 * (length ps - 1) < unat n" and "unat n \<le> 4096 * length ps"
  shows "map fst (sgl_rest ps n) = ps \<and> sum_list (sg_lens (sgl_rest ps n)) = unat n \<and> sg_in_pages (sgl_rest ps n)"
  using assms
proof (induction ps arbitrary: n)
  case (Cons p ps)
  show ?case
  proof (cases "ps = []")
    case True
    then show ?thesis using Cons.prems page_size_nat
      by (auto simp: sg_lens_def sg_in_pages_def word_less_nat_alt)
  next
    case False
    then have big: "4096 < unat n" using Cons.prems by (cases ps) simp_all
    then have "unat (n - PAGE_SIZE) = unat n - 4096" by (simp add: unat_sub word_le_nat_alt page_size_nat)
    with Cons.IH [of "n - PAGE_SIZE"] Cons.prems False big show ?thesis
      by (cases ps) (auto simp: sg_lens_def sg_in_pages_def word_less_nat_alt page_size_nat)
  qed
qed simp

lemma sgl_populate_covers:
  assumes "unat n > 0" and "length pages = (unat a mod 4096 + unat n + 4095) div 4096"
  shows "map fst (sgl_populate pages a n) = pages \<and> sum_list (sg_lens (sgl_populate pages a n)) = unat n
    \<and> sg_in_pages (sgl_populate pages a n) \<and> (\<forall>p l off sgs. sgl_populate pages a n = (p, l, off) # sgs \<longrightarrow> unat off = unat a mod 4096)"
proof -
  let ?o = "unat a mod 4096"
  have o: "?o < 4096" by simp
  obtain p ps where pages: "pages = p # ps" using assms by (cases pages) auto
  show ?thesis
  proof (cases "ps = []")
    case True
    with assms pages have "?o + unat n \<le> 4096" by simp
    with True assms(1) show ?thesis
      by (simp add: sgl_populate_def pages sg_lens_def sg_in_pages_def offset_in_page_nat)
  next
    case False
    let ?len = "PAGE_SIZE - offset_in_page a"
    have len: "unat ?len = 4096 - ?o"
      using o by (simp add: unat_sub word_le_nat_alt page_size_nat offset_in_page_nat)
    from False have "1 \<le> length ps" by (cases ps) simp_all
    then have lt: "4096 * length ps < ?o + unat n" "?o + unat n \<le> 4096 * Suc (length ps)"
      using assms(2) o pages by simp_all
    then have lt': "4096 - ?o < unat n" using \<open>1 \<le> length ps\<close> by simp
    have r: "unat (n - ?len) = unat n - (4096 - ?o)"
      using lt' by (simp add: unat_sub word_le_nat_alt len)
    have "4096 * (length ps - 1) < unat (n - ?len)" "unat (n - ?len) \<le> 4096 * length ps"
      using lt lt' o \<open>1 \<le> length ps\<close> unfolding r by (simp_all add: algebra_simps)
    from sgl_rest_covers [OF False this] show ?thesis
      using False o lt' by (simp add: sgl_populate_def pages sg_lens_def sg_in_pages_def len r offset_in_page_nat Let_def)
  qed
qed

text \<open>On the code that fills in the list: the pages of the buffer in order, and exactly its bytes.\<close>

definition page_of :: "dma_kernel \<Rightarrow> bool \<Rightarrow> u64 \<Rightarrow> u64 \<Rightarrow> nat" where
  "page_of k to_user start = (if to_user then user_page k else if is_vmalloc_addr k start then vmalloc_to_page k else virt_to_page k)"

theorem sg_list_covers_buffer:
  assumes n: "n \<noteq> 0" and nr: "nr = dma_nr_pages a n" and p: "to_user \<longrightarrow> (\<exists>e. get_user_pages k a nr = Inl e) \<or> (\<exists>i \<le> nr. get_user_pages k a nr = Inr i)"
    and s: "sgl_map_user_pages k nr a (ucast n) to_user h = (r, Some sgs, pages, h')"
  shows "r = Inr nr \<and> map fst sgs = map (page_of k to_user a) (page_addrs a nr) \<and> sum_list (sg_lens sgs) = unat n
    \<and> sg_in_pages sgs \<and> pages = (if to_user then map fst sgs else [])"
proof -
  let ?ps = "map (page_of k to_user a) (page_addrs a nr)"
  have l: "length ?ps = (unat a mod 4096 + unat (ucast n :: u64) + 4095) div 4096"
    by (simp add: page_addrs_def nr nr_pages_nat unat_ucast_u32)
  have "0 < unat (ucast n :: u64)" using n by (simp add: unat_ucast_u32 unat_gt_0)
  note C = sgl_populate_covers [OF this l]
  from s p have "r = Inr nr \<and> sgs = sgl_populate ?ps a (ucast n) \<and> pages = (if to_user then ?ps else [])"
    by (cases "next_fails h"; cases to_user)
      (auto simp: sgl_map_user_pages_def sgl_fill_user_pages_def sgl_fill_kernel_pages_def page_of_def
         split: bool.splits sum.splits if_splits)
  with C show ?thesis by (cases to_user) (simp_all add: unat_ucast_u32)
qed

subsection \<open>Setting up a channel\<close>

text \<open>
  What the driver relies on. \<open>pci_map_sg\<close> succeeds and covers the bytes of the pages with bus
  addresses of 32 bits, which is all that a descriptor can hold (\<open>wide_dma_address_truncated\<close>); the
  pages of the buffer can be had.
\<close>

definition maps_sg :: "dma_kernel \<Rightarrow> bool" where
  "maps_sg k \<longleftrightarrow> (\<forall>sgs. sgs \<noteq> [] \<and> sg_in_pages sgs \<longrightarrow> pci_map_sg k sgs \<noteq> []
     \<and> sg_total (pci_map_sg k sgs) = sum_list (sg_lens sgs)
     \<and> list_all (\<lambda>(a, len). 0 < unat len \<and> unat a + unat len \<le> 0x100000000) (pci_map_sg k sgs))"

definition pages_ok :: "dma_kernel \<Rightarrow> bool \<Rightarrow> u64 \<Rightarrow> nat \<Rightarrow> bool" where
  "pages_ok k to_user a n \<longleftrightarrow>
     (if to_user then get_user_pages k a n = Inr n else is_vmalloc_addr k a \<or> virt_addr_valid k a)"

definition request_ok :: "dma_kernel \<Rightarrow> bool \<Rightarrow> vme_dma \<Rightarrow> bool" where
  "request_ok k to_user d \<longleftrightarrow> unat (chan_vme d) + unat (dma_length d) < 0x100000000
     \<and> pages_ok k to_user (dma_uaddr d) (dma_nr_pages (dma_uaddr d) (dma_length d))"

lemma dma_setup_result:
  assumes fp: "fresh_pool pool" and t: "transfer_ok chan" and d: "distinct (pool_live h)"
  shows "\<exists>r chan' c' h' b ps. tsi148_dma_setup pool chan c h = Some (r, chan', c', h')
    \<and> chan' = chan\<lparr>chained := b, hw_desc_list := ps\<rparr>
    \<and> (if r = OK
       then b \<and> pool_ok (mset (pool_live h)) chan' h'
         \<and> (num chan < length (dma c) \<longrightarrow> chip_dma_ops chan' c' h' = sg_pieces (block_size (chan_bshift (ch_desc chan)))
              (novmeinc (ch_desc chan)) (unat (chan_vme (ch_desc chan))) (sgl chan))
       else ps = [] \<and> mset (pool_live h') = mset (pool_live h))"
proof -
  have e: "hw_desc_list chan = []" using t by (simp add: transfer_ok_def)
  have err: ?thesis if "tsi148_dma_setup pool chan c h = Some (Inl x, chan, c, h)" for x
    using that e by (intro exI [of _ "Inl x"] exI [of _ chan] exI [of _ c] exI [of _ h] exI [of _ "chained chan"] exI [of _ "[]"]) simp
  show ?thesis
  proof (cases "\<exists>w1 w2 w3. tsi148_dma_setup_src (ch_desc chan) = Inr w1 \<and> tsi148_dma_setup_dst (ch_desc chan) = Inr w2
      \<and> tsi148_dma_setup_ctl (ch_desc chan) = Inr w3")
    case False
    then have "\<exists>x. tsi148_dma_setup pool chan c h = Some (Inl x, chan, c, h)"
      by (auto simp: tsi148_dma_setup_def split: sum.splits)
    then show ?thesis using err by blast
  next
    case True
    then obtain w1 w2 w3 where w: "tsi148_dma_setup_src (ch_desc chan) = Inr w1" "tsi148_dma_setup_dst (ch_desc chan) = Inr w2"
      "tsi148_dma_setup_ctl (ch_desc chan) = Inr w3" by blast
    define ch where "ch = chan\<lparr>chained := True\<rparr>"
    define c1 where "c1 = upd_dma (num chan) (\<lambda>r. r\<lparr>dctl := w3 AND NOT TSI148_LCSR_DCTL_MOD\<rparr>) c"
    have eq: "tsi148_dma_setup pool chan c h = tsi148_dma_setup_chain pool ch w1 w2 c1 h"
      using w by (simp add: tsi148_dma_setup_def Let_def ch_def c1_def)
    have t': "transfer_ok ch" using t by (simp add: ch_def)
    have l: "length (dma c1) = length (dma c)" by (simp add: c1_def upd_dma_def)
    obtain r chan' c' h' where s: "tsi148_dma_setup_chain pool ch w1 w2 c1 h = Some (r, chan', c', h')"
      and R: "if r = OK then pool_ok (mset (pool_live h)) chan' h' \<and> (\<exists>ps. chan' = ch\<lparr>hw_desc_list := ps\<rparr>)
        else mset (pool_live h') = mset (pool_live h) \<and> chan' = ch"
      using setup_chain_result [OF fp t' d, of w1 w2 c1] by (fastforce split: if_splits)
    have ops: "r = OK \<Longrightarrow> num chan < length (dma c) \<Longrightarrow> chip_dma_ops chan' c' h' = sg_pieces (block_size (chan_bshift (ch_desc chan)))
              (novmeinc (ch_desc chan)) (unat (chan_vme (ch_desc chan))) (sgl chan)"
      using dma_chain_walk [OF fp t' d, of c1 w1 w2] s l by (auto simp: ch_def)
    show ?thesis
    proof (cases "r = OK")
      case True
      with R obtain ps where "chan' = ch\<lparr>hw_desc_list := ps\<rparr>" and "pool_ok (mset (pool_live h)) chan' h'" by auto
      with True s eq ops show ?thesis
        by (intro exI [of _ r] exI [of _ chan'] exI [of _ c'] exI [of _ h'] exI [of _ True] exI [of _ ps]) (simp add: ch_def)
    next
      case False
      with R s eq e show ?thesis
        by (intro exI [of _ r] exI [of _ chan'] exI [of _ c'] exI [of _ h'] exI [of _ True] exI [of _ "[]"]) (simp add: ch_def)
    qed
  qed
qed

lemma next_fails_pool: "\<exists>b h'. next_fails h = (b, h') \<and> pool_live h' = pool_live h \<and> dma_mem h' = dma_mem h"
  by (cases "kmalloc_fails h") (auto simp: next_fails_def)

lemma fill_pages_ok:
  assumes "pages_ok k to_user a n"
  obtains pages where "length pages = n"
    "(if to_user then sgl_fill_user_pages k a n else sgl_fill_kernel_pages k a n) = (Inr n, pages)"
proof (rule that)
  let ?pages = "snd (if to_user then sgl_fill_user_pages k a n else sgl_fill_kernel_pages k a n)"
  show "length ?pages = n"
    using assms by (auto simp: pages_ok_def sgl_fill_user_pages_def sgl_fill_kernel_pages_def page_addrs_def)
  show "(if to_user then sgl_fill_user_pages k a n else sgl_fill_kernel_pages k a n) = (Inr n, ?pages)"
    using assms by (cases to_user) (auto simp: pages_ok_def sgl_fill_user_pages_def sgl_fill_kernel_pages_def)
qed

lemma map_pages_cases:
  assumes "pages_ok k to_user a n"
  shows "(\<exists>h'. sgl_map_user_pages k n a len to_user h = (Inl ENOMEM, None, [], h') \<and> pool_live h' = pool_live h)
    \<or> (\<exists>pages h'. length pages = n \<and> pool_live h' = pool_live h
        \<and> sgl_map_user_pages k n a len to_user h = (Inr n, Some (sgl_populate pages a len), if to_user then pages else [], h'))"
proof -
  obtain pages where "length pages = n"
    "(if to_user then sgl_fill_user_pages k a n else sgl_fill_kernel_pages k a n) = (Inr n, pages)"
    using fill_pages_ok [OF assms] by blast
  moreover obtain b h' where "next_fails h = (b, h')" "pool_live h' = pool_live h" using next_fails_pool by blast
  ultimately show ?thesis
    by (cases b; cases to_user) (auto simp: sgl_map_user_pages_def)
qed

lemma unpin_all [simp]: "fold remove1 xs (xs @ ps) = ps"
  by (induction xs) simp_all

text \<open>The path of \<open>vme_dma_setup\<close> with a populated list.\<close>

lemma setup_run:
  fixes s k i to_user h' n sgs
  defines "d \<equiv> ch_desc (channels s ! i)" and "ents \<equiv> pci_map_sg k sgs"
  assumes "\<not> dma_uaddr d + ucast (dma_length d) < dma_uaddr d" and "next_fails (dheap s) = (False, h)"
    and "sgl_map_user_pages k (dma_nr_pages (dma_uaddr d) (dma_length d)) (dma_uaddr d) (ucast (dma_length d)) to_user h
      = (Inr n, Some sgs, if to_user then map fst sgs else [], h')"
    and "n \<noteq> 0" and "i < length (channels s)"
    and "tsi148_dma_setup (desc_pool k) ((channels s ! i)\<lparr>sg_pages := int n, sgl := ents, sg_mapped := length ents\<rparr>) (dchip s) h'
      = Some (r, chan', c', h2)"
  shows "vme_dma_setup k i to_user s = (case r of
       Inr _ \<Rightarrow> Some (OK, sgs, s\<lparr>channels := (channels s)[i := chan'], dheap := h2, dchip := c', sg_bufs := sg_bufs s + 1,
        sg_maps := sg_maps s + 1, pinned := (if to_user then map fst sgs else []) @ pinned s\<rparr>)
     | Inl e \<Rightarrow> Some (Inl e, [], s\<lparr>channels := (channels s)[i := chan'], dheap := h2, dchip := c'\<rparr>))"
  using assms(3-)
  by (simp add: vme_dma_setup_def Let_def d_def [symmetric] ents_def [symmetric] upd_channel_def sgl_unmap_user_pages_def split: sum.split)

text \<open>What an operation on channel \<open>i\<close> leaves of the rest.\<close>

definition chan_frame :: "nat \<Rightarrow> dstate \<Rightarrow> dstate \<Rightarrow> bool" where
  "chan_frame i s s' \<longleftrightarrow> dma_semaphore s' = dma_semaphore s \<and> dma_disable s' = dma_disable s
     \<and> (\<exists>ch. channels s' = (channels s)[i := ch] \<and> busy ch = busy (channels s ! i) \<and> num ch = num (channels s ! i)
          \<and> ch_desc ch = ch_desc (channels s ! i))"

definition holds_nothing_new :: "dstate \<Rightarrow> dstate \<Rightarrow> bool" where
  "holds_nothing_new s s' \<longleftrightarrow> mset (pool_live (dheap s')) = mset (pool_live (dheap s)) \<and> pinned s' = pinned s
     \<and> sg_bufs s' = sg_bufs s \<and> sg_maps s' = sg_maps s"

definition setup_holds :: "bool \<Rightarrow> nat \<Rightarrow> dstate \<Rightarrow> sg_page list \<Rightarrow> dstate \<Rightarrow> bool" where
  "setup_holds to_user i s sgs s' \<longleftrightarrow>
     pool_ok (mset (pool_live (dheap s))) (channels s' ! i) (dheap s') \<and> chained (channels s' ! i)
     \<and> pinned s' = (if to_user then map fst sgs else []) @ pinned s \<and> sg_bufs s' = sg_bufs s + 1 \<and> sg_maps s' = sg_maps s + 1"

lemma vme_dma_setup_result:
  assumes fp: "fresh_pool (desc_pool k)" and m: "maps_sg k" and i: "i < length (channels s)"
    and d: "ch_desc (channels s ! i) = d" and g: "good_dir d" and l: "dma_length d \<noteq> 0" and rq: "request_ok k to_user d"
    and hw: "hw_desc_list (channels s ! i) = []" and dist: "distinct (pool_live (dheap s))"
  shows "\<exists>r sgs s'. vme_dma_setup k i to_user s = Some (r, sgs, s') \<and> chan_frame i s s'
    \<and> (if r = OK
       then setup_holds to_user i s sgs s'
         \<and> sg_total (sgl (channels s' ! i)) = unat (dma_length d)
         \<and> (num (channels s ! i) < length (dma (dchip s)) \<longrightarrow>
             chip_dma_ops (channels s' ! i) (dchip s') (dheap s') = sg_pieces (block_size (chan_bshift d)) (novmeinc d)
               (unat (chan_vme d)) (sgl (channels s' ! i)))
       else holds_nothing_new s s' \<and> hw_desc_list (channels s' ! i) = [])"
proof -
  let ?ch = "channels s ! i" and ?u = "dma_uaddr d" and ?n = "dma_length d"
  let ?nr = "dma_nr_pages ?u ?n"
  have pos: "0 < unat ?n" using l by (simp add: unat_gt_0)
  have pg: "pages_ok k to_user ?u ?nr" and vw: "unat (chan_vme d) + unat ?n < 0x100000000"
    using rq by (simp_all add: request_ok_def)
  have nz: "?nr \<noteq> 0" using pos by (simp add: nr_pages_nat)
  consider (wrap) "?u + ucast ?n < ?u"
    | (nobuf) h where "\<not> ?u + ucast ?n < ?u" "next_fails (dheap s) = (True, h)" "pool_live h = pool_live (dheap s)"
    | (buf) h where "\<not> ?u + ucast ?n < ?u" "next_fails (dheap s) = (False, h)" "pool_live h = pool_live (dheap s)"
    using next_fails_pool [of "dheap s"] by (metis (full_types))
  then show ?thesis
  proof cases
    case wrap
    then show ?thesis
      using d hw i by (intro exI [of _ "Inl EINVAL"] exI [of _ "[]"] exI [of _ s])
        (simp add: vme_dma_setup_def Let_def chan_frame_def holds_nothing_new_def, metis list_update_id)
  next
    case nobuf
    then show ?thesis
      using d hw i by (intro exI [of _ "Inl ENOMEM"] exI [of _ "[]"] exI [of _ "s\<lparr>dheap := h\<rparr>"])
        (simp add: vme_dma_setup_def Let_def chan_frame_def holds_nothing_new_def, metis list_update_id)
  next
    case buf
    note B = buf
    from map_pages_cases [OF pg, of "ucast ?n" h] show ?thesis
    proof (elim disjE exE conjE)
      fix h' assume "sgl_map_user_pages k ?nr ?u (ucast ?n) to_user h = (Inl ENOMEM, None, [], h')" "pool_live h' = pool_live h"
      then show ?thesis using B d hw i
        by (intro exI [of _ "Inl ENOMEM"] exI [of _ "[]"] exI [of _ "upd_channel i (\<lambda>c. c\<lparr>sg_pages := - 12\<rparr>) (s\<lparr>dheap := h'\<rparr>)"])
          (auto simp: vme_dma_setup_def Let_def chan_frame_def holds_nothing_new_def upd_channel_def)
    next
      fix pages h' assume np: "length pages = ?nr" and pl: "pool_live h' = pool_live h"
        and mp: "sgl_map_user_pages k ?nr ?u (ucast ?n) to_user h
          = (Inr ?nr, Some (sgl_populate pages ?u (ucast ?n)), if to_user then pages else [], h')"
      define sgs where "sgs = sgl_populate pages ?u (ucast ?n)"
      define ents where "ents = pci_map_sg k sgs"
      define ch where "ch = ?ch\<lparr>sg_pages := int ?nr, sgl := ents, sg_mapped := length ents\<rparr>"
      have cov: "map fst sgs = pages" "sum_list (sg_lens sgs) = unat ?n" "sg_in_pages sgs"
        using sgl_populate_covers [of "ucast ?n" pages ?u] pos np by (simp_all add: sgs_def unat_ucast_u32 nr_pages_nat)
      have "sgs \<noteq> []" using cov(2) pos by (auto simp: sg_lens_def)
      then have E: "ents \<noteq> []" "sg_total ents = unat ?n"
        "list_all (\<lambda>(a, len). 0 < unat len \<and> unat a + unat len \<le> 0x100000000) ents"
        using m cov by (auto simp: maps_sg_def ents_def)
      have t: "transfer_ok ch"
        using E g vw hw d by (fastforce simp: transfer_ok_def ch_def sg_plain_def list_all_iff)
      have dist': "distinct (pool_live h')" using dist B(3) pl by simp
      from dma_setup_result [OF fp t dist', of "dchip s"]
      obtain r chan' c' h2 b ps where S: "tsi148_dma_setup (desc_pool k) ch (dchip s) h' = Some (r, chan', c', h2)"
        and C: "chan' = ch\<lparr>chained := b, hw_desc_list := ps\<rparr>"
        and R: "if r = OK then b \<and> pool_ok (mset (pool_live h')) chan' h2
         \<and> (num ch < length (dma (dchip s)) \<longrightarrow> chip_dma_ops chan' c' h2 = sg_pieces (block_size (chan_bshift (ch_desc ch)))
              (novmeinc (ch_desc ch)) (unat (chan_vme (ch_desc ch))) (sgl ch))
         else ps = [] \<and> mset (pool_live h2) = mset (pool_live h')" by blast
      have mp': "sgl_map_user_pages k ?nr ?u (ucast ?n) to_user h = (Inr ?nr, Some sgs, if to_user then map fst sgs else [], h')"
        using mp by (simp only: cov(1)) (simp add: sgs_def)
      note run = setup_run [where s = s and i = i and k = k and sgs = sgs, unfolded d, OF B(1,2) mp' nz i S [unfolded ch_def ents_def]]
      show ?thesis
        using run R i B(3) pl E(2) d C
        by (cases r) (auto simp: chan_frame_def holds_nothing_new_def setup_holds_def ch_def)
    qed
  qed
qed

subsection \<open>The bytes that the chip moves\<close>

text \<open>A sequence of VME accesses that starts at \<open>v\<close>, without gap or overlap.\<close>

fun vme_run :: "nat \<Rightarrow> (nat \<times> nat \<times> nat) list \<Rightarrow> bool" where
  "vme_run v [] \<longleftrightarrow> True"
| "vme_run v ((v', a, l) # xs) \<longleftrightarrow> v' = v \<and> vme_run (v + l) xs"

lemma vme_run_append: "vme_run v (xs @ ys) \<longleftrightarrow> vme_run v xs \<and> vme_run (v + sum_list (map (\<lambda>(v, a, l). l) xs)) ys"
  by (induction v xs rule: vme_run.induct) (auto simp: add.assoc)

lemma vme_run_pieces: "vme_run v (pieces bs False v a n)"
proof (induction n arbitrary: v a rule: less_induct)
  case (less n)
  show ?case
  proof (cases "n = 0")
    case False
    then have "n - cut_len bs v n < n" using cut_len_bounds(1) [of n bs v] by simp
    with less False show ?thesis by (simp add: pieces_step)
  qed simp
qed

lemma vme_run_sg_pieces: "vme_run v (sg_pieces bs False v sgs)"
  by (induction bs "False" v sgs rule: sg_pieces.induct) (simp_all add: vme_run_append vme_run_pieces pieces_total)

theorem dma_setup_covers_request:
  assumes "fresh_pool (desc_pool k)" and "maps_sg k" and "i < length (channels s)"
    and "ch_desc (channels s ! i) = d" and "good_dir d" and "dma_length d \<noteq> 0" and "request_ok k to_user d"
    and "hw_desc_list (channels s ! i) = []" and "distinct (pool_live (dheap s))" and "num (channels s ! i) < length (dma (dchip s))"
    and "vme_dma_setup k i to_user s = Some (OK, sgs, s')"
  shows "sum_list (map (\<lambda>(v, a, l). l) (chip_dma_ops (channels s' ! i) (dchip s') (dheap s'))) = unat (dma_length d)
    \<and> (\<not> novmeinc d \<longrightarrow> vme_run (unat (chan_vme d)) (chip_dma_ops (channels s' ! i) (dchip s') (dheap s')))"
  using vme_dma_setup_result [OF assms(1-9)] assms(10,11) vme_run_sg_pieces by (auto simp: sg_pieces_total)

subsection \<open>A whole transfer\<close>

definition dma_inv :: "dstate \<Rightarrow> bool" where
  "dma_inv s \<longleftrightarrow> length (channels s) = TSI148_NUM_DMA_CHANNELS
     \<and> (\<forall>i < TSI148_NUM_DMA_CHANNELS. num (channels s ! i) = i \<and> (\<not> busy (channels s ! i) \<longrightarrow> hw_desc_list (channels s ! i) = []))
     \<and> length (filter busy (channels s)) + dma_semaphore s = TSI148_NUM_DMA_CHANNELS
     \<and> distinct (pool_live (dheap s))"

lemma lock_avail_loop_free:
  "\<exists>i \<in> set is. \<not> busy (chs ! i) \<Longrightarrow> \<exists>i \<in> set is. \<not> busy (chs ! i) \<and> lock_avail_loop is chs = (Inr i, chs[i := (chs ! i)\<lparr>busy := True\<rparr>])"
  by (induction "is") auto

lemma lock_avail_channel_free:
  assumes "length chs = TSI148_NUM_DMA_CHANNELS" and "length (filter busy chs) < TSI148_NUM_DMA_CHANNELS"
  shows "\<exists>i < TSI148_NUM_DMA_CHANNELS. \<not> busy (chs ! i) \<and> lock_avail_channel chs = (Inr i, chs[i := (chs ! i)\<lparr>busy := True\<rparr>])"
proof -
  have "filter busy chs \<noteq> chs" using assms by auto
  then obtain c where "c \<in> set chs" "\<not> busy c" using filter_True by metis
  then have "\<exists>i \<in> set [0..<TSI148_NUM_DMA_CHANNELS]. \<not> busy (chs ! i)"
    using assms(1) by (auto simp: in_set_conv_nth)
  from lock_avail_loop_free [OF this] show ?thesis by (auto simp: lock_avail_channel_def)
qed

lemma length_filter_update:
  assumes "i < length xs"
  shows "length (filter P (xs[i := x])) + (if P (xs ! i) then 1 else 0) = length (filter P xs) + (if P x then 1 else 0)"
proof -
  have "filter P xs = filter P (take i xs @ xs ! i # drop (Suc i) xs)"
    using id_take_nth_drop [OF assms] by simp
  then show ?thesis using assms by (simp add: upd_conv_take_nth_drop)
qed

lemma acquire_cases:
  assumes inv: "dma_inv s" and w: "\<forall>b. w = Granted b \<longrightarrow> 0 < dma_semaphore s"
  shows "(\<exists>e. vme_dma_channel_acquire w s = Some (Inl e, s\<lparr>dma_disable := dma_disable s \<or> w = Granted True\<rparr>))
    \<or> (\<exists>i < TSI148_NUM_DMA_CHANNELS. \<not> busy (channels s ! i) \<and> vme_dma_channel_acquire w s =
        Some (Inr i, s\<lparr>dma_semaphore := dma_semaphore s - 1, channels := (channels s)[i := (channels s ! i)\<lparr>busy := True\<rparr>]\<rparr>))"
proof -
  have "length (filter busy (channels s)) < TSI148_NUM_DMA_CHANNELS" if "0 < dma_semaphore s"
    using inv that by (simp add: dma_inv_def)
  with inv w show ?thesis
    using lock_avail_channel_free [of "channels s"]
    by (cases w) (auto simp: vme_dma_channel_acquire_def Let_def dma_inv_def)
qed

lemma release_desc_pool:
  assumes "pool_ok others ch h" and "chained ch" and "tsi148_dma_release ch h = (ch', h')"
  shows "ch' = ch\<lparr>hw_desc_list := []\<rparr> \<and> mset (pool_live h') = others"
  using free_chain_pool [OF assms(1), of ch' h'] assms by (simp add: tsi148_dma_release_def)

text \<open>The last steps of every path that acquired channel \<open>i\<close>.\<close>

lemma give_back_channel:
  assumes inv: "dma_inv s" and i: "i < TSI148_NUM_DMA_CHANNELS" "\<not> busy (channels s ! i)" and sem: "0 < dma_semaphore s"
    and ch: "channels s' = (channels s)[i := ch]" "num ch = i" "hw_desc_list ch = []"
    and sem': "dma_semaphore s' = dma_semaphore s - 1" and h: "holds_nothing_new s s'"
  shows "holds_nothing_new s (vme_dma_channel_release i s') \<and> dma_semaphore (vme_dma_channel_release i s') = dma_semaphore s
    \<and> map busy (channels (vme_dma_channel_release i s')) = map busy (channels s) \<and> dma_inv (vme_dma_channel_release i s')"
proof -
  define ch' where "ch' = ch\<lparr>busy := False\<rparr>"
  have len: "length (channels s) = TSI148_NUM_DMA_CHANNELS" using inv by (simp add: dma_inv_def)
  have r: "vme_dma_channel_release i s' = s'\<lparr>channels := (channels s)[i := ch'], dma_semaphore := dma_semaphore s\<rparr>"
    using len i sem sem' ch(1) by (simp add: vme_dma_channel_release_def upd_channel_def Let_def ch'_def)
  have "distinct (pool_live (dheap s'))"
    using h inv mset_eq_imp_distinct_iff by (auto simp: holds_nothing_new_def dma_inv_def)
  moreover have "map busy ((channels s)[i := ch']) = map busy (channels s)"
    using i len by (simp add: map_update ch'_def) (metis (full_types) list_update_id nth_map map_update)
  moreover have "length (filter busy ((channels s)[i := ch'])) = length (filter busy (channels s))"
    using length_filter_update [of i "channels s" busy ch'] i len by (simp add: ch'_def)
  ultimately show ?thesis
    using inv h i ch len unfolding r by (auto simp: dma_inv_def holds_nothing_new_def nth_list_update ch'_def)
qed

lemma run_and_clean_result:
  assumes h: "setup_holds to_user i s sgs s'" and i: "i < length (channels s')"
    and run: "dma_run_and_clean k i sgs to_user d s' = (rc, d', s'')"
  shows "channels s'' = (channels s')[i := (channels s' ! i)\<lparr>hw_desc_list := []\<rparr>] \<and> dma_semaphore s'' = dma_semaphore s'
    \<and> holds_nothing_new s s''"
proof -
  obtain ch h' where r: "tsi148_dma_release (channels s' ! i) (dheap s') = (ch, h')" by fastforce
  from h have "pool_ok (mset (pool_live (dheap s))) (channels s' ! i) (dheap s')" "chained (channels s' ! i)"
    by (simp_all add: setup_holds_def)
  from release_desc_pool [OF this r]
  have "ch = (channels s' ! i)\<lparr>hw_desc_list := []\<rparr>" "mset (pool_live h') = mset (pool_live (dheap s))"
    by simp_all
  with run r h i show ?thesis
    by (auto simp: dma_run_and_clean_def Let_def setup_holds_def holds_nothing_new_def upd_channel_def sgl_unmap_user_pages_def
        split: prod.splits)
qed

lemma do_dma_acquired:
  assumes inv: "dma_inv s" and fp: "fresh_pool (desc_pool k)" and m: "maps_sg k" and rq: "request_ok k to_user d"
    and l: "dma_length d \<noteq> 0" and g: "good_dir d" and sem: "0 < dma_semaphore s"
    and i: "i < TSI148_NUM_DMA_CHANNELS" "\<not> busy (channels s ! i)"
    and a: "vme_dma_channel_acquire w s =
      Some (Inr i, s\<lparr>dma_semaphore := dma_semaphore s - 1, channels := (channels s)[i := (channels s ! i)\<lparr>busy := True\<rparr>]\<rparr>)"
  shows "\<exists>r d' s'. vme_do_dma_to k w d to_user s = Some (r, d', s') \<and> holds_nothing_new s s'
    \<and> dma_semaphore s' = dma_semaphore s \<and> map busy (channels s') = map busy (channels s) \<and> dma_inv s'"
proof -
  define s1 where "s1 = s\<lparr>dma_semaphore := dma_semaphore s - 1, channels := (channels s)[i := (channels s ! i)\<lparr>busy := True, ch_desc := d\<rparr>]\<rparr>"
  have len: "i < length (channels s)" and num: "num (channels s ! i) = i" and hw: "hw_desc_list (channels s ! i) = []"
    and di: "distinct (pool_live (dheap s))" using inv i by (simp_all add: dma_inv_def)
  have s1: "i < length (channels s1)" "ch_desc (channels s1 ! i) = d" "hw_desc_list (channels s1 ! i) = []"
    "distinct (pool_live (dheap s1))" using len hw di by (simp_all add: s1_def)
  obtain r sgs s2 where S: "vme_dma_setup k i to_user s1 = Some (r, sgs, s2)" and F: "chan_frame i s1 s2"
    and R: "if r = OK then setup_holds to_user i s1 sgs s2 else holds_nothing_new s1 s2 \<and> hw_desc_list (channels s2 ! i) = []"
    using vme_dma_setup_result [OF fp m s1(1,2) g l rq s1(3,4)]
    by (elim exE conjE) (erule (1) that, simp split: if_split_asm)
  obtain ch where ch: "channels s2 = (channels s)[i := ch]" "num ch = i" and sem2: "dma_semaphore s2 = dma_semaphore s - 1"
    using F len num by (auto simp: chan_frame_def s1_def)
  have same: "holds_nothing_new s1 x = holds_nothing_new s x" for x by (simp add: holds_nothing_new_def s1_def)
  have run: "vme_do_dma_to k w d to_user s = Some (case r of Inl e \<Rightarrow> (Inl e, d, vme_dma_channel_release i s2)
      | Inr _ \<Rightarrow> let (rc, d, s) = dma_run_and_clean k i sgs to_user d s2 in (rc, d, vme_dma_channel_release i s))"
    using l g a len S by (auto simp: vme_do_dma_to_def good_dir_def upd_channel_def s1_def Let_def split: sum.split prod.split)
  show ?thesis
  proof (cases r)
    case (Inl e)
    with R ch len have "holds_nothing_new s s2" "hw_desc_list ch = []" by (simp_all add: same)
    from give_back_channel [OF inv i sem ch this(2) sem2 this(1)] run Inl show ?thesis by simp
  next
    case (Inr u)
    obtain rc d' s3 where C: "dma_run_and_clean k i sgs to_user d s2 = (rc, d', s3)" by (metis prod_cases3)
    from Inr R have "setup_holds to_user i s1 sgs s2" by simp
    from run_and_clean_result [OF this _ C] ch len sem2
    have "channels s3 = (channels s)[i := ch\<lparr>hw_desc_list := []\<rparr>]" "dma_semaphore s3 = dma_semaphore s - 1" "holds_nothing_new s s3"
      by (simp_all add: same)
    from give_back_channel [OF inv i sem this(1) _ _ this(2,3)] ch(2) run Inr C show ?thesis by simp
  qed
qed

text \<open>C10: From a state in the DMA invariant a DMA request returns, and whatever its outcome
(bad arguments, signal, disabled DMA, any allocation failure, rejected attributes, aborted or
complete transfer) the channel, the semaphore unit, the hardware descriptors, the pinned pages,
the list buffer and the bus mapping are given back; for a request whose VME range ends below 4G
and whose user pages can be pinned or whose kernel buffer is valid, a kernel that maps its list to
bus addresses below 4G and hands out fresh descriptors, and a semaphore that is granted only when
a unit is free.\<close>

theorem dma_gives_everything_back:
  assumes inv: "dma_inv s" and fp: "fresh_pool (desc_pool k)" and m: "maps_sg k" and rq: "request_ok k to_user d"
    and w: "\<forall>b. w = Granted b \<longrightarrow> 0 < dma_semaphore s"
  shows "\<exists>r d' s'. vme_do_dma_to k w d to_user s = Some (r, d', s') \<and> holds_nothing_new s s'
    \<and> dma_semaphore s' = dma_semaphore s \<and> map busy (channels s') = map busy (channels s) \<and> dma_inv s'"
proof (cases "dma_length d = 0 \<or> \<not> good_dir d")
  case True
  with inv show ?thesis by (auto simp: vme_do_dma_to_def good_dir_def holds_nothing_new_def)
next
  case False
  then have l: "dma_length d \<noteq> 0" and g: "good_dir d" by auto
  show ?thesis using acquire_cases [OF inv w]
  proof (elim disjE exE conjE)
    fix e assume "vme_dma_channel_acquire w s = Some (Inl e, s\<lparr>dma_disable := dma_disable s \<or> w = Granted True\<rparr>)"
    with l g inv show ?thesis by (auto simp: vme_do_dma_to_def good_dir_def holds_nothing_new_def dma_inv_def)
  next
    fix i assume i: "i < TSI148_NUM_DMA_CHANNELS" "\<not> busy (channels s ! i)"
      and a: "vme_dma_channel_acquire w s =
        Some (Inr i, s\<lparr>dma_semaphore := dma_semaphore s - 1, channels := (channels s)[i := (channels s ! i)\<lparr>busy := True\<rparr>]\<rparr>)"
    then have "0 < dma_semaphore s"
      using w by (cases w) (auto simp: vme_dma_channel_acquire_def split: if_splits)
    from do_dma_acquired [OF inv fp m rq l g this i a] show ?thesis .
  qed
qed

text \<open>A kernel whose pages are always there, and the driver with both channels idle.\<close>

definition sample_dkernel :: dma_kernel where
  "sample_dkernel = \<lparr> get_user_pages = (\<lambda>a n. Inr n), user_page = (\<lambda>a. unat (drop_bit 12 a AND 0xff)), is_vmalloc_addr = (\<lambda>a. False),
     virt_addr_valid = (\<lambda>a. True), vmalloc_to_page = (\<lambda>a. 0), virt_to_page = (\<lambda>a. unat (drop_bit 12 a AND 0xff)),
     pci_map_sg = map (\<lambda>(p, l, off). (0x70000000 + off, ucast l)), stale_list = (\<lambda>n. map (\<lambda>i. (i, 0x80, 0)) [0..<n]),
     wait_dma = (\<lambda>i c. (None, c)), desc_pool = sample_pool \<rparr>"

definition sample_dstate :: dstate where
  "sample_dstate = \<lparr> channels = map (\<lambda>i. sample_chan\<lparr>busy := False, num := i\<rparr>) [0, 1], dma_semaphore = 2, dma_disable = False,
     dchip = sample_chip, dheap = sample_heap, pinned = [], sg_bufs = 0, sg_maps = 0 \<rparr>"

lemma sample_dma_inv: "dma_inv sample_dstate"
  by (simp add: dma_inv_def sample_dstate_def TSI148_NUM_DMA_CHANNELS_def sample_chan_def sample_heap_def nth_Cons' less_2_cases_iff)

lemma sample_dkernel_pool: "fresh_pool (desc_pool sample_dkernel)"
  by (simp add: sample_dkernel_def sample_pool_fresh)

lemma sample_maps_sg: "maps_sg sample_dkernel"
proof -
  let ?f = "\<lambda>(p :: nat, l :: u64, off :: u64). (0x70000000 + off, ucast l :: u32)"
  have "sg_in_pages sgs \<Longrightarrow> sg_total (map ?f sgs) = sum_list (sg_lens sgs)
      \<and> list_all (\<lambda>(a, len). 0 < unat len \<and> unat a + unat len \<le> 0x100000000) (map ?f sgs)" for sgs
  proof (induction sgs)
    case (Cons sg sgs)
    obtain p l off where sg: "sg = (p, l, off)" by (metis prod_cases3)
    with Cons.prems have b: "0 < unat l" "unat off + unat l \<le> 4096" by (simp_all add: sg_in_pages_def)
    then have "unat (ucast l :: u32) = unat l" "unat (0x70000000 + off) = 0x70000000 + unat off"
      by (simp_all add: unat_ucast_small unat_add_u64_cases)
    with Cons b sg show ?case by (simp add: sg_in_pages_def sg_total_def sg_lens_def)
  qed (simp add: sg_total_def sg_lens_def)
  then show ?thesis by (auto simp: maps_sg_def sample_dkernel_def)
qed

lemma sample_request_ok: "request_ok sample_dkernel b sample_dma"
  by (simp add: request_ok_def pages_ok_def sample_dkernel_def sample_dma_def chan_vme_def)

theorem dma_gives_everything_back_witness:
  "\<exists>d' s'. vme_do_dma_to sample_dkernel (Granted False) sample_dma True sample_dstate = Some (OK, d', s')
     \<and> pinned s' = [] \<and> sg_bufs s' = 0 \<and> sg_maps s' = 0 \<and> dma_semaphore s' = 2 \<and> pool_live (dheap s') = []"
proof -
  have "\<forall>b. Granted False = Granted b \<longrightarrow> 0 < dma_semaphore sample_dstate" by (simp add: sample_dstate_def)
  from dma_gives_everything_back [OF sample_dma_inv sample_dkernel_pool sample_maps_sg sample_request_ok this, of True]
  obtain r d' s' where e: "vme_do_dma_to sample_dkernel (Granted False) sample_dma True sample_dstate = Some (r, d', s')"
    and h: "holds_nothing_new sample_dstate s'" "dma_semaphore s' = dma_semaphore sample_dstate" by auto
  have "map_option fst (vme_do_dma_to sample_dkernel (Granted False) sample_dma True sample_dstate) = Some OK" by code_simp
  with e have "r = OK" by simp
  with e h show ?thesis by (auto simp: holds_nothing_new_def sample_dstate_def sample_heap_def)
qed

theorem dma_setup_covers_request_witness:
  "\<exists>sgs s'. vme_dma_setup sample_dkernel 0 True sample_dstate = Some (OK, sgs, s')
     \<and> sum_list (map (\<lambda>(v, a, l). l) (chip_dma_ops (channels s' ! 0) (dchip s') (dheap s'))) = 0x1300
     \<and> vme_run 0x20000f80 (chip_dma_ops (channels s' ! 0) (dchip s') (dheap s'))"
proof -
  have "map_option fst (vme_dma_setup sample_dkernel 0 True sample_dstate) = Some OK" by code_simp
  then obtain sgs s' where e: "vme_dma_setup sample_dkernel 0 True sample_dstate = Some (OK, sgs, s')" by auto
  have d: "0 < length (channels sample_dstate)" "ch_desc (channels sample_dstate ! 0) = sample_dma" "good_dir sample_dma"
    "dma_length sample_dma \<noteq> 0" "hw_desc_list (channels sample_dstate ! 0) = []" "distinct (pool_live (dheap sample_dstate))"
    "num (channels sample_dstate ! 0) < length (dma (dchip sample_dstate))"
    by (simp_all add: sample_dstate_def sample_chan_def good_dir_def sample_dma_def sample_heap_def sample_chip_def Let_def)
  from dma_setup_covers_request [OF sample_dkernel_pool sample_maps_sg d(1-4) sample_request_ok d(5-7) e] e
  show ?thesis by (auto simp: sample_dma_def chan_vme_def Let_def)
qed

theorem sg_list_covers_buffer_witness:
  "\<exists>pages h'. sgl_map_user_pages sample_dkernel 2 0x4000df80 (ucast (0x100 :: u32)) True sample_heap
      = (Inr 2, Some [(0xd, 0x80, 0xf80), (0xe, 0x80, 0)], pages, h') \<and> pages = [0xd, 0xe]"
proof -
  have e: "sgl_map_user_pages sample_dkernel 2 0x4000df80 (ucast (0x100 :: u32)) True sample_heap
      = (Inr 2, Some [(0xd, 0x80, 0xf80), (0xe, 0x80, 0)], [0xd, 0xe], sample_heap)"
    by (simp add: sgl_map_user_pages_def sample_dkernel_def sample_heap_def next_fails_def sgl_fill_user_pages_def page_addrs_def
        sgl_populate_def PAGE_SIZE_def offset_in_page_def upt_rec)
  have n: "(2 :: nat) = dma_nr_pages 0x4000df80 0x100" by (simp add: nr_pages_nat)
  from sg_list_covers_buffer [OF _ n _ e] e show ?thesis by (auto simp: sample_dkernel_def)
qed

text \<open>
  When the pages cannot be pinned, \<open>sgl_map_user_pages\<close> still returns their number: the transfer is
  set up and run on whatever the uninitialised list holds, and reported as successful.
\<close>

definition bad_pin_dkernel :: dma_kernel where
  "bad_pin_dkernel = \<lparr> get_user_pages = (\<lambda>a n. Inl EFAULT), user_page = (\<lambda>a. 0), is_vmalloc_addr = (\<lambda>a. False),
     virt_addr_valid = (\<lambda>a. True), vmalloc_to_page = (\<lambda>a. 0), virt_to_page = (\<lambda>a. 0),
     pci_map_sg = map (\<lambda>(p, l, off). (0x70000000 + off, ucast l)), stale_list = (\<lambda>n. map (\<lambda>i. (i, 0x80, 0)) [0..<n]),
     wait_dma = (\<lambda>i c. (None, c)), desc_pool = sample_pool \<rparr>"

theorem pin_failure_goes_unnoticed:
  "map_option fst (vme_do_dma_to bad_pin_dkernel (Granted False) (sample_dma\<lparr>dma_length := 0x80\<rparr>) True sample_dstate) = Some OK"
  by code_simp

text \<open>The wait of \<open>vme_dma_exit\<close> ends while a channel is still busy: one free unit is enough for all its rounds.\<close>

lemma exit_wait_free: "0 < dma_semaphore s \<Longrightarrow> exit_wait n s = Some s"
  by (induction n arbitrary: s) simp_all

theorem exit_does_not_wait_for_all:
  assumes "0 < dma_semaphore s"
  shows "vme_dma_exit s = Some (vme_dma_exit_begin s)"
  using assms exit_wait_free [of "vme_dma_exit_begin s"] by (simp add: vme_dma_exit_def vme_dma_exit_begin_def)

end
