(* ===== verification/Vme_Dma_Conc.thy ===== *)
theory Vme_Dma_Conc
  imports Vme_Dma_Props
begin

text \<open>
  Tasks that use the DMA channels at the same time: \<open>vme_dma_channel_acquire\<close> and
  \<open>vme_dma_channel_release\<close> of \<open>src/vmebridge/driver/vme_dma.c\<close> cut into their atomic steps (a test of
  \<open>dma_disable\<close>, a semaphore operation, a section under \<open>dma_lock\<close>), interleaved in any order with each
  other and with \<open>vme_dma_exit\<close> setting \<open>dma_disable\<close>.
\<close>

subsection \<open>Tasks\<close>

text \<open>Where a task is: outside, in the queue of the semaphore, past it, past the second test of
  \<open>dma_disable\<close>, working with a channel, between the release of the channel and \<open>up\<close>, or refused.\<close>

datatype task =
    Outside | Queued | Past_down | Past_check | Holding nat | Past_unlock | Refused errno

record cstate =
  driver :: dstate
  tasks :: "task list"

definition set_task :: "nat \<Rightarrow> task \<Rightarrow> cstate \<Rightarrow> cstate" where
  "set_task t x c = c\<lparr>tasks := (tasks c)[t := x]\<rparr>"

inductive dma_step :: "cstate \<Rightarrow> cstate \<Rightarrow> bool" where
  queue: "t < length (tasks c) \<Longrightarrow> tasks c ! t = Outside \<Longrightarrow> \<not> dma_disable (driver c) \<Longrightarrow> dma_step c (set_task t Queued c)"
| disabled: "t < length (tasks c) \<Longrightarrow> tasks c ! t = Outside \<Longrightarrow> dma_disable (driver c) \<Longrightarrow>
    dma_step c (set_task t (Refused EBUSY) c)"
| signal: "t < length (tasks c) \<Longrightarrow> tasks c ! t = Queued \<Longrightarrow> dma_step c (set_task t (Refused EINTR) c)"
| down: "t < length (tasks c) \<Longrightarrow> tasks c ! t = Queued \<Longrightarrow> 0 < dma_semaphore (driver c) \<Longrightarrow>
    dma_step c (set_task t Past_down (c\<lparr>driver := (driver c)\<lparr>dma_semaphore := dma_semaphore (driver c) - 1\<rparr>\<rparr>))"
| late: "t < length (tasks c) \<Longrightarrow> tasks c ! t = Past_down \<Longrightarrow> dma_disable (driver c) \<Longrightarrow>
    dma_step c (set_task t (Refused EBUSY) (c\<lparr>driver := (driver c)\<lparr>dma_semaphore := dma_semaphore (driver c) + 1\<rparr>\<rparr>))"
| check: "t < length (tasks c) \<Longrightarrow> tasks c ! t = Past_down \<Longrightarrow> \<not> dma_disable (driver c) \<Longrightarrow>
    dma_step c (set_task t Past_check c)"
| lock: "t < length (tasks c) \<Longrightarrow> tasks c ! t = Past_check \<Longrightarrow> lock_avail_channel (channels (driver c)) = (r, chs) \<Longrightarrow>
    dma_step c (set_task t (case r of Inl e \<Rightarrow> Refused e | Inr i \<Rightarrow> Holding i) (c\<lparr>driver := (driver c)\<lparr>channels := chs\<rparr>\<rparr>))"
| work: "t < length (tasks c) \<Longrightarrow> tasks c ! t = Holding i \<Longrightarrow> busy ch = busy (channels (driver c) ! i) \<Longrightarrow>
    dma_step c (c\<lparr>driver := (upd_channel i (\<lambda>_. ch) (driver c))\<lparr>dchip := chip', dheap := heap'\<rparr>\<rparr>)"
| unlock: "t < length (tasks c) \<Longrightarrow> tasks c ! t = Holding i \<Longrightarrow>
    dma_step c (set_task t Past_unlock (c\<lparr>driver := upd_channel i (\<lambda>ch. ch\<lparr>busy := False\<rparr>) (driver c)\<rparr>))"
| up: "t < length (tasks c) \<Longrightarrow> tasks c ! t = Past_unlock \<Longrightarrow>
    dma_step c (set_task t Outside (c\<lparr>driver := (driver c)\<lparr>dma_semaphore := dma_semaphore (driver c) + 1\<rparr>\<rparr>))"
| again: "t < length (tasks c) \<Longrightarrow> tasks c ! t = Refused e \<Longrightarrow> dma_step c (set_task t Outside c)"
| exiting: "dma_step c (c\<lparr>driver := (driver c)\<lparr>dma_disable := True\<rparr>\<rparr>)"

text \<open>One task alone, without interruption, goes through the two functions of the source.\<close>

lemma acquire_is_steps:
  assumes "t < length (tasks c)" and "tasks c ! t = Outside" and "vme_dma_channel_acquire (Granted False) (driver c) = Some (r, s)"
  shows "dma_step\<^sup>*\<^sup>* c (set_task t (case r of Inl e \<Rightarrow> Refused e | Inr i \<Rightarrow> Holding i) (c\<lparr>driver := s\<rparr>))"
proof (cases "dma_disable (driver c)")
  case True
  with assms have "r = Inl EBUSY" "s = driver c" by (simp_all add: vme_dma_channel_acquire_def)
  with dma_step.disabled [OF assms(1,2) True] show ?thesis by simp
next
  case False
  define c1 where "c1 = set_task t Queued c"
  define c2 where "c2 = set_task t Past_down (c1\<lparr>driver := (driver c1)\<lparr>dma_semaphore := dma_semaphore (driver c1) - 1\<rparr>\<rparr>)"
  define c3 where "c3 = set_task t Past_check c2"
  from False assms(3) have sem: "0 < dma_semaphore (driver c)" by (auto simp: vme_dma_channel_acquire_def split: if_splits)
  have 1: "dma_step c c1" unfolding c1_def by (rule dma_step.queue [OF assms(1,2) False])
  have 2: "dma_step c1 c2" unfolding c2_def using assms(1) sem by (intro dma_step.down) (simp_all add: c1_def set_task_def)
  have 3: "dma_step c2 c3" unfolding c3_def using assms(1) False
    by (intro dma_step.check) (simp_all add: c2_def c1_def set_task_def)
  obtain chs where l: "lock_avail_channel (channels (driver c3)) = (r, chs)"
    and s: "s = (driver c3)\<lparr>channels := chs\<rparr>"
    using False sem assms(3) by (auto simp: vme_dma_channel_acquire_def Let_def c3_def c2_def c1_def set_task_def split: prod.splits)
  have "dma_step c3 (set_task t (case r of Inl e \<Rightarrow> Refused e | Inr i \<Rightarrow> Holding i) (c3\<lparr>driver := s\<rparr>))"
    unfolding s using assms(1) l by (intro dma_step.lock) (simp_all add: c3_def c2_def c1_def set_task_def)
  moreover have "set_task t x (c3\<lparr>driver := s\<rparr>) = set_task t x (c\<lparr>driver := s\<rparr>)" for x
    by (simp add: c3_def c2_def c1_def set_task_def)
  ultimately show ?thesis using 1 2 3 by simp
qed

lemma release_is_steps:
  assumes "t < length (tasks c)" and "tasks c ! t = Holding i"
  shows "dma_step\<^sup>*\<^sup>* c (set_task t Outside (c\<lparr>driver := vme_dma_channel_release i (driver c)\<rparr>))"
proof -
  define c1 where "c1 = set_task t Past_unlock (c\<lparr>driver := upd_channel i (\<lambda>ch. ch\<lparr>busy := False\<rparr>) (driver c)\<rparr>)"
  have "dma_step c c1" unfolding c1_def by (rule dma_step.unlock [OF assms])
  moreover have "dma_step c1 (set_task t Outside (c1\<lparr>driver := (driver c1)\<lparr>dma_semaphore := dma_semaphore (driver c1) + 1\<rparr>\<rparr>))"
    using assms(1) by (intro dma_step.up) (simp_all add: c1_def set_task_def)
  moreover have "set_task t Outside (c1\<lparr>driver := (driver c1)\<lparr>dma_semaphore := dma_semaphore (driver c1) + 1\<rparr>\<rparr>)
      = set_task t Outside (c\<lparr>driver := vme_dma_channel_release i (driver c)\<rparr>)"
    by (simp add: c1_def set_task_def vme_dma_channel_release_def Let_def)
  ultimately show ?thesis by simp
qed

subsection \<open>The invariant\<close>

definition held :: "task list \<Rightarrow> nat list" where
  "held ts = map (\<lambda>t. case t of Holding i \<Rightarrow> i | _ \<Rightarrow> 0) (filter (\<lambda>t. \<exists>i. t = Holding i) ts)"

text \<open>Tasks that took a unit of the semaphore and have not given it back.\<close>

definition with_unit :: "task \<Rightarrow> bool" where
  "with_unit t \<longleftrightarrow> t = Past_down \<or> t = Past_check \<or> (\<exists>i. t = Holding i) \<or> t = Past_unlock"

definition busy_channels :: "dma_channel list \<Rightarrow> nat list" where
  "busy_channels chs = filter (\<lambda>i. busy (chs ! i)) [0..<length chs]"

definition conc_inv :: "cstate \<Rightarrow> bool" where
  "conc_inv c \<longleftrightarrow> length (channels (driver c)) = TSI148_NUM_DMA_CHANNELS
     \<and> mset (held (tasks c)) = mset (busy_channels (channels (driver c)))
     \<and> dma_semaphore (driver c) + length (filter with_unit (tasks c)) = TSI148_NUM_DMA_CHANNELS
     \<and> Refused EDEADLK \<notin> set (tasks c)"

lemma held_tasks_update:
  assumes "t < length ts"
  shows "mset (held (ts[t := x])) + (case ts ! t of Holding i \<Rightarrow> {#i#} | _ \<Rightarrow> {#})
     = mset (held ts) + (case x of Holding i \<Rightarrow> {#i#} | _ \<Rightarrow> {#})"
  using mset_filter_update [OF assms, of "\<lambda>t. case t of Holding i \<Rightarrow> i | _ \<Rightarrow> 0" "\<lambda>t. \<exists>i. t = Holding i" x]
  unfolding held_def by (cases "ts ! t"; cases x) simp_all

lemma busy_channels_update:
  assumes "i < length chs"
  shows "mset (busy_channels (chs[i := ch])) + (if busy (chs ! i) then {#i#} else {#})
     = mset (busy_channels chs) + (if busy ch then {#i#} else {#})"
proof -
  have "[0..<length chs] = [0..<i] @ i # [Suc i..<length chs]"
    using assms upt_add_eq_append [of 0 i "length chs - i"] by (simp add: upt_conv_Cons)
  moreover have "filter (\<lambda>j. busy (chs[i := ch] ! j)) [0..<i] = filter (\<lambda>j. busy (chs ! j)) [0..<i]"
    "filter (\<lambda>j. busy (chs[i := ch] ! j)) [Suc i..<length chs] = filter (\<lambda>j. busy (chs ! j)) [Suc i..<length chs]"
    by (auto intro!: filter_cong)
  ultimately show ?thesis using assms by (simp add: busy_channels_def)
qed

lemma busy_channels_length: "length (busy_channels chs) = length (filter busy chs)"
proof -
  have "filter busy chs = map ((!) chs) (busy_channels chs)"
    unfolding busy_channels_def using filter_map [of busy "(!) chs" "[0..<length chs]"] by (simp add: map_nth comp_def)
  then show ?thesis by simp
qed

text \<open>Every task that holds a channel has a unit, so a task with a unit and no channel finds one.\<close>

lemma held_units: "length (held ts) + length (filter (\<lambda>t. with_unit t \<and> (\<forall>i. t \<noteq> Holding i)) ts) = length (filter with_unit ts)"
  by (induction ts) (auto simp: held_def with_unit_def)

lemma locker_finds_channel:
  assumes "conc_inv c" and "t < length (tasks c)" and "tasks c ! t = Past_check"
  shows "\<exists>i < length (channels (driver c)). \<not> busy (channels (driver c) ! i) \<and> lock_avail_channel (channels (driver c))
      = (Inr i, (channels (driver c))[i := (channels (driver c) ! i)\<lparr>busy := True\<rparr>])"
proof -
  have "Past_check \<in> set (filter (\<lambda>t. with_unit t \<and> (\<forall>i. t \<noteq> Holding i)) (tasks c))"
    using assms(2,3) by (auto simp: with_unit_def in_set_conv_nth)
  then have "0 < length (filter (\<lambda>t. with_unit t \<and> (\<forall>i. t \<noteq> Holding i)) (tasks c))" by (rule length_pos_if_in_set)
  moreover have "length (held (tasks c)) = length (filter busy (channels (driver c)))"
    using assms(1) by (metis conc_inv_def mset_eq_length busy_channels_length)
  ultimately have "length (filter busy (channels (driver c))) < TSI148_NUM_DMA_CHANNELS"
    using held_units [of "tasks c"] assms(1) unfolding conc_inv_def by linarith
  with assms(1) show ?thesis using lock_avail_channel_free [of "channels (driver c)"] by (simp add: conc_inv_def)
qed

lemma holder_busy:
  assumes "conc_inv c" and "t < length (tasks c)" and "tasks c ! t = Holding i"
  shows "i < length (channels (driver c)) \<and> busy (channels (driver c) ! i)"
proof -
  have "Holding i \<in> set (tasks c)" using assms(2,3) by (metis nth_mem)
  then have "i \<in> set (held (tasks c))" unfolding held_def by force
  then have "i \<in> set (busy_channels (channels (driver c)))"
    using assms(1) by (metis conc_inv_def mset_eq_setD)
  then show ?thesis by (simp add: busy_channels_def)
qed

subsection \<open>Every step keeps it\<close>

definition holding_mset :: "task \<Rightarrow> nat multiset" where
  "holding_mset t = (case t of Holding i \<Rightarrow> {#i#} | _ \<Rightarrow> {#})"

lemma conc_inv_task:
  assumes inv: "conc_inv c" and t: "t < length (tasks c)" and len: "length (channels d) = length (channels (driver c))"
    and b: "mset (busy_channels (channels d)) + holding_mset (tasks c ! t) = mset (busy_channels (channels (driver c))) + holding_mset x"
    and u: "dma_semaphore d + (if with_unit x then 1 else 0) = dma_semaphore (driver c) + (if with_unit (tasks c ! t) then 1 else 0)"
    and x: "x \<noteq> Refused EDEADLK"
  shows "conc_inv (set_task t x (c\<lparr>driver := d\<rparr>))"
proof -
  have "mset (held ((tasks c)[t := x])) + holding_mset (tasks c ! t) = mset (busy_channels (channels (driver c))) + holding_mset x"
    using held_tasks_update [OF t, of x] inv by (simp add: holding_mset_def conc_inv_def)
  with b have "mset (held ((tasks c)[t := x])) = mset (busy_channels (channels d))" by (metis add_right_cancel)
  moreover have "dma_semaphore d + length (filter with_unit ((tasks c)[t := x])) = TSI148_NUM_DMA_CHANNELS"
    using length_filter_update [OF t, of with_unit x] u inv by (simp add: conc_inv_def split: if_splits)
  moreover have "Refused EDEADLK \<notin> set ((tasks c)[t := x])"
    using x inv set_update_subset_insert [of "tasks c" t x] by (auto simp: conc_inv_def)
  ultimately show ?thesis using inv len by (simp add: conc_inv_def set_task_def)
qed

lemmas task_simps = holding_mset_def with_unit_def EINTR_def

lemma conc_inv_same_driver:
  "conc_inv c \<Longrightarrow> t < length (tasks c) \<Longrightarrow> holding_mset x = holding_mset (tasks c ! t) \<Longrightarrow> with_unit x = with_unit (tasks c ! t)
     \<Longrightarrow> x \<noteq> Refused EDEADLK \<Longrightarrow> conc_inv (set_task t x c)"
  using conc_inv_task [of c t "driver c" x] by simp

lemma conc_inv_sem:
  "conc_inv c \<Longrightarrow> t < length (tasks c) \<Longrightarrow> holding_mset x = holding_mset (tasks c ! t)
     \<Longrightarrow> n + (if with_unit x then 1 else 0) = dma_semaphore (driver c) + (if with_unit (tasks c ! t) then 1 else 0)
     \<Longrightarrow> x \<noteq> Refused EDEADLK \<Longrightarrow> conc_inv (set_task t x (c\<lparr>driver := (driver c)\<lparr>dma_semaphore := n\<rparr>\<rparr>))"
  by (rule conc_inv_task) simp_all

lemma dma_step_inv:
  assumes "dma_step c c'" and "conc_inv c"
  shows "conc_inv c'"
  using assms
proof cases
  case (lock t r chs)
  from locker_finds_channel [OF assms(2) lock(2,3)] lock(4)
  obtain i where i: "i < length (channels (driver c))" "\<not> busy (channels (driver c) ! i)"
    and r: "r = Inr i" "chs = (channels (driver c))[i := (channels (driver c) ! i)\<lparr>busy := True\<rparr>]" by auto
  show ?thesis unfolding lock(1)
    using lock busy_channels_update [OF i(1), of "(channels (driver c) ! i)\<lparr>busy := True\<rparr>"] i r
    by (intro conc_inv_task [OF assms(2) lock(2)]) (simp_all add: task_simps)
next
  case (work t i ch chip' heap')
  from holder_busy [OF assms(2) work(2,3)] busy_channels_update [of i "channels (driver c)" ch] work(4)
  have "mset (busy_channels ((channels (driver c))[i := ch])) = mset (busy_channels (channels (driver c)))" by simp
  then show ?thesis using assms(2) unfolding work(1) by (simp add: conc_inv_def upd_channel_def)
next
  case (unlock t i)
  from holder_busy [OF assms(2) unlock(2,3)] busy_channels_update [of i "channels (driver c)" "(channels (driver c) ! i)\<lparr>busy := False\<rparr>"]
  show ?thesis unfolding unlock(1) using unlock
    by (intro conc_inv_task [OF assms(2) unlock(2)]) (simp_all add: task_simps upd_channel_def)
next
  case exiting
  then show ?thesis using assms(2) by (simp add: conc_inv_def)
next
  case (down t)
  then show ?thesis using assms(2) unfolding down(1) by (intro conc_inv_sem) (simp_all add: task_simps)
next
  case (late t)
  then show ?thesis using assms(2) unfolding late(1) by (intro conc_inv_sem) (simp_all add: task_simps)
next
  case (up t)
  then show ?thesis using assms(2) unfolding up(1) by (intro conc_inv_sem) (simp_all add: task_simps)
qed (auto intro!: conc_inv_same_driver simp: task_simps)

lemma dma_reachable_inv: "dma_step\<^sup>*\<^sup>* c c' \<Longrightarrow> conc_inv c \<Longrightarrow> conc_inv c'"
  by (induction rule: rtranclp_induct) (auto intro: dma_step_inv)

text \<open>The driver after \<open>vme_dma_init\<close>, with any number of tasks that have not called it yet.\<close>

definition dma_start_state :: "dstate \<Rightarrow> nat \<Rightarrow> cstate" where
  "dma_start_state s n = \<lparr>driver = snd (vme_dma_init True s), tasks = replicate n Outside\<rparr>"

lemma start_conc_inv:
  assumes "\<forall>ch \<in> set (channels s). \<not> busy ch" and "length (channels s) = TSI148_NUM_DMA_CHANNELS"
  shows "conc_inv (dma_start_state s n)"
  using assms by (auto simp: conc_inv_def dma_start_state_def vme_dma_init_def Let_def busy_channels_def held_def with_unit_def
      filter_empty_conv)

text \<open>C14: In every interleaving of any number of tasks and of module exit, no two tasks
hold the same DMA channel, every held channel is marked busy, and no task that got through the
semaphore fails to find a channel.\<close>

theorem dma_channels_exclusive:
  assumes "list_all (\<lambda>ch. \<not> busy ch) (channels s)" and "length (channels s) = TSI148_NUM_DMA_CHANNELS"
    and "dma_step\<^sup>*\<^sup>* (dma_start_state s n) c"
  shows "distinct (held (tasks c)) \<and> Refused EDEADLK \<notin> set (tasks c)
    \<and> (\<forall>t < length (tasks c). \<forall>i. tasks c ! t = Holding i \<longrightarrow> busy (channels (driver c) ! i))"
proof -
  have inv: "conc_inv c"
    using dma_reachable_inv [OF assms(3)] start_conc_inv assms(1,2) by (simp add: list_all_iff)
  then have "mset (held (tasks c)) = mset (busy_channels (channels (driver c)))" by (simp add: conc_inv_def)
  moreover have "distinct (busy_channels (channels (driver c)))" by (simp add: busy_channels_def)
  ultimately have "distinct (held (tasks c))" using mset_eq_imp_distinct_iff by blast
  then show ?thesis using inv holder_busy [OF inv] by (auto simp: conc_inv_def)
qed

text \<open>C39: In every interleaving, once no task is between taking and returning a semaphore
unit, the semaphore has all its units again and no channel is busy.\<close>

theorem dma_units_all_return:
  assumes "list_all (\<lambda>ch. \<not> busy ch) (channels s)" and "length (channels s) = TSI148_NUM_DMA_CHANNELS"
    and "dma_step\<^sup>*\<^sup>* (dma_start_state s n) c" and "list_all (\<lambda>t. \<not> with_unit t) (tasks c)"
  shows "dma_semaphore (driver c) = TSI148_NUM_DMA_CHANNELS \<and> list_all (\<lambda>ch. \<not> busy ch) (channels (driver c))"
proof -
  have inv: "conc_inv c"
    using dma_reachable_inv [OF assms(3)] start_conc_inv assms(1,2) by (simp add: list_all_iff)
  have u: "filter with_unit (tasks c) = []" using assms(4) by (auto simp: list_all_iff filter_empty_conv)
  then have "held (tasks c) = []" using held_units [of "tasks c"] by simp
  then have "busy_channels (channels (driver c)) = []" using inv by (simp add: conc_inv_def)
  then have "filter busy (channels (driver c)) = []" using busy_channels_length by (metis length_0_conv)
  then show ?thesis using inv u by (auto simp: conc_inv_def list_all_iff filter_empty_conv)
qed

subsection \<open>Two tasks on two channels\<close>

lemma sample_idle: "list_all (\<lambda>ch. \<not> busy ch) (channels sample_dstate)" "length (channels sample_dstate) = TSI148_NUM_DMA_CHANNELS"
  by (simp_all add: sample_dstate_def TSI148_NUM_DMA_CHANNELS_def)

lemma sample_first_acquire:
  "\<exists>c. dma_step\<^sup>*\<^sup>* (dma_start_state sample_dstate 2) c \<and> tasks c = [Holding 0, Outside]
     \<and> vme_dma_channel_acquire (Granted False) (driver c) = Some (Inr 1, (driver c)\<lparr>dma_semaphore := 0,
         channels := (channels (driver c))[1 := (channels (driver c) ! 1)\<lparr>busy := True\<rparr>]\<rparr>)"
proof -
  let ?c = "dma_start_state sample_dstate 2"
  define s1 where "s1 = (driver ?c)\<lparr>dma_semaphore := 1, channels := (channels (driver ?c))[0 := (channels (driver ?c) ! 0)\<lparr>busy := True\<rparr>]\<rparr>"
  note defs = dma_start_state_def vme_dma_init_def sample_dstate_def Let_def TSI148_NUM_DMA_CHANNELS_def vme_dma_channel_acquire_def
    lock_avail_channel_def s1_def
  have "vme_dma_channel_acquire (Granted False) (driver ?c) = Some (Inr 0, s1)"
    by (simp add: defs upt_rec)
  from acquire_is_steps [OF _ _ this, of 0]
  have "dma_step\<^sup>*\<^sup>* ?c (set_task 0 (Holding 0) (?c\<lparr>driver := s1\<rparr>))" by (simp add: dma_start_state_def)
  moreover have "tasks (set_task 0 (Holding 0) (?c\<lparr>driver := s1\<rparr>)) = [Holding 0, Outside]"
    by (simp add: dma_start_state_def set_task_def numeral_2_eq_2)
  ultimately show ?thesis
    by (intro exI [of _ "set_task 0 (Holding 0) (?c\<lparr>driver := s1\<rparr>)"]) (simp add: defs set_task_def upt_rec)
qed

theorem dma_channels_exclusive_witness:
  "\<exists>c. dma_step\<^sup>*\<^sup>* (dma_start_state sample_dstate 2) c \<and> tasks c = [Holding 0, Holding 1] \<and> busy (channels (driver c) ! 1)"
proof -
  obtain c where c: "dma_step\<^sup>*\<^sup>* (dma_start_state sample_dstate 2) c" "tasks c = [Holding 0, Outside]"
    and a: "vme_dma_channel_acquire (Granted False) (driver c) = Some (Inr 1, (driver c)\<lparr>dma_semaphore := 0,
         channels := (channels (driver c))[1 := (channels (driver c) ! 1)\<lparr>busy := True\<rparr>]\<rparr>)"
    using sample_first_acquire by blast
  from acquire_is_steps [OF _ _ a, of 1] c
  obtain c' where c': "dma_step\<^sup>*\<^sup>* (dma_start_state sample_dstate 2) c'" "tasks c' = [Holding 0, Holding 1]"
    by (simp add: set_task_def) (drule (1) rtranclp_trans, fastforce)
  from dma_channels_exclusive [OF sample_idle c'(1)]
  have "1 < length (tasks c') \<longrightarrow> tasks c' ! 1 = Holding 1 \<longrightarrow> busy (channels (driver c') ! 1)" by blast
  with c' show ?thesis by auto
qed

theorem dma_units_all_return_witness:
  "\<exists>c. dma_step\<^sup>*\<^sup>* (dma_start_state sample_dstate 2) c \<and> dma_semaphore (driver c) = TSI148_NUM_DMA_CHANNELS
     \<and> tasks c = [Outside, Outside]"
proof -
  obtain c where c: "dma_step\<^sup>*\<^sup>* (dma_start_state sample_dstate 2) c" "tasks c = [Holding 0, Outside]"
    using sample_first_acquire by blast
  from release_is_steps [of 0 c 0] c
  obtain c' where c': "dma_step\<^sup>*\<^sup>* (dma_start_state sample_dstate 2) c'" "tasks c' = [Outside, Outside]"
    by (simp add: set_task_def) (drule (1) rtranclp_trans, fastforce)
  from dma_units_all_return [OF sample_idle c'(1)] c' show ?thesis by (auto simp: with_unit_def)
qed

end
