(* ===== verification/Vme_Irq.thy ===== *)
theory Vme_Irq
  imports Vme_Dma
begin

text \<open>
  Interrupts and bus errors: \<open>src/vmebridge/driver/vme_irq.c\<close>, \<open>vme_misc.c\<close>, \<open>handle_dma_interrupt\<close> of
  \<open>vme_dma.c\<close>, and the error and interrupt generation routines of \<open>tsi148.c\<close>.

  Handlers are functions of other modules: they are named by numbers, and a call of one is an
  entry of the log \<open>calls\<close>, as is the wake-up of a DMA channel's queue. What the device does is an
  argument: each round of the interrupt routine reads INTS, finds what the chip latched in its
  error registers, and gets vectors from the bus.
\<close>

subsection \<open>State\<close>

record vme_irq =
  irq_handler :: "nat option"
  irq_arg :: nat
  irq_count :: u32
  irq_name :: "string option"

definition vme_irq_zero :: vme_irq where
  "vme_irq_zero = \<lparr> irq_handler = None, irq_arg = 0, irq_count = 0, irq_name = None \<rparr>"

definition VME_NUM_VECTORS :: nat where [hw_consts]: "VME_NUM_VECTORS = 256"

datatype interrupt_idx =
    INT_DMA0 | INT_DMA1 | INT_MB0 | INT_MB1 | INT_MB2 | INT_MB3 | INT_LM0 | INT_LM1 | INT_LM2 | INT_LM3
  | INT_IRQ nat | INT_PERR | INT_VERR | INT_SPURIOUS

text \<open>The index of a counter in \<open>int_stats\<close>; \<open>INT_IRQ l\<close> stands for \<open>INT_IRQ1 + l - 1\<close>.\<close>

primrec stat_index :: "interrupt_idx \<Rightarrow> nat" where
  "stat_index INT_DMA0 = 0" | "stat_index INT_DMA1 = 1"
| "stat_index INT_MB0 = 2" | "stat_index INT_MB1 = 3" | "stat_index INT_MB2 = 4" | "stat_index INT_MB3 = 5"
| "stat_index INT_LM0 = 6" | "stat_index INT_LM1 = 7" | "stat_index INT_LM2 = 8" | "stat_index INT_LM3 = 9"
| "stat_index (INT_IRQ l) = 10 + l - 1"
| "stat_index INT_PERR = 17" | "stat_index INT_VERR = 18" | "stat_index INT_SPURIOUS = 19"

record vme_berr_handler =
  bh_addr :: nat
  bh_error :: vme_bus_error
  bh_size :: u64
  bh_func :: nat

datatype call = Wake_up nat | Irq_call nat nat | Berr_call nat vme_bus_error

record istate =
  vme_irq_table :: "vme_irq list"
  int_stats :: "u32 list"
  vme_interrupts_enabled :: u32
  regs :: tsi148_lcsr
  verr_desc :: vme_bus_error_desc
  h_list :: "vme_berr_handler list"
  calls :: "call list"

definition count_int :: "interrupt_idx \<Rightarrow> istate \<Rightarrow> istate" where
  "count_int x s = s\<lparr>int_stats := (int_stats s)[stat_index x := int_stats s ! stat_index x + 1]\<rparr>"

definition log_call :: "call \<Rightarrow> istate \<Rightarrow> istate" where
  "log_call c s = s\<lparr>calls := calls s @ [c]\<rparr>"

definition count_if :: "bool \<Rightarrow> interrupt_idx \<Rightarrow> istate \<Rightarrow> istate" where
  "count_if b x s = (if b then count_int x s else s)"

subsection \<open>Handlers of the bridge's own interrupts\<close>

definition account_dma_interrupt :: "u32 \<Rightarrow> istate \<Rightarrow> istate" where
  "account_dma_interrupt m s = count_if (m AND 2 \<noteq> 0) INT_DMA1 (count_if (m AND 1 \<noteq> 0) INT_DMA0 s)"

definition handle_dma_interrupt :: "u32 \<Rightarrow> istate \<Rightarrow> istate" where
  "handle_dma_interrupt m s =
     (let s = (if m AND 1 \<noteq> 0 then log_call (Wake_up 0) s else s);
          s = (if m AND 2 \<noteq> 0 then log_call (Wake_up 1) s else s)
      in account_dma_interrupt m s)"

definition tsi148_handle_pci_error :: "tsi148_lcsr \<Rightarrow> tsi148_lcsr" where
  "tsi148_handle_pci_error c = c\<lparr>edpat := TSI148_LCSR_EDPAT_EDPCL\<rparr>"

definition handle_pci_error :: "istate \<Rightarrow> istate" where
  "handle_pci_error s = count_int INT_PERR (s\<lparr>regs := tsi148_handle_pci_error (regs s)\<rparr>)"

definition tsi148_handle_vme_error :: "tsi148_lcsr \<Rightarrow> vme_bus_error \<times> tsi148_lcsr" where
  "tsi148_handle_vme_error c =
     (\<lparr> berr_address = reg_join (veau c) (veal c),
        berr_am = am_of_code (drop_bit TSI148_LCSR_VEAT_AM_SHIFT (veat c AND TSI148_LCSR_VEAT_AM)) \<rparr>,
      c\<lparr>veat := TSI148_LCSR_VEAT_VESCL\<rparr>)"

definition vme_berr_match :: "vme_bus_error \<Rightarrow> vme_berr_handler \<Rightarrow> bool" where
  "vme_berr_match e h \<longleftrightarrow> berr_am e = berr_am (bh_error h) \<and> berr_address e \<ge> berr_address (bh_error h)
     \<and> berr_address e < berr_address (bh_error h) + bh_size h"

definition vme_dispatch_berr :: "vme_bus_error \<Rightarrow> istate \<Rightarrow> istate" where
  "vme_dispatch_berr e s =
     fold (\<lambda>h s. if vme_berr_match e h then log_call (Berr_call (bh_func h) e) s else s) (h_list s) s"

definition handle_vme_error :: "istate \<Rightarrow> istate" where
  "handle_vme_error s =
     (let (e, c) = tsi148_handle_vme_error (regs s);
          s = s\<lparr>regs := c, verr_desc := \<lparr> berr_error = e, berr_valid = True \<rparr>\<rparr>
      in count_int INT_VERR (vme_dispatch_berr e s))"

definition handle_mbox_interrupt :: "u32 \<Rightarrow> istate \<Rightarrow> istate" where
  "handle_mbox_interrupt m s =
     count_if (m AND 8 \<noteq> 0) INT_MB3 (count_if (m AND 4 \<noteq> 0) INT_MB2
       (count_if (m AND 2 \<noteq> 0) INT_MB1 (count_if (m AND 1 \<noteq> 0) INT_MB0 s)))"

definition handle_lm_interrupt :: "u32 \<Rightarrow> istate \<Rightarrow> istate" where
  "handle_lm_interrupt m s =
     count_if (m AND 8 \<noteq> 0) INT_LM3 (count_if (m AND 4 \<noteq> 0) INT_LM2
       (count_if (m AND 2 \<noteq> 0) INT_LM1 (count_if (m AND 1 \<noteq> 0) INT_LM0 s)))"

subsection \<open>VME interrupts\<close>

text \<open>One level: an IACK cycle, and the handler of the vector if there is one.\<close>

definition serve_level :: "(nat \<Rightarrow> u8) \<Rightarrow> nat \<Rightarrow> istate \<Rightarrow> istate" where
  "serve_level viack i s =
     (let vec = tsi148_iack8 viack i;
          virq = vme_irq_table s ! vec;
          s = (case irq_handler virq of
                 None \<Rightarrow> s
               | Some f \<Rightarrow> log_call (Irq_call f (irq_arg virq))
                   (s\<lparr>vme_irq_table := (vme_irq_table s)[vec := virq\<lparr>irq_count := irq_count virq + 1\<rparr>]\<rparr>))
      in count_int (INT_IRQ i) s)"

fun handle_vme_loop :: "(nat \<Rightarrow> u8) \<Rightarrow> u32 \<Rightarrow> nat list \<Rightarrow> istate \<Rightarrow> istate" where
  "handle_vme_loop viack m [] s = s"
| "handle_vme_loop viack m (i # is) s =
     handle_vme_loop viack m is (if m AND push_bit i 1 \<noteq> 0 then serve_level viack i s else s)"

definition handle_vme_interrupt :: "(nat \<Rightarrow> u8) \<Rightarrow> u32 \<Rightarrow> istate \<Rightarrow> istate" where
  "handle_vme_interrupt viack m s = handle_vme_loop viack m [7, 6, 5, 4, 3, 2, 1] s"

subsection \<open>The interrupt routine\<close>

text \<open>What a round sees of the device: INTS, the registers as the chip left them, and the bus's
  answer to IACK cycles.\<close>

record int_round =
  ints :: u32
  latch :: "tsi148_lcsr \<Rightarrow> tsi148_lcsr"
  viack :: "nat \<Rightarrow> u8"

datatype irqreturn = IRQ_NONE | IRQ_HANDLED

text \<open>The handlers of one round, for the enabled sources \<open>msk\<close>.\<close>

definition handle_sources :: "(nat \<Rightarrow> u8) \<Rightarrow> u32 \<Rightarrow> istate \<Rightarrow> istate" where
  "handle_sources va msk s =
     (let (msk, s) = (if msk AND TSI148_LCSR_INT_DMA_M \<noteq> 0
            then (msk AND NOT TSI148_LCSR_INT_DMA_M,
                  handle_dma_interrupt (drop_bit TSI148_LCSR_INT_DMA_SHIFT (msk AND TSI148_LCSR_INT_DMA_M)) s)
            else (msk, s));
          (msk, s) = (if msk AND TSI148_LCSR_INT_PERR \<noteq> 0
            then (msk AND NOT TSI148_LCSR_INT_PERR, handle_pci_error s) else (msk, s));
          (msk, s) = (if msk AND TSI148_LCSR_INT_VERR \<noteq> 0
            then (msk AND NOT TSI148_LCSR_INT_VERR, handle_vme_error s) else (msk, s));
          (msk, s) = (if msk AND TSI148_LCSR_INT_MB_M \<noteq> 0
            then (msk AND NOT TSI148_LCSR_INT_MB_M,
                  handle_mbox_interrupt (drop_bit TSI148_LCSR_INT_MB_SHIFT (msk AND TSI148_LCSR_INT_MB_M)) s)
            else (msk, s));
          (msk, s) = (if msk AND TSI148_LCSR_INT_LM_M \<noteq> 0
            then (msk AND NOT TSI148_LCSR_INT_LM_M,
                  handle_lm_interrupt (drop_bit TSI148_LCSR_INT_LM_SHIFT (msk AND TSI148_LCSR_INT_LM_M)) s)
            else (msk, s));
          (msk, s) = (if msk AND TSI148_LCSR_INT_IRQM \<noteq> 0
            then (msk AND NOT TSI148_LCSR_INT_IRQM, handle_vme_interrupt va (msk AND TSI148_LCSR_INT_IRQM) s)
            else (msk, s))
      in s)"

text \<open>The rounds until INTS reads 0, which it does after the last round of the list.\<close>

fun vme_bridge_interrupt :: "int_round list \<Rightarrow> istate \<Rightarrow> irqreturn \<times> istate" where
  "vme_bridge_interrupt [] s = (IRQ_HANDLED, s)"
| "vme_bridge_interrupt (r # rs) s =
     (let raised = ints r
      in if raised = 0 then (IRQ_HANDLED, s)
      else let s = s\<lparr>regs := tsi148_clear_int raised (latch r (regs s))\<rparr>;
               msk = raised AND vme_interrupts_enabled s
           in if msk = 0 then (IRQ_NONE, count_int INT_SPURIOUS s)
              else vme_bridge_interrupt rs (handle_sources (viack r) msk s))"

definition vme_enable_interrupts :: "(u32 \<Rightarrow> u32) \<Rightarrow> u32 \<Rightarrow> istate \<Rightarrow> bool \<times> istate" where
  "vme_enable_interrupts impl msk s =
     (let new = tsi148_get_int_enabled (regs s) OR msk;
          s = s\<lparr>vme_interrupts_enabled := new\<rparr>;
          (ok, c) = tsi148_set_interrupts impl new (regs s)
      in (ok, s\<lparr>regs := c\<rparr>))"

definition vme_disable_interrupts :: "(u32 \<Rightarrow> u32) \<Rightarrow> u32 \<Rightarrow> istate \<Rightarrow> bool \<times> istate" where
  "vme_disable_interrupts impl msk s =
     (let new = tsi148_get_int_enabled (regs s) AND NOT msk;
          s = s\<lparr>vme_interrupts_enabled := new\<rparr>;
          (ok, c) = tsi148_set_interrupts impl new (regs s)
      in (ok, s\<lparr>regs := c\<rparr>))"

subsection \<open>The vector table\<close>

text \<open>\<open>intr\<close> is what an interrupted \<open>mutex_lock_interruptible\<close> returns, if it is interrupted. A handler is an
  address, and 0 is NULL: the vector then stays free.\<close>

definition vme_request_irq ::
    "errno option \<Rightarrow> u32 \<Rightarrow> nat \<Rightarrow> nat \<Rightarrow> string option \<Rightarrow> istate \<Rightarrow> rc \<times> istate" where
  "vme_request_irq intr vec handler arg nm s =
     (if unat vec \<ge> VME_NUM_VECTORS then (Inl EINVAL, s)
      else case intr of Some e \<Rightarrow> (Inl e, s)
      | None \<Rightarrow>
          (let virq = vme_irq_table s ! unat vec
           in if irq_handler virq \<noteq> None then (Inl EBUSY, s)
              else (OK, s\<lparr>vme_irq_table := (vme_irq_table s)[unat vec := virq\<lparr>irq_handler := (if handler = 0 then None else Some handler), irq_arg := arg,
                     irq_count := 0, irq_name := Some (case nm of Some n \<Rightarrow> n | None \<Rightarrow> ''Unknown'')\<rparr>]\<rparr>)))"

definition vme_free_irq :: "errno option \<Rightarrow> u32 \<Rightarrow> istate \<Rightarrow> rc \<times> istate" where
  "vme_free_irq intr vec s =
     (if unat vec \<ge> VME_NUM_VECTORS then (Inl EINVAL, s)
      else case intr of Some e \<Rightarrow> (Inl e, s)
      | None \<Rightarrow>
          (let virq = vme_irq_table s ! unat vec
           in if irq_handler virq = None then (Inl EINVAL, s)
              else (OK, s\<lparr>vme_irq_table := (vme_irq_table s)[unat vec := virq\<lparr>irq_handler := None, irq_arg := 0,
                     irq_count := 0, irq_name := None\<rparr>]\<rparr>)))"

subsection \<open>Generating an interrupt\<close>

text \<open>\<open>waits\<close> are the rounds of the wait: VICR as read by the loop, and the time left that
  \<open>schedule_timeout\<close> returns. \<open>fin\<close> are the two readings of VICR after the loop. \<open>None\<close> is a call
  that still waits after these rounds.\<close>

fun iack_wait :: "(u32 \<times> int) list \<Rightarrow> bool" where
  "iack_wait [] \<longleftrightarrow> False"
| "iack_wait ((v, left) # ws) \<longleftrightarrow> v AND TSI148_LCSR_VICR_IRQS = 0 \<or> left = 0 \<or> iack_wait ws"

definition tsi148_generate_interrupt ::
    "(u32 \<times> int) list \<Rightarrow> u32 \<times> u32 \<Rightarrow> int \<Rightarrow> int \<Rightarrow> tsi148_lcsr \<Rightarrow> (rc \<times> tsi148_lcsr) option" where
  "tsi148_generate_interrupt waits fin level vector c =
     (if level < 1 \<or> level > 7 then Some (Inl EINVAL, c)
      else if vector < 0 \<or> vector > 255 then Some (Inl EINVAL, c)
      else let val = vicr c AND NOT TSI148_LCSR_VICR_STID_M;
               val = val OR (push_bit 8 (word_of_int level) OR word_of_int vector);
               c = c\<lparr>vicr := val\<rparr>
      in if \<not> iack_wait waits then None
      else if fst fin AND TSI148_LCSR_VICR_IRQS \<noteq> 0
      then let val = snd fin AND NOT (TSI148_LCSR_VICR_IRQL_M OR TSI148_LCSR_VICR_STID_M);
               val = val OR TSI148_LCSR_VICR_IRQC
           in Some (Inl ETIME, c\<lparr>vicr := val\<rparr>)
      else Some (OK, c))"

definition vme_generate_interrupt ::
    "(u32 \<times> int) list \<Rightarrow> u32 \<times> u32 \<Rightarrow> int \<Rightarrow> int \<Rightarrow> istate \<Rightarrow> (rc \<times> istate) option" where
  "vme_generate_interrupt waits fin level vector s =
     map_option (\<lambda>(r, c). (r, s\<lparr>regs := c\<rparr>)) (tsi148_generate_interrupt waits fin level vector (regs s))"

subsection \<open>Bus errors\<close>

definition vme_bus_error_check :: "bool \<Rightarrow> istate \<Rightarrow> bool \<times> istate" where
  "vme_bus_error_check clear s = (let (b, c) = tsi148_bus_error_chk clear (regs s) in (b, s\<lparr>regs := c\<rparr>))"

definition vme_bus_error_check_clear :: "vme_bus_error \<Rightarrow> istate \<Rightarrow> bool \<times> istate" where
  "vme_bus_error_check_clear err s =
     (let d = verr_desc s
      in if berr_valid d \<and> berr_am (berr_error d) = berr_am err \<and> berr_address (berr_error d) = berr_address err
         then (True, s\<lparr>verr_desc := d\<lparr>berr_valid := False\<rparr>\<rparr>)
         else (False, s))"

text \<open>\<open>mem\<close> is the address \<open>kzalloc\<close> returns, \<open>None\<close> when it fails.\<close>

definition vme_register_berr_handler :: "nat option \<Rightarrow> vme_bus_error \<Rightarrow> u64 \<Rightarrow> nat \<Rightarrow> istate \<Rightarrow> (errno + nat) \<times> istate" where
  "vme_register_berr_handler mem err sz func s =
     (if sz = 0 then (Inl EINVAL, s)
      else case mem of None \<Rightarrow> (Inl ENOMEM, s)
      | Some p \<Rightarrow> (Inr p, s\<lparr>h_list := h_list s @ [\<lparr> bh_addr = p, bh_error = err, bh_size = sz, bh_func = func \<rparr>]\<rparr>))"

fun unlink_berr :: "nat \<Rightarrow> vme_berr_handler list \<Rightarrow> vme_berr_handler list" where
  "unlink_berr p [] = []"
| "unlink_berr p (h # hs) = (if bh_addr h = p then hs else h # unlink_berr p hs)"

definition vme_unregister_berr_handler :: "nat \<Rightarrow> istate \<Rightarrow> istate" where
  "vme_unregister_berr_handler p s = s\<lparr>h_list := unlink_berr p (h_list s)\<rparr>"

definition vme_misc_read :: "nat \<Rightarrow> nat" where
  "vme_misc_read n = 0"

definition vme_misc_write :: "nat \<Rightarrow> nat" where
  "vme_misc_write n = 0"

definition vme_misc_ioctl :: "u32 \<Rightarrow> rc" where
  "vme_misc_ioctl cmd = Inl ENOIOCTLCMD"

end
