(* ===== verification/Vme_Irq_Props.thy ===== *)
theory Vme_Irq_Props
  imports Vme_Irq
begin

text \<open>
  Correctness of the interrupt and bus error code: what one round of the interrupt routine counts
  and calls, the vector table as an exclusive table of handlers, the registry of bus error
  handlers, and the interrupt generator.
\<close>

subsection \<open>Sources and bits\<close>

primrec source_bit :: "interrupt_idx \<Rightarrow> nat" where
  "source_bit INT_DMA0 = 24" | "source_bit INT_DMA1 = 25"
| "source_bit INT_MB0 = 16" | "source_bit INT_MB1 = 17" | "source_bit INT_MB2 = 18" | "source_bit INT_MB3 = 19"
| "source_bit INT_LM0 = 20" | "source_bit INT_LM1 = 21" | "source_bit INT_LM2 = 22" | "source_bit INT_LM3 = 23"
| "source_bit (INT_IRQ l) = l"
| "source_bit INT_PERR = 13" | "source_bit INT_VERR = 12" | "source_bit INT_SPURIOUS = 31"

definition sources :: "interrupt_idx list" where
  "sources = [INT_DMA0, INT_DMA1, INT_PERR, INT_VERR, INT_MB0, INT_MB1, INT_MB2, INT_MB3, INT_LM0, INT_LM1, INT_LM2, INT_LM3,
     INT_IRQ 7, INT_IRQ 6, INT_IRQ 5, INT_IRQ 4, INT_IRQ 3, INT_IRQ 2, INT_IRQ 1]"

lemma and_small_bit:
  "(x :: u32) AND 1 \<noteq> 0 \<longleftrightarrow> bit x 0" "x AND 2 \<noteq> 0 \<longleftrightarrow> bit x 1" "x AND 4 \<noteq> 0 \<longleftrightarrow> bit x 2" "x AND 8 \<noteq> 0 \<longleftrightarrow> bit x 3"
  "x AND 0x1000 \<noteq> 0 \<longleftrightarrow> bit x 12" "x AND 0x2000 \<noteq> 0 \<longleftrightarrow> bit x 13" "x AND push_bit i 1 \<noteq> 0 \<longleftrightarrow> bit x i"
  using and_exp_eq_0_iff_not_bit [of x 0] and_exp_eq_0_iff_not_bit [of x 1] and_exp_eq_0_iff_not_bit [of x 2]
    and_exp_eq_0_iff_not_bit [of x 3] and_exp_eq_0_iff_not_bit [of x 12] and_exp_eq_0_iff_not_bit [of x 13]
    and_exp_eq_0_iff_not_bit [of x i]
  by (simp_all add: push_bit_eq_mult)

lemma field_bits:
  "bit (drop_bit 24 ((m :: u32) AND 0x3000000)) 0 = bit m 24" "bit (drop_bit 24 (m AND 0x3000000)) 1 = bit m 25"
  "bit (drop_bit 16 (m AND 0xf0000)) 0 = bit m 16" "bit (drop_bit 16 (m AND 0xf0000)) 1 = bit m 17"
  "bit (drop_bit 16 (m AND 0xf0000)) 2 = bit m 18" "bit (drop_bit 16 (m AND 0xf0000)) 3 = bit m 19"
  "bit (drop_bit 20 (m AND 0xf00000)) 0 = bit m 20" "bit (drop_bit 20 (m AND 0xf00000)) 1 = bit m 21"
  "bit (drop_bit 20 (m AND 0xf00000)) 2 = bit m 22" "bit (drop_bit 20 (m AND 0xf00000)) 3 = bit m 23"
  by (simp_all add: bit_simps)

lemma irq_bits:
  "bit ((m :: u32) AND 0xfe) 1 = bit m 1" "bit (m AND 0xfe) 2 = bit m 2" "bit (m AND 0xfe) 3 = bit m 3"
  "bit (m AND 0xfe) 4 = bit m 4" "bit (m AND 0xfe) 5 = bit m 5" "bit (m AND 0xfe) 6 = bit m 6" "bit (m AND 0xfe) 7 = bit m 7"
  by (simp_all add: bit_simps)

text \<open>A group of sources that is cleared from the set does not affect the other groups.\<close>

lemma other_group: "(a :: u32) AND b = 0 \<Longrightarrow> (m AND NOT a) AND b = m AND b"
proof -
  assume "a AND b = 0"
  then have "NOT a AND b = b" using and_not_disjoint [of b a] by (simp add: and.commute)
  then show ?thesis by (simp only: and.assoc)
qed

lemma handle_nothing [simp]:
  "handle_dma_interrupt 0 s = s" "handle_mbox_interrupt 0 s = s" "handle_lm_interrupt 0 s = s" "handle_vme_interrupt va 0 s = s"
  by (simp_all add: handle_dma_interrupt_def account_dma_interrupt_def handle_mbox_interrupt_def handle_lm_interrupt_def
      count_if_def handle_vme_interrupt_def)

lemma group_masks:
  "((m :: u32) AND NOT 0x3000000) AND 0x2000 = m AND 0x2000" "(m AND NOT 0x3000000) AND 0x1000 = m AND 0x1000"
  "(m AND NOT 0x3000000) AND 0xf0000 = m AND 0xf0000" "(m AND NOT 0x3000000) AND 0xf00000 = m AND 0xf00000"
  "(m AND NOT 0x3000000) AND 0xfe = m AND 0xfe"
  "(m AND NOT 0x2000) AND 0x1000 = m AND 0x1000" "(m AND NOT 0x2000) AND 0xf0000 = m AND 0xf0000"
  "(m AND NOT 0x2000) AND 0xf00000 = m AND 0xf00000" "(m AND NOT 0x2000) AND 0xfe = m AND 0xfe"
  "(m AND NOT 0x1000) AND 0xf0000 = m AND 0xf0000" "(m AND NOT 0x1000) AND 0xf00000 = m AND 0xf00000"
  "(m AND NOT 0x1000) AND 0xfe = m AND 0xfe"
  "(m AND NOT 0xf0000) AND 0xf00000 = m AND 0xf00000" "(m AND NOT 0xf0000) AND 0xfe = m AND 0xfe"
  "(m AND NOT 0xf00000) AND 0xfe = m AND 0xfe"
  by (rule other_group, simp)+

lemma handle_sources_eq:
  "handle_sources va m s =
     handle_vme_interrupt va (m AND 0xfe)
       (handle_lm_interrupt (drop_bit 20 (m AND 0xf00000))
         (handle_mbox_interrupt (drop_bit 16 (m AND 0xf0000))
           ((if bit m 12 then handle_vme_error else (\<lambda>s. s))
             ((if bit m 13 then handle_pci_error else (\<lambda>s. s))
               (handle_dma_interrupt (drop_bit 24 (m AND 0x3000000)) s)))))"
proof -
  have group: "(if m AND a \<noteq> 0 then (m AND NOT a, f (m AND a) s) else (m, s)) = (m AND NOT a, f (m AND a) s)"
    if "\<And>s. f 0 s = s" for m a :: u32 and f :: "u32 \<Rightarrow> istate \<Rightarrow> istate" and s
    using that and_not_disjoint [of m a] by auto
  have one: "(if m AND a \<noteq> 0 then (m AND NOT a, f s) else (m, s)) = (m AND NOT a, (if m AND a \<noteq> 0 then f else (\<lambda>s. s)) s)"
    for m a :: u32 and f :: "istate \<Rightarrow> istate" and s
    using and_not_disjoint [of m a] by auto
  have fs: "handle_dma_interrupt (drop_bit 24 0) s = s" "handle_mbox_interrupt (drop_bit 16 0) s = s"
    "handle_lm_interrupt (drop_bit 20 0) s = s" for s by simp_all
  note groups = group [where f = "\<lambda>x. handle_dma_interrupt (drop_bit 24 x)", OF fs(1)]
    group [where f = "\<lambda>x. handle_mbox_interrupt (drop_bit 16 x)", OF fs(2)]
    group [where f = "\<lambda>x. handle_lm_interrupt (drop_bit 20 x)", OF fs(3)]
    group [where f = "handle_vme_interrupt va", OF handle_nothing(4)]
  show ?thesis
    unfolding handle_sources_def hw_consts Let_def groups one [of _ _ handle_pci_error] one [of _ _ handle_vme_error] prod.case
    unfolding group_masks and_small_bit(5,6) by (rule refl)
qed

subsection \<open>Accounting\<close>

definition bump :: "bool \<Rightarrow> interrupt_idx \<Rightarrow> u32 list \<Rightarrow> u32 list" where
  "bump b x st = (if b then st[stat_index x := st ! stat_index x + 1] else st)"

lemma stats_simps [simp]:
  "int_stats (count_int x s) = bump True x (int_stats s)" "int_stats (count_if b x s) = bump b x (int_stats s)"
  "int_stats (log_call c s) = int_stats s"
  by (simp_all add: count_int_def count_if_def log_call_def bump_def)

text \<open>The parts that the handlers leave alone.\<close>

lemma frame_simps [simp]:
  "vme_interrupts_enabled (count_int x s) = vme_interrupts_enabled s" "vme_interrupts_enabled (count_if b x s) = vme_interrupts_enabled s"
  "vme_interrupts_enabled (log_call c s) = vme_interrupts_enabled s"
  "calls (count_int x s) = calls s" "calls (count_if b x s) = calls s" "calls (log_call c s) = calls s @ [c]"
  "vme_irq_table (count_int x s) = vme_irq_table s" "vme_irq_table (count_if b x s) = vme_irq_table s"
  "vme_irq_table (log_call c s) = vme_irq_table s"
  "h_list (count_int x s) = h_list s" "h_list (count_if b x s) = h_list s" "h_list (log_call c s) = h_list s"
  "regs (count_int x s) = regs s" "regs (count_if b x s) = regs s" "regs (log_call c s) = regs s"
  "verr_desc (count_int x s) = verr_desc s" "verr_desc (count_if b x s) = verr_desc s" "verr_desc (log_call c s) = verr_desc s"
  by (simp_all add: count_int_def count_if_def log_call_def)

lemma dispatch_berr_eq:
  "vme_dispatch_berr e s = s\<lparr>calls := calls s @ map (\<lambda>h. Berr_call (bh_func h) e) (filter (vme_berr_match e) (h_list s))\<rparr>"
proof -
  have "fold (\<lambda>h s. if vme_berr_match e h then log_call (Berr_call (bh_func h) e) s else s) hs s
      = s\<lparr>calls := calls s @ map (\<lambda>h. Berr_call (bh_func h) e) (filter (vme_berr_match e) hs)\<rparr>" for hs s
    by (induction hs arbitrary: s) (simp_all add: log_call_def)
  then show ?thesis by (simp add: vme_dispatch_berr_def)
qed

lemma vme_loop_stats:
  "int_stats (handle_vme_loop va m is s) = fold (\<lambda>i. bump (bit m i) (INT_IRQ i)) is (int_stats s)
   \<and> vme_interrupts_enabled (handle_vme_loop va m is s) = vme_interrupts_enabled s"
proof (induction "is" arbitrary: s)
  case (Cons i "is")
  have "int_stats (if bit m i then serve_level va i s else s) = bump (bit m i) (INT_IRQ i) (int_stats s)"
    "vme_interrupts_enabled (if bit m i then serve_level va i s else s) = vme_interrupts_enabled s"
    by (auto simp: serve_level_def Let_def bump_def split: option.split)
  with Cons show ?case by (simp add: and_exp_eq_0_iff_not_bit split: if_splits)
qed simp

text \<open>Each handler: what it counts, what it calls, and that it leaves the rest alone.\<close>

definition same_tables :: "istate \<Rightarrow> istate \<Rightarrow> bool" where
  "same_tables s s' \<longleftrightarrow> vme_interrupts_enabled s' = vme_interrupts_enabled s \<and> vme_irq_table s' = vme_irq_table s \<and> h_list s' = h_list s"

lemma dma_handler:
  "int_stats (handle_dma_interrupt m s) = bump (bit m 1) INT_DMA1 (bump (bit m 0) INT_DMA0 (int_stats s))"
  "calls (handle_dma_interrupt m s) = calls s @ (if bit m 0 then [Wake_up 0] else []) @ (if bit m 1 then [Wake_up 1] else [])"
  "same_tables s (handle_dma_interrupt m s)" "regs (handle_dma_interrupt m s) = regs s"
  by (simp_all add: handle_dma_interrupt_def account_dma_interrupt_def Let_def and_small_bit(1,2) same_tables_def del: One_nat_def)

lemma mbox_handler:
  "int_stats (handle_mbox_interrupt m s) =
     bump (bit m 3) INT_MB3 (bump (bit m 2) INT_MB2 (bump (bit m 1) INT_MB1 (bump (bit m 0) INT_MB0 (int_stats s))))"
  "calls (handle_mbox_interrupt m s) = calls s" "same_tables s (handle_mbox_interrupt m s)"
  by (simp_all add: handle_mbox_interrupt_def and_small_bit(1-4) same_tables_def del: One_nat_def)

lemma lm_handler:
  "int_stats (handle_lm_interrupt m s) =
     bump (bit m 3) INT_LM3 (bump (bit m 2) INT_LM2 (bump (bit m 1) INT_LM1 (bump (bit m 0) INT_LM0 (int_stats s))))"
  "calls (handle_lm_interrupt m s) = calls s" "same_tables s (handle_lm_interrupt m s)"
  by (simp_all add: handle_lm_interrupt_def and_small_bit(1-4) same_tables_def del: One_nat_def)

lemma pci_handler:
  "int_stats ((if b then handle_pci_error else (\<lambda>s. s)) s) = bump b INT_PERR (int_stats s)"
  "calls ((if b then handle_pci_error else (\<lambda>s. s)) s) = calls s" "same_tables s ((if b then handle_pci_error else (\<lambda>s. s)) s)"
  "veau (regs ((if b then handle_pci_error else (\<lambda>s. s)) s)) = veau (regs s)"
  "veal (regs ((if b then handle_pci_error else (\<lambda>s. s)) s)) = veal (regs s)"
  "veat (regs ((if b then handle_pci_error else (\<lambda>s. s)) s)) = veat (regs s)"
  by (simp_all add: handle_pci_error_def tsi148_handle_pci_error_def bump_def same_tables_def)

lemma berr_handler:
  "int_stats ((if b then handle_vme_error else (\<lambda>s. s)) s) = bump b INT_VERR (int_stats s)"
  "calls ((if b then handle_vme_error else (\<lambda>s. s)) s) = calls s @
     (if b then map (\<lambda>h. Berr_call (bh_func h) (fst (tsi148_handle_vme_error (regs s))))
        (filter (vme_berr_match (fst (tsi148_handle_vme_error (regs s)))) (h_list s)) else [])"
  "same_tables s ((if b then handle_vme_error else (\<lambda>s. s)) s)"
  by (simp_all add: handle_vme_error_def dispatch_berr_eq bump_def same_tables_def split: prod.split)

lemma same_tables_trans: "same_tables s s' \<Longrightarrow> same_tables s' s'' \<Longrightarrow> same_tables s s''"
  by (simp add: same_tables_def)

lemma before_irqs:
  "same_tables s (handle_lm_interrupt d (handle_mbox_interrupt c ((if b then handle_vme_error else (\<lambda>s. s))
     ((if b' then handle_pci_error else (\<lambda>s. s)) (handle_dma_interrupt a s)))))"
  by (rule same_tables_trans [OF _ lm_handler(3)] same_tables_trans [OF _ mbox_handler(3)] same_tables_trans [OF _ berr_handler(3)]
      same_tables_trans [OF _ pci_handler(3)] dma_handler(3))+

lemma sources_stats:
  "int_stats (handle_sources va m s) = fold (\<lambda>x. bump (bit m (source_bit x)) x) sources (int_stats s)"
  unfolding handle_sources_eq sources_def handle_vme_interrupt_def vme_loop_stats [THEN conjunct1]
    lm_handler(1) mbox_handler(1) berr_handler(1) pci_handler(1) dma_handler(1) field_bits fold_simps irq_bits source_bit.simps
  by (rule refl)

lemma sources_enabled: "vme_interrupts_enabled (handle_sources va m s) = vme_interrupts_enabled s"
  unfolding handle_sources_eq handle_vme_interrupt_def
  using before_irqs [of s] unfolding same_tables_def vme_loop_stats [THEN conjunct2] by blast

lemma bump_nth:
  "length (bump b x st) = length st"
  "j < length st \<Longrightarrow> bump b x st ! j = st ! j + (if b \<and> stat_index x = j then 1 else 0)"
  by (simp_all add: bump_def nth_list_update)

lemma fold_bump:
  assumes "distinct (map stat_index xs)" and "\<forall>x \<in> set xs. stat_index x < length st"
  shows "\<forall>j < length st. fold (\<lambda>x. bump (P x) x) xs st ! j = st ! j + (if \<exists>x \<in> set xs. stat_index x = j \<and> P x then 1 else 0)"
  using assms
proof (induction xs arbitrary: st)
  case (Cons x xs)
  have IH: "\<forall>j < length st. fold (\<lambda>x. bump (P x) x) xs (bump (P x) x st) ! j
      = bump (P x) x st ! j + (if \<exists>x \<in> set xs. stat_index x = j \<and> P x then 1 else 0)"
    using Cons.IH [of "bump (P x) x st"] Cons.prems by (simp add: bump_nth(1))
  show ?case
  proof (intro allI impI)
    fix j assume j: "j < length st"
    have "stat_index x \<notin> stat_index ` set xs" using Cons.prems(1) by simp
    then have "\<exists>y \<in> set xs. stat_index y = j \<and> P y \<Longrightarrow> stat_index x \<noteq> j" by auto
    with IH j show "fold (\<lambda>x. bump (P x) x) (x # xs) st ! j = st ! j + (if \<exists>y \<in> set (x # xs). stat_index y = j \<and> P y then 1 else 0)"
      by (auto simp: bump_nth(2))
  qed
qed simp

lemma fold_bump_length [simp]: "length (fold (\<lambda>x. bump (P x) x) xs st) = length st"
  by (induction xs arbitrary: st) (simp_all add: bump_def)

lemma sources_indices: "distinct (map stat_index sources)" "x \<in> set sources \<Longrightarrow> stat_index x < 19"
  by (auto simp: sources_def)

lemma round_counts:
  assumes "length (int_stats s) = 20"
  shows "length (int_stats (handle_sources va m s)) = 20"
    "x \<in> set sources \<Longrightarrow> int_stats (handle_sources va m s) ! stat_index x = int_stats s ! stat_index x + (if bit m (source_bit x) then 1 else 0)"
    "int_stats (handle_sources va m s) ! 19 = int_stats s ! 19"
proof -
  have idx: "\<forall>x \<in> set sources. stat_index x < length (int_stats s)" using sources_indices(2) assms by fastforce
  note B = fold_bump [OF sources_indices(1) idx, of "\<lambda>x. bit m (source_bit x)"]
  show "length (int_stats (handle_sources va m s)) = 20" using assms by (simp add: sources_stats)
  have "\<not> (\<exists>x \<in> set sources. stat_index x = 19 \<and> bit m (source_bit x))" using sources_indices(2) by fastforce
  then show "int_stats (handle_sources va m s) ! 19 = int_stats s ! 19"
    using B assms unfolding sources_stats by simp
  assume x: "x \<in> set sources"
  then have "(\<exists>y \<in> set sources. stat_index y = stat_index x \<and> bit m (source_bit y)) = bit m (source_bit x)"
    using sources_indices(1) by (auto simp: distinct_map dest: inj_onD)
  with B idx x show "int_stats (handle_sources va m s) ! stat_index x = int_stats s ! stat_index x + (if bit m (source_bit x) then 1 else 0)"
    unfolding sources_stats by simp
qed

text \<open>The rounds that are handled: up to the first that reads 0 or shows no enabled source.\<close>

definition handled_rounds :: "u32 \<Rightarrow> int_round list \<Rightarrow> int_round list" where
  "handled_rounds en rs = takeWhile (\<lambda>r. ints r AND en \<noteq> 0) rs"

definition ends_spurious :: "u32 \<Rightarrow> int_round list \<Rightarrow> bool" where
  "ends_spurious en rs \<longleftrightarrow> (case dropWhile (\<lambda>r. ints r AND en \<noteq> 0) rs of [] \<Rightarrow> False | r # _ \<Rightarrow> ints r \<noteq> 0)"

lemma interrupt_run_counts:
  assumes "length (int_stats s) = 20" and "vme_bridge_interrupt rs s = (ret, s')"
  shows "(\<forall>x \<in> set sources. int_stats s' ! stat_index x = int_stats s ! stat_index x +
        of_nat (length (filter (\<lambda>r. bit (ints r AND vme_interrupts_enabled s) (source_bit x)) (handled_rounds (vme_interrupts_enabled s) rs))))
    \<and> int_stats s' ! 19 = int_stats s ! 19 + (if ends_spurious (vme_interrupts_enabled s) rs then 1 else 0)
    \<and> ret = (if ends_spurious (vme_interrupts_enabled s) rs then IRQ_NONE else IRQ_HANDLED)"
  using assms
proof (induction rs arbitrary: s)
  case Nil
  then show ?case by (simp add: handled_rounds_def ends_spurious_def)
next
  case (Cons r rs)
  define s1 where "s1 = s\<lparr>regs := tsi148_clear_int (ints r) (latch r (regs s))\<rparr>"
  have st: "int_stats s1 = int_stats s" "vme_interrupts_enabled s1 = vme_interrupts_enabled s" by (simp_all add: s1_def)
  show ?case
  proof (cases "ints r AND vme_interrupts_enabled s = 0")
    case True
    show ?thesis
    proof (cases "ints r = 0")
      case True
      then show ?thesis using Cons.prems by (simp add: handled_rounds_def ends_spurious_def)
    next
      case False
      with True Cons.prems have "s' = count_int INT_SPURIOUS s1" "ret = IRQ_NONE" by (simp_all add: Let_def s1_def)
      moreover have "x \<in> set sources \<Longrightarrow> stat_index x < 20 \<and> stat_index x \<noteq> 19" for x using sources_indices(2) by fastforce
      ultimately show ?thesis
        using True False Cons.prems(1) by (auto simp: handled_rounds_def ends_spurious_def st bump_nth)
    qed
  next
    case False
    let ?m = "ints r AND vme_interrupts_enabled s"
    have nz: "ints r \<noteq> 0" using False by auto
    note R = round_counts [where s = s1 and va = "viack r" and m = ?m, unfolded st, OF Cons.prems(1)]
    have run: "vme_bridge_interrupt rs (handle_sources (viack r) ?m s1) = (ret, s')"
      using Cons.prems(2) nz False by (simp add: Let_def s1_def)
    have en: "vme_interrupts_enabled (handle_sources (viack r) ?m s1) = vme_interrupts_enabled s"
      by (simp add: sources_enabled st)
    from Cons.IH [OF R(1) run, unfolded en] R(2,3) False show ?thesis
      by (simp add: handled_rounds_def ends_spurious_def)
  qed
qed

text \<open>C20: A run of the interrupt routine adds to the counter of each source exactly the
number of handled rounds in which the source was raised and enabled, counts a spurious interrupt
exactly when a round raises only disabled sources, and then returns IRQ_NONE.\<close>

theorem interrupts_accounted:
  assumes "length (int_stats s) = 20" and "vme_bridge_interrupt rs s = (ret, s')"
  shows "list_all (\<lambda>x. int_stats s' ! stat_index x = int_stats s ! stat_index x +
        of_nat (length (filter (\<lambda>r. bit (ints r AND vme_interrupts_enabled s) (source_bit x)) (handled_rounds (vme_interrupts_enabled s) rs)))) sources
    \<and> int_stats s' ! stat_index INT_SPURIOUS = int_stats s ! stat_index INT_SPURIOUS + (if ends_spurious (vme_interrupts_enabled s) rs then 1 else 0)
    \<and> ret = (if ends_spurious (vme_interrupts_enabled s) rs then IRQ_NONE else IRQ_HANDLED)"
  using interrupt_run_counts [OF assms] by (simp add: list_all_iff)

subsection \<open>Calls\<close>

text \<open>What the IRQ levels of \<open>is\<close> that are raised in \<open>m\<close> lead to: a call of the handler of the vector
  that the bus answers, where there is one.\<close>

definition irq_call :: "vme_irq list \<Rightarrow> (nat \<Rightarrow> u8) \<Rightarrow> u32 \<Rightarrow> nat \<Rightarrow> call list" where
  "irq_call tab va m i =
     (let virq = tab ! tsi148_iack8 va i
      in if bit m i then (case irq_handler virq of Some f \<Rightarrow> [Irq_call f (irq_arg virq)] | None \<Rightarrow> []) else [])"

definition handlers_of :: "vme_irq list \<Rightarrow> (nat option \<times> nat) list" where
  "handlers_of tab = map (\<lambda>v. (irq_handler v, irq_arg v)) tab"

lemma handlers_of_nth:
  assumes "handlers_of tab' = handlers_of tab" and "i < length tab"
  shows "irq_handler (tab' ! i) = irq_handler (tab ! i) \<and> irq_arg (tab' ! i) = irq_arg (tab ! i)"
proof -
  have "length tab' = length tab" using assms(1) by (metis handlers_of_def length_map)
  moreover have "handlers_of tab' ! i = handlers_of tab ! i" using assms(1) by simp
  ultimately show ?thesis using assms(2) by (simp add: handlers_of_def)
qed

lemma irq_call_cong: "handlers_of tab' = handlers_of tab \<Longrightarrow> length tab = 256 \<Longrightarrow> irq_call tab' va m i = irq_call tab va m i"
  using handlers_of_nth [of tab' tab "tsi148_iack8 va i"] tsi148_iack8_bound [of va i] by (simp add: irq_call_def Let_def split: option.split)

lemma serve_level_result:
  assumes "length (vme_irq_table s) = 256"
  shows "calls (if m AND push_bit i 1 \<noteq> 0 then serve_level va i s else s) = calls s @ irq_call (vme_irq_table s) va m i"
    "handlers_of (vme_irq_table (if m AND push_bit i 1 \<noteq> 0 then serve_level va i s else s)) = handlers_of (vme_irq_table s)"
  using assms tsi148_iack8_bound [of va i]
  by (auto simp: serve_level_def irq_call_def Let_def and_exp_eq_0_iff_not_bit handlers_of_def map_update
      intro!: list_update_same_conv [THEN iffD2] split: option.splits)

lemma vme_loop_calls:
  assumes "length (vme_irq_table s) = 256"
  shows "calls (handle_vme_loop va m is s) = calls s @ concat (map (irq_call (vme_irq_table s) va m) is)
    \<and> handlers_of (vme_irq_table (handle_vme_loop va m is s)) = handlers_of (vme_irq_table s)"
  using assms
proof (induction "is" arbitrary: s)
  case (Cons i "is")
  let ?s = "if m AND push_bit i 1 \<noteq> 0 then serve_level va i s else s"
  note S = serve_level_result [OF Cons.prems, of m i va]
  have "length (vme_irq_table ?s) = 256" using S(2) Cons.prems by (metis handlers_of_def length_map)
  from Cons.IH [OF this] S irq_call_cong [OF S(2) Cons.prems] show ?case
    by (simp del: push_bit_of_1)
qed simp

lemma round_calls:
  assumes "length (vme_irq_table s) = VME_NUM_VECTORS"
  shows "calls (handle_sources va m s) = calls s
    @ (if bit m 24 then [Wake_up 0] else []) @ (if bit m 25 then [Wake_up 1] else [])
    @ (let e = fst (tsi148_handle_vme_error (regs s))
       in if bit m 12 then map (\<lambda>h. Berr_call (bh_func h) e) (filter (vme_berr_match e) (h_list s)) else [])
    @ concat (map (irq_call (vme_irq_table s) va m) [7, 6, 5, 4, 3, 2, 1])
    \<and> handlers_of (vme_irq_table (handle_sources va m s)) = handlers_of (vme_irq_table s)"
proof -
  have irq: "irq_call tab va (m AND 0xfe) i = irq_call tab va m i" if "i \<in> {1, 2, 3, 4, 5, 6, 7}" for tab i
  proof -
    have "bit (m AND 0xfe) i = bit m i" using that by (elim insertE emptyE) (simp_all only: irq_bits)
    then show ?thesis by (simp only: irq_call_def)
  qed
  define t where "t = handle_lm_interrupt (drop_bit 20 (m AND 0xf00000)) (handle_mbox_interrupt (drop_bit 16 (m AND 0xf0000))
    ((if bit m 12 then handle_vme_error else (\<lambda>s. s)) ((if bit m 13 then handle_pci_error else (\<lambda>s. s))
      (handle_dma_interrupt (drop_bit 24 (m AND 0x3000000)) s))))"
  have tab: "vme_irq_table t = vme_irq_table s"
    unfolding t_def by (rule before_irqs [unfolded same_tables_def, THEN conjunct2, THEN conjunct1])
  have eq: "handle_sources va m s = handle_vme_loop va (m AND 0xfe) [7, 6, 5, 4, 3, 2, 1] t"
    unfolding handle_sources_eq handle_vme_interrupt_def t_def by (rule refl)
  have "length (vme_irq_table t) = 256" using assms unfolding tab VME_NUM_VECTORS_def .
  note V = vme_loop_calls [OF this, of va "m AND 0xfe" "[7, 6, 5, 4, 3, 2, 1]", folded eq, unfolded tab]
  have pci: "fst (tsi148_handle_vme_error (regs ((if b then handle_pci_error else (\<lambda>s. s)) s'))) = fst (tsi148_handle_vme_error (regs s'))" for b s'
    using pci_handler(4-6) [of b s'] by (simp add: tsi148_handle_vme_error_def)
  have hl: "h_list ((if b then handle_pci_error else (\<lambda>s. s)) (handle_dma_interrupt x s)) = h_list s" for b x
    using pci_handler(3) [of "handle_dma_interrupt x s" b] dma_handler(3) [of s x] by (simp add: same_tables_def)
  have "map (irq_call (vme_irq_table s) va (m AND 0xfe)) [7, 6, 5, 4, 3, 2, 1] = map (irq_call (vme_irq_table s) va m) [7, 6, 5, 4, 3, 2, 1]"
    by (rule map_cong [OF refl]) (rule irq, auto)
  note V' = V [unfolded this]
  have "calls t = calls s @ (if bit m 24 then [Wake_up 0] else []) @ (if bit m 25 then [Wake_up 1] else [])
    @ (let e = fst (tsi148_handle_vme_error (regs s))
       in if bit m 12 then map (\<lambda>h. Berr_call (bh_func h) e) (filter (vme_berr_match e) (h_list s)) else [])"
    unfolding t_def lm_handler(2) mbox_handler(2) berr_handler(2) pci_handler(2) dma_handler(2) pci hl dma_handler(4) field_bits Let_def
      append_assoc by (rule refl)
  with V' show ?thesis by (simp only: append_assoc)
qed

theorem interrupt_round_calls:
  assumes "length (vme_irq_table s) = VME_NUM_VECTORS"
  shows "calls (handle_sources va m s) = calls s
    @ (if bit m 24 then [Wake_up 0] else []) @ (if bit m 25 then [Wake_up 1] else [])
    @ (let e = fst (tsi148_handle_vme_error (regs s))
       in if bit m 12 then map (\<lambda>h. Berr_call (bh_func h) e) (filter (vme_berr_match e) (h_list s)) else [])
    @ concat (map (irq_call (vme_irq_table s) va m) [7, 6, 5, 4, 3, 2, 1])
    \<and> handlers_of (vme_irq_table (handle_sources va m s)) = handlers_of (vme_irq_table s)"
  by (rule round_calls [OF assms])

subsection \<open>The vector table as a map\<close>

text \<open>A table with at most one entry per index, and the map that it stands for. Each call has a context \<open>c\<close> that
  decides whether it gets to the table (\<open>goes\<close>); what a put installs is \<open>val h\<close>, which may be nothing.\<close>

datatype ('c, 'i, 'h) table_op = Put 'c 'i 'h | Del 'c 'i

fun table_run :: "('c \<Rightarrow> 'i \<Rightarrow> 'h \<Rightarrow> 's \<Rightarrow> rc \<times> 's) \<Rightarrow> ('c \<Rightarrow> 'i \<Rightarrow> 's \<Rightarrow> rc \<times> 's) \<Rightarrow> ('c, 'i, 'h) table_op list \<Rightarrow> 's \<Rightarrow> bool list \<times> 's" where
  "table_run put del [] s = ([], s)"
| "table_run put del (Put c i h # xs) s =
     (let (r, s) = put c i h s; (bs, s) = table_run put del xs s in ((r = OK) # bs, s))"
| "table_run put del (Del c i # xs) s =
     (let (r, s) = del c i s; (bs, s) = table_run put del xs s in ((r = OK) # bs, s))"

fun map_run :: "('c \<Rightarrow> 'i \<Rightarrow> bool) \<Rightarrow> ('h \<Rightarrow> 'v option) \<Rightarrow> ('c, 'i, 'h) table_op list \<Rightarrow> ('i \<rightharpoonup> 'v) \<Rightarrow> bool list \<times> ('i \<rightharpoonup> 'v)" where
  "map_run goes val [] m = ([], m)"
| "map_run goes val (Put c i h # xs) m =
     (let b = (goes c i \<and> m i = None); (bs, m) = map_run goes val xs (if b then m(i := val h) else m) in (b # bs, m))"
| "map_run goes val (Del c i # xs) m =
     (let b = (goes c i \<and> m i \<noteq> None); (bs, m) = map_run goes val xs (if b then m(i := None) else m) in (b # bs, m))"

locale exclusive_table =
  fixes put :: "'c \<Rightarrow> 'i \<Rightarrow> 'h \<Rightarrow> 's \<Rightarrow> rc \<times> 's"
    and del :: "'c \<Rightarrow> 'i \<Rightarrow> 's \<Rightarrow> rc \<times> 's"
    and look :: "'s \<Rightarrow> 'i \<rightharpoonup> 'v"
    and goes :: "'c \<Rightarrow> 'i \<Rightarrow> bool"
    and val :: "'h \<Rightarrow> 'v option"
    and inv :: "'s \<Rightarrow> bool"
  assumes put_law: "inv s \<Longrightarrow> put c i h s = (r, s') \<Longrightarrow>
      inv s' \<and> (r = OK \<longleftrightarrow> goes c i \<and> look s i = None) \<and> look s' = (if r = OK then (look s)(i := val h) else look s)"
    and del_law: "inv s \<Longrightarrow> del c i s = (r, s') \<Longrightarrow>
      inv s' \<and> (r = OK \<longleftrightarrow> goes c i \<and> look s i \<noteq> None) \<and> look s' = (if r = OK then (look s)(i := None) else look s)"
begin

lemma run_refines: "inv s \<Longrightarrow> table_run put del xs s = (bs, s') \<Longrightarrow> map_run goes val xs (look s) = (bs, look s') \<and> inv s'"
proof (induction xs arbitrary: s bs)
  case (Cons x xs)
  obtain r s1 where x: "(case x of Put c i h \<Rightarrow> put c i h s | Del c i \<Rightarrow> del c i s) = (r, s1)" by fastforce
  obtain bs1 where run: "table_run put del xs s1 = (bs1, s')" and bs: "bs = (r = OK) # bs1"
    using Cons.prems(2) x by (cases x) (auto split: prod.splits)
  show ?case
  proof (cases x)
    case (Put c i h)
    with put_law [OF Cons.prems(1), of c i h r s1] x have "inv s1" "r = OK \<longleftrightarrow> goes c i \<and> look s i = None"
      "look s1 = (if r = OK then (look s)(i := val h) else look s)" by auto
    with Cons.IH [OF this(1) run] Put bs show ?thesis by (simp add: Let_def)
  next
    case (Del c i)
    with del_law [OF Cons.prems(1), of c i r s1] x have "inv s1" "r = OK \<longleftrightarrow> goes c i \<and> look s i \<noteq> None"
      "look s1 = (if r = OK then (look s)(i := None) else look s)" by auto
    with Cons.IH [OF this(1) run] Del bs show ?thesis by (simp add: Let_def)
  qed
qed simp

lemma second_put_refused:
  "inv s \<Longrightarrow> put c i h s = (OK, s') \<Longrightarrow> val h = Some v \<Longrightarrow> put c' i h' s' = (r, s'') \<Longrightarrow> r \<noteq> OK \<and> look s'' i = Some v"
  using put_law [of s c i h OK s'] put_law [of s' c' i h' r s''] by auto

end

definition installed :: "istate \<Rightarrow> u32 \<rightharpoonup> nat \<times> nat" where
  "installed s vec = (if unat vec < VME_NUM_VECTORS
     then map_option (\<lambda>f. (f, irq_arg (vme_irq_table s ! unat vec))) (irq_handler (vme_irq_table s ! unat vec)) else None)"

definition table_ok :: "istate \<Rightarrow> bool" where
  "table_ok s \<longleftrightarrow> length (vme_irq_table s) = VME_NUM_VECTORS"

text \<open>A call comes with the outcome of its interruptible lock and, for a request, the name of the handler.\<close>

definition vec_request :: "errno option \<times> string option \<Rightarrow> u32 \<Rightarrow> nat \<times> nat \<Rightarrow> istate \<Rightarrow> rc \<times> istate" where
  "vec_request c vec h = vme_request_irq (fst c) vec (fst h) (snd h) (snd c)"

definition vec_release :: "errno option \<times> string option \<Rightarrow> u32 \<Rightarrow> istate \<Rightarrow> rc \<times> istate" where
  "vec_release c = vme_free_irq (fst c)"

definition vec_goes :: "errno option \<times> string option \<Rightarrow> u32 \<Rightarrow> bool" where
  "vec_goes c vec \<longleftrightarrow> fst c = None \<and> unat vec < VME_NUM_VECTORS"

definition vec_handler :: "nat \<times> nat \<Rightarrow> (nat \<times> nat) option" where
  "vec_handler h = (if fst h = 0 then None else Some h)"

interpretation vectors: exclusive_table vec_request vec_release installed vec_goes vec_handler table_ok
proof
  fix s c vec h r s' assume "table_ok s" and "vec_request c vec h s = (r, s')"
  then show "table_ok s' \<and> (r = OK \<longleftrightarrow> vec_goes c vec \<and> installed s vec = None)
    \<and> installed s' = (if r = OK then (installed s)(vec := vec_handler h) else installed s)"
    by (cases h) (auto simp: vec_request_def vec_goes_def vec_handler_def vme_request_irq_def Let_def table_ok_def installed_def
        fun_eq_iff nth_list_update word_unat_eq_iff [symmetric] split: if_splits option.splits)
next
  fix s c vec r s' assume "table_ok s" and "vec_release c vec s = (r, s')"
  then show "table_ok s' \<and> (r = OK \<longleftrightarrow> vec_goes c vec \<and> installed s vec \<noteq> None)
    \<and> installed s' = (if r = OK then (installed s)(vec := None) else installed s)"
    by (auto simp: vec_release_def vec_goes_def vme_free_irq_def Let_def table_ok_def installed_def
        fun_eq_iff nth_list_update word_unat_eq_iff [symmetric] split: if_splits option.splits)
qed

text \<open>C22: The vector table with vme_request_irq and vme_free_irq implements a map of at
most one owner per vector: every sequence of requests, with or without a name and with a handler
or NULL, and of releases, each of which may be interrupted at its lock, succeeds and fails as on
the map and leaves the same handlers installed. An interrupted call and a vector out of range fail
and change nothing; a request of a free vector with a NULL handler succeeds and leaves it
free.\<close>

theorem vector_table_refines_map:
  assumes "length (vme_irq_table s) = VME_NUM_VECTORS"
    and "table_run vec_request vec_release ops s = (bs, s')"
  shows "map_run vec_goes vec_handler ops (installed s) = (bs, installed s')"
  using vectors.run_refines [OF _ assms(2)] assms(1) by (simp add: table_ok_def)

text \<open>The handler that a vector leads to is the one that is installed for it.\<close>

lemma irq_call_installed:
  "irq_call (vme_irq_table s) va m i =
     (if bit m i then (case installed s (of_nat (tsi148_iack8 va i)) of Some (f, a) \<Rightarrow> [Irq_call f a] | None \<Rightarrow> []) else [])"
proof -
  have "unat (of_nat (tsi148_iack8 va i) :: u32) = tsi148_iack8 va i"
    using tsi148_iack8_bound [of va i] by (simp add: unsigned_of_nat take_bit_nat_eq_self)
  then show ?thesis
    using tsi148_iack8_bound [of va i] by (simp add: irq_call_def installed_def VME_NUM_VECTORS_def Let_def split: option.split)
qed

subsection \<open>Bus errors\<close>

text \<open>An error is kept until it is asked for, and reported once.\<close>

theorem bus_error_reported_once:
  "\<exists>s2. vme_bus_error_check_clear (fst (tsi148_handle_vme_error (regs s))) (handle_vme_error s) = (True, s2)
    \<and> vme_bus_error_check_clear (fst (tsi148_handle_vme_error (regs s))) s2 = (False, s2)
    \<and> list_all (\<lambda>e. e = fst (tsi148_handle_vme_error (regs s)) \<or> vme_bus_error_check_clear e (handle_vme_error s) = (False, handle_vme_error s)) es
    \<and> berr_address (fst (tsi148_handle_vme_error (regs s))) = reg_join (veau (regs s)) (veal (regs s))
    \<and> am_code (berr_am (fst (tsi148_handle_vme_error (regs s)))) = drop_bit 8 (veat (regs s) AND 0x3f00)"
proof -
  let ?e = "fst (tsi148_handle_vme_error (regs s))"
  have v: "verr_desc (handle_vme_error s) = \<lparr> berr_error = ?e, berr_valid = True \<rparr>"
    by (simp add: handle_vme_error_def dispatch_berr_eq split: prod.split)
  have "e = ?e" if "berr_am ?e = berr_am e" "berr_address ?e = berr_address e" for e
    using that by simp
  then have "list_all (\<lambda>e. e = ?e \<or> vme_bus_error_check_clear e (handle_vme_error s) = (False, handle_vme_error s)) es"
    using v by (auto simp: vme_bus_error_check_clear_def list_all_iff)
  with v show ?thesis
    by (simp add: vme_bus_error_check_clear_def tsi148_handle_vme_error_def am_code_am_of_code hw_consts)
qed

theorem berr_match_range:
  assumes "unat (berr_address (bh_error h)) + unat (bh_size h) < 0x10000000000000000"
  shows "vme_berr_match e h \<longleftrightarrow> berr_am e = berr_am (bh_error h)
    \<and> unat (berr_address e) \<in> {unat (berr_address (bh_error h)) ..< unat (berr_address (bh_error h)) + unat (bh_size h)}"
  using assms by (auto simp: vme_berr_match_def word_le_nat_alt word_less_nat_alt unat_add_u64_cases)

theorem berr_register_unregister:
  assumes "vme_register_berr_handler (Some p) err sz f s = (Inr q, s1)" and "\<forall>h \<in> set (h_list s). bh_addr h \<noteq> p"
  shows "vme_unregister_berr_handler q s1 = s
    \<and> calls (vme_dispatch_berr e s1) = calls (vme_dispatch_berr e s)
        @ (if vme_berr_match e \<lparr> bh_addr = p, bh_error = err, bh_size = sz, bh_func = f \<rparr> then [Berr_call f e] else [])"
proof -
  have "unlink_berr p (hs @ [h]) = hs" if "\<forall>h \<in> set hs. bh_addr h \<noteq> p" "bh_addr h = p" for hs h
    using that by (induction hs) auto
  with assms show ?thesis
    by (auto simp: vme_register_berr_handler_def vme_unregister_berr_handler_def dispatch_berr_eq split: if_splits)
qed

subsection \<open>Enabling and disabling\<close>

theorem disabled_source_not_served:
  assumes "length (int_stats s) = 20" and "vme_disable_interrupts impl m s = (ok, s1)" and "bit m (source_bit x)"
    and "x \<in> set sources" and "vme_bridge_interrupt rs s1 = (ret, s2)"
  shows "int_stats s2 ! stat_index x = int_stats s ! stat_index x"
proof -
  have s1: "int_stats s1 = int_stats s" "\<not> bit (vme_interrupts_enabled s1) (source_bit x)"
    using assms(2,3) by (auto simp: vme_disable_interrupts_def Let_def bit_simps split: prod.splits)
  have "int_stats s2 ! stat_index x = int_stats s1 ! stat_index x +
        of_nat (length (filter (\<lambda>r. bit (ints r AND vme_interrupts_enabled s1) (source_bit x)) (handled_rounds (vme_interrupts_enabled s1) rs)))"
    using interrupt_run_counts [OF _ assms(5)] assms(1,4) s1(1) by simp
  with s1 show ?thesis by (simp add: bit_simps)
qed

subsection \<open>Generating interrupts\<close>

lemma vector_byte:
  assumes "0 \<le> vector" "vector \<le> 255"
  shows "(word_of_int vector :: u32) AND 0xff = word_of_int vector" "(word_of_int vector :: u32) AND 0x700 = 0"
proof -
  have t: "take_bit 8 vector = vector" using assms by (simp add: take_bit_int_eq_self)
  then have b: "bit vector n \<Longrightarrow> n < 8" for n by (metis bit_take_bit_iff)
  have m: "(0xff :: u32) = mask 8" by (simp add: mask_eq_exp_minus_1)
  show byte: "(word_of_int vector :: u32) AND 0xff = word_of_int vector"
    unfolding m by (rule bit_eqI) (auto simp: bit_simps dest: b)
  have "(word_of_int vector :: u32) AND (0xff AND 0x700) = word_of_int vector AND 0x700"
    unfolding and.assoc [symmetric] byte ..
  then show "(word_of_int vector :: u32) AND 0x700 = 0" by simp
qed

theorem generate_interrupt_results:
  assumes "tsi148_generate_interrupt waits fin level vector c = Some (r, c')"
  shows "(r = Inl EINVAL \<longleftrightarrow> \<not> (1 \<le> level \<and> level \<le> 7 \<and> 0 \<le> vector \<and> vector \<le> 255))
    \<and> (r = Inl EINVAL \<longrightarrow> c' = c)
    \<and> (r = OK \<longrightarrow> fst fin AND TSI148_LCSR_VICR_IRQS = 0 \<and> vicr c' AND TSI148_LCSR_VICR_STID_M = word_of_int vector
         \<and> vicr c' AND TSI148_LCSR_VICR_IRQL_M = (vicr c AND TSI148_LCSR_VICR_IRQL_M) OR push_bit 8 (word_of_int level))
    \<and> (r = Inl ETIME \<longrightarrow> vicr c' AND (TSI148_LCSR_VICR_IRQL_M OR TSI148_LCSR_VICR_STID_M) = 0
         \<and> vicr c' AND TSI148_LCSR_VICR_IRQC \<noteq> 0)
    \<and> r \<in> {OK, Inl EINVAL, Inl ETIME}"
proof (cases "1 \<le> level \<and> level \<le> 7 \<and> 0 \<le> vector \<and> vector \<le> 255")
  case False
  with assms show ?thesis by (auto simp: tsi148_generate_interrupt_def split: if_splits)
next
  case True
  let ?v = "word_of_int vector :: u32" and ?l = "push_bit 8 (word_of_int level) :: u32"
  have v: "?v AND 0xff = ?v" "?v AND 0x700 = 0" using vector_byte True by auto
  have "level \<in> {1, 2, 3, 4, 5, 6, 7}" using True by auto
  then have l: "?l AND 0xff = 0" "?l AND 0x700 = ?l" by auto
  have old: "(vicr c AND NOT 0xff) AND 0xff = 0" "(vicr c AND NOT 0xff) AND 0x700 = vicr c AND 0x700"
    "x AND NOT 0x7ff AND 0x7ff = 0" "(0x8000 :: u32) AND 0x7ff = 0" for x :: u32
    using other_group [of "0xff" "0x700" "vicr c"] by (simp_all add: and.assoc)
  have new: "((vicr c AND NOT 0xff) OR (?l OR ?v)) AND 0xff = ?v"
    "((vicr c AND NOT 0xff) OR (?l OR ?v)) AND 0x700 = (vicr c AND 0x700) OR ?l"
    unfolding word_ao_dist old v l by simp_all
  have clr: "((snd fin AND NOT (0x700 OR 0xff)) OR 0x8000) AND (0x700 OR 0xff) = 0"
    "((snd fin AND NOT (0x700 OR 0xff)) OR 0x8000) AND 0x8000 \<noteq> (0 :: u32)"
    unfolding word_ao_dist by (simp_all add: old and.assoc)
  show ?thesis
    using assms True new clr unfolding tsi148_generate_interrupt_def hw_consts Let_def
    by (auto split: if_splits)
qed

subsection \<open>A driver with one client\<close>

definition sample_istate :: istate where
  "sample_istate = \<lparr> vme_irq_table = (replicate 256 vme_irq_zero)[0x42 := vme_irq_zero\<lparr>irq_handler := Some 7, irq_arg := 9\<rparr>],
     int_stats = replicate 20 0, vme_interrupts_enabled = 0x3ff30fe, regs = sample_chip,
     verr_desc = \<lparr> berr_error = \<lparr> berr_address = 0, berr_am = VME_A32_SUP_BLT \<rparr>, berr_valid = False \<rparr>, h_list = [], calls = [] \<rparr>"

definition sample_rounds :: "int_round list" where
  "sample_rounds = [\<lparr> ints = 0x1000004, latch = id, viack = (\<lambda>i. 0x42) \<rparr>, \<lparr> ints = 4, latch = id, viack = (\<lambda>i. 0x42) \<rparr>]"

lemma sample_lengths: "length (int_stats sample_istate) = 20" "length (vme_irq_table sample_istate) = VME_NUM_VECTORS"
  by (simp_all add: sample_istate_def VME_NUM_VECTORS_def)

lemma sample_enabled: "vme_interrupts_enabled sample_istate = 0x3ff30fe" "h_list sample_istate = []" "calls sample_istate = []"
  by (simp_all add: sample_istate_def)

lemma sample_counts: "i < 20 \<Longrightarrow> int_stats sample_istate ! i = 0"
  by (simp add: sample_istate_def)

theorem interrupts_accounted_witness:
  "\<exists>s'. vme_bridge_interrupt sample_rounds sample_istate = (IRQ_HANDLED, s')
     \<and> int_stats s' ! stat_index INT_DMA0 = 1 \<and> int_stats s' ! stat_index (INT_IRQ 2) = 2 \<and> int_stats s' ! stat_index INT_SPURIOUS = 0"
proof -
  obtain ret s' where r: "vme_bridge_interrupt sample_rounds sample_istate = (ret, s')" by fastforce
  note A = interrupts_accounted [OF sample_lengths(1) r, unfolded sample_enabled list_all_iff]
  have rounds: "handled_rounds 0x3ff30fe sample_rounds = sample_rounds" "\<not> ends_spurious 0x3ff30fe sample_rounds"
    by (simp_all add: handled_rounds_def ends_spurious_def sample_rounds_def)
  have "INT_DMA0 \<in> set sources" "INT_IRQ 2 \<in> set sources" by (simp_all add: sources_def)
  with A have "int_stats s' ! stat_index INT_DMA0 = of_nat (length (filter (\<lambda>r. bit (ints r AND 0x3ff30fe) 24) sample_rounds))"
    "int_stats s' ! stat_index (INT_IRQ 2) = of_nat (length (filter (\<lambda>r. bit (ints r AND 0x3ff30fe) 2) sample_rounds))"
    "int_stats s' ! stat_index INT_SPURIOUS = 0" "ret = IRQ_HANDLED"
    by (auto simp: sample_counts rounds)
  with r show ?thesis by (auto simp: sample_rounds_def)
qed

theorem interrupt_round_calls_witness:
  "calls (handle_sources (\<lambda>i. 0x42) 0x1000004 sample_istate) = [Wake_up 0, Irq_call 7 9]"
proof -
  have "tsi148_iack8 (\<lambda>i. 0x42) i = 0x42" for i by (simp add: tsi148_iack8_def)
  then have "irq_call (vme_irq_table sample_istate) (\<lambda>i. 0x42) 0x1000004 i = (if bit (0x1000004 :: u32) i then [Irq_call 7 9] else [])" for i
    by (simp add: irq_call_def sample_istate_def Let_def)
  with interrupt_round_calls [OF sample_lengths(2), of "\<lambda>i. 0x42" "0x1000004"] show ?thesis
    by (simp add: sample_enabled Let_def)
qed

theorem vector_table_refines_map_witness:
  "\<exists>bs s'. table_run vec_request vec_release
       [Put (None, None) 0x42 (1, 2), Del (Some EINTR, None) 0x42, Del (None, None) 0x42, Put (None, Some ''irq'') 0x42 (1, 2),
        Put (None, None) 0x100 (3, 4), Put (None, None) 0x43 (0, 5)] sample_istate = (bs, s')
     \<and> bs = [False, False, True, True, False, installed sample_istate 0x43 = None] \<and> installed s' 0x42 = Some (1, 2)"
proof -
  let ?ops = "[Put (None, None) 0x42 (1, 2), Del (Some EINTR, None) 0x42, Del (None, None) 0x42, Put (None, Some ''irq'') 0x42 (1, 2),
        Put (None, None) 0x100 (3, 4), Put (None, None) 0x43 (0, 5)]"
  obtain bs s' where r: "table_run vec_request vec_release ?ops sample_istate = (bs, s')" by fastforce
  have "installed sample_istate 0x42 = Some (7, 9)" by (simp add: installed_def sample_istate_def VME_NUM_VECTORS_def)
  with vector_table_refines_map [OF sample_lengths(2) r] have
    "bs = [False, False, True, True, False, installed sample_istate 0x43 = None]" "installed s' 0x42 = Some (1, 2)"
    by (auto simp: vec_goes_def vec_handler_def VME_NUM_VECTORS_def Let_def dest: fun_cong [of _ _ "0x42"] split: if_splits)
  with r show ?thesis by blast
qed

definition sample_berr :: vme_berr_handler where
  "sample_berr = \<lparr> bh_addr = 1, bh_error = \<lparr> berr_address = 0x1000, berr_am = VME_A24_USER_DATA_SCT \<rparr>, bh_size = 0x100, bh_func = 5 \<rparr>"

theorem berr_match_range_witness:
  "\<not> vme_berr_match \<lparr> berr_address = 0x1100, berr_am = VME_A24_USER_DATA_SCT \<rparr> sample_berr"
  using berr_match_range [of sample_berr "\<lparr> berr_address = 0x1100, berr_am = VME_A24_USER_DATA_SCT \<rparr>"] by (simp add: sample_berr_def)

theorem berr_register_unregister_witness:
  "\<exists>s1. vme_register_berr_handler (Some 1) (bh_error sample_berr) 0x100 5 sample_istate = (Inr 1, s1)
     \<and> vme_unregister_berr_handler 1 s1 = sample_istate"
proof -
  obtain s1 where r: "vme_register_berr_handler (Some 1) (bh_error sample_berr) 0x100 5 sample_istate = (Inr 1, s1)"
    by (simp add: vme_register_berr_handler_def)
  from berr_register_unregister [OF r, of "bh_error sample_berr"] r show ?thesis by (simp add: sample_enabled)
qed

theorem disabled_source_not_served_witness:
  "\<exists>ok s1 ret s2. vme_disable_interrupts id 4 sample_istate = (ok, s1) \<and> vme_bridge_interrupt sample_rounds s1 = (ret, s2)
     \<and> int_stats s2 ! stat_index (INT_IRQ 2) = 0"
proof -
  obtain ok s1 where d: "vme_disable_interrupts id 4 sample_istate = (ok, s1)" by fastforce
  obtain ret s2 where r: "vme_bridge_interrupt sample_rounds s1 = (ret, s2)" by fastforce
  from disabled_source_not_served [OF sample_lengths(1) d _ _ r, of "INT_IRQ 2"]
  have "int_stats s2 ! stat_index (INT_IRQ 2) = 0" by (simp add: sources_def sample_counts)
  with d r show ?thesis by blast
qed

theorem generate_interrupt_results_witness:
  "\<exists>c'. tsi148_generate_interrupt [(0x800, 1), (0, 1)] (0, 0) 3 0x42 sample_chip = Some (OK, c')
     \<and> vicr c' AND TSI148_LCSR_VICR_STID_M = 0x42"
proof -
  have "map_option fst (tsi148_generate_interrupt [(0x800, 1), (0, 1)] (0, 0) 3 0x42 sample_chip) = Some OK"
    by (simp add: tsi148_generate_interrupt_def Let_def hw_consts)
  then obtain c' where r: "tsi148_generate_interrupt [(0x800, 1), (0, 1)] (0, 0) 3 0x42 sample_chip = Some (OK, c')" by auto
  from generate_interrupt_results [OF r] r show ?thesis by simp
qed

end
