(* ===== verification/Vme_Bridge.thy ===== *)
theory Vme_Bridge
  imports Vme_Window Vme_Dma Vme_Irq
begin

text \<open>
  The driver as a whole: the window ioctls of \<open>src/vmebridge/driver/vme_window.c\<close>, the CES emulation of
  \<open>vme_cesif.c\<close>, and \<open>vme_bridge.c\<close>: dispatch by minor number, start-up and removal of the device, and
  the VME bus of stacked drivers.

  The components share one chip: \<open>tsi\<close> is its register file, which an operation of a component
  sees and changes through a view of that component's state. \<open>held\<close> are the kernel objects that
  the bridge itself owns.
\<close>

subsection \<open>State\<close>

datatype held_object =
    Pci_enabled | Bridge_struct | Region0 | Regs_map | Class | Chrdev | Dev_node nat | Procfs | Irq_line | Dma_pool

record bdev =
  tsi :: tsi148_lcsr
  win :: wstate
  irqs :: istate
  dmas :: dstate
  dma_ok :: bool
  crg_desc :: vme_mapping
  crg_base :: u64
  vme_irq_nr :: int
  slot :: int
  syscon :: bool
  held :: "held_object list"

definition win_view :: "bdev \<Rightarrow> wstate" where
  "win_view b = (win b)\<lparr>chip := tsi b\<rparr>"

definition put_win :: "wstate \<Rightarrow> bdev \<Rightarrow> bdev" where
  "put_win w b = b\<lparr>win := w, tsi := chip w\<rparr>"

definition irq_view :: "bdev \<Rightarrow> istate" where
  "irq_view b = (irqs b)\<lparr>regs := tsi b\<rparr>"

definition put_irq :: "istate \<Rightarrow> bdev \<Rightarrow> bdev" where
  "put_irq i b = b\<lparr>irqs := i, tsi := regs i\<rparr>"

definition dma_view :: "bdev \<Rightarrow> dstate" where
  "dma_view b = (dmas b)\<lparr>dchip := tsi b\<rparr>"

definition put_dma :: "dstate \<Rightarrow> bdev \<Rightarrow> bdev" where
  "put_dma d b = b\<lparr>dmas := d, tsi := dchip d\<rparr>"

subsection \<open>Window ioctls\<close>

datatype window_ioctl_cmd =
    VME_IOCTL_GET_WINDOW_ATTR vme_mapping
  | VME_IOCTL_CREATE_WINDOW vme_mapping
  | VME_IOCTL_DESTROY_WINDOW int
  | VME_IOCTL_FIND_MAPPING vme_mapping
  | VME_IOCTL_RELEASE_MAPPING vme_mapping
  | VME_IOCTL_GET_CREATE_ON_FIND_FAIL
  | VME_IOCTL_SET_CREATE_ON_FIND_FAIL u32
  | VME_IOCTL_GET_DESTROY_ON_REMOVE
  | VME_IOCTL_SET_DESTROY_ON_REMOVE u32
  | VME_IOCTL_GET_BUS_ERROR
  | VME_IOCTL_CHECK_CLEAR_BUS_ERROR vme_bus_error_desc
  | WINDOW_IOCTL_OTHER u32

text \<open>What is copied back to the user.\<close>

datatype user_out = No_out | Out_mapping vme_mapping | Out_uint u32 | Out_berr vme_bus_error_desc

definition copy_mapping :: "bool \<Rightarrow> rc \<times> vme_mapping \<times> wstate \<Rightarrow> bdev \<Rightarrow> rc \<times> user_out \<times> bdev" where
  "copy_mapping wr x b =
     (let (r, d, w) = x
      in case r of Inl e \<Rightarrow> (Inl e, No_out, put_win w b)
         | Inr _ \<Rightarrow> if wr then (OK, Out_mapping d, put_win w b) else (Inl EFAULT, No_out, put_win w b))"

definition put_user :: "bool \<Rightarrow> u32 \<Rightarrow> bdev \<Rightarrow> rc \<times> user_out \<times> bdev" where
  "put_user wr v b = (if wr then (OK, Out_uint v, b) else (Inl EFAULT, No_out, b))"

definition vme_destroy_window_ioctl :: "bool \<Rightarrow> int \<Rightarrow> bdev \<Rightarrow> rc \<times> user_out \<times> bdev" where
  "vme_destroy_window_ioctl rd n b =
     (if \<not> rd then (Inl EFAULT, No_out, b)
      else let (r, w) = vme_destroy_window n (win_view b) in (r, No_out, put_win w b))"

definition vme_bus_error_check_clear_ioctl ::
    "bool \<Rightarrow> bool \<Rightarrow> vme_bus_error_desc \<Rightarrow> bdev \<Rightarrow> rc \<times> user_out \<times> bdev" where
  "vme_bus_error_check_clear_ioctl rd wr d b =
     (if \<not> rd then (Inl EFAULT, No_out, b)
      else let (v, i) = vme_bus_error_check_clear (berr_error d) (irq_view b);
               d = d\<lparr>berr_valid := v\<rparr>;
               b = put_irq i b
           in if wr then (OK, Out_berr d, b) else (Inl EFAULT, No_out, b))"

text \<open>
  \<open>rd\<close> and \<open>wr\<close> say whether the user memory can be read and written. A \<open>get_user\<close> that faults sets
  its variable to 0, here one of the two module flags.
\<close>

definition vme_window_ioctl ::
    "kernel \<Rightarrow> bool \<Rightarrow> bool \<Rightarrow> filp \<Rightarrow> window_ioctl_cmd \<Rightarrow> bdev \<Rightarrow> rc \<times> user_out \<times> bdev" where
  "vme_window_ioctl k rd wr f cmd b =
     (case cmd of
        VME_IOCTL_GET_WINDOW_ATTR d \<Rightarrow>
          if \<not> rd then (Inl EFAULT, No_out, b) else copy_mapping wr (vme_get_window_attr d (win_view b)) b
      | VME_IOCTL_CREATE_WINDOW d \<Rightarrow>
          if \<not> rd then (Inl EFAULT, No_out, b) else copy_mapping wr (vme_create_window k d (win_view b)) b
      | VME_IOCTL_DESTROY_WINDOW n \<Rightarrow> vme_destroy_window_ioctl rd n b
      | VME_IOCTL_FIND_MAPPING d \<Rightarrow>
          if \<not> rd then (Inl EFAULT, No_out, b)
          else copy_mapping wr (vme_find_mapping_file k d (vme_create_on_find_fail (win b) \<noteq> 0) (Some f) (win_view b)) b
      | VME_IOCTL_RELEASE_MAPPING d \<Rightarrow>
          if \<not> rd then (Inl EFAULT, No_out, b)
          else (let (r, w) = vme_release_mapping_file d (vme_destroy_on_remove (win b) \<noteq> 0) (Some f) (win_view b)
                in (r, No_out, put_win w b))
      | VME_IOCTL_GET_CREATE_ON_FIND_FAIL \<Rightarrow> put_user wr (vme_create_on_find_fail (win b)) b
      | VME_IOCTL_SET_CREATE_ON_FIND_FAIL v \<Rightarrow>
          (if rd then OK else Inl EFAULT, No_out, b\<lparr>win := (win b)\<lparr>vme_create_on_find_fail := if rd then v else 0\<rparr>\<rparr>)
      | VME_IOCTL_GET_DESTROY_ON_REMOVE \<Rightarrow> put_user wr (vme_destroy_on_remove (win b)) b
      | VME_IOCTL_SET_DESTROY_ON_REMOVE v \<Rightarrow>
          (if rd then OK else Inl EFAULT, No_out, b\<lparr>win := (win b)\<lparr>vme_destroy_on_remove := if rd then v else 0\<rparr>\<rparr>)
      | VME_IOCTL_GET_BUS_ERROR \<Rightarrow>
          (let (v, i) = vme_bus_error_check True (irq_view b) in put_user wr (if v then 1 else 0) (put_irq i b))
      | VME_IOCTL_CHECK_CLEAR_BUS_ERROR d \<Rightarrow> vme_bus_error_check_clear_ioctl rd wr d b
      | WINDOW_IOCTL_OTHER _ \<Rightarrow> (Inl ENOIOCTLCMD, No_out, b))"

subsection \<open>CES emulation\<close>

definition data_width_of :: "u64 \<Rightarrow> vme_data_width option" where
  "data_width_of sz = (if sz = 2 then Some VME_D16 else if sz = 4 then Some VME_D32 else None)"

definition controller_desc :: "u64 \<Rightarrow> u64 \<Rightarrow> u64 \<Rightarrow> vme_data_width \<Rightarrow> bool \<Rightarrow> vme_mapping" where
  "controller_desc vmeaddr len a dw rdpref =
     (let d = vme_mapping_zero;
          d = (if rdpref then d\<lparr>read_prefetch_enabled := True, read_prefetch_size := VME_PREFETCH_2\<rparr> else d)
      in d\<lparr>data_width := dw, am := am_of_code (ucast a), bcast_select := 0, sizel := ucast len, sizeu := 0,
           vme_addrl := ucast vmeaddr, vme_addru := 0\<rparr>)"

text \<open>\<open>Inl\<close> stands for the result -1.\<close>

definition find_controller ::
    "kernel \<Rightarrow> u64 \<Rightarrow> u64 \<Rightarrow> u64 \<Rightarrow> u64 \<Rightarrow> bool \<Rightarrow> bdev \<Rightarrow> (unit + u64) \<times> bdev" where
  "find_controller k vmeaddr len a sz rdpref b =
     (let (ok, w) = kmalloc (win_view b); b = put_win w b
      in if \<not> ok then (Inl (), b)
      else case data_width_of sz of None \<Rightarrow> (Inl (), b)
      | Some dw \<Rightarrow>
          (let (r, d, w) = vme_find_mapping k (controller_desc vmeaddr len a dw rdpref) True (win_view b);
               b = put_win w b
           in case r of Inl _ \<Rightarrow> (Inl (), b) | Inr _ \<Rightarrow> (Inr (kernel_va d), b)))"

definition return_controller :: "u32 \<Rightarrow> u32 \<Rightarrow> bdev \<Rightarrow> bool \<times> bdev" where
  "return_controller logaddr len b =
     (case find_vme_mapping_from_addr logaddr (win_view b) of
        (None, w) \<Rightarrow> (False, put_win w b)
      | (Some d, w) \<Rightarrow>
          (let (r, w) = vme_release_mapping d True w in (r = OK, put_win w b)))"

definition vme_intset :: "errno option \<Rightarrow> int \<Rightarrow> nat \<Rightarrow> nat \<Rightarrow> bdev \<Rightarrow> rc \<times> bdev" where
  "vme_intset intr vec f a b =
     (let (r, i) = vme_request_irq intr (word_of_int vec) f a None (irq_view b) in (r, put_irq i b))"

definition vme_intclr :: "errno option \<Rightarrow> int \<Rightarrow> bdev \<Rightarrow> rc \<times> bdev" where
  "vme_intclr intr vec b = (let (r, i) = vme_free_irq intr (word_of_int vec) (irq_view b) in (r, put_irq i b))"

subsection \<open>File operations\<close>

definition VME_MINOR_MWINDOW :: nat where [hw_consts]: "VME_MINOR_MWINDOW = 0"
definition VME_MINOR_DMA :: nat where [hw_consts]: "VME_MINOR_DMA = 1"
definition VME_MINOR_CTL :: nat where [hw_consts]: "VME_MINOR_CTL = 3"
definition VME_MINOR_REGS :: nat where [hw_consts]: "VME_MINOR_REGS = 4"

text \<open>The entries of \<open>devlist\<close>: minor number, name, and whether \<open>DEV_RW\<close> is set.\<close>

definition devlist :: "(nat \<times> string \<times> bool) list" where
  "devlist = [(VME_MINOR_MWINDOW, ''vme_mwindow'', False), (VME_MINOR_DMA, ''vme_dma'', False),
     (VME_MINOR_CTL, ''vme_ctl'', False), (VME_MINOR_REGS, ''vme_regs'', True)]"

definition vme_open :: "nat \<Rightarrow> bdev \<Rightarrow> rc" where
  "vme_open minor b =
     (if minor = VME_MINOR_MWINDOW then OK
      else if minor = VME_MINOR_DMA then (if \<not> dma_ok b then Inl ENODEV else OK)
      else if minor = VME_MINOR_CTL \<or> minor = VME_MINOR_REGS then OK
      else Inl ENXIO)"

definition vme_release :: "nat \<Rightarrow> filp \<Rightarrow> bdev \<Rightarrow> rc \<times> bdev" where
  "vme_release minor f b =
     (if minor = VME_MINOR_MWINDOW then (let (r, w) = vme_window_release f (win_view b) in (r, put_win w b))
      else if minor = VME_MINOR_DMA \<or> minor = VME_MINOR_CTL \<or> minor = VME_MINOR_REGS then (OK, b)
      else (Inl ENXIO, b))"

text \<open>The index into \<open>devlist\<close> is the minor number; \<open>None\<close> is an access outside the array.\<close>

definition vme_read :: "nat \<Rightarrow> nat \<Rightarrow> (errno + nat) option" where
  "vme_read minor cnt =
     (if minor \<ge> length devlist then None
      else if \<not> snd (snd (devlist ! minor)) then Some (Inl ENODEV)
      else if minor = VME_MINOR_REGS then Some (Inr (vme_misc_read cnt))
      else Some (Inl ENXIO))"

definition vme_write :: "nat \<Rightarrow> nat \<Rightarrow> (errno + nat) option" where
  "vme_write minor cnt =
     (if minor \<ge> length devlist then None
      else if \<not> snd (snd (devlist ! minor)) then Some (Inl ENODEV)
      else if minor = VME_MINOR_REGS then Some (Inr (vme_misc_write cnt))
      else Some (Inl ENXIO))"

datatype ioctl_arg = Window_ioctl window_ioctl_cmd | Dma_ioctl dma_ioctl_cmd

datatype ioctl_out = Window_out user_out | Dma_out "vme_dma option"

text \<open>The command number and its argument are decoded by the device that the file is open on: a
  command that is not one of its own falls through to \<open>ENOIOCTLCMD\<close>.\<close>

definition vme_ioctl ::
    "kernel \<Rightarrow> dma_kernel \<Rightarrow> sem_wait \<Rightarrow> bool \<Rightarrow> bool \<Rightarrow> nat \<Rightarrow> filp \<Rightarrow> ioctl_arg \<Rightarrow> bdev \<Rightarrow> (rc \<times> ioctl_out \<times> bdev) option" where
  "vme_ioctl k dk w rd wr minor f arg b =
     (if minor = VME_MINOR_MWINDOW
      then (case arg of
              Window_ioctl cmd \<Rightarrow> (let (r, out, b) = vme_window_ioctl k rd wr f cmd b in Some (r, Window_out out, b))
            | Dma_ioctl cmd \<Rightarrow> Some (Inl ENOIOCTLCMD, Window_out No_out, b))
      else if minor = VME_MINOR_DMA
      then (case arg of
              Dma_ioctl cmd \<Rightarrow>
                map_option (\<lambda>(r, out, d). (r, Dma_out out, put_dma d b)) (vme_dma_ioctl dk w rd wr cmd (dma_view b))
            | Window_ioctl cmd \<Rightarrow> Some (Inl ENOIOCTLCMD, Dma_out None, b))
      else Some (Inl ENXIO, Window_out No_out, b))"

definition vme_mmap :: "kernel \<Rightarrow> nat \<Rightarrow> filp \<Rightarrow> vm_area_struct \<Rightarrow> bdev \<Rightarrow> rc \<times> vm_area_struct \<times> bdev" where
  "vme_mmap k minor f vma b =
     (if minor = VME_MINOR_MWINDOW
      then (let (r, vma, w) = vme_window_mmap k f vma (win_view b) in (r, vma, put_win w b))
      else (Inl ENXIO, vma, b))"

subsection \<open>Start-up\<close>

text \<open>A resource of the parent bus, with the flags that are compared.\<close>

record pci_res =
  res_start :: u64
  res_end :: u64
  res_io :: bool
  res_memory :: bool
  res_prefetch :: bool

text \<open>The kernel and the device at start-up: results of the PCI, class, character device and
  interrupt services, the identification words read through the two mappings, and which interrupt
  enable bits the chip implements.\<close>

record pci_env =
  pci_enable_device :: rc
  bridge_kzalloc :: bool
  pdev_irq :: int
  bus_resources :: "pci_res option list"
  pci_request_region :: rc
  pci_iomap :: bool
  regs_id :: u32
  pci_set_dma_mask :: bool
  dma_pool_create :: bool
  class_create :: rc
  register_chrdev :: bool
  crg_id :: "u64 \<Rightarrow> u32"
  request_irq :: rc
  int_bits :: "u32 \<Rightarrow> u32"

definition hold :: "held_object \<Rightarrow> bdev \<Rightarrow> bdev" where
  "hold x b = b\<lparr>held := x # held b\<rparr>"

definition drop_object :: "held_object \<Rightarrow> bdev \<Rightarrow> bdev" where
  "drop_object x b = b\<lparr>held := remove1 x (held b)\<rparr>"

definition vme_bridge_create_devices :: "pci_env \<Rightarrow> bdev \<Rightarrow> rc \<times> bdev" where
  "vme_bridge_create_devices e b =
     (case class_create e of Inl r \<Rightarrow> (Inl r, b)
      | Inr _ \<Rightarrow>
          (let b = hold Class b
           in if \<not> register_chrdev e then (Inl ENODEV, drop_object Class b)
              else (OK, fold (\<lambda>(minor, nm, rw). hold (Dev_node minor)) devlist (hold Chrdev b))))"

definition vme_bridge_remove_devices :: "bdev \<Rightarrow> bdev" where
  "vme_bridge_remove_devices b =
     drop_object Class (fold (\<lambda>(minor, nm, rw). drop_object (Dev_node minor)) devlist (drop_object Chrdev b))"

definition bad_id :: "u32 \<Rightarrow> bool" where
  "bad_id tmp \<longleftrightarrow> tmp AND 0xffff \<noteq> PCI_VENDOR_ID_TUNDRA \<and> drop_bit 16 tmp AND 0xffff \<noteq> PCI_DEVICE_ID_TUNDRA_TSI148"

definition vme_bridge_map_regs :: "pci_env \<Rightarrow> bdev \<Rightarrow> rc \<times> bdev" where
  "vme_bridge_map_regs e b =
     (case pci_request_region e of Inl r \<Rightarrow> (Inl r, b)
      | Inr _ \<Rightarrow>
          (let b = hold Region0 b
           in if \<not> pci_iomap e then (Inl ENOMEM, b)
              else let b = hold Regs_map b
                   in if bad_id (regs_id e) then (Inl ENODEV, drop_object Regs_map b) else (OK, b)))"

definition a24d32_request :: vme_mapping where
  "a24d32_request = vme_mapping_zero\<lparr>window_num := 7, am := VME_A24_USER_DATA_SCT, data_width := VME_D32, sizel := 0x1000000\<rparr>"

definition crg_request :: vme_mapping where
  "crg_request = vme_mapping_zero\<lparr>am := VME_A24_USER_DATA_SCT, data_width := VME_D32, sizel := 0x1000, vme_addrl := 0xfff000\<rparr>"

definition out_destroy_window :: "bdev \<Rightarrow> bdev" where
  "out_destroy_window b = put_win (snd (vme_destroy_window (window_num (crg_desc b)) (win_view b))) b"

text \<open>The descriptor of the CRG mapping is a global variable, which is 0 when the module is loaded.\<close>

definition vme_bridge_map_crg :: "kernel \<Rightarrow> pci_env \<Rightarrow> bdev \<Rightarrow> rc \<times> bdev" where
  "vme_bridge_map_crg k e b =
     (let (r, d, w) = vme_create_window k a24d32_request (win_view b); b = put_win w b
      in case r of Inl x \<Rightarrow> (Inl x, b)
      | Inr _ \<Rightarrow>
     (let (r, d, w) = vme_find_mapping k crg_request False (win_view b); b = (put_win w b)\<lparr>crg_desc := d\<rparr>
      in case r of Inl x \<Rightarrow> (Inl x, b)
      | Inr _ \<Rightarrow>
     (let (ok, c) = tsi148_setup_crg 0xfff000 VME_A24_USER_DATA_SCT (tsi b); b = b\<lparr>tsi := c\<rparr>
      in if \<not> ok then (Inl EPERM, out_destroy_window b)
      else if bad_id (crg_id e (kernel_va d))
      then (Inl ENODEV, out_destroy_window (b\<lparr>tsi := tsi148_disable_crg (tsi b)\<rparr>))
      else (OK, b\<lparr>crg_base := kernel_va d\<rparr>))))"

definition vme_bridge_unmap_crg :: "bdev \<Rightarrow> bdev" where
  "vme_bridge_unmap_crg b =
     (let b = b\<lparr>tsi := tsi148_disable_crg (tsi b)\<rparr>
      in put_win (snd (vme_destroy_window (window_num (crg_desc b)) (win_view b))) b)"

definition bridge_intmask :: "bool \<Rightarrow> u32" where
  "bridge_intmask sc = (let m = 0x3ff3000 in if sc then m OR 0xfe else m)"

definition vme_bridge_init_interrupts :: "pci_env \<Rightarrow> bdev \<Rightarrow> rc \<times> bdev" where
  "vme_bridge_init_interrupts e b =
     (case request_irq e of Inl r \<Rightarrow> (Inl r, b)
      | Inr _ \<Rightarrow>
          (let b = hold Irq_line b;
               (ok, i) = vme_enable_interrupts (int_bits e) (bridge_intmask (syscon b)) (irq_view b);
               b = put_irq i b
           in if \<not> ok then (Inl ENODEV, drop_object Irq_line b) else (OK, b)))"

fun find_parent_loop :: "pci_res \<Rightarrow> pci_res option list \<Rightarrow> pci_res option \<Rightarrow> pci_res option" where
  "find_parent_loop res [] best = best"
| "find_parent_loop res (None # rs) best = find_parent_loop res rs best"
| "find_parent_loop res (Some r # rs) best =
     (if res_start res \<noteq> 0 \<and> \<not> (res_start res \<ge> res_start r \<and> res_end res \<le> res_end r) then find_parent_loop res rs best
      else if res_io res \<noteq> res_io r \<or> res_memory res \<noteq> res_memory r then find_parent_loop res rs best
      else if res_prefetch res = res_prefetch r then Some r
      else if res_prefetch r then find_parent_loop res rs best
      else find_parent_loop res rs (case best of None \<Rightarrow> Some r | Some _ \<Rightarrow> best))"

definition pci_find_parent_resource_local :: "pci_res option list \<Rightarrow> pci_res \<Rightarrow> pci_res option" where
  "pci_find_parent_resource_local rs res = find_parent_loop res rs None"

definition out_err :: "bdev \<Rightarrow> bdev" where
  "out_err b = drop_object Pci_enabled b"

definition out_free :: "bdev \<Rightarrow> bdev" where
  "out_free b = out_err (drop_object Bridge_struct b)"

definition out_unmap_regs :: "bdev \<Rightarrow> bdev" where
  "out_unmap_regs b = out_free (drop_object Region0 (drop_object Regs_map b))"

definition out_remove_devices :: "bdev \<Rightarrow> bdev" where
  "out_remove_devices b = out_unmap_regs (vme_bridge_remove_devices b)"

definition out_unmap_crg :: "bdev \<Rightarrow> bdev" where
  "out_unmap_crg b = out_remove_devices (vme_bridge_unmap_crg b)"

text \<open>The second half of \<open>vme_bridge_init\<close>, from the mapped registers on.\<close>

definition bridge_init_hw :: "kernel \<Rightarrow> pci_env \<Rightarrow> bdev \<Rightarrow> rc \<times> bdev" where
  "bridge_init_hw k e b =
     (let b = b\<lparr>dma_ok := pci_set_dma_mask e\<rparr>;
          b = (if slot b = -1 then b\<lparr>slot := uint (tsi148_get_slotnum (tsi b))\<rparr> else b);
          b = b\<lparr>syscon := tsi148_get_syscon (tsi b), tsi := tsi148_quiesce (tsi b)\<rparr>;
          b = put_win (vme_window_init (win_view b)) b;
          b = (if dma_ok b
               then let (r, d) = vme_dma_init (dma_pool_create e) (dma_view b); b = put_dma d b
                    in if r = OK then hold Dma_pool b else b\<lparr>dma_ok := False\<rparr>
               else b);
          b = b\<lparr>tsi := tsi148_init (tsi b)\<rparr>
      in case vme_bridge_create_devices e b of
           (Inl r, b) \<Rightarrow> (Inl r, out_unmap_regs b)
         | (Inr _, b) \<Rightarrow>
     (case vme_bridge_map_crg k e (hold Procfs b) of
           (Inl r, b) \<Rightarrow> (Inl r, out_remove_devices b)
         | (Inr _, b) \<Rightarrow>
     (case vme_bridge_init_interrupts e b of
           (Inl r, b) \<Rightarrow> (Inl r, out_unmap_crg b)
         | (Inr _, b) \<Rightarrow> (OK, b))))"

definition vme_bridge_init :: "kernel \<Rightarrow> pci_env \<Rightarrow> bdev \<Rightarrow> rc \<times> bdev" where
  "vme_bridge_init k e b =
     (case pci_enable_device e of Inl r \<Rightarrow> (Inl r, b)
      | Inr _ \<Rightarrow>
          (let b = hold Pci_enabled b
           in if \<not> bridge_kzalloc e then (Inl ENOMEM, out_err b)
           else let b = hold Bridge_struct b;
                    b = b\<lparr>irqs := (irqs b)\<lparr>verr_desc := (verr_desc (irqs b))\<lparr>berr_valid := False\<rparr>, h_list := []\<rparr>\<rparr>;
                    b = (if vme_irq_nr b = 0
                         then b\<lparr>vme_irq_nr := if pdev_irq e = 0 then 0x50 else pdev_irq e\<rparr> else b)
           in if vme_irq_nr b = 0 \<or> vme_irq_nr b = 0xff then (Inl ENODEV, out_free b)
           else case pci_find_parent_resource_local (bus_resources e)
                  \<lparr> res_start = 0, res_end = 0, res_io = False, res_memory = True, res_prefetch = False \<rparr> of
                None \<Rightarrow> (Inl ENODEV, out_err b)
              | Some p \<Rightarrow>
                  if res_end p - res_start p < 0x2000000 then (Inl ENOMEM, out_err b)
                  else (case vme_bridge_map_regs e b of
                          (Inl r, b) \<Rightarrow> (Inl r, out_err b)
                        | (Inr _, b) \<Rightarrow> bridge_init_hw k e b)))"

definition vme_bridge_remove :: "bdev \<Rightarrow> bdev option" where
  "vme_bridge_remove b =
     (let b = b\<lparr>tsi := tsi148_quiesce (tsi b)\<rparr>;
          b = drop_object Irq_line b;
          b = vme_bridge_unmap_crg b;
          b = put_win (vme_window_exit (win_view b)) b
      in map_option (\<lambda>b.
           let b = drop_object Region0 (drop_object Regs_map b);
               b = drop_object Procfs (drop_object Pci_enabled b);
               b = vme_bridge_remove_devices b;
               b = drop_object Class b
           in drop_object Bridge_struct b)
         (if dma_ok b then map_option (\<lambda>d. drop_object Dma_pool (put_dma d b)) (vme_dma_exit (dma_view b)) else Some b))"

subsection \<open>The bus of stacked drivers\<close>

text \<open>
  One driver on the VME bus: \<open>on_bus\<close> are the numbers of its devices that are registered with the
  driver core, \<open>vme_devs\<close> those whose structures are allocated, \<open>drv_devices\<close> the driver's own chain.
  The environment gives the results of the registrations and allocations and the driver's \<open>match\<close>
  method, if it has one.
\<close>

record vme_driver =
  drv_registered :: bool
  drv_devices :: "nat list"
  on_bus :: "nat list"
  vme_devs :: "nat list"

record driver_env =
  driver_register :: rc
  dev_kzalloc :: "nat \<Rightarrow> bool"
  device_register :: "nat \<Rightarrow> rc"
  match_method :: "(nat \<Rightarrow> bool) option"

text \<open>\<open>vme_bus_match\<close> as the driver core calls it for a device of this driver: the result is also
  whether \<open>platform_data\<close> is still set afterwards.\<close>

definition vme_bus_match :: "driver_env \<Rightarrow> nat \<Rightarrow> bool" where
  "vme_bus_match e i = (case match_method e of None \<Rightarrow> True | Some f \<Rightarrow> f i)"

definition device_unregister :: "nat \<Rightarrow> vme_driver \<Rightarrow> vme_driver" where
  "device_unregister i d = d\<lparr>on_bus := remove1 i (on_bus d), vme_devs := remove1 i (vme_devs d)\<rparr>"

definition vme_unregister_driver :: "vme_driver \<Rightarrow> vme_driver" where
  "vme_unregister_driver d = (fold device_unregister (drv_devices d) d)\<lparr>drv_registered := False\<rparr>"

fun register_loop :: "driver_env \<Rightarrow> nat list \<Rightarrow> vme_driver \<Rightarrow> rc \<times> vme_driver" where
  "register_loop e [] d = (OK, d)"
| "register_loop e (i # is) d =
     (if \<not> dev_kzalloc e i then (Inl ENOMEM, d)
      else let d = d\<lparr>vme_devs := i # vme_devs d\<rparr>
      in case device_register e i of
           Inl r \<Rightarrow> (Inl r, d\<lparr>vme_devs := remove1 i (vme_devs d)\<rparr>)
         | Inr _ \<Rightarrow>
             (let d = d\<lparr>on_bus := i # on_bus d\<rparr>
              in if vme_bus_match e i then register_loop e is (d\<lparr>drv_devices := i # drv_devices d\<rparr>)
                 else register_loop e is (device_unregister i d)))"

definition vme_register_driver :: "driver_env \<Rightarrow> nat \<Rightarrow> vme_driver \<Rightarrow> rc \<times> vme_driver" where
  "vme_register_driver e ndev d =
     (let d = d\<lparr>drv_devices := []\<rparr>
      in case driver_register e of Inl r \<Rightarrow> (Inl r, d)
      | Inr _ \<Rightarrow>
          (let (r, d) = register_loop e [0..<ndev] (d\<lparr>drv_registered := True\<rparr>);
               r = (if r = OK \<and> drv_devices d = [] then Inl ENODEV else r)
           in if r \<noteq> OK then (r, vme_unregister_driver d) else (OK, d)))"

text \<open>Module load and unload: the bus device, the bus type and the PCI driver, in this order.\<close>

definition vme_bridge_init_module :: "rc \<Rightarrow> rc \<Rightarrow> rc \<Rightarrow> rc \<times> bool \<times> bool \<times> bool" where
  "vme_bridge_init_module dev_rc bus_rc pci_rc =
     (case dev_rc of Inl r \<Rightarrow> (Inl r, False, False, False)
      | Inr _ \<Rightarrow>
     (case bus_rc of Inl r \<Rightarrow> (Inl r, False, False, False)
      | Inr _ \<Rightarrow>
     (case pci_rc of Inl r \<Rightarrow> (Inl r, False, False, False) | Inr _ \<Rightarrow> (OK, True, True, True))))"

end
