(* ===== verification/Vme_Bridge_Props.thy ===== *)
theory Vme_Bridge_Props
  imports Vme_Bridge Vme_Window_Spec Vme_Dma_Props Vme_Irq_Props
begin

text \<open>
  The driver as a whole: every file operation, interrupt and DMA request keeps the invariant of
  the windows, what start-up and removal leave behind, and the bus of stacked drivers.
\<close>

subsection \<open>Registration of stacked drivers\<close>

lemma fold_device_unregister:
  "fold device_unregister xs d = d\<lparr>on_bus := fold remove1 xs (on_bus d), vme_devs := fold remove1 xs (vme_devs d)\<rparr>"
  by (induction xs arbitrary: d) (simp_all add: device_unregister_def)

lemma register_loop_result:
  assumes "register_loop e is d = (r, d')"
  shows "\<exists>ms. drv_devices d' = ms @ drv_devices d \<and> on_bus d' = ms @ on_bus d \<and> vme_devs d' = ms @ vme_devs d
    \<and> drv_registered d' = drv_registered d \<and> (r = OK \<longrightarrow> ms = rev (filter (vme_bus_match e) is))"
  using assms
proof (induction "is" arbitrary: d)
  case (Cons i "is")
  show ?case
  proof (cases "dev_kzalloc e i \<and> device_register e i = OK")
    case False
    with Cons.prems show ?thesis by (auto simp: Let_def split: if_splits sum.splits)
  next
    case True
    show ?thesis
    proof (cases "vme_bus_match e i")
      case m: True
      with True Cons.prems have "register_loop e is (d\<lparr>vme_devs := i # vme_devs d, on_bus := i # on_bus d,
          drv_devices := i # drv_devices d\<rparr>) = (r, d')" by (simp add: Let_def)
      from Cons.IH [OF this] m show ?thesis by fastforce
    next
      case m: False
      with True Cons.prems have "register_loop e is d = (r, d')" by (simp add: Let_def device_unregister_def)
      from Cons.IH [OF this] m show ?thesis by simp
    qed
  qed
qed simp

text \<open>C37: Registering a stacked driver either succeeds, with exactly the matching devices
on the bus and chained to the driver, or leaves neither the driver nor any of its devices
registered or allocated.\<close>

theorem register_driver_all_or_nothing:
  assumes "vme_register_driver e ndev d = (r, d')" and "\<not> drv_registered d"
  shows "if r = OK
    then drv_registered d' \<and> drv_devices d' = rev (filter (vme_bus_match e) [0..<ndev]) \<and> drv_devices d' \<noteq> []
      \<and> on_bus d' = drv_devices d' @ on_bus d \<and> vme_devs d' = drv_devices d' @ vme_devs d
    else \<not> drv_registered d' \<and> on_bus d' = on_bus d \<and> vme_devs d' = vme_devs d"
proof (cases "driver_register e")
  case (Inl x)
  with assms show ?thesis by (auto simp: vme_register_driver_def Let_def)
next
  case (Inr u)
  obtain r1 d1 where l: "register_loop e [0..<ndev] (d\<lparr>drv_devices := [], drv_registered := True\<rparr>) = (r1, d1)" by fastforce
  from register_loop_result [OF l] obtain ms where "drv_devices d1 = ms" "on_bus d1 = ms @ on_bus d" "vme_devs d1 = ms @ vme_devs d"
    "drv_registered d1" "r1 = OK \<Longrightarrow> ms = rev (filter (vme_bus_match e) [0..<ndev])" by auto
  moreover have "vme_register_driver e ndev d = (if r1 = OK \<and> drv_devices d1 \<noteq> [] then (OK, d1)
      else (if r1 = OK then Inl ENODEV else r1, vme_unregister_driver d1))"
    using Inr l by (auto simp: vme_register_driver_def Let_def)
  ultimately show ?thesis
    using assms by (auto simp: vme_unregister_driver_def fold_device_unregister split: if_splits)
qed

definition sample_driver :: vme_driver where
  "sample_driver = \<lparr> drv_registered = False, drv_devices = [], on_bus = [], vme_devs = [] \<rparr>"

definition sample_driver_env :: driver_env where
  "sample_driver_env = \<lparr> driver_register = OK, dev_kzalloc = (\<lambda>i. True), device_register = (\<lambda>i. OK), match_method = Some even \<rparr>"

theorem register_driver_all_or_nothing_witness:
  "\<exists>d'. vme_register_driver sample_driver_env 3 sample_driver = (OK, d') \<and> drv_registered d' \<and> drv_devices d' = [2, 0]"
proof -
  obtain r d' where e: "vme_register_driver sample_driver_env 3 sample_driver = (r, d')" by fastforce
  moreover have "fst (vme_register_driver sample_driver_env 3 sample_driver) = OK" by code_simp
  ultimately have "r = OK" by simp
  with register_driver_all_or_nothing [OF e] e show ?thesis
    by (simp add: sample_driver_def sample_driver_env_def vme_bus_match_def upt_rec)
qed

subsection \<open>Dispatch by minor number\<close>

text \<open>The read and write methods index \<open>devlist\<close> with the minor number, which is not its index: no
  minor reaches the method of the registers device.\<close>

theorem no_minor_can_be_read: "vme_read minor n \<noteq> Some (Inr m) \<and> vme_write minor n \<noteq> Some (Inr m) \<and> vme_read VME_MINOR_REGS n = None"
  by (auto simp: vme_read_def vme_write_def devlist_def hw_consts)

subsection \<open>Views\<close>

lemma view_simps [simp]:
  "win_view (put_win w b) = w" "irq_view (put_irq i b) = i" "dma_view (put_dma d b) = d"
  "win_view (b\<lparr>tsi := c\<rparr>) = (win_view b)\<lparr>chip := c\<rparr>"
  "win_view (put_irq i b) = (win_view b)\<lparr>chip := regs i\<rparr>" "win_view (put_dma d b) = (win_view b)\<lparr>chip := dchip d\<rparr>"
  by (simp_all add: win_view_def put_win_def irq_view_def put_irq_def dma_view_def put_dma_def)

lemma view_chips [simp]: "regs (irq_view b) = tsi b" "dchip (dma_view b) = tsi b" "chip (win_view b) = tsi b"
  by (simp_all add: irq_view_def dma_view_def win_view_def)

lemma win_view_other [simp]: "(win_view b)\<lparr>chip := tsi b\<rparr> = win_view b" "win_view (b\<lparr>held := h\<rparr>) = win_view b"
  by (simp_all add: win_view_def)

subsection \<open>Operations on the rest of the chip keep the windows\<close>

definition same_windows :: "tsi148_lcsr \<Rightarrow> tsi148_lcsr \<Rightarrow> bool" where
  "same_windows c c' \<longleftrightarrow> otrans c' = otrans c \<and> itat c' = itat c \<and> length (dma c') = length (dma c)"

lemma same_windows_refl [simp]: "same_windows c c"
  by (simp add: same_windows_def)

lemma same_windows_trans: "same_windows c c' \<Longrightarrow> same_windows c' c'' \<Longrightarrow> same_windows c c''"
  by (simp add: same_windows_def)

lemma same_windows_upd_dma [simp]: "same_windows c (upd_dma n f c)"
  by (simp add: same_windows_def upd_dma_def)

lemma wins_inv_chip: "wins_inv s \<Longrightarrow> same_windows (chip s) c \<Longrightarrow> wins_inv (s\<lparr>chip := c\<rparr>)"
  by (simp add: wins_inv_def same_windows_def chip_wf_def)

lemma wins_inv_flags [simp]:
  "wins_inv (s\<lparr>vme_create_on_find_fail := v\<rparr>) = wins_inv s" "wins_inv (s\<lparr>vme_destroy_on_remove := v\<rparr>) = wins_inv s"
  by (simp_all add: wins_inv_def)

lemma dma_setup_windows:
  "tsi148_dma_setup pool chan c h = Some (r, chan', c', h') \<Longrightarrow> same_windows c c'"
  by (auto simp: tsi148_dma_setup_def tsi148_dma_setup_chain_def Let_def
      split: sum.splits prod.splits option.splits intro: same_windows_trans same_windows_upd_dma)

lemma upd_channel_chip [simp]: "dchip (upd_channel i f s) = dchip s" "dchip (sgl_unmap_user_pages sgs u s) = dchip s"
  by (simp_all add: upd_channel_def sgl_unmap_user_pages_def)

lemma vme_dma_setup_windows: "vme_dma_setup k i u s = Some (r, sgs, s') \<Longrightarrow> same_windows (dchip s) (dchip s')"
  by (auto simp: vme_dma_setup_def Let_def split: if_splits prod.splits sum.splits option.splits bool.splits dest!: dma_setup_windows)

text \<open>What the driver relies on: a transfer, or a latched error, leaves the window registers alone.\<close>

definition quiet_wait :: "dma_kernel \<Rightarrow> bool" where
  "quiet_wait k \<longleftrightarrow> (\<forall>i c. same_windows c (snd (wait_dma k i c)))"

definition quiet_rounds :: "int_round list \<Rightarrow> bool" where
  "quiet_rounds rs \<longleftrightarrow> (\<forall>r \<in> set rs. \<forall>c. same_windows c (latch r c))"

lemma run_and_clean_windows:
  assumes "quiet_wait k" and "dma_run_and_clean k i sgs u d s = (r, d', s')"
  shows "same_windows (dchip s) (dchip s')"
proof -
  obtain rc c where w: "wait_dma k i (tsi148_dma_start (channels s ! i) (dchip s)) = (rc, c)" by fastforce
  have "same_windows (dchip s) (tsi148_dma_start (channels s ! i) (dchip s))" by (simp add: tsi148_dma_start_def)
  moreover have "same_windows (tsi148_dma_start (channels s ! i) (dchip s)) c"
    using assms(1) w unfolding quiet_wait_def by (metis snd_conv)
  ultimately have c: "same_windows (dchip s) c" by (rule same_windows_trans)
  moreover have "same_windows c (tsi148_dma_abort (channels s ! i) c)" by (simp add: tsi148_dma_abort_def)
  ultimately have "same_windows (dchip s) (tsi148_dma_abort (channels s ! i) c)" by (rule same_windows_trans)
  with c assms(2) w show ?thesis
    by (auto simp: dma_run_and_clean_def Let_def split: prod.splits option.splits)
qed

lemma do_dma_windows:
  assumes q: "quiet_wait k" and run: "vme_do_dma_to k w d u s = Some (r, d', s')"
  shows "same_windows (dchip s) (dchip s')"
proof -
  have a: "vme_dma_channel_acquire w s = Some (x, s1) \<Longrightarrow> dchip s1 = dchip s" for x s1
    by (auto simp: vme_dma_channel_acquire_def Let_def split: if_splits prod.splits sem_wait.splits)
  have rel: "dchip (vme_dma_channel_release i t) = dchip t" for i t
    by (simp add: vme_dma_channel_release_def Let_def)
  from run show ?thesis
    by (auto simp: vme_do_dma_to_def Let_def rel split: if_splits option.splits sum.splits prod.splits
        dest!: a vme_dma_setup_windows run_and_clean_windows [OF q] intro: same_windows_trans)
qed

lemma sources_windows: "same_windows (regs s) (regs (handle_sources va m s))"
proof -
  have loop: "regs (handle_vme_loop va m is s) = regs s" for m "is" s
  proof (induction "is" arbitrary: s)
    case (Cons i "is")
    have "regs (serve_level va i s) = regs s" by (simp add: serve_level_def Let_def split: option.split)
    with Cons show ?case by simp
  qed simp
  have "same_windows (regs s) (regs (handle_pci_error s))" for s
    by (simp add: handle_pci_error_def tsi148_handle_pci_error_def same_windows_def)
  then have p: "same_windows (regs s) (regs ((if b then handle_pci_error else (\<lambda>s. s)) s))" for s b by simp
  have "same_windows (regs s) (regs (handle_vme_error s))" for s
    by (simp add: handle_vme_error_def tsi148_handle_vme_error_def dispatch_berr_eq same_windows_def Let_def)
  then have v: "same_windows (regs s) (regs ((if b then handle_vme_error else (\<lambda>s. s)) s))" for s b by simp
  have l: "regs (handle_lm_interrupt m s) = regs s" "regs (handle_mbox_interrupt m s) = regs s" for m s
    by (simp_all add: handle_lm_interrupt_def handle_mbox_interrupt_def)
  show ?thesis
    unfolding handle_sources_eq handle_vme_interrupt_def loop l
    by (rule same_windows_trans [OF _ v] same_windows_trans [OF _ p])+ (simp add: dma_handler(4))
qed

lemma interrupt_windows:
  assumes "quiet_rounds rs" and "vme_bridge_interrupt rs s = (ret, s')"
  shows "same_windows (regs s) (regs s')"
  using assms
proof (induction rs arbitrary: s)
  case (Cons r rs)
  define s1 where "s1 = s\<lparr>regs := tsi148_clear_int (ints r) (latch r (regs s))\<rparr>"
  have "same_windows (regs s) (latch r (regs s))" using Cons.prems(1) by (simp add: quiet_rounds_def)
  then have 1: "same_windows (regs s) (regs s1)" by (simp add: s1_def tsi148_clear_int_def same_windows_def)
  have q: "quiet_rounds rs" using Cons.prems(1) by (simp add: quiet_rounds_def)
  show ?case
  proof (cases "ints r = 0 \<or> ints r AND vme_interrupts_enabled s = 0")
    case True
    with Cons.prems(2) 1 show ?thesis by (auto simp: Let_def s1_def split: if_splits)
  next
    case False
    with Cons.prems(2) have "vme_bridge_interrupt rs (handle_sources (viack r) (ints r AND vme_interrupts_enabled s) s1) = (ret, s')"
      by (simp add: Let_def s1_def)
    from Cons.IH [OF q this] 1 sources_windows show ?thesis by (metis same_windows_trans)
  qed
qed simp

lemma interrupt_table:
  assumes "vme_bridge_interrupt rs s = (ret, s')" and "length (vme_irq_table s) = VME_NUM_VECTORS" and "length (int_stats s) = 20"
  shows "length (vme_irq_table s') = VME_NUM_VECTORS \<and> length (int_stats s') = 20"
  using assms
proof (induction rs arbitrary: s)
  case (Cons r rs)
  define s1 where "s1 = s\<lparr>regs := tsi148_clear_int (ints r) (latch r (regs s))\<rparr>"
  show ?case
  proof (cases "ints r = 0 \<or> ints r AND vme_interrupts_enabled s = 0")
    case True
    with Cons.prems show ?thesis by (auto simp: Let_def s1_def bump_nth(1) split: if_splits)
  next
    case False
    let ?s = "handle_sources (viack r) (ints r AND vme_interrupts_enabled s) s1"
    have run: "vme_bridge_interrupt rs ?s = (ret, s')" using False Cons.prems(1) by (simp add: Let_def s1_def)
    have "handlers_of (vme_irq_table ?s) = handlers_of (vme_irq_table s1)"
      using round_calls Cons.prems(2) by (simp add: s1_def)
    then have "length (handlers_of (vme_irq_table ?s)) = length (handlers_of (vme_irq_table s1))" by (rule arg_cong)
    then have "length (vme_irq_table ?s) = VME_NUM_VECTORS" using Cons.prems(2) by (simp add: handlers_of_def s1_def)
    moreover have "length (int_stats ?s) = 20" using round_counts(1) Cons.prems(3) by (simp add: s1_def)
    ultimately show ?thesis using Cons.IH [OF run] by simp
  qed
qed simp


subsection \<open>The driver as a state machine\<close>

text \<open>What the chip does to its own registers when it raises an interrupt: it latches the address
  and the attributes of a bus error.\<close>

definition latch_errors :: "u32 \<Rightarrow> u32 \<Rightarrow> u32 \<Rightarrow> u32 \<Rightarrow> tsi148_lcsr \<Rightarrow> tsi148_lcsr" where
  "latch_errors au al at ed c = c\<lparr>veau := au, veal := al, veat := at, edpat := ed\<rparr>"

definition round_of :: "u32 \<times> (u32 \<times> u32 \<times> u32 \<times> u32) \<times> (nat \<Rightarrow> u8) \<Rightarrow> int_round" where
  "round_of x = (case x of (is, (au, al, at, ed), va) \<Rightarrow> \<lparr> ints = is, latch = latch_errors au al at ed, viack = va \<rparr>)"

lemma quiet_round_of: "quiet_rounds (map round_of rs)"
  by (auto simp: quiet_rounds_def round_of_def latch_errors_def same_windows_def)

text \<open>Every way into the driver: the file operations of each minor, interrupts, the functions
  exported to other modules, and the kernel choosing the outcomes of its next calls.\<close>

datatype bop =
    Bop_ioctl sem_wait bool bool nat filp ioctl_arg
  | Bop_mmap nat filp vm_area_struct
  | Bop_release nat filp
  | Bop_interrupt "(u32 \<times> (u32 \<times> u32 \<times> u32 \<times> u32) \<times> (nat \<Rightarrow> u8)) list"
  | Bop_find_controller u64 u64 u64 u64 bool
  | Bop_return_controller u32 u32
  | Bop_intset "errno option" int nat nat
  | Bop_intclr "errno option" int
  | Bop_window wop
  | Bop_kernel_dma sem_wait vme_dma

text \<open>A call that does not return leaves the state as it was when it went to sleep.\<close>

fun bop_step :: "kernel \<Rightarrow> dma_kernel \<Rightarrow> bop \<Rightarrow> bdev \<Rightarrow> bdev" where
  "bop_step k dk (Bop_ioctl w rd wr minor f arg) b =
     (case vme_ioctl k dk w rd wr minor f arg b of None \<Rightarrow> b | Some (r, out, b) \<Rightarrow> b)"
| "bop_step k dk (Bop_mmap minor f vma) b = snd (snd (vme_mmap k minor f vma b))"
| "bop_step k dk (Bop_release minor f) b = snd (vme_release minor f b)"
| "bop_step k dk (Bop_interrupt rs) b = put_irq (snd (vme_bridge_interrupt (map round_of rs) (irq_view b))) b"
| "bop_step k dk (Bop_find_controller v l a sz p) b = snd (find_controller k v l a sz p b)"
| "bop_step k dk (Bop_return_controller a l) b = snd (return_controller a l b)"
| "bop_step k dk (Bop_intset i v f a) b = snd (vme_intset i v f a b)"
| "bop_step k dk (Bop_intclr i v) b = snd (vme_intclr i v b)"
| "bop_step k dk (Bop_window x) b = put_win (wop_step k x (win_view b)) b"
| "bop_step k dk (Bop_kernel_dma w d) b =
     (case vme_do_dma_kernel dk w d (dma_view b) of None \<Rightarrow> b | Some (r, d', s) \<Rightarrow> put_dma s b)"

definition irq_inv :: "istate \<Rightarrow> bool" where
  "irq_inv i \<longleftrightarrow> length (vme_irq_table i) = VME_NUM_VECTORS \<and> length (int_stats i) = 20"

definition bridge_inv :: "bdev \<Rightarrow> bool" where
  "bridge_inv b \<longleftrightarrow> wins_inv (win_view b) \<and> irq_inv (irqs b)"

lemma irq_inv_regs [simp]: "irq_inv (i\<lparr>regs := c\<rparr>) = irq_inv i" "irq_inv (irq_view b) = irq_inv (irqs b)"
  by (simp_all add: irq_inv_def irq_view_def)

lemma irqs_put [simp]: "irqs (put_win w b) = irqs b" "irqs (put_dma d b) = irqs b" "irqs (put_irq i b) = i"
  by (simp_all add: put_win_def put_dma_def put_irq_def)

lemma put_win_inv: "bridge_inv b \<Longrightarrow> wins_inv w \<Longrightarrow> bridge_inv (put_win w b)"
  by (simp add: bridge_inv_def)

lemma put_irq_inv:
  assumes "bridge_inv b" and "same_windows (tsi b) (regs i)" and "irq_inv i"
  shows "bridge_inv (put_irq i b)"
  using assms wins_inv_chip [of "win_view b" "regs i"] by (simp add: bridge_inv_def)

lemma put_dma_inv:
  assumes "bridge_inv b" and "same_windows (tsi b) (dchip d)"
  shows "bridge_inv (put_dma d b)"
  using assms wins_inv_chip [of "win_view b" "dchip d"] by (simp add: bridge_inv_def)

lemma window_inv_steps:
  assumes "wins_inv s"
  shows "wins_inv (snd (snd (vme_create_window k d s)))" "wins_inv (snd (vme_destroy_window n s))"
    "wins_inv (snd (snd (vme_find_mapping_file k d fc f s)))" "wins_inv (snd (vme_release_mapping_file d fc f s))"
    "wins_inv (snd (vme_window_release g s))" "wins_inv (snd (snd (vme_get_window_attr d s)))"
    "wins_inv (snd (find_vme_mapping_from_addr a s))" "wins_inv (snd (snd (vme_window_mmap k g vma s)))"
    "wins_inv (snd (kmalloc s))"
  using wop_step_inv [OF assms, of k "Create_Window d"] wop_step_inv [OF assms, of k "Destroy_Window n"]
    wop_step_inv [OF assms, of k "Find_Mapping d fc f"] wop_step_inv [OF assms, of k "Release_Mapping d fc f"]
    wop_step_inv [OF assms, of k "Close_File g"] wop_step_inv [OF assms, of k "Get_Window_Attr d"]
    wop_step_inv [OF assms, of k "From_Addr a"] wop_step_inv [OF assms, of k "Mmap g vma"]
    wop_step_inv [OF assms, of k "Outcomes (signals s) (tl (ooms s))"]
  by simp_all (subst kmalloc_cases, simp)

lemma copy_mapping_inv:
  assumes "bridge_inv b" and "wins_inv (snd (snd x))"
  shows "bridge_inv (snd (snd (copy_mapping wr x b)))"
  using assms by (cases x) (auto simp: copy_mapping_def put_win_inv split: sum.split)

lemma bus_error_ops:
  "same_windows (regs s) (regs (snd (vme_bus_error_check c s)))" "irq_inv (snd (vme_bus_error_check c s)) = irq_inv s"
  "regs (snd (vme_bus_error_check_clear e s)) = regs s" "irq_inv (snd (vme_bus_error_check_clear e s)) = irq_inv s"
  by (auto simp: vme_bus_error_check_def vme_bus_error_check_clear_def tsi148_bus_error_chk_def tsi148_clear_int_def same_windows_def
      irq_inv_def Let_def split: prod.splits)

lemma irq_request_ops:
  "regs (snd (vme_request_irq i v f a n s)) = regs s" "irq_inv s \<Longrightarrow> irq_inv (snd (vme_request_irq i v f a n s))"
  "regs (snd (vme_free_irq i v s)) = regs s" "irq_inv s \<Longrightarrow> irq_inv (snd (vme_free_irq i v s))"
  by (auto simp: vme_request_irq_def vme_free_irq_def irq_inv_def Let_def split: option.split)

lemma window_ioctl_inv:
  assumes inv: "bridge_inv b"
  shows "bridge_inv (snd (snd (vme_window_ioctl k rd wr f cmd b)))"
proof -
  have w: "wins_inv (win_view b)" and i: "irq_inv (irqs b)" using inv by (simp_all add: bridge_inv_def)
  have flags: "bridge_inv (b\<lparr>win := (win b)\<lparr>vme_create_on_find_fail := v\<rparr>\<rparr>)" "bridge_inv (b\<lparr>win := (win b)\<lparr>vme_destroy_on_remove := v\<rparr>\<rparr>)" for v
    using w i by (simp_all add: bridge_inv_def win_view_def wins_inv_def)
  have e: "bridge_inv (put_irq (snd (vme_bus_error_check c (irq_view b))) b)" for c
    using put_irq_inv [OF inv] bus_error_ops(1,2) [where c = c] i by (metis irq_inv_regs(2) view_chips(1))
  have e': "bridge_inv (put_irq (snd (vme_bus_error_check_clear d (irq_view b))) b)" for d
    using put_irq_inv [OF inv] bus_error_ops(3,4) i by (metis irq_inv_regs(2) view_chips(1) same_windows_refl)
  show ?thesis
    using inv e [of True] e' flags window_inv_steps [OF w]
    by (cases cmd) (auto simp: vme_window_ioctl_def vme_destroy_window_ioctl_def vme_bus_error_check_clear_ioctl_def put_user_def
        put_win_inv copy_mapping_inv Let_def case_prod_unfold)
qed

lemma dma_ioctl_windows:
  assumes "quiet_wait dk" and "vme_dma_ioctl dk w rd wr cmd s = Some (r, out, s')"
  shows "same_windows (dchip s) (dchip s')"
  using assms(2) by (cases cmd)
    (auto simp: vme_dma_ioctl_def vme_do_dma_def split: if_splits option.splits sum.splits dest!: do_dma_windows [OF assms(1)])

lemma interrupt_inv:
  assumes inv: "bridge_inv b"
  shows "bridge_inv (put_irq (snd (vme_bridge_interrupt (map round_of rs) (irq_view b))) b)"
proof -
  obtain ret i where e: "vme_bridge_interrupt (map round_of rs) (irq_view b) = (ret, i)" by fastforce
  have "irq_inv (irq_view b)" using inv by (simp add: bridge_inv_def)
  with interrupt_table [OF e] have "irq_inv i" by (simp add: irq_inv_def)
  with interrupt_windows [OF quiet_round_of e] inv e show ?thesis by (simp add: put_irq_inv)
qed

lemma controller_inv:
  assumes inv: "bridge_inv b"
  shows "bridge_inv (snd (find_controller k v l a sz p b))" and "bridge_inv (snd (return_controller la n b))"
proof -
  have w: "wins_inv (win_view b)" using inv by (simp add: bridge_inv_def)
  note 1 = window_inv_steps(9) [OF w]
  show "bridge_inv (snd (find_controller k v l a sz p b))"
    using window_inv_steps(3) [OF 1] 1 inv
    by (auto simp: find_controller_def vme_find_mapping_def put_win_inv Let_def case_prod_unfold split: option.split sum.split)
  note 2 = window_inv_steps(7) [OF w, of la]
  show "bridge_inv (snd (return_controller la n b))"
    using window_inv_steps(4) [OF 2] 2 inv
    by (cases "find_vme_mapping_from_addr la (win_view b)")
      (auto simp: return_controller_def vme_release_mapping_def put_win_inv Let_def case_prod_unfold split: option.split)
qed

lemma bop_step_inv:
  assumes q: "quiet_wait dk" and inv: "bridge_inv b"
  shows "bridge_inv (bop_step k dk x b)"
proof (cases x)
  case (Bop_ioctl w rd wr minor f arg)
  have "bridge_inv b'" if "vme_ioctl k dk w rd wr minor f arg b = Some (r, out, b')" for r out b'
    using that inv window_ioctl_inv [OF inv, of k rd wr f] dma_ioctl_windows [OF q, of w rd wr _ "dma_view b"]
    by (auto simp: vme_ioctl_def case_prod_unfold Let_def split: if_splits ioctl_arg.splits intro!: put_dma_inv)
  with Bop_ioctl inv show ?thesis by (auto split: option.split)
next
  case (Bop_kernel_dma w d)
  with inv put_dma_inv [OF inv] do_dma_windows [OF q, of w d False "dma_view b"] show ?thesis
    by (auto simp: vme_do_dma_kernel_def split: option.split)
next
  case (Bop_interrupt rs)
  with interrupt_inv [OF inv] show ?thesis by simp
next
  case (Bop_intset i v f a)
  with inv show ?thesis
    by (auto simp: vme_intset_def Let_def case_prod_unfold bridge_inv_def irq_request_ops intro!: put_irq_inv)
next
  case (Bop_intclr i v)
  with inv show ?thesis
    by (auto simp: vme_intclr_def Let_def case_prod_unfold bridge_inv_def irq_request_ops intro!: put_irq_inv)
next
  case (Bop_window y)
  with inv show ?thesis by (simp add: bridge_inv_def wop_step_inv)
next
  case (Bop_mmap minor f vma)
  with inv window_inv_steps(8) [of "win_view b"] show ?thesis
    by (auto simp: vme_mmap_def Let_def case_prod_unfold bridge_inv_def)
next
  case (Bop_release minor f)
  with inv window_inv_steps(5) [of "win_view b"] show ?thesis
    by (auto simp: vme_release_def Let_def case_prod_unfold bridge_inv_def)
qed (use controller_inv [OF inv] in simp_all)

lemma bridge_machine: "quiet_wait dk \<Longrightarrow> inv_machine (bop_step k dk) bridge_inv"
  by unfold_locales (rule bop_step_inv)

subsection \<open>Start-up\<close>

text \<open>The driver as the module loader leaves it: static storage, and a chip in any state.\<close>

definition bridge_loaded :: "bdev \<Rightarrow> bool" where
  "bridge_loaded b \<longleftrightarrow> chip_wf (tsi b) \<and> (\<exists>sg oo. win b = (wstate_boot (chip (win b)))\<lparr>signals := sg, ooms := oo\<rparr>)
     \<and> irq_inv (irqs b) \<and> held b = []"

lemma init_windows_inv:
  assumes "bridge_loaded b"
  shows "wins_inv (vme_window_init ((win_view b)\<lparr>chip := tsi148_quiesce (tsi b)\<rparr>))"
proof -
  from assms obtain sg oo where w: "win b = (wstate_boot (chip (win b)))\<lparr>signals := sg, ooms := oo\<rparr>" and c: "chip_wf (tsi b)"
    unfolding bridge_loaded_def by blast
  have "vme_window_init ((win_view b)\<lparr>chip := tsi148_quiesce (tsi b)\<rparr>)
      = (vme_window_init (wstate_boot (tsi148_quiesce (tsi b))))\<lparr>signals := sg, ooms := oo\<rparr>"
    unfolding win_view_def by (subst w) (simp add: vme_window_init_def wstate_boot_def)
  then show ?thesis using boot_inv [OF c] quiet_inv [OF quiet_refl(4)] by simp
qed

lemma crg_windows: "same_windows c (snd (tsi148_setup_crg a m c))" "same_windows c (tsi148_disable_crg c)" "same_windows c (tsi148_init c)"
  by (simp_all add: same_windows_def tsi148_setup_crg_def tsi148_disable_crg_def tsi148_init_def Let_def split: sum.split)

lemma tsi_inv: "bridge_inv b \<Longrightarrow> same_windows (tsi b) c \<Longrightarrow> bridge_inv (b\<lparr>tsi := c\<rparr>)"
  using wins_inv_chip [of "win_view b" c] by (simp add: bridge_inv_def)

lemma bridge_inv_other [simp]:
  "bridge_inv (b\<lparr>crg_desc := d\<rparr>) = bridge_inv b" "bridge_inv (b\<lparr>crg_base := v\<rparr>) = bridge_inv b" "bridge_inv (b\<lparr>held := h\<rparr>) = bridge_inv b"
  "bridge_inv (b\<lparr>dma_ok := x\<rparr>) = bridge_inv b" "bridge_inv (hold z b) = bridge_inv b" "bridge_inv (drop_object z b) = bridge_inv b"
  by (simp_all add: bridge_inv_def win_view_def hold_def drop_object_def)

text \<open>What the steps of start-up and removal change: the objects held by the bridge, or the rest.\<close>

definition same_base :: "bdev \<Rightarrow> bdev \<Rightarrow> bool" where
  "same_base b b' \<longleftrightarrow> held b' = held b \<and> dma_ok b' = dma_ok b"

lemma same_base_simps [simp]:
  "same_base b b" "same_base b (put_win w b') = same_base b b'" "same_base b (put_dma d b') = same_base b b'"
  "same_base b (put_irq i b') = same_base b b'" "same_base b (b'\<lparr>tsi := c\<rparr>) = same_base b b'"
  "same_base b (b'\<lparr>crg_desc := cd\<rparr>) = same_base b b'" "same_base b (b'\<lparr>crg_base := v\<rparr>) = same_base b b'"
  "same_base b (b'\<lparr>win := w\<rparr>) = same_base b b'"
  by (simp_all add: same_base_def put_win_def put_dma_def put_irq_def)

lemma destroy_crg_inv: "bridge_inv b \<Longrightarrow> bridge_inv (out_destroy_window b)"
  by (simp add: out_destroy_window_def bridge_inv_def window_inv_steps)

lemma map_crg_result:
  assumes inv: "bridge_inv b" and r: "vme_bridge_map_crg k e b = (r, b')"
  shows "bridge_inv b' \<and> same_base b b'"
proof -
  obtain r1 d1 w1 where 1: "vme_create_window k a24d32_request (win_view b) = (r1, d1, w1)" by (metis prod_cases3)
  have i1: "bridge_inv (put_win w1 b)"
    using window_inv_steps(1) [of "win_view b" k a24d32_request] inv 1 by (simp add: bridge_inv_def)
  obtain r2 d2 w2 where 2: "vme_find_mapping k crg_request False w1 = (r2, d2, w2)" by (metis prod_cases3)
  define b2 where "b2 = (put_win w2 (put_win w1 b))\<lparr>crg_desc := d2\<rparr>"
  have "wins_inv w2"
    using window_inv_steps(3) [of w1 k crg_request False None] i1 2 by (simp add: bridge_inv_def vme_find_mapping_def)
  then have i2: "bridge_inv b2" using i1 by (simp add: b2_def put_win_inv)
  obtain ok c where 3: "tsi148_setup_crg 0xfff000 VME_A24_USER_DATA_SCT (tsi b2) = (ok, c)" by fastforce
  then have i3: "bridge_inv (b2\<lparr>tsi := c\<rparr>)" using tsi_inv [OF i2] crg_windows(1) by (metis snd_conv)
  have i4: "bridge_inv (b2\<lparr>tsi := tsi148_disable_crg c\<rparr>)" using tsi_inv [OF i3 crg_windows(2)] by simp
  have sb: "same_base b b2" by (simp add: b2_def)
  have "(r, b') = (case r1 of Inl x \<Rightarrow> (Inl x, put_win w1 b) | Inr _ \<Rightarrow> (case r2 of Inl x \<Rightarrow> (Inl x, b2)
      | Inr _ \<Rightarrow> if \<not> ok then (Inl EPERM, out_destroy_window (b2\<lparr>tsi := c\<rparr>))
        else if bad_id (crg_id e (kernel_va d2)) then (Inl ENODEV, out_destroy_window (b2\<lparr>tsi := tsi148_disable_crg c\<rparr>))
        else (OK, b2\<lparr>tsi := c, crg_base := kernel_va d2\<rparr>)))"
    unfolding r [symmetric] vme_bridge_map_crg_def by (simp add: 1 2 3 b2_def [symmetric] Let_def split: sum.split)
  with i1 i2 i3 sb destroy_crg_inv [OF i3] destroy_crg_inv [OF i4] show ?thesis
    by (auto simp: out_destroy_window_def split: sum.splits if_splits)
qed

lemma init_interrupts_result:
  assumes inv: "bridge_inv b" and r: "vme_bridge_init_interrupts e b = (r, b')"
  shows "bridge_inv b' \<and> dma_ok b' = dma_ok b \<and> held b' = (if r = OK then Irq_line # held b else held b)"
proof -
  define b1 where "b1 = hold Irq_line b"
  define x where "x = vme_enable_interrupts (int_bits e) (bridge_intmask (syscon b1)) (irq_view b1)"
  have b1: "bridge_inv b1" "held b1 = Irq_line # held b" "dma_ok b1 = dma_ok b" using inv by (simp_all add: b1_def hold_def)
  have "same_windows (regs (irq_view b1)) (regs (snd x))" "irq_inv (snd x)"
    using b1(1) by (auto simp: x_def vme_enable_interrupts_def tsi148_set_interrupts_def same_windows_def bridge_inv_def irq_inv_def
        irq_view_def Let_def)
  then have "bridge_inv (put_irq (snd x) b1)" using put_irq_inv [OF b1(1)] by simp
  moreover have "held (put_irq (snd x) b1) = Irq_line # held b" "dma_ok (put_irq (snd x) b1) = dma_ok b"
    using b1(2,3) by (simp_all add: put_irq_def)
  moreover have "(r, b') = (case request_irq e of Inl r \<Rightarrow> (Inl r, b)
      | Inr _ \<Rightarrow> if \<not> fst x then (Inl ENODEV, drop_object Irq_line (put_irq (snd x) b1)) else (OK, put_irq (snd x) b1))"
    unfolding r [symmetric] vme_bridge_init_interrupts_def by (simp add: x_def b1_def Let_def case_prod_unfold split: sum.split)
  ultimately show ?thesis using inv by (auto simp: drop_object_def split: sum.splits if_splits)
qed

lemma create_devices_result:
  assumes "vme_bridge_create_devices e b = (r, b')"
  shows "b' = b\<lparr>held := if r = OK then map Dev_node [4, 3, 1, 0] @ [Chrdev, Class] @ held b else held b\<rparr>"
  using assms by (auto simp: vme_bridge_create_devices_def hold_def drop_object_def devlist_def hw_consts Let_def
      split: sum.splits if_splits)

text \<open>The state of \<open>bridge_init_hw\<close> before the devices are created.\<close>

definition hw_ready :: "pci_env \<Rightarrow> bdev \<Rightarrow> bdev" where
  "hw_ready e b =
     (let b = b\<lparr>dma_ok := pci_set_dma_mask e\<rparr>;
          b = (if slot b = -1 then b\<lparr>slot := uint (tsi148_get_slotnum (tsi b))\<rparr> else b);
          b = b\<lparr>syscon := tsi148_get_syscon (tsi b), tsi := tsi148_quiesce (tsi b)\<rparr>;
          b = put_win (vme_window_init (win_view b)) b;
          b = (if dma_ok b
               then let (r, d) = vme_dma_init (dma_pool_create e) (dma_view b); b = put_dma d b
                    in if r = OK then hold Dma_pool b else b\<lparr>dma_ok := False\<rparr>
               else b)
      in b\<lparr>tsi := tsi148_init (tsi b)\<rparr>)"

lemma bridge_init_hw_eq:
  "bridge_init_hw k e b =
     (case vme_bridge_create_devices e (hw_ready e b) of
           (Inl r, b) \<Rightarrow> (Inl r, out_unmap_regs b)
         | (Inr _, b) \<Rightarrow>
     (case vme_bridge_map_crg k e (hold Procfs b) of
           (Inl r, b) \<Rightarrow> (Inl r, out_remove_devices b)
         | (Inr _, b) \<Rightarrow>
     (case vme_bridge_init_interrupts e b of
           (Inl r, b) \<Rightarrow> (Inl r, out_unmap_crg b)
         | (Inr _, b) \<Rightarrow> (OK, b))))"
  unfolding bridge_init_hw_def hw_ready_def Let_def by (rule refl)

lemma hw_ready_result:
  assumes w: "wins_inv (vme_window_init ((win_view b)\<lparr>chip := tsi148_quiesce (tsi b)\<rparr>))" and i: "irq_inv (irqs b)"
  shows "bridge_inv (hw_ready e b) \<and> held (hw_ready e b) = (if dma_ok (hw_ready e b) then Dma_pool # held b else held b)"
proof -
  define b0 where "b0 = b\<lparr>dma_ok := pci_set_dma_mask e\<rparr>"
  define b0' where "b0' = (if slot b0 = -1 then b0\<lparr>slot := uint (tsi148_get_slotnum (tsi b0))\<rparr> else b0)"
  define b1 where "b1 = b0'\<lparr>syscon := tsi148_get_syscon (tsi b0'), tsi := tsi148_quiesce (tsi b0')\<rparr>"
  define b2 where "b2 = put_win (vme_window_init (win_view b1)) b1"
  define b3 where "b3 = (if dma_ok b2
               then let (r, d) = vme_dma_init (dma_pool_create e) (dma_view b2); b = put_dma d b2
                    in if r = OK then hold Dma_pool b else b\<lparr>dma_ok := False\<rparr>
               else b2)"
  have r: "hw_ready e b = b3\<lparr>tsi := tsi148_init (tsi b3)\<rparr>"
    unfolding hw_ready_def b3_def b2_def b1_def b0'_def b0_def Let_def by (rule refl)
  have "win_view b1 = (win_view b)\<lparr>chip := tsi148_quiesce (tsi b)\<rparr>" "irqs b1 = irqs b" by (simp_all add: b1_def b0'_def b0_def win_view_def)
  then have i2: "bridge_inv b2" using w i by (simp add: b2_def bridge_inv_def)
  have "same_windows (tsi b2) (dchip (snd (vme_dma_init x (dma_view b2))))" for x by (simp add: vme_dma_init_def Let_def)
  then have "bridge_inv b3" using i2 by (auto simp: b3_def Let_def case_prod_unfold intro: put_dma_inv)
  then have "bridge_inv (hw_ready e b)" using tsi_inv [OF _ crg_windows(3)] by (simp add: r)
  moreover have "held b2 = held b" by (simp add: b2_def b1_def b0'_def b0_def put_win_def)
  then have "held b3 = (if dma_ok b3 then Dma_pool # held b else held b)"
    by (auto simp: b3_def Let_def case_prod_unfold hold_def put_dma_def)
  ultimately show ?thesis by (simp add: r)
qed

lemmas unwind_defs = out_err_def out_free_def out_unmap_regs_def out_remove_devices_def vme_bridge_remove_devices_def
  drop_object_def devlist_def hw_consts

lemma unmap_crg_base [simp]: "held (vme_bridge_unmap_crg b) = held b" "dma_ok (vme_bridge_unmap_crg b) = dma_ok b"
  by (simp_all add: vme_bridge_unmap_crg_def put_win_def)

definition ready_objects :: "held_object list" where
  "ready_objects = [Procfs] @ map Dev_node [4, 3, 1, 0] @ [Chrdev, Class]"

lemma bridge_init_hw_result:
  assumes w: "wins_inv (vme_window_init ((win_view b)\<lparr>chip := tsi148_quiesce (tsi b)\<rparr>))" and i: "irq_inv (irqs b)"
    and r: "bridge_init_hw k e b = (r, b')" and h: "held b = [Regs_map, Region0, Bridge_struct, Pci_enabled]"
  shows "if r = OK then bridge_inv b' \<and> held b' = Irq_line # ready_objects @ (if dma_ok b' then Dma_pool # held b else held b)
    else set (held b') \<subseteq> {Procfs, Dma_pool}"
proof -
  define b1 where "b1 = hw_ready e b"
  have b1: "bridge_inv b1" "held b1 = (if dma_ok b1 then Dma_pool # held b else held b)"
    using hw_ready_result [OF w i, of e] by (simp_all add: b1_def)
  obtain r2 b2 where 2: "vme_bridge_create_devices e b1 = (r2, b2)" by fastforce
  obtain r3 b3 where 3: "vme_bridge_map_crg k e (hold Procfs b2) = (r3, b3)" by fastforce
  obtain r4 b4 where 4: "vme_bridge_init_interrupts e b3 = (r4, b4)" by fastforce
  note b2 = create_devices_result [OF 2]
  have "bridge_inv (hold Procfs b2)" using b1(1) by (simp add: b2)
  note b3 = map_crg_result [OF this 3] and b4 = init_interrupts_result [OF _ 4]
  have res: "(r, b') = (case r2 of Inl x \<Rightarrow> (Inl x, out_unmap_regs b2) | Inr _ \<Rightarrow> (case r3 of Inl x \<Rightarrow> (Inl x, out_remove_devices b3)
     | Inr _ \<Rightarrow> (case r4 of Inl x \<Rightarrow> (Inl x, out_unmap_crg b4) | Inr _ \<Rightarrow> (OK, b4))))"
    unfolding r [symmetric] bridge_init_hw_eq b1_def [symmetric] by (simp add: 2 3 4 split: sum.split)
  show ?thesis
    using res b1(2) b2 b3 b4 h
    by (auto simp: same_base_def hold_def unwind_defs out_unmap_crg_def ready_objects_def split: sum.splits if_splits)
qed

lemma window_init_fields:
  assumes "bridge_loaded b"
  shows "wins_inv (vme_window_init ((win_view (b\<lparr>irqs := i, vme_irq_nr := n, held := h\<rparr>))\<lparr>chip := tsi148_quiesce (tsi b)\<rparr>))"
  using init_windows_inv [OF assms] by (simp add: win_view_def)

text \<open>The state in which the registers are mapped, and \<open>vme_bridge_init\<close> in terms of it.\<close>

definition regs_mapped :: "pci_env \<Rightarrow> bdev \<Rightarrow> bdev" where
  "regs_mapped e b = b\<lparr>irqs := (irqs b)\<lparr>verr_desc := (verr_desc (irqs b))\<lparr>berr_valid := False\<rparr>, h_list := []\<rparr>,
      vme_irq_nr := if vme_irq_nr b = 0 then if pdev_irq e = 0 then 0x50 else pdev_irq e else vme_irq_nr b,
      held := [Regs_map, Region0, Bridge_struct, Pci_enabled]\<rparr>"

abbreviation parent_resource :: "pci_env \<Rightarrow> pci_res option" where
  "parent_resource e \<equiv> pci_find_parent_resource_local (bus_resources e)
       \<lparr> res_start = 0, res_end = 0, res_io = False, res_memory = True, res_prefetch = False \<rparr>"

lemma bridge_init_eq:
  assumes h: "held b = []"
  shows "vme_bridge_init k e b = (case pci_enable_device e of Inl x \<Rightarrow> (Inl x, b) | Inr _ \<Rightarrow>
      if \<not> bridge_kzalloc e then (Inl ENOMEM, b)
      else if vme_irq_nr (regs_mapped e b) = 0 \<or> vme_irq_nr (regs_mapped e b) = 0xff then (Inl ENODEV, (regs_mapped e b)\<lparr>held := []\<rparr>)
      else case parent_resource e of None \<Rightarrow> (Inl ENODEV, (regs_mapped e b)\<lparr>held := [Bridge_struct]\<rparr>)
      | Some p \<Rightarrow> if res_end p - res_start p < 0x2000000 then (Inl ENOMEM, (regs_mapped e b)\<lparr>held := [Bridge_struct]\<rparr>)
        else case pci_request_region e of Inl x \<Rightarrow> (Inl x, (regs_mapped e b)\<lparr>held := [Bridge_struct]\<rparr>)
        | Inr _ \<Rightarrow> if \<not> pci_iomap e \<or> bad_id (regs_id e)
          then (Inl (if pci_iomap e then ENODEV else ENOMEM), (regs_mapped e b)\<lparr>held := [Region0, Bridge_struct]\<rparr>)
          else bridge_init_hw k e (regs_mapped e b))"
proof -
  have "held (b\<lparr>held := []\<rparr>) = [] \<and> b\<lparr>held := []\<rparr> = b" using h by (cases b) simp
  then show ?thesis
    unfolding vme_bridge_init_def
    by (auto simp: hold_def drop_object_def out_err_def out_free_def vme_bridge_map_regs_def Let_def h regs_mapped_def
        split: sum.split option.split)
qed

lemma bridge_init_result:
  assumes ld: "bridge_loaded b" and r: "vme_bridge_init k e b = (r, b')"
  shows "if r = OK then bridge_inv b'
       \<and> held b' = Irq_line # ready_objects @ (if dma_ok b' then [Dma_pool] else []) @ [Regs_map, Region0, Bridge_struct, Pci_enabled]
    else set (held b') \<subseteq> {Bridge_struct, Region0, Procfs, Dma_pool}"
proof -
  let ?b = "regs_mapped e b"
  have h: "held b = []" and i: "irq_inv (irqs ?b)" using ld by (simp_all add: bridge_loaded_def regs_mapped_def irq_inv_def)
  have w: "wins_inv (vme_window_init ((win_view ?b)\<lparr>chip := tsi148_quiesce (tsi ?b)\<rparr>))"
    using window_init_fields [OF ld] by (simp add: regs_mapped_def)
  have h2: "held ?b = [Regs_map, Region0, Bridge_struct, Pci_enabled]" by (simp add: regs_mapped_def)
  obtain r3 b3 where 3: "bridge_init_hw k e ?b = (r3, b3)" by fastforce
  from bridge_init_hw_result [OF w i 3 h2] r h2 h show ?thesis
    unfolding bridge_init_eq [OF h] 3 by (auto split: sum.splits option.splits if_splits)
qed

subsection \<open>Removal\<close>

text \<open>
  Removal silences the chip before the windows are destroyed, so the banks of active windows are
  disabled already. The destruction does not look at the chip: it runs as on the untouched chip.
\<close>

definition but_chip :: "wstate \<Rightarrow> wstate \<Rightarrow> bool" where
  "but_chip s t \<longleftrightarrow> (\<exists>c. t = s\<lparr>chip := c\<rparr> \<and> enabled_windows c = {})"

lemma but_chipI: "enabled_windows c = {} \<Longrightarrow> but_chip s (s\<lparr>chip := c\<rparr>)"
  by (auto simp: but_chip_def)

lemma disabled_remove:
  "enabled_windows c = {} \<Longrightarrow> enabled_windows (snd (tsi148_remove_window d c)) = {}"
  "fst (tsi148_remove_window d c) = d\<lparr>window_enabled := False\<rparr>"
  by (cases "nat (window_num d) < length (otrans c)")
    (auto simp: tsi148_remove_window_def enabled_windows_def chip_ot_writes_def ot_writes_remove nth_list_update
      ot_enabled_def otrans_zero_def)

lemma destroy_but_chip:
  assumes "but_chip s t"
  shows "fst (vme_destroy_window n t) = fst (vme_destroy_window n s)"
    and "but_chip (snd (vme_destroy_window n s)) (snd (vme_destroy_window n t))"
proof -
  from assms obtain c where t: "t = s\<lparr>chip := c\<rparr>" and c: "enabled_windows c = {}" by (auto simp: but_chip_def)
  have lock: "mutex_lock_interruptible i (s\<lparr>chip := c\<rparr>) = (fst (mutex_lock_interruptible i s), (snd (mutex_lock_interruptible i s))\<lparr>chip := c\<rparr>)" for i
    by (auto simp: mutex_lock_interruptible_def upd_window_def Let_def split: list.split bool.split)
  have unlock: "mutex_unlock i (x\<lparr>chip := c'\<rparr>) = (mutex_unlock i x)\<lparr>chip := c'\<rparr>" for i x c'
    by (simp add: mutex_unlock_def upd_window_def)
  define c2 where "c2 i x = (if active (window_table x ! i)
      then snd (tsi148_remove_window ((desc (window_table x ! i))\<lparr>kernel_va := 0\<rparr>) c) else c)" for i and x :: wstate
  have c2: "enabled_windows (c2 i x) = {}" for i x using c disabled_remove(1) [OF c] by (simp add: c2_def)
  have body: "destroy_window_locked i (x\<lparr>chip := c\<rparr>) = (fst (destroy_window_locked i x), (snd (destroy_window_locked i x))\<lparr>chip := c2 i x\<rparr>)" for i x
    by (simp add: destroy_window_locked_def c2_def unlock Let_def case_prod_unfold disabled_remove(2) upd_window_def iounmap_def
        release_resource_def mutex_unlock_def)
  show "fst (vme_destroy_window n t) = fst (vme_destroy_window n s)"
    and "but_chip (snd (vme_destroy_window n s)) (snd (vme_destroy_window n t))"
    using c by (simp_all add: vme_destroy_window_def lock body Let_def case_prod_unfold t but_chipI c2)
qed

lemma exit_but_chip: "but_chip s t \<Longrightarrow> but_chip (vme_window_exit_loop is s) (vme_window_exit_loop is t)"
proof (induction "is" arbitrary: s t)
  case (Cons i "is")
  from Cons.prems have "active (window_table t ! i) = active (window_table s ! i)" by (auto simp: but_chip_def)
  with Cons.prems Cons.IH destroy_but_chip(2) show ?case by simp
qed simp

lemma quiesce_disables: "enabled_windows (tsi148_quiesce c) = {}"
  by (auto simp: enabled_windows_def tsi148_quiesce_def tsi148_disable_crg_def ot_enabled_def Let_def)

lemma same_windows_enabled: "same_windows c c' \<Longrightarrow> enabled_windows c' = enabled_windows c"
  by (simp add: same_windows_def enabled_windows_def)

lemma destroy_signals: "signals s = [] \<Longrightarrow> signals (snd (vme_destroy_window n s)) = []"
  by (simp add: vme_destroy_window_def mutex_lock_interruptible_def destroy_window_locked_def upd_window_def mutex_unlock_def
      iounmap_def release_resource_def Let_def case_prod_unfold)

lemma dma_exit_result:
  assumes "0 < dma_semaphore s"
  shows "\<exists>s'. vme_dma_exit s = Some s' \<and> same_windows (dchip s) (dchip s')"
proof -
  have wait: "0 < dma_semaphore s \<Longrightarrow> \<exists>s'. exit_wait n s = Some s' \<and> dchip s' = dchip s" for n and s :: dstate
    by (induction n arbitrary: s) (auto simp: Let_def)
  have "same_windows c (fold (\<lambda>i. tsi148_dma_abort (f i)) is c)" for f "is" c
  proof (induction "is" arbitrary: c)
    case (Cons i "is")
    have "same_windows c (tsi148_dma_abort (f i) c)" by (simp add: tsi148_dma_abort_def)
    from same_windows_trans [OF this Cons.IH] show ?case by simp
  qed simp
  then have "same_windows (dchip s) (dchip (vme_dma_exit_begin s))" by (simp add: vme_dma_exit_begin_def Let_def)
  moreover have "0 < dma_semaphore (vme_dma_exit_begin s)" using assms by (simp add: vme_dma_exit_begin_def Let_def)
  ultimately show ?thesis using wait unfolding vme_dma_exit_def by metis
qed

lemma remove_windows_result:
  assumes inv: "wins_inv (win_view b)" and sg: "signals (win b) = []"
  defines "b1 \<equiv> vme_bridge_unmap_crg (drop_object Irq_line (b\<lparr>tsi := tsi148_quiesce (tsi b)\<rparr>))"
  shows "claimed (vme_window_exit (win_view b1)) = [] \<and> iomaps (vme_window_exit (win_view b1)) = []
    \<and> enabled_windows (chip (vme_window_exit (win_view b1))) = {}"
proof -
  define s where "s = snd (vme_destroy_window (window_num (crg_desc b)) (win_view b))"
  have "enabled_windows (tsi148_disable_crg (tsi148_quiesce (tsi b))) = {}"
    using quiesce_disables same_windows_enabled [OF crg_windows(2)] by simp
  then have "but_chip (win_view b) ((win_view b)\<lparr>chip := tsi148_disable_crg (tsi148_quiesce (tsi b))\<rparr>)" by (rule but_chipI)
  then have "but_chip s (win_view b1)"
    using destroy_but_chip(2) by (simp add: s_def b1_def vme_bridge_unmap_crg_def drop_object_def Let_def)
  then have "but_chip (vme_window_exit s) (vme_window_exit (win_view b1))" using exit_but_chip by (simp add: vme_window_exit_def)
  moreover have "wins_inv s" "signals s = []"
    using window_inv_steps(2) [OF inv] destroy_signals sg by (simp_all add: s_def win_view_def)
  note window_exit_empties [OF this]
  ultimately show ?thesis by (auto simp: but_chip_def)
qed

lemma fold_step_base:
  "held (fold (bop_step k dk) ops b) = held b \<and> dma_ok (fold (bop_step k dk) ops b) = dma_ok b"
proof -
  have upd: "held (put_win w b) = held b" "held (put_irq i b) = held b" "held (put_dma d b) = held b"
    "dma_ok (put_win w b) = dma_ok b" "dma_ok (put_irq i b) = dma_ok b" "dma_ok (put_dma d b) = dma_ok b" for w i d b
    by (simp_all add: put_win_def put_irq_def put_dma_def)
  have wio: "held (snd (snd (vme_window_ioctl k rd wr f cmd b))) = held b \<and> dma_ok (snd (snd (vme_window_ioctl k rd wr f cmd b))) = dma_ok b"
    for rd wr f cmd b
    by (cases cmd) (auto simp: vme_window_ioctl_def vme_destroy_window_ioctl_def vme_bus_error_check_clear_ioctl_def put_user_def
        copy_mapping_def upd Let_def case_prod_unfold split: sum.split)
  have "held (bop_step k dk x b) = held b \<and> dma_ok (bop_step k dk x b) = dma_ok b" for x b
  proof (cases x)
    case (Bop_ioctl w rd wr minor f arg)
    with wio show ?thesis
      by (auto simp: vme_ioctl_def upd Let_def case_prod_unfold split: option.split ioctl_arg.split prod.split)
  qed (auto simp: vme_mmap_def vme_release_def find_controller_def return_controller_def vme_intset_def vme_intclr_def upd
      Let_def case_prod_unfold split: option.split sum.split)
  then show ?thesis by (induction ops arbitrary: b) auto
qed

subsection \<open>The life of the driver\<close>

text \<open>C4: After a successful start-up of the device, every sequence of file operations on
any minor, interrupts, functions exported to other modules and in-kernel requests keeps the
invariant of the windows and of the interrupt tables; for a chip that leaves its window registers
alone during transfers.\<close>

theorem bridge_invariant:
  assumes "bridge_loaded b" and "vme_bridge_init k e b = (OK, b')" and "quiet_wait dk"
  shows "bridge_inv (fold (bop_step k dk) ops b')"
proof -
  have "bridge_inv b'" using bridge_init_result [OF assms(1,2)] by simp
  then show ?thesis by (rule inv_machine.run_inv [OF bridge_machine [OF assms(3)]])
qed

text \<open>C32: Removal of the device after a successful start-up and any use returns, holds no
kernel object, bus resource or I/O mapping any more and leaves no chip window enabled; when a DMA
channel is free and no signal interrupts the clean-up.\<close>

theorem bridge_removed_clean:
  assumes "bridge_loaded b" and "vme_bridge_init k e b = (OK, b1)" and q: "quiet_wait dk" and b2: "b2 = fold (bop_step k dk) ops b1"
    and sg: "signals (win b2) = []" and sem: "0 < dma_semaphore (dmas b2)"
  shows "\<exists>b3. vme_bridge_remove b2 = Some b3 \<and> held b3 = [] \<and> claimed (win b3) = [] \<and> iomaps (win b3) = []
    \<and> enabled_windows (tsi b3) = {}"
proof -
  from bridge_init_result [OF assms(1,2)] have b1: "bridge_inv b1"
    "held b1 = Irq_line # ready_objects @ (if dma_ok b1 then [Dma_pool] else []) @ [Regs_map, Region0, Bridge_struct, Pci_enabled]"
    by simp_all
  have h: "held b2 = Irq_line # ready_objects @ (if dma_ok b2 then [Dma_pool] else []) @ [Regs_map, Region0, Bridge_struct, Pci_enabled]"
    using b1(2) fold_step_base [of k dk ops b1] by (simp add: b2)
  have inv: "wins_inv (win_view b2)"
    using inv_machine.run_inv [OF bridge_machine [OF q] b1(1)] by (simp add: b2 bridge_inv_def)
  define b where "b = vme_bridge_unmap_crg (drop_object Irq_line (b2\<lparr>tsi := tsi148_quiesce (tsi b2)\<rparr>))"
  define bx where "bx = put_win (vme_window_exit (win_view b)) b"
  have bx: "claimed (win bx) = []" "iomaps (win bx) = []" "enabled_windows (tsi bx) = {}"
    using remove_windows_result [OF inv sg] by (simp_all add: bx_def put_win_def b_def)
  have hx: "held bx = ready_objects @ (if dma_ok b2 then [Dma_pool] else []) @ [Regs_map, Region0, Bridge_struct, Pci_enabled]"
    and dx: "dma_ok bx = dma_ok b2" "dmas bx = dmas b2"
    by (simp_all add: bx_def b_def put_win_def drop_object_def h vme_bridge_unmap_crg_def Let_def)
  obtain d where d: "vme_dma_exit (dma_view bx) = Some d" "same_windows (tsi bx) (dchip d)"
    using dma_exit_result [of "dma_view bx"] sem dx(2) by (auto simp: dma_view_def)
  from d(2) bx(3) have "enabled_windows (dchip d) = {}" by (simp add: same_windows_enabled)
  moreover have "vme_bridge_remove b2 = map_option (\<lambda>b. drop_object Bridge_struct (drop_object Class (vme_bridge_remove_devices
      (drop_object Procfs (drop_object Pci_enabled (drop_object Region0 (drop_object Regs_map b)))))))
      (if dma_ok bx then map_option (\<lambda>d. drop_object Dma_pool (put_dma d bx)) (vme_dma_exit (dma_view bx)) else Some bx)"
    unfolding vme_bridge_remove_def Let_def bx_def b_def by (rule refl)
  ultimately show ?thesis using bx hx dx(1) d(1) by (simp add: unwind_defs put_dma_def ready_objects_def)
qed

theorem failed_init_leftovers:
  assumes "bridge_loaded b" and "vme_bridge_init k e b = (Inl r, b')"
  shows "set (held b') \<subseteq> {Bridge_struct, Region0, Procfs, Dma_pool}"
  using bridge_init_result [OF assms] by simp

definition sample_bdev :: "vme_irq list \<Rightarrow> u32 list \<Rightarrow> bdev" where
  "sample_bdev tab st = \<lparr> tsi = sample_chip, win = wstate_boot sample_chip,
     irqs = \<lparr> vme_irq_table = tab, int_stats = st, vme_interrupts_enabled = 0, regs = sample_chip,
       verr_desc = \<lparr> berr_error = \<lparr> berr_address = 0, berr_am = VME_A32_SUP_BLT \<rparr>, berr_valid = False \<rparr>, h_list = [], calls = [] \<rparr>,
     dmas = sample_dstate, dma_ok = False, crg_desc = vme_mapping_zero, crg_base = 0, vme_irq_nr = 0, slot = -1,
     syscon = False, held = [] \<rparr>"

abbreviation sample_loaded :: bdev where
  "sample_loaded \<equiv> sample_bdev (replicate 256 vme_irq_zero) (replicate 20 0)"

definition sample_env :: pci_env where
  "sample_env = \<lparr> pci_enable_device = OK, bridge_kzalloc = True, pdev_irq = 11,
     bus_resources = [None, Some \<lparr> res_start = 0x80000000, res_end = 0xbfffffff, res_io = False, res_memory = True, res_prefetch = False \<rparr>],
     pci_request_region = OK, pci_iomap = True, regs_id = 0x014810e3, pci_set_dma_mask = True, dma_pool_create = True,
     class_create = OK, register_chrdev = True, crg_id = (\<lambda>_. 0x014810e3), request_irq = OK, int_bits = id \<rparr>"

lemma sample_bdev_loaded: "bridge_loaded sample_loaded"
  unfolding bridge_loaded_def
proof (intro conjI exI)
  show "win sample_loaded = (wstate_boot (chip (win sample_loaded)))\<lparr>signals := [], ooms := []\<rparr>" by (simp add: sample_bdev_def wstate_boot_def)
qed (simp_all add: sample_bdev_def sample_chip_wf irq_inv_def hw_consts)

definition sample_mapped :: "vme_irq list \<Rightarrow> u32 list \<Rightarrow> bdev" where
  "sample_mapped tab st = (sample_bdev tab st)\<lparr>vme_irq_nr := 11, held := [Regs_map, Region0, Bridge_struct, Pci_enabled]\<rparr>"

lemma sample_hw:
  "(\<lambda>(r, b). r = OK \<and> claimed (win b) \<noteq> [] \<and> signals (win b) = [] \<and> dma_semaphore (dmas b) = 2)
     (bridge_init_hw sample_kernel sample_env (sample_mapped tab st))"
  by code_simp

lemma sample_bdev_init: "vme_bridge_init sample_kernel sample_env (sample_bdev tab st)
    = bridge_init_hw sample_kernel sample_env (sample_mapped tab st)"
proof -
  have "regs_mapped sample_env (sample_bdev tab st) = sample_mapped tab st"
    by (simp add: regs_mapped_def sample_bdev_def sample_mapped_def sample_env_def)
  moreover have "held (sample_bdev tab st) = []" "vme_irq_nr (sample_mapped tab st) = 11" by (simp_all add: sample_bdev_def sample_mapped_def)
  ultimately show ?thesis
    by (simp add: bridge_init_eq) (simp add: sample_env_def bad_id_def hw_consts pci_find_parent_resource_local_def)
qed

lemma sample_init_ok:
  obtains b where "vme_bridge_init sample_kernel sample_env (sample_bdev tab st) = (OK, b)"
    and "claimed (win b) \<noteq> []" and "signals (win b) = []" and "dma_semaphore (dmas b) = 2"
  using sample_hw [of tab st] by (auto simp: sample_bdev_init split: prod.splits)

lemma sample_quiet: "quiet_wait sample_dkernel"
  by (simp add: quiet_wait_def sample_dkernel_def)

theorem bridge_invariant_witness:
  "\<exists>b'. vme_bridge_init sample_kernel sample_env sample_loaded = (OK, b')
     \<and> bridge_inv (fold (bop_step sample_kernel sample_dkernel) [Bop_window (Find_Mapping crg_request True (Some 3)), Bop_release 0 3] b')"
proof -
  obtain b' where e: "vme_bridge_init sample_kernel sample_env sample_loaded = (OK, b')" using sample_init_ok by metis
  with bridge_invariant [OF sample_bdev_loaded e sample_quiet] show ?thesis by blast
qed

theorem bridge_removed_clean_witness:
  "\<exists>b1 b3. vme_bridge_init sample_kernel sample_env sample_loaded = (OK, b1) \<and> claimed (win b1) \<noteq> []
     \<and> vme_bridge_remove b1 = Some b3 \<and> held b3 = [] \<and> claimed (win b3) = []"
proof -
  obtain b1 where e: "vme_bridge_init sample_kernel sample_env sample_loaded = (OK, b1)"
    and c: "claimed (win b1) \<noteq> []" "signals (win b1) = []" "dma_semaphore (dmas b1) = 2" using sample_init_ok by metis
  have sem: "0 < dma_semaphore (dmas b1)" using c(3) by simp
  have "b1 = fold (bop_step sample_kernel sample_dkernel) [] b1" by simp
  from bridge_removed_clean [OF sample_bdev_loaded e sample_quiet this c(2) sem] c(1) e show ?thesis by auto
qed

text \<open>The leftovers are real: a start-up that finds the region of the registers taken loses the
  structure of the bridge, one that cannot map the registers also keeps the region.\<close>

theorem failed_init_leaks:
  "held (snd (vme_bridge_init k (sample_env\<lparr>pci_request_region := Inl EBUSY\<rparr>) (sample_bdev tab st))) = [Bridge_struct]
   \<and> held (snd (vme_bridge_init k (sample_env\<lparr>pci_iomap := False\<rparr>) (sample_bdev tab st))) = [Region0, Bridge_struct]"
proof -
  have "held (sample_bdev tab st) = []" by (simp add: sample_bdev_def)
  then show ?thesis
    by (simp add: bridge_init_eq) (simp add: regs_mapped_def sample_bdev_def sample_env_def pci_find_parent_resource_local_def)
qed

theorem failed_init_leftovers_witness:
  "\<exists>b'. vme_bridge_init sample_kernel (sample_env\<lparr>pci_iomap := False\<rparr>) sample_loaded = (Inl ENOMEM, b')
     \<and> Irq_line \<notin> set (held b') \<and> Pci_enabled \<notin> set (held b')"
proof -
  have "held sample_loaded = []" by (simp add: sample_bdev_def)
  then have "fst (vme_bridge_init sample_kernel (sample_env\<lparr>pci_iomap := False\<rparr>) sample_loaded) = Inl ENOMEM"
    by (simp add: bridge_init_eq) (simp add: regs_mapped_def sample_bdev_def sample_env_def pci_find_parent_resource_local_def)
  then obtain b' where e: "vme_bridge_init sample_kernel (sample_env\<lparr>pci_iomap := False\<rparr>) sample_loaded = (Inl ENOMEM, b')"
    by (metis prod.collapse)
  with failed_init_leftovers [OF sample_bdev_loaded e] show ?thesis by auto
qed

end
