(* ===== verification/Libvmebus.thy ===== *)
theory Libvmebus
  imports Vme_Bridge "HOL-Library.Monad_Syntax"
begin

text \<open>
  The user library \<open>src/vmebridge/lib/libvmebus.c\<close>, on top of the driver: a process opens the device
  files, issues ioctls, and maps the pages of a PCI range into its address space.

  The system calls are the part of the operating system that the library uses. A process has file
  descriptors, open files with their minor numbers, and a page table of the device pages it has
  mapped (user page number, PCI page number, file). A file is released in the driver when neither a
  descriptor nor a mapped page refers to it any more. What the kernel is free to choose is in
  \<open>user_env\<close>: the number of a new descriptor and file, the place of a new mapping, whether memory is
  left, and what an uninitialised variable holds.

  Functions of the library that have the name of a driver function carry the prefix \<open>lib_\<close>. A call
  is \<open>None\<close> when it never returns.
\<close>

subsection \<open>System calls\<close>

definition EBADF :: errno where "EBADF = E_KERNEL 9"

record user_env =
  ukernel :: kernel
  udma :: dma_kernel
  uwait :: sem_wait
  free_fd :: "(int \<times> filp) list \<Rightarrow> (filp \<times> nat) list \<Rightarrow> errno + int \<times> filp"
  mmap_area :: "u64 list \<Rightarrow> u64 \<Rightarrow> u64 option"
  calloc_ok :: bool
  junk :: u32

record ustate =
  bridge :: bdev
  fds :: "(int \<times> filp) list"
  files :: "(filp \<times> nat) list"
  upages :: "(u64 \<times> u64 \<times> filp) list"
  uerrno :: "errno option"
  descs :: nat

definition sys_fail :: "errno \<Rightarrow> ustate \<Rightarrow> (errno + 'a) \<times> ustate" where
  "sys_fail e s = (Inl e, s\<lparr>uerrno := Some e\<rparr>)"

text \<open>The last reference to a file releases it.\<close>

definition fput :: "filp \<Rightarrow> ustate \<Rightarrow> ustate" where
  "fput f s =
     (if f \<in> set (map snd (fds s)) \<or> f \<in> set (map (snd \<circ> snd) (upages s)) then s
      else case map_of (files s) f of None \<Rightarrow> s
      | Some minor \<Rightarrow> s\<lparr>bridge := snd (vme_release minor f (bridge s)), files := filter (\<lambda>x. fst x \<noteq> f) (files s)\<rparr>)"

definition sys_open :: "user_env \<Rightarrow> nat \<Rightarrow> ustate \<Rightarrow> (errno + int) \<times> ustate" where
  "sys_open env minor s =
     (case free_fd env (fds s) (files s) of Inl e \<Rightarrow> sys_fail e s
      | Inr (n, f) \<Rightarrow>
          (case vme_open minor (bridge s) of Inl e \<Rightarrow> sys_fail e s
           | Inr _ \<Rightarrow> (Inr n, s\<lparr>fds := (n, f) # fds s, files := (f, minor) # files s\<rparr>)))"

definition sys_close :: "int \<Rightarrow> ustate \<Rightarrow> rc \<times> ustate" where
  "sys_close n s =
     (case map_of (fds s) n of None \<Rightarrow> sys_fail EBADF s
      | Some f \<Rightarrow> (OK, fput f (s\<lparr>fds := filter (\<lambda>x. fst x \<noteq> n) (fds s)\<rparr>)))"

definition fd_file :: "int \<Rightarrow> ustate \<Rightarrow> (filp \<times> nat) option" where
  "fd_file n s = (case map_of (fds s) n of None \<Rightarrow> None | Some f \<Rightarrow> map_option (Pair f) (map_of (files s) f))"

definition sys_ioctl :: "user_env \<Rightarrow> int \<Rightarrow> ioctl_arg \<Rightarrow> ustate \<Rightarrow> ((errno + ioctl_out) \<times> ustate) option" where
  "sys_ioctl env n arg s =
     (case fd_file n s of None \<Rightarrow> Some (sys_fail EBADF s)
      | Some (f, minor) \<Rightarrow>
          map_option (\<lambda>(r, out, b). case r of Inl e \<Rightarrow> sys_fail e (s\<lparr>bridge := b\<rparr>) | Inr _ \<Rightarrow> (Inr out, s\<lparr>bridge := b\<rparr>))
            (vme_ioctl (ukernel env) (udma env) (uwait env) True True minor f arg (bridge s)))"

definition page_align :: "u64 \<Rightarrow> u64" where
  "page_align sz = (sz + 0xfff) AND NOT 0xfff"

definition new_pages :: "u64 \<Rightarrow> u64 \<Rightarrow> u64 \<Rightarrow> filp \<Rightarrow> (u64 \<times> u64 \<times> filp) list" where
  "new_pages a pgoff len f = map (\<lambda>i. (drop_bit PAGE_SHIFT a + of_nat i, pgoff + of_nat i, f)) [0..<unat (drop_bit PAGE_SHIFT len)]"

definition sys_mmap :: "user_env \<Rightarrow> u64 \<Rightarrow> int \<Rightarrow> u64 \<Rightarrow> ustate \<Rightarrow> (errno + u64) \<times> ustate" where
  "sys_mmap env sz n off s =
     (if off AND 0xfff \<noteq> 0 \<or> sz = 0 then sys_fail EINVAL s
      else if page_align sz = 0 then sys_fail ENOMEM s
      else case fd_file n s of None \<Rightarrow> sys_fail EBADF s
      | Some (f, minor) \<Rightarrow>
     (case mmap_area env (map fst (upages s)) (page_align sz) of None \<Rightarrow> sys_fail ENOMEM s
      | Some a \<Rightarrow>
          (let pgoff = drop_bit PAGE_SHIFT off;
               vma = \<lparr> vm_start = a, vm_end = a + page_align sz, vm_pgoff = pgoff, vm_flags = {}, vm_noncached = False \<rparr>;
               (r, vma, b) = vme_mmap (ukernel env) minor f vma (bridge s); s = s\<lparr>bridge := b\<rparr>
           in case r of Inl e \<Rightarrow> sys_fail e s
              | Inr _ \<Rightarrow> (Inr a, s\<lparr>upages := new_pages a pgoff (page_align sz) f @ upages s\<rparr>))))"

definition page_in :: "u64 \<Rightarrow> u64 \<Rightarrow> u64 \<times> u64 \<times> filp \<Rightarrow> bool" where
  "page_in a len x \<longleftrightarrow> drop_bit PAGE_SHIFT a \<le> fst x \<and> fst x < drop_bit PAGE_SHIFT a + drop_bit PAGE_SHIFT len"

definition sys_munmap :: "u64 \<Rightarrow> u64 \<Rightarrow> ustate \<Rightarrow> rc \<times> ustate" where
  "sys_munmap a sz s =
     (if a AND 0xfff \<noteq> 0 \<or> sz = 0 then sys_fail EINVAL s
      else let len = page_align sz; gone = filter (page_in a len) (upages s);
               s = s\<lparr>upages := filter (\<lambda>x. \<not> page_in a len x) (upages s)\<rparr>
           in (OK, fold fput (remdups (map (snd \<circ> snd) gone)) s))"

text \<open>What the caller finds in the variable it passed to an ioctl.\<close>

definition uint_out :: "errno + ioctl_out \<Rightarrow> u32 option" where
  "uint_out r = (case r of Inr (Window_out (Out_uint v)) \<Rightarrow> Some v | _ \<Rightarrow> None)"

definition mapping_out :: "errno + ioctl_out \<Rightarrow> vme_mapping option" where
  "mapping_out r = (case r of Inr (Window_out (Out_mapping d)) \<Rightarrow> Some d | _ \<Rightarrow> None)"

definition berr_out :: "errno + ioctl_out \<Rightarrow> vme_bus_error_desc option" where
  "berr_out r = (case r of Inr (Window_out (Out_berr d)) \<Rightarrow> Some d | _ \<Rightarrow> None)"

abbreviation wioctl :: "user_env \<Rightarrow> int \<Rightarrow> window_ioctl_cmd \<Rightarrow> ustate \<Rightarrow> ((errno + ioctl_out) \<times> ustate) option" where
  "wioctl env n cmd \<equiv> sys_ioctl env n (Window_ioctl cmd)"

subsection \<open>Bus errors\<close>

definition lib_bus_error_check :: "user_env \<Rightarrow> vme_mapping \<Rightarrow> ustate \<Rightarrow> (int \<times> ustate) option" where
  "lib_bus_error_check env d s = do {
     (r, s) \<leftarrow> wioctl env (fd d) VME_IOCTL_GET_BUS_ERROR s;
     Some (case uint_out r of None \<Rightarrow> -1 | Some v \<Rightarrow> sint v, s)
   }"

definition lib_bus_error_check_clear :: "user_env \<Rightarrow> vme_mapping \<Rightarrow> u64 \<Rightarrow> ustate \<Rightarrow> (int \<times> ustate) option" where
  "lib_bus_error_check_clear env d address s = do {
     let e = \<lparr> berr_error = \<lparr> berr_address = address, berr_am = am d \<rparr>, berr_valid = False \<rparr>;
     (r, s) \<leftarrow> wioctl env (fd d) (VME_IOCTL_CHECK_CLEAR_BUS_ERROR e) s;
     Some (case berr_out r of None \<Rightarrow> -1 | Some e \<Rightarrow> if berr_valid e then 1 else 0, s)
   }"

subsection \<open>Pages\<close>

definition page_addr :: "u64 \<Rightarrow> u64" where
  "page_addr address = (let pagemask = PAGE_SIZE - 1 in address AND NOT pagemask)"

text \<open>The sum of the 32-bit fields wraps before it is widened.\<close>

definition page_aligned_size :: "vme_mapping \<Rightarrow> u64" where
  "page_aligned_size d = ucast (pci_addrl d + sizel d) - page_addr (ucast (pci_addrl d))"

definition page_aligned_size_incr :: "vme_mapping \<Rightarrow> u64" where
  "page_aligned_size_incr d = ucast (pci_addrl d) - page_addr (ucast (pci_addrl d))"

definition lib_mmap :: "user_env \<Rightarrow> vme_mapping \<Rightarrow> ustate \<Rightarrow> bool \<times> vme_mapping \<times> ustate" where
  "lib_mmap env d s =
     (let pa = page_addr (ucast (pci_addrl d)); sz = page_aligned_size d
      in case sys_mmap env sz (fd d) pa s of
           (Inl _, s) \<Rightarrow> (False, d, s)
         | (Inr a, s) \<Rightarrow> (True, d\<lparr>user_va := a + page_aligned_size_incr d\<rparr>, s))"

definition lib_munmap :: "vme_mapping \<Rightarrow> ustate \<Rightarrow> bool \<times> ustate" where
  "lib_munmap d s =
     (let (r, s) = sys_munmap (user_va d - page_aligned_size_incr d) (page_aligned_size d) s in (r = OK, s))"

subsection \<open>Mapping\<close>

definition lib_out_close :: "int \<Rightarrow> vme_mapping \<Rightarrow> ustate \<Rightarrow> (u64 \<times> vme_mapping \<times> ustate) option" where
  "lib_out_close n d s = Some (0, d, snd (sys_close n s))"

definition lib_out_restore_flag ::
    "user_env \<Rightarrow> int \<Rightarrow> u32 \<Rightarrow> vme_mapping \<Rightarrow> ustate \<Rightarrow> (u64 \<times> vme_mapping \<times> ustate) option" where
  "lib_out_restore_flag env n org d s = do {
     (_, s) \<leftarrow> wioctl env n (VME_IOCTL_SET_CREATE_ON_FIND_FAIL org) s;
     lib_out_close n d s
   }"

text \<open>The part of \<open>vme_map\<close> between saving and restoring the create flag.\<close>

definition map_with_flag ::
    "user_env \<Rightarrow> int \<Rightarrow> u32 \<Rightarrow> vme_mapping \<Rightarrow> u32 \<Rightarrow> ustate \<Rightarrow> (u64 \<times> vme_mapping \<times> ustate) option" where
  "map_with_flag env n org d force s = do {
     (r, s) \<leftarrow> wioctl env n (VME_IOCTL_SET_CREATE_ON_FIND_FAIL force) s;
     if isl r then lib_out_close n d s
     else do {
       (r, s) \<leftarrow> wioctl env n (VME_IOCTL_FIND_MAPPING d) s;
       case mapping_out r of None \<Rightarrow> lib_out_restore_flag env n org d s
       | Some d \<Rightarrow>
           (case lib_mmap env d s of
              (False, d, s) \<Rightarrow> lib_out_restore_flag env n org d s
            | (True, d, s) \<Rightarrow> do {
                (_, s) \<leftarrow> wioctl env n (VME_IOCTL_SET_CREATE_ON_FIND_FAIL org) s;
                Some (user_va d, d, s)
              })
     }
   }"

definition vme_map :: "user_env \<Rightarrow> vme_mapping \<Rightarrow> u32 \<Rightarrow> ustate \<Rightarrow> (u64 \<times> vme_mapping \<times> ustate) option" where
  "vme_map env d force s =
     (case sys_open env VME_MINOR_MWINDOW s of
        (Inl _, s) \<Rightarrow> Some (0, d, s)
      | (Inr n, s) \<Rightarrow> do {
          let d = d\<lparr>fd := n\<rparr>;
          (r, s) \<leftarrow> wioctl env n VME_IOCTL_GET_CREATE_ON_FIND_FAIL s;
          case uint_out r of None \<Rightarrow> lib_out_close n d s
          | Some org \<Rightarrow> map_with_flag env n org d force s
        })"

subsection \<open>Unmapping\<close>

text \<open>The release of the mapping with the destroy flag set, as \<open>vme_unmap\<close> with \<open>force\<close> and
  \<open>return_controller\<close> do it: failures to read or set the flag do not stop it, and the flag is then
  restored from a variable that was never set.\<close>

definition release_forced :: "user_env \<Rightarrow> vme_mapping \<Rightarrow> u32 \<Rightarrow> ustate \<Rightarrow> (bool \<times> ustate) option" where
  "release_forced env d force s = do {
     (r, s) \<leftarrow> wioctl env (fd d) VME_IOCTL_GET_DESTROY_ON_REMOVE s;
     let org = (case uint_out r of Some v \<Rightarrow> v | None \<Rightarrow> junk env);
     (_, s) \<leftarrow> wioctl env (fd d) (VME_IOCTL_SET_DESTROY_ON_REMOVE force) s;
     (r, s) \<leftarrow> wioctl env (fd d) (VME_IOCTL_RELEASE_MAPPING d) s;
     (_, s) \<leftarrow> wioctl env (fd d) (VME_IOCTL_SET_DESTROY_ON_REMOVE org) s;
     Some (\<not> isl r, s)
   }"

definition release_plain :: "user_env \<Rightarrow> vme_mapping \<Rightarrow> ustate \<Rightarrow> (bool \<times> ustate) option" where
  "release_plain env d s = do {
     (r, s) \<leftarrow> wioctl env (fd d) (VME_IOCTL_RELEASE_MAPPING d) s;
     Some (\<not> isl r, s)
   }"

text \<open>A null descriptor sets \<open>errno\<close> to a negative value.\<close>

definition null_desc :: "ustate \<Rightarrow> ustate" where
  "null_desc s = s\<lparr>uerrno := Some (E_KERNEL (-14))\<rparr>"

definition vme_unmap :: "user_env \<Rightarrow> vme_mapping option \<Rightarrow> u32 \<Rightarrow> ustate \<Rightarrow> (int \<times> ustate) option" where
  "vme_unmap env dp force s =
     (case dp of None \<Rightarrow> Some (-1, null_desc s)
      | Some d \<Rightarrow> do {
          let (unmapped, s) = lib_munmap d s;
          (released, s) \<leftarrow> (if force \<noteq> 0 then release_forced env d force s else release_plain env d s);
          Some (if unmapped \<and> released then 0 else -1, snd (sys_close (fd d) s))
        })"

subsection \<open>CES emulation\<close>

definition lib_controller_desc :: "u64 \<Rightarrow> u64 \<Rightarrow> u64 \<Rightarrow> vme_data_width \<Rightarrow> bool \<Rightarrow> vme_mapping" where
  "lib_controller_desc vmeaddr len a dw rdpref =
     (let d = vme_mapping_zero\<lparr>window_num := 0, am := am_of_code (ucast a)\<rparr>;
          d = (if rdpref then d\<lparr>read_prefetch_enabled := True, read_prefetch_size := VME_PREFETCH_2\<rparr> else d);
          len = (if len AND 0xffff \<noteq> 0 then len AND NOT 0xffff else len);
          vmeaddr = (if vmeaddr AND 0xffff \<noteq> 0 then vmeaddr AND NOT 0xffff else vmeaddr)
      in d\<lparr>data_width := dw, bcast_select := 0, sizel := ucast len, sizeu := 0, vme_addrl := ucast vmeaddr, vme_addru := 0\<rparr>)"

definition lib_out_free :: "ustate \<Rightarrow> (u64 \<times> vme_mapping option \<times> ustate) option" where
  "lib_out_free s = Some (0, None, s\<lparr>descs := descs s - 1\<rparr>)"

definition lib_restore_and_free :: "user_env \<Rightarrow> int \<Rightarrow> u32 \<Rightarrow> ustate \<Rightarrow> (u64 \<times> vme_mapping option \<times> ustate) option" where
  "lib_restore_and_free env n org s = do {
     (_, s) \<leftarrow> wioctl env n (VME_IOCTL_SET_CREATE_ON_FIND_FAIL org) s;
     lib_out_free s
   }"

definition controller_with_flag ::
    "user_env \<Rightarrow> int \<Rightarrow> u32 \<Rightarrow> vme_mapping \<Rightarrow> ustate \<Rightarrow> (u64 \<times> vme_mapping option \<times> ustate) option" where
  "controller_with_flag env n org d s = do {
     (r, s) \<leftarrow> wioctl env n (VME_IOCTL_SET_CREATE_ON_FIND_FAIL 1) s;
     if isl r then lib_out_free s
     else do {
       (r, s) \<leftarrow> wioctl env n (VME_IOCTL_FIND_MAPPING d) s;
       case mapping_out r of None \<Rightarrow> lib_restore_and_free env n org s
       | Some d \<Rightarrow>
           (case lib_mmap env d s of
              (False, d, s) \<Rightarrow> lib_restore_and_free env n org s
            | (True, d, s) \<Rightarrow> do {
                (_, s) \<leftarrow> wioctl env n (VME_IOCTL_SET_CREATE_ON_FIND_FAIL org) s;
                Some (user_va d, Some d, s)
              })
     }
   }"

text \<open>The second result is the descriptor left in \<open>param->sgmin\<close>.\<close>

definition lib_find_controller ::
    "user_env \<Rightarrow> u64 \<Rightarrow> u64 \<Rightarrow> u64 \<Rightarrow> u64 \<Rightarrow> bool \<Rightarrow> ustate \<Rightarrow> (u64 \<times> vme_mapping option \<times> ustate) option" where
  "lib_find_controller env vmeaddr len a sz rdpref s =
     (if \<not> calloc_ok env then Some (0, None, s\<lparr>uerrno := Some ENOMEM\<rparr>)
      else let s = s\<lparr>descs := descs s + 1\<rparr>
      in case data_width_of sz of None \<Rightarrow> lib_out_free s
      | Some dw \<Rightarrow>
     (case sys_open env VME_MINOR_MWINDOW s of
        (Inl _, s) \<Rightarrow> lib_out_free s
      | (Inr n, s) \<Rightarrow> do {
          let d = (lib_controller_desc vmeaddr len a dw rdpref)\<lparr>fd := n\<rparr>;
          (r, s) \<leftarrow> wioctl env n VME_IOCTL_GET_CREATE_ON_FIND_FAIL s;
          case uint_out r of None \<Rightarrow> lib_out_free s
          | Some org \<Rightarrow> controller_with_flag env n org d s
        }))"

definition lib_return_controller :: "user_env \<Rightarrow> vme_mapping option \<Rightarrow> ustate \<Rightarrow> (int \<times> ustate) option" where
  "lib_return_controller env dp s =
     (case dp of None \<Rightarrow> Some (-1, null_desc s)
      | Some d \<Rightarrow> do {
          let (unmapped, s) = lib_munmap d s;
          (released, s) \<leftarrow> release_forced env d 1 s;
          let s = snd (sys_close (fd d) s);
          Some (if unmapped \<and> released then 0 else -1, s\<lparr>descs := descs s - 1\<rparr>)
        })"

subsection \<open>DMA\<close>

definition dma_on_device :: "user_env \<Rightarrow> vme_dma \<Rightarrow> ustate \<Rightarrow> (int \<times> vme_dma \<times> ustate) option" where
  "dma_on_device env d s =
     (case sys_open env VME_MINOR_DMA s of
        (Inl _, s) \<Rightarrow> Some (-1, d, s)
      | (Inr n, s) \<Rightarrow> do {
          (r, s) \<leftarrow> sys_ioctl env n (Dma_ioctl (VME_IOCTL_START_DMA d)) s;
          Some (if isl r then -1 else 0, case r of Inr (Dma_out (Some d')) \<Rightarrow> d' | _ \<Rightarrow> d, snd (sys_close n s))
        })"

text \<open>The two differ only in the mode of the open, which the driver does not look at.\<close>

definition vme_dma_read :: "user_env \<Rightarrow> vme_dma \<Rightarrow> ustate \<Rightarrow> (int \<times> vme_dma \<times> ustate) option" where
  "vme_dma_read env d s = dma_on_device env d s"

definition vme_dma_write :: "user_env \<Rightarrow> vme_dma \<Rightarrow> ustate \<Rightarrow> (int \<times> vme_dma \<times> ustate) option" where
  "vme_dma_write env d s = dma_on_device env d s"

end
