(* ===== verification/Libvmebus_Props.thy ===== *)
theory Libvmebus_Props
  imports Libvmebus Vme_Bridge_Props
begin

text \<open>
  The user library: mapping and unmapping give back what they take and restore the driver's flags,
  and a user address obtained from \<open>vme_map\<close> leads, through the page table of the process and the
  window of the chip, to the VME address that was asked for.
\<close>

subsection \<open>The driver's flags\<close>

definition flags :: "wstate \<Rightarrow> u32 \<times> u32" where
  "flags s = (vme_create_on_find_fail s, vme_destroy_on_remove s)"

lemma flags_upd [simp]:
  "flags (upd_window i f s) = flags s" "flags (s\<lparr>signals := sg\<rparr>) = flags s" "flags (s\<lparr>ooms := oo\<rparr>) = flags s" "flags (s\<lparr>chip := c\<rparr>) = flags s"
  "flags (s\<lparr>claimed := cl\<rparr>) = flags s" "flags (s\<lparr>iomaps := im\<rparr>) = flags s" "flags (s\<lparr>remaps := rm\<rparr>) = flags s"
  "flags (s\<lparr>lock_fault := lf\<rparr>) = flags s" "flags (mutex_unlock i s) = flags s" "flags (snd (mutex_lock_interruptible i s)) = flags s"
  "flags (snd (kmalloc s)) = flags s" "flags (release_resource r s) = flags s" "flags (iounmap va s) = flags s"
  by (auto simp: flags_def upd_window_def mutex_unlock_def mutex_lock_interruptible_def kmalloc_def release_resource_def iounmap_def
      Let_def split: list.split bool.split)

lemma flags_create: "flags (snd (snd (vme_create_window k d s))) = flags s"
  by (simp add: vme_create_window_def create_window_locked_def create_out_unlock_def create_out_free_def create_out_release_def
      create_out_unmap_def Let_def case_prod_unfold split: sum.split)

lemma flags_find_loop: "flags (snd (find_window_loop m is s)) = flags s"
  by (induction "is" arbitrary: s) (simp_all add: Let_def case_prod_unfold)

lemma flags_add: "flags (snd (add_mapping k i m f s)) = flags s"
  by (simp add: add_mapping_def Let_def case_prod_unfold)

lemma flags_find: "flags (snd (snd (vme_find_mapping_file k m fc f s))) = flags s"
  by (simp add: vme_find_mapping_file_def Let_def case_prod_unfold flags_add flags_create flags_find_loop
      split: sum.split search_result.split option.split)

lemma flags_destroy: "flags (snd (vme_destroy_window n s)) = flags s"
  by (simp add: vme_destroy_window_def destroy_window_locked_def Let_def case_prod_unfold)

lemma flags_release_mapping: "flags (snd (vme_release_mapping_file d fc f s)) = flags s"
proof -
  have "flags (snd (remove_mapping i d f t)) = flags t" for i t by (simp add: remove_mapping_def split: option.split)
  then show ?thesis
    by (simp add: vme_release_mapping_file_def Let_def case_prod_unfold flags_destroy split: sum.split)
qed

lemma flags_release: "flags (snd (vme_window_release f s)) = flags s"
proof -
  have "flags (snd (vme_window_release_loop f is s)) = flags s" for "is"
    by (induction "is" arbitrary: s) (simp_all add: Let_def case_prod_unfold)
  then show ?thesis by (simp add: vme_window_release_def)
qed

lemma flags_mmap: "flags (snd (snd (vme_window_mmap k f vma s))) = flags s"
proof -
  have "flags (snd (snd (vme_window_mmap_loop k f vma is s))) = flags s" for "is"
    by (induction "is" arbitrary: s) (simp_all add: Let_def case_prod_unfold vme_remap_pfn_range_def)
  then show ?thesis by (simp add: vme_window_mmap_def)
qed

subsection \<open>The process\<close>

text \<open>Every descriptor and every mapped page refers to an open file.\<close>

definition proc_ok :: "ustate \<Rightarrow> bool" where
  "proc_ok s \<longleftrightarrow> snd ` set (fds s) \<subseteq> fst ` set (files s) \<and> (snd \<circ> snd) ` set (upages s) \<subseteq> fst ` set (files s)"

text \<open>What \<open>open\<close> promises: a descriptor and a file that are not in use.\<close>

definition fresh_fds :: "user_env \<Rightarrow> bool" where
  "fresh_fds env \<longleftrightarrow> (\<forall>F G n f. free_fd env F G = Inr (n, f) \<longrightarrow> n \<notin> fst ` set F \<and> f \<notin> fst ` set G)"

text \<open>What \<open>mmap\<close> promises: a range of whole pages of the user half of the address space, none of them
  in use and not starting at 0.\<close>

definition free_areas :: "user_env \<Rightarrow> bool" where
  "free_areas env \<longleftrightarrow> (\<forall>ps len a. mmap_area env ps len = Some a \<longrightarrow>
     0 < unat a \<and> a AND 0xfff = 0 \<and> unat a + unat len \<le> 0x800000000000
     \<and> (\<forall>p \<in> set ps. \<not> (drop_bit PAGE_SHIFT a \<le> p \<and> p < drop_bit PAGE_SHIFT a + drop_bit PAGE_SHIFT len)))"

text \<open>A process \<open>t\<close> that differs from \<open>s\<close> by one more open file.\<close>

definition one_more_file :: "int \<Rightarrow> filp \<Rightarrow> nat \<Rightarrow> ustate \<Rightarrow> ustate \<Rightarrow> bool" where
  "one_more_file n f minor s t \<longleftrightarrow> fds t = (n, f) # fds s \<and> files t = (f, minor) # files s
     \<and> n \<notin> fst ` set (fds s) \<and> f \<notin> fst ` set (files s)"

lemma open_file:
  assumes "fresh_fds env" and "sys_open env minor s = (Inr n, t)"
  shows "\<exists>f. one_more_file n f minor s t \<and> t = s\<lparr>fds := fds t, files := files t\<rparr>"
  using assms by (fastforce simp: sys_open_def sys_fail_def fresh_fds_def one_more_file_def split: sum.splits prod.splits)

lemma opened_file: "one_more_file n f minor s t \<Longrightarrow> fd_file n t = Some (f, minor)"
  by (simp add: fd_file_def one_more_file_def)

lemma close_opened:
  assumes ok: "proc_ok s" and o: "one_more_file n f minor s t" and p: "upages t = upages s"
  shows "snd (sys_close n t) = t\<lparr>fds := fds s, files := files s, bridge := snd (vme_release minor f (bridge t))\<rparr>"
proof -
  have "filter (\<lambda>x. fst x \<noteq> n) (fds s) = fds s" "filter (\<lambda>x. fst x \<noteq> f) (files s) = files s"
    using o by (force simp: one_more_file_def filter_id_conv)+
  moreover have "f \<notin> set (map snd (fds s))" "f \<notin> set (map (snd \<circ> snd) (upages s))"
    using ok o by (auto simp: proc_ok_def one_more_file_def)
  ultimately show ?thesis using o p by (simp add: sys_close_def fput_def one_more_file_def)
qed

lemma wioctl_eq:
  assumes "fd_file n s = Some (f, VME_MINOR_MWINDOW)"
  shows "wioctl env n cmd s = Some (let (r, out, b) = vme_window_ioctl (ukernel env) True True f cmd (bridge s)
     in case r of Inl e \<Rightarrow> sys_fail e (s\<lparr>bridge := b\<rparr>) | Inr _ \<Rightarrow> (Inr (Window_out out), s\<lparr>bridge := b\<rparr>))"
  by (simp add: sys_ioctl_def assms vme_ioctl_def Let_def case_prod_unfold split: sum.split)

lemma flag_ioctls:
  assumes "fd_file n s = Some (f, VME_MINOR_MWINDOW)"
  shows "wioctl env n VME_IOCTL_GET_CREATE_ON_FIND_FAIL s = Some (Inr (Window_out (Out_uint (vme_create_on_find_fail (win (bridge s))))), s)"
    "wioctl env n VME_IOCTL_GET_DESTROY_ON_REMOVE s = Some (Inr (Window_out (Out_uint (vme_destroy_on_remove (win (bridge s))))), s)"
    "wioctl env n (VME_IOCTL_SET_CREATE_ON_FIND_FAIL v) s
       = Some (Inr (Window_out No_out), s\<lparr>bridge := (bridge s)\<lparr>win := (win (bridge s))\<lparr>vme_create_on_find_fail := v\<rparr>\<rparr>\<rparr>)"
    "wioctl env n (VME_IOCTL_SET_DESTROY_ON_REMOVE v) s
       = Some (Inr (Window_out No_out), s\<lparr>bridge := (bridge s)\<lparr>win := (win (bridge s))\<lparr>vme_destroy_on_remove := v\<rparr>\<rparr>\<rparr>)"
  by (simp_all add: wioctl_eq [OF assms] vme_window_ioctl_def put_user_def)

lemma fd_file_bridge [simp]:
  "fd_file n (s\<lparr>bridge := b\<rparr>) = fd_file n s" "fd_file n (s\<lparr>uerrno := e\<rparr>) = fd_file n s" "fd_file n (s\<lparr>upages := p\<rparr>) = fd_file n s"
  "fd_file n (s\<lparr>descs := x\<rparr>) = fd_file n s"
  by (simp_all add: fd_file_def split: option.split)

subsection \<open>\<open>vme_map\<close> by cases\<close>

text \<open>The driver with another create flag.\<close>

abbreviation set_create :: "u32 \<Rightarrow> bdev \<Rightarrow> bdev" where
  "set_create v b \<equiv> b\<lparr>win := (win b)\<lparr>vme_create_on_find_fail := v\<rparr>\<rparr>"

abbreviation find_request :: "user_env \<Rightarrow> filp \<Rightarrow> vme_mapping \<Rightarrow> u32 \<Rightarrow> bdev \<Rightarrow> rc \<times> vme_mapping \<times> wstate" where
  "find_request env f d force b \<equiv>
     vme_find_mapping_file (ukernel env) d (force \<noteq> 0) (Some f) (win_view (set_create force b))"

text \<open>The mapping attempt of \<open>map_with_flag\<close>: the find request and the mmap, with the flag set.\<close>

definition map_attempt :: "user_env \<Rightarrow> filp \<Rightarrow> vme_mapping \<Rightarrow> u32 \<Rightarrow> ustate \<Rightarrow> bool \<times> vme_mapping \<times> ustate" where
  "map_attempt env f d force s =
     (case find_request env f d force (bridge s) of
        (Inl e, m, w) \<Rightarrow> (False, d, s\<lparr>bridge := put_win w (set_create force (bridge s)), uerrno := Some e\<rparr>)
      | (Inr _, m, w) \<Rightarrow> lib_mmap env m (s\<lparr>bridge := put_win w (set_create force (bridge s))\<rparr>))"

lemma mmap_fd_file: "fd_file n (snd (snd (lib_mmap env d s))) = fd_file n s"
  by (auto simp: lib_mmap_def sys_mmap_def sys_fail_def Let_def case_prod_unfold split: option.split sum.split)

lemma map_attempt_fd_file: "fd_file n (snd (snd (map_attempt env f d force s))) = fd_file n s"
  by (auto simp: map_attempt_def mmap_fd_file split: sum.split prod.split)

lemma map_with_flag_eq:
  assumes "fd_file n s = Some (f, VME_MINOR_MWINDOW)"
  shows "map_with_flag env n org d force s =
     (let (ok, d', t) = map_attempt env f d force s; t = t\<lparr>bridge := set_create org (bridge t)\<rparr>
      in Some (if ok then (user_va d', d', t) else (0, d', snd (sys_close n t))))"
proof -
  let ?t = "s\<lparr>bridge := set_create force (bridge s)\<rparr>"
  have t: "fd_file n ?t = Some (f, VME_MINOR_MWINDOW)" using assms by simp
  have sv: "wioctl env n (VME_IOCTL_SET_CREATE_ON_FIND_FAIL v) u = Some (Inr (Window_out No_out), u\<lparr>bridge := set_create v (bridge u)\<rparr>)"
    if "fd_file n u = Some (f, VME_MINOR_MWINDOW)" for u v using flag_ioctls(3) [OF that] .
  have fm: "wioctl env n (VME_IOCTL_FIND_MAPPING d) ?t = Some (case find_request env f d force (bridge s) of
      (Inl e, m, w) \<Rightarrow> sys_fail e (s\<lparr>bridge := put_win w (set_create force (bridge s))\<rparr>)
    | (Inr _, m, w) \<Rightarrow> (Inr (Window_out (Out_mapping m)), s\<lparr>bridge := put_win w (set_create force (bridge s))\<rparr>))"
    by (auto simp: wioctl_eq [OF t] vme_window_ioctl_def copy_mapping_def Let_def split: prod.split sum.split)
  obtain r m w where F: "find_request env f d force (bridge s) = (r, m, w)" by (metis prod_cases3)
  show ?thesis
  proof (cases r)
    case (Inl e)
    have "map_attempt env f d force s = (False, d, s\<lparr>bridge := put_win w (set_create force (bridge s)), uerrno := Some e\<rparr>)"
      by (simp add: map_attempt_def F Inl)
    then show ?thesis
      using assms by (simp add: map_with_flag_def sv fm F Inl sys_fail_def mapping_out_def lib_out_restore_flag_def lib_out_close_def)
  next
    case (Inr u)
    obtain ok d' t where M: "lib_mmap env m (s\<lparr>bridge := put_win w (set_create force (bridge s))\<rparr>) = (ok, d', t)" by (metis prod_cases3)
    then have "fd_file n t = Some (f, VME_MINOR_MWINDOW)" using mmap_fd_file [of n env m] assms by (metis fd_file_bridge(1) snd_conv)
    moreover have "map_attempt env f d force s = (ok, d', t)" by (simp add: map_attempt_def F Inr M)
    ultimately show ?thesis
      using assms by (simp add: map_with_flag_def sv fm F Inr M mapping_out_def lib_out_restore_flag_def lib_out_close_def split: bool.split)
  qed
qed

lemma chip_mmap: "chip (snd (snd (vme_window_mmap k f vma s))) = chip s"
proof -
  have lock: "chip (snd (mutex_lock_interruptible i t)) = chip t" "chip (mutex_unlock i t) = chip t" for i t
    by (auto simp: mutex_lock_interruptible_def mutex_unlock_def upd_window_def Let_def split: list.split bool.split)
  have "chip (snd (snd (vme_window_mmap_loop k f vma is s))) = chip s" for "is"
    by (induction "is" arbitrary: s) (simp_all add: Let_def case_prod_unfold vme_remap_pfn_range_def lock)
  then show ?thesis by (simp add: vme_window_mmap_def)
qed

lemma flags_view [simp]: "flags (win_view b) = flags (win b)" "flags (win (put_win w b)) = flags w" "tsi (put_win w b) = chip w"
  by (simp_all add: win_view_def put_win_def)

text \<open>A call of \<open>sys_mmap\<close>: all but the driver and \<open>errno\<close> stays the same, and a success adds the pages.\<close>

lemma sys_mmap_cases:
  assumes "sys_mmap env sz n off s = (r, t)"
  shows "fds t = fds s \<and> files t = files s \<and> flags (win (bridge t)) = flags (win (bridge s)) \<and> tsi (bridge t) = tsi (bridge s)
    \<and> (case r of Inl e \<Rightarrow> upages t = upages s
       | Inr a \<Rightarrow> sz \<noteq> 0 \<and> page_align sz \<noteq> 0 \<and> (\<exists>f minor. fd_file n s = Some (f, minor)
           \<and> mmap_area env (map fst (upages s)) (page_align sz) = Some a
           \<and> upages t = new_pages a (drop_bit PAGE_SHIFT off) (page_align sz) f @ upages s))"
proof -
  have "flags (win (snd (snd (vme_mmap k mi f vma b)))) = flags (win b)" "tsi (snd (snd (vme_mmap k mi f vma b))) = tsi b" for k mi f vma b
    by (simp_all add: vme_mmap_def Let_def case_prod_unfold flags_mmap chip_mmap)
  with assms show ?thesis
    by (auto simp: sys_mmap_def sys_fail_def Let_def case_prod_unfold split: if_splits option.splits sum.splits)
qed

lemma lib_mmap_cases:
  assumes "lib_mmap env d s = (ok, d', t)"
  shows "fds t = fds s \<and> files t = files s \<and> flags (win (bridge t)) = flags (win (bridge s)) \<and> tsi (bridge t) = tsi (bridge s)
    \<and> (if ok then page_aligned_size d \<noteq> 0 \<and> page_align (page_aligned_size d) \<noteq> 0
         \<and> (\<exists>a f minor. d' = d\<lparr>user_va := a + page_aligned_size_incr d\<rparr> \<and> fd_file (fd d) s = Some (f, minor)
             \<and> mmap_area env (map fst (upages s)) (page_align (page_aligned_size d)) = Some a
             \<and> upages t = new_pages a (drop_bit PAGE_SHIFT (page_addr (ucast (pci_addrl d)))) (page_align (page_aligned_size d)) f @ upages s)
       else d' = d \<and> upages t = upages s)"
proof -
  obtain r u where e: "sys_mmap env (page_aligned_size d) (fd d) (page_addr (ucast (pci_addrl d))) s = (r, u)" by fastforce
  with assms sys_mmap_cases [OF e] show ?thesis by (auto simp: lib_mmap_def split: sum.splits)
qed

text \<open>Mapping pages keeps the windows of a sound driver.\<close>

definition same_table :: "bdev \<Rightarrow> bdev \<Rightarrow> bool" where
  "same_table b b' \<longleftrightarrow> (bridge_inv b \<longrightarrow> bridge_inv b' \<and> window_table (win b') = window_table (win b))"

lemma same_table_mmap: "same_table b (snd (snd (vme_mmap k minor f vma b)))"
proof -
  have "window_table (snd (snd (vme_window_mmap k f vma (win_view b)))) = window_table (win b)" if "bridge_inv b"
  proof -
    obtain r v w where e: "vme_window_mmap_loop k f vma [0..<8] (win_view b) = (r, v, w)" by (metis prod_cases3)
    have "window_table w = window_table (win_view b)"
      using vme_window_mmap_loop_result [OF _ all_windows e] that by (simp add: bridge_inv_def)
    then show ?thesis by (simp add: vme_window_mmap_def hw_consts e) (simp add: win_view_def)
  qed
  moreover have "bridge_inv (put_win (snd (snd (vme_window_mmap k f vma (win_view b)))) b)" if "bridge_inv b"
    using that window_inv_steps(8) [of "win_view b"] by (simp add: bridge_inv_def)
  ultimately show ?thesis by (auto simp: same_table_def vme_mmap_def Let_def case_prod_unfold put_win_def)
qed

lemma same_table_lib_mmap: "same_table (bridge s) (bridge (snd (snd (lib_mmap env d s))))"
proof -
  have "same_table (bridge s) (bridge (snd (sys_mmap env sz n off s)))" for sz n off
    using same_table_mmap by (auto simp: sys_mmap_def sys_fail_def same_table_def Let_def case_prod_unfold split: option.split sum.split)
  then show ?thesis by (auto simp: lib_mmap_def Let_def case_prod_unfold split: sum.split)
qed

lemma vme_map_cases:
  assumes ok: "proc_ok s" and fr: "fresh_fds env"
  obtains (refused) e where "vme_map env d force s = Some (0, d, s\<lparr>uerrno := e\<rparr>)"
  | (opened) n f s1 ok d' t where "one_more_file n f VME_MINOR_MWINDOW s s1" "s1 = s\<lparr>fds := fds s1, files := files s1\<rparr>"
      "map_attempt env f (d\<lparr>fd := n\<rparr>) force s1 = (ok, d', t)" "fds t = fds s1" "files t = files s1"
      "ok \<or> upages t = upages s"
      "vme_map env d force s = Some (let t = t\<lparr>bridge := set_create (vme_create_on_find_fail (win (bridge s))) (bridge t)\<rparr>
         in if ok then (user_va d', d', t)
            else (0, d', t\<lparr>fds := fds s, files := files s, bridge := snd (vme_release VME_MINOR_MWINDOW f (bridge t))\<rparr>))"
proof -
  obtain r s1 where o: "sys_open env VME_MINOR_MWINDOW s = (r, s1)" by fastforce
  show ?thesis
  proof (cases r)
    case (Inl e)
    with o have "\<exists>e. s1 = s\<lparr>uerrno := e\<rparr>" by (auto simp: sys_open_def sys_fail_def split: sum.splits)
    with o Inl refused show ?thesis by (auto simp: vme_map_def)
  next
    case (Inr n)
    from open_file [OF fr o [unfolded Inr]] obtain f where f: "one_more_file n f VME_MINOR_MWINDOW s s1"
      and s1: "s1 = s\<lparr>fds := fds s1, files := files s1\<rparr>" by blast
    note fd = opened_file [OF f]
    obtain ok d' t where A: "map_attempt env f (d\<lparr>fd := n\<rparr>) force s1 = (ok, d', t)" by (metis prod_cases3)
    have "fds t = fds s1 \<and> files t = files s1 \<and> (ok \<or> upages t = upages s1)"
      using A by (auto simp: map_attempt_def split: prod.splits sum.splits if_splits dest!: lib_mmap_cases)
    moreover have "upages s1 = upages s" by (subst s1) simp
    ultimately have t: "fds t = fds s1" "files t = files s1" "ok \<or> upages t = upages s" by simp_all
    let ?t = "t\<lparr>bridge := set_create (vme_create_on_find_fail (win (bridge s))) (bridge t)\<rparr>"
    have b: "bridge s1 = bridge s" by (subst s1) simp
    have "one_more_file n f VME_MINOR_MWINDOW s ?t" using f t(1,2) by (simp add: one_more_file_def)
    note close = close_opened [OF assms(1) this]
    have "vme_map env d force s = Some (if ok then (user_va d', d', ?t) else (0, d', snd (sys_close n ?t)))"
      using o Inr A by (simp add: vme_map_def flag_ioctls(1) [OF fd] uint_out_def map_with_flag_eq [OF fd] b Let_def)
    then have "vme_map env d force s = Some (if ok then (user_va d', d', ?t)
        else (0, d', ?t\<lparr>fds := fds s, files := files s, bridge := snd (vme_release VME_MINOR_MWINDOW f (bridge ?t))\<rparr>))"
      using close t(3) by (auto split: if_splits)
    then show ?thesis using opened [OF f s1 A t] by (simp add: Let_def)
  qed
qed

subsection \<open>Pages\<close>

lemma mask_page64: "(0xfff :: u64) = mask 12"
  by (simp add: mask_eq_exp_minus_1)

lemma page_nat:
  "unat (drop_bit PAGE_SHIFT (x :: u64)) = unat x div 0x1000" "unat ((x :: u64) AND 0xfff) = unat x mod 0x1000"
  "unat ((x :: u64) AND NOT 0xfff) = unat x - unat x mod 0x1000"
  by (simp_all add: PAGE_SHIFT_def unat_drop_bit_eq drop_bit_eq_div mask_page64 unat_and_mask unat_and_not_mask unat_div)

lemma page_addr_nat: "unat (page_addr x) = unat x - unat x mod 0x1000"
  using page_nat(3) [of x] by (simp add: page_addr_def PAGE_SIZE_def)

text \<open>The layout of a mapping in the address space: the sizes that the library computes.\<close>

lemma incr_nat: "unat (page_aligned_size_incr d) = unat (pci_addrl d) mod 0x1000"
proof -
  let ?p = "unat (pci_addrl d)"
  have pa: "unat (page_addr (ucast (pci_addrl d))) = ?p - ?p mod 0x1000" by (simp add: page_addr_nat unat_ucast_u32)
  then have "page_addr (ucast (pci_addrl d)) \<le> ucast (pci_addrl d)" by (simp add: word_le_nat_alt unat_ucast_u32)
  moreover have "?p mod 0x1000 \<le> ?p" by simp
  ultimately show ?thesis by (simp add: page_aligned_size_incr_def unat_sub pa unat_ucast_u32)
qed

lemma library_sizes:
  assumes nw: "unat (pci_addrl d) + unat (sizel d) < 0x100000000"
  shows "unat (page_aligned_size d) = unat (pci_addrl d) mod 0x1000 + unat (sizel d)"
    "unat (page_align (page_aligned_size d)) = ((unat (pci_addrl d) mod 0x1000 + unat (sizel d) + 0xfff) div 0x1000) * 0x1000"
proof -
  let ?p = "unat (pci_addrl d)"
  have pa: "unat (page_addr (ucast (pci_addrl d))) = ?p - ?p mod 0x1000" by (simp add: page_addr_nat unat_ucast_u32)
  have m: "?p mod 0x1000 \<le> ?p" by simp
  have s: "unat (ucast (pci_addrl d + sizel d) :: u64) = ?p + unat (sizel d)" using nw by (simp add: unat_ucast_u32 unat_add_u32)
  have "page_addr (ucast (pci_addrl d)) \<le> ucast (pci_addrl d + sizel d)" by (simp only: word_le_nat_alt pa s)
  then have "unat (page_aligned_size d) = ?p + unat (sizel d) - (?p - ?p mod 0x1000)"
    unfolding page_aligned_size_def by (simp only: unat_sub pa s)
  then show z: "unat (page_aligned_size d) = ?p mod 0x1000 + unat (sizel d)" using m by linarith
  have "unat (page_aligned_size d + 0xfff) = ?p mod 0x1000 + unat (sizel d) + 0xfff"
    using nw m by (simp add: unat_add_u64_cases z)
  then show "unat (page_align (page_aligned_size d)) = ((?p mod 0x1000 + unat (sizel d) + 0xfff) div 0x1000) * 0x1000"
    by (simp only: page_align_def page_nat(3) minus_mod_eq_div_mult)
qed

lemma find_keeps_fd: "fd (fst (snd (vme_find_mapping_file k m fc f s))) = fd m"
  by (simp add: vme_find_mapping_file_def place_mapping_def Let_def case_prod_unfold split: sum.split search_result.split option.split)

lemma find_request_flags: "find_request env f d force b = (r, m, w) \<Longrightarrow> flags w = (force, vme_destroy_on_remove (win b)) \<and> fd m = fd d"
  using flags_find [of "ukernel env" d "force \<noteq> 0" "Some f" "win_view (set_create force b)"]
    find_keeps_fd [of "ukernel env" d "force \<noteq> 0" "Some f" "win_view (set_create force b)"]
  by (simp add: flags_def win_view_def)

lemma map_attempt_flags:
  assumes "map_attempt env f d force s = (ok, d', t)"
  shows "flags (win (set_create v (bridge t))) = (v, vme_destroy_on_remove (win (bridge s)))"
proof -
  obtain r m w where F: "find_request env f d force (bridge s) = (r, m, w)" by (metis prod_cases3)
  have "flags (win (bridge t)) = flags w"
    using assms lib_mmap_cases [of env m "s\<lparr>bridge := put_win w (set_create force (bridge s))\<rparr>" ok d' t]
    by (cases r) (auto simp: map_attempt_def F)
  with find_request_flags [OF F] show ?thesis by (simp add: flags_def)
qed

lemma map_attempt_ok:
  assumes A: "map_attempt env f d force s = (True, d', t)" and fd: "fd_file (fd d) s = Some (f, minor)"
  obtains m w a where "find_request env f d force (bridge s) = (OK, m, w)" "fd m = fd d" "tsi (bridge t) = chip w"
    "d' = m\<lparr>user_va := a + page_aligned_size_incr m\<rparr>" "page_aligned_size m \<noteq> 0"
    "mmap_area env (map fst (upages s)) (page_align (page_aligned_size m)) = Some a"
    "upages t = new_pages a (drop_bit PAGE_SHIFT (page_addr (ucast (pci_addrl m)))) (page_align (page_aligned_size m)) f @ upages s"
    "same_table (put_win w (set_create force (bridge s))) (bridge t)"
proof -
  obtain r m w where F: "find_request env f d force (bridge s) = (r, m, w)" by (metis prod_cases3)
  have m: "fd m = fd d" using find_request_flags [OF F] by simp
  let ?s = "s\<lparr>bridge := put_win w (set_create force (bridge s))\<rparr>"
  from A F have r: "r = OK" and L: "lib_mmap env m ?s = (True, d', t)" by (cases r; simp add: map_attempt_def)+
  from lib_mmap_cases [OF L] fd m obtain a where "d' = m\<lparr>user_va := a + page_aligned_size_incr m\<rparr>"
    "mmap_area env (map fst (upages s)) (page_align (page_aligned_size m)) = Some a" "page_aligned_size m \<noteq> 0" "tsi (bridge t) = chip w"
    "upages t = new_pages a (drop_bit PAGE_SHIFT (page_addr (ucast (pci_addrl m)))) (page_align (page_aligned_size m)) f @ upages s"
    by auto
  moreover have "same_table (put_win w (set_create force (bridge s))) (bridge t)"
    using same_table_lib_mmap [of ?s env m] L by simp
  ultimately show ?thesis using that F r m by blast
qed

lemma user_va_nonzero:
  assumes "free_areas env" and "mmap_area env ps len = Some a"
  shows "unat (a + page_aligned_size_incr d) = unat a + unat (pci_addrl d) mod 0x1000" and "a + page_aligned_size_incr d \<noteq> 0"
proof -
  have a: "0 < unat a" "unat a \<le> 0x800000000000" using assms unfolding free_areas_def by (metis add_leD1)+
  then show u: "unat (a + page_aligned_size_incr d) = unat a + unat (pci_addrl d) mod 0x1000"
    by (simp add: unat_add_u64_cases incr_nat)
  with a show "a + page_aligned_size_incr d \<noteq> 0" by (metis add_gr_0 not_less_zero unat_0 gr_implies_not_zero)
qed

lemma flags_vme_release: "flags (win (snd (vme_release minor f b))) = flags (win b)"
  by (simp add: vme_release_def Let_def case_prod_unfold flags_release)

text \<open>Everything that a call of \<open>vme_map\<close> can do.\<close>

lemma set_create_inv [simp]: "bridge_inv (set_create v b) = bridge_inv b"
  by (simp add: bridge_inv_def win_view_def wins_inv_def)

lemma find_request_inv: "find_request env f d force b = (r, m, w) \<Longrightarrow> bridge_inv b \<Longrightarrow> wins_inv w"
  using window_inv_steps(3) [of "win_view (set_create force b)" "ukernel env" d "force \<noteq> 0" "Some f"] set_create_inv [of force b]
  by (simp add: bridge_inv_def del: set_create_inv)

text \<open>The mapping that a successful find request leaves in its window.\<close>

definition has_mapping :: "vme_mapping \<Rightarrow> filp \<Rightarrow> window list \<Rightarrow> bool" where
  "has_mapping d f tab \<longleftrightarrow> (\<exists>i<8. window_num d = int i \<and> active (tab ! i) \<and> (\<exists>x \<in> set (mappings (tab ! i)). mapping_matches d (Some f) x))"

lemma find_leaves_mapping:
  assumes inv: "wins_inv s" and F: "vme_find_mapping_file k d force (Some f) s = (OK, m, w)"
  shows "has_mapping m f (window_table w)"
proof -
  have *: "has_mapping m f (window_table (mapped_state k i m (Some f) t))" if "wins_inv t" "i < 8" "active (window_table t ! i)" "window_num m = int i" for i t
    using that wins_inv_window(1) [OF that(1,2)]
    by (auto simp: has_mapping_def mapped_state_def mapping_matches_def intro!: exI [of _ i])
  from vme_find_mapping_cases [OF inv F] show ?thesis
  proof (elim disjE exE conjE)
    fix i s1 assume A: "first_match d s = Some i" "quiet s s1" "m = place_mapping (desc (window_table s ! i)) d (int i)"
      "w = mapped_state k i m (Some f) s1"
    have "i < 8" "active (window_table s1 ! i)" using find_bound [OF A(1)] quiet_sel [OF A(2)] by (simp_all add: window_matches_def)
    moreover have "wins_inv s1" using A(2) inv by (simp add: quiet_inv)
    ultimately show ?thesis unfolding A(4) using A(3) by (intro *) (simp_all add: place_mapping_def Let_def)
  next
    fix i s1 s2 wnd b assume A: "first_unused s = Some i" "quiet s s1"
      "vme_create_window k (vme_optimize_window_size (d\<lparr>window_num := int i\<rparr>)) s1 = (OK, wnd, s2)"
      "m = place_mapping (desc (window_table s2 ! i)) d (int i)" "w = mapped_state k i m (Some f) (s2\<lparr>ooms := b\<rparr>)"
    have i: "i < 8" using find_bound [OF A(1)] by simp
    have s1: "wins_inv s1" using A(2) inv by (simp add: quiet_inv)
    have "active (window_table s2 ! i)" using created_active [OF s1 A(3)] by simp
    moreover have "wins_inv (s2\<lparr>ooms := b\<rparr>)" using vme_create_window_inv [OF s1 A(3)] by (simp add: quiet_inv [OF quiet_refl(3)])
    ultimately show ?thesis unfolding A(5) using i A(4) by (intro *) (simp_all add: place_mapping_def Let_def)
  qed simp_all
qed

lemma vme_map_result:
  assumes ok: "proc_ok s" and fr: "fresh_fds env" and ar: "free_areas env"
  obtains (failed) d' s' where "vme_map env d force s = Some (0, d', s')" "fds s' = fds s" "files s' = files s" "upages s' = upages s"
      "flags (win (bridge s')) = flags (win (bridge s))"
  | (mapped) n f m w a d' s' where "vme_map env d force s = Some (user_va d', d', s')" "user_va d' \<noteq> 0"
      "one_more_file n f VME_MINOR_MWINDOW s s'" "flags (win (bridge s')) = flags (win (bridge s))"
      "find_request env f (d\<lparr>fd := n\<rparr>) force (bridge s) = (OK, m, w)" "fd m = n" "tsi (bridge s') = chip w"
      "d' = m\<lparr>user_va := a + page_aligned_size_incr m\<rparr>" "page_aligned_size m \<noteq> 0"
      "mmap_area env (map fst (upages s)) (page_align (page_aligned_size m)) = Some a"
      "upages s' = new_pages a (drop_bit PAGE_SHIFT (page_addr (ucast (pci_addrl m)))) (page_align (page_aligned_size m)) f @ upages s"
      "bridge_inv (bridge s) \<longrightarrow> bridge_inv (bridge s') \<and> window_table (win (bridge s')) = window_table w"
proof (cases rule: vme_map_cases [OF ok fr, of d force])
  case (1 e)
  then show ?thesis by (rule failed) simp_all
next
  case opened: (2 n f s1 g d' t)
  let ?org = "vme_create_on_find_fail (win (bridge s))"
  have s1: "bridge s1 = bridge s" "upages s1 = upages s" by (subst opened(2), simp)+
  have fl: "flags (win (set_create ?org (bridge t))) = flags (win (bridge s))"
    using map_attempt_flags [OF opened(3), of ?org] by (simp add: s1 flags_def)
  show ?thesis
  proof (cases g)
    case False
    with opened(7) have "vme_map env d force s = Some (0, d', t\<lparr>fds := fds s, files := files s,
        bridge := snd (vme_release VME_MINOR_MWINDOW f (set_create ?org (bridge t)))\<rparr>)" by (simp add: Let_def)
    then show ?thesis by (rule failed) (use False opened(6) fl in \<open>simp_all add: flags_vme_release\<close>)
  next
    case True
    have fd: "fd_file (fd (d\<lparr>fd := n\<rparr>)) s1 = Some (f, VME_MINOR_MWINDOW)" using opened_file [OF opened(1)] by simp
    have A: "map_attempt env f (d\<lparr>fd := n\<rparr>) force s1 = (True, d', t)" using opened(3) True by simp
    from map_attempt_ok [OF A fd] obtain m w a where R: "find_request env f (d\<lparr>fd := n\<rparr>) force (bridge s) = (OK, m, w)" "fd m = n"
      "tsi (bridge t) = chip w" "d' = m\<lparr>user_va := a + page_aligned_size_incr m\<rparr>" "page_aligned_size m \<noteq> 0"
      "mmap_area env (map fst (upages s)) (page_align (page_aligned_size m)) = Some a"
      "upages t = new_pages a (drop_bit PAGE_SHIFT (page_addr (ucast (pci_addrl m)))) (page_align (page_aligned_size m)) f @ upages s"
      "same_table (put_win w (set_create force (bridge s))) (bridge t)" by (simp add: s1) blast
    have "bridge_inv (put_win w (set_create force (bridge s)))" if "bridge_inv (bridge s)"
      using that find_request_inv [OF R(1)] by (simp add: bridge_inv_def)
    then have inv: "bridge_inv (bridge s) \<longrightarrow> bridge_inv (bridge t) \<and> window_table (win (bridge t)) = window_table w"
      using R(8) by (simp add: same_table_def put_win_def)
    have "user_va d' \<noteq> 0" using user_va_nonzero(2) [OF ar R(6), of m] by (simp add: R(4))
    moreover have "vme_map env d force s = Some (user_va d', d', t\<lparr>bridge := set_create ?org (bridge t)\<rparr>)"
      using True opened(7) by (simp add: Let_def)
    moreover have "one_more_file n f VME_MINOR_MWINDOW s (t\<lparr>bridge := set_create ?org (bridge t)\<rparr>)"
      using opened(1,4,5) by (simp add: one_more_file_def)
    ultimately show ?thesis using mapped fl R(1-7) inv by simp
  qed
qed

lemma new_pages_file: "\<forall>p \<in> set (new_pages a pg len f). snd (snd p) = f"
  by (auto simp: new_pages_def)

text \<open>C33: vme_map returns, restores the driver flag that it changes, and on failure leaves
the descriptors, open files and mapped pages of the process as they were; on success it adds one
descriptor, one file and pages of this file only.\<close>

theorem map_keeps_process:
  assumes ok: "proc_ok s" and fr: "fresh_fds env" and ar: "free_areas env"
  shows "\<exists>va d' s'. vme_map env d force s = Some (va, d', s') \<and> flags (win (bridge s')) = flags (win (bridge s)) \<and> proc_ok s'
    \<and> (if va = 0 then fds s' = fds s \<and> files s' = files s \<and> upages s' = upages s
       else \<exists>f ps. fds s' = (fd d', f) # fds s \<and> files s' = (f, VME_MINOR_MWINDOW) # files s \<and> f \<notin> fst ` set (files s)
         \<and> upages s' = ps @ upages s \<and> (\<forall>p \<in> set ps. snd (snd p) = f))"
proof (cases rule: vme_map_result [OF assms, of d force])
  case (1 d' s')
  with ok show ?thesis by (simp add: proc_ok_def)
next
  case (2 n f m w a d' s')
  define ps where "ps = new_pages a (drop_bit PAGE_SHIFT (page_addr (ucast (pci_addrl m)))) (page_align (page_aligned_size m)) f"
  have ps: "\<forall>p \<in> set ps. snd (snd p) = f" unfolding ps_def by (rule new_pages_file)
  have up: "upages s' = ps @ upages s" unfolding ps_def by (rule 2(11))
  have o: "fds s' = (fd d', f) # fds s" "files s' = (f, VME_MINOR_MWINDOW) # files s" "f \<notin> fst ` set (files s)"
    using 2(3,6,8) by (simp_all add: one_more_file_def)
  have "(snd \<circ> snd) ` set ps \<subseteq> {f}" using ps by auto
  then have "proc_ok s'" using ok by (auto simp: proc_ok_def o up)
  with 2(1,2,4) o ps up show ?thesis by auto
qed

subsection \<open>From a user address to the VME bus\<close>

text \<open>The PCI address that the page table of the process gives for a user address.\<close>

definition user_pci :: "ustate \<Rightarrow> u64 \<Rightarrow> u64 option" where
  "user_pci s u = map_option (\<lambda>(pfn, f). push_bit PAGE_SHIFT pfn + (u AND 0xfff)) (map_of (upages s) (drop_bit PAGE_SHIFT u))"

lemma unat_of_nat_u64: "n < 0x10000000000000000 \<Longrightarrow> unat (of_nat n :: u64) = n"
  by (simp add: unsigned_of_nat take_bit_nat_eq_self)

lemma of_nat_u64_inj: "i < 0x10000000000000000 \<Longrightarrow> j < 0x10000000000000000 \<Longrightarrow> (of_nat i :: u64) = of_nat j \<longleftrightarrow> i = j"
  by (metis unat_of_nat_u64)

lemma new_pages_lookup:
  assumes "j < unat (drop_bit PAGE_SHIFT len)"
  shows "map_of (new_pages a pg len f @ U) (drop_bit PAGE_SHIFT a + of_nat j) = Some (pg + of_nat j, f)"
proof -
  have b: "unat (drop_bit PAGE_SHIFT len) < 0x10000000000000000" using unsigned_less [of "drop_bit PAGE_SHIFT len"] by simp
  have "inj_on (\<lambda>i. drop_bit PAGE_SHIFT a + of_nat i :: u64) {0..<unat (drop_bit PAGE_SHIFT len)}"
    using b by (auto simp: inj_on_def of_nat_u64_inj)
  then have "distinct (map fst (new_pages a pg len f))" by (simp add: new_pages_def distinct_map comp_def)
  moreover have "(drop_bit PAGE_SHIFT a + of_nat j, pg + of_nat j, f) \<in> set (new_pages a pg len f)"
    using assms by (auto simp: new_pages_def)
  ultimately have "map_of (new_pages a pg len f) (drop_bit PAGE_SHIFT a + of_nat j) = Some (pg + of_nat j, f)" by (rule map_of_is_SomeI)
  then show ?thesis by (simp add: map_add_Some_iff)
qed

lemma byte_in_area:
  assumes al: "a AND 0xfff = (0 :: u64)" and b: "unat a + x < 0x10000000000000000"
  shows "drop_bit PAGE_SHIFT (a + of_nat x) = drop_bit PAGE_SHIFT a + of_nat (x div 0x1000)"
    and "(a + of_nat x) AND 0xfff = of_nat (x mod 0x1000)"
proof -
  have x: "unat (of_nat x :: u64) = x" using b by (simp add: unat_of_nat_u64)
  have u: "unat (a + of_nat x) = unat a + x" using b by (simp add: unat_add_u64_cases x)
  have m: "unat a mod 0x1000 = 0" using al page_nat(2) [of a] by simp
  have d: "(unat a + x) div 0x1000 = unat a div 0x1000 + x div 0x1000" "(unat a + x) mod 0x1000 = x mod 0x1000"
    using m by (auto simp: mod_eq_0_iff_dvd div_plus_div_distrib_dvd_left elim!: dvdE)
  have q: "unat (of_nat (x div 0x1000) :: u64) = x div 0x1000" "unat (of_nat (x mod 0x1000) :: u64) = x mod 0x1000"
    using b by (simp_all add: unat_of_nat_u64)
  have "unat a div 0x1000 + x div 0x1000 < 0x10000000000000000" using b d(1) by (metis div_le_dividend le_less_trans)
  then show "drop_bit PAGE_SHIFT (a + of_nat x) = drop_bit PAGE_SHIFT a + of_nat (x div 0x1000)"
    using b by (simp add: word_unat_eq_iff page_nat d unat_add_u64_cases q x)
  show "(a + of_nat x) AND 0xfff = of_nat (x mod 0x1000)" by (simp only: word_unat_eq_iff page_nat u d q)
qed

lemma round_up_page:
  assumes "x < (y :: nat)"
  shows "x div 0x1000 < (y + 0xfff) div 0x1000" and "x < ((y + 0xfff) div 0x1000) * 0x1000"
proof -
  have "(x + 0x1000) div 0x1000 \<le> (y + 0xfff) div 0x1000" using assms by (intro div_le_mono) simp
  then show 1: "x div 0x1000 < (y + 0xfff) div 0x1000" by simp
  then show "x < ((y + 0xfff) div 0x1000) * 0x1000" by (simp add: div_less_iff_less_mult)
qed

lemma mapped_byte:
  assumes ar: "free_areas env" and A: "mmap_area env ps (page_align (page_aligned_size m)) = Some a"
    and nw: "unat (pci_addrl m) + unat (sizel m) < 0x100000000" and n: "n < unat (sizel m)"
    and U: "upages s = new_pages a (drop_bit PAGE_SHIFT (page_addr (ucast (pci_addrl m)))) (page_align (page_aligned_size m)) f @ U"
  shows "user_pci s (a + page_aligned_size_incr m + of_nat n) = Some (ucast (pci_addrl m) + of_nat n)"
proof -
  let ?p = "unat (pci_addrl m)" and ?pa = "page_addr (ucast (pci_addrl m))"
  let ?len = "page_align (page_aligned_size m)" and ?x = "?p mod 0x1000 + n"
  have a: "a AND 0xfff = 0" "unat a + unat ?len \<le> 0x800000000000" using ar A unfolding free_areas_def by metis+
  have len: "unat ?len = ((?p mod 0x1000 + unat (sizel m) + 0xfff) div 0x1000) * 0x1000" by (rule library_sizes(2) [OF nw])
  have x: "?x < ?p mod 0x1000 + unat (sizel m)" using n by simp
  have xl: "?x < unat ?len" unfolding len by (rule round_up_page(2) [OF x])
  with a(2) have b: "unat a + ?x < 0x10000000000000000" by linarith
  have "?x div 0x1000 < unat (drop_bit PAGE_SHIFT ?len)" using round_up_page(1) [OF x] by (simp add: page_nat len)
  from new_pages_lookup [OF this, of a] have lk: "map_of (upages s) (drop_bit PAGE_SHIFT a + of_nat (?x div 0x1000))
      = Some (drop_bit PAGE_SHIFT ?pa + of_nat (?x div 0x1000), f)" by (simp add: U)
  have incr: "page_aligned_size_incr m = of_nat (?p mod 0x1000)" using incr_nat [of m] by (metis of_nat_unat ucast_id)
  have va: "a + page_aligned_size_incr m + of_nat n = a + of_nat ?x" by (simp add: incr add.assoc)
  have up: "push_bit PAGE_SHIFT (drop_bit PAGE_SHIFT ?pa) = ?pa"
    by (simp add: page_addr_def PAGE_SIZE_def PAGE_SHIFT_def and_not_mask_eq_push_drop [symmetric] mask_page64 and.assoc)
  have "push_bit PAGE_SHIFT (drop_bit PAGE_SHIFT ?pa + of_nat (?x div 0x1000)) + of_nat (?x mod 0x1000) = ?pa + of_nat ?x"
  proof -
    have "push_bit PAGE_SHIFT (drop_bit PAGE_SHIFT ?pa + of_nat (?x div 0x1000))
        = push_bit PAGE_SHIFT (drop_bit PAGE_SHIFT ?pa) + of_nat (?x div 0x1000) * 0x1000"
      by (simp add: PAGE_SHIFT_def push_bit_eq_mult algebra_simps)
    moreover have "(of_nat (?x div 0x1000) * 0x1000 + of_nat (?x mod 0x1000) :: u64) = of_nat ?x"
      by (metis (no_types) div_mult_mod_eq of_nat_add of_nat_mult of_nat_numeral)
    ultimately show ?thesis by (simp add: up add.assoc)
  qed
  also have "?pa + of_nat ?x = ucast (pci_addrl m) + of_nat n"
    using incr by (simp add: page_aligned_size_incr_def algebra_simps)
  finally show ?thesis unfolding va user_pci_def byte_in_area [OF a(1) b] lk by simp
qed

lemma window_matches_fd [simp]: "window_matches (d\<lparr>fd := n\<rparr>) w = window_matches d w"
  by (simp add: window_matches_def)

lemma win_view_create [simp]: "win_view (set_create v b) = (win_view b)\<lparr>vme_create_on_find_fail := v\<rparr>"
  by (simp add: win_view_def)

text \<open>C3: Every byte of the user range that vme_map returns leads, through the page table of
the process, to a PCI address that the chip window accepts and translates to the requested VME
address; for a request served by an existing window, with no wrap-around at 4G.\<close>

theorem user_address_reaches_vme:
  assumes ok: "proc_ok s" and fr: "fresh_fds env" and ar: "free_areas env" and inv: "bridge_inv (bridge s)"
    and map: "vme_map env d force s = Some (va, d', s')" and va: "va \<noteq> 0"
    and i: "first_match d (win_view (bridge s)) = Some i" and p: "plain_window (desc (window_table (win (bridge s)) ! i))"
    and nw: "unat (vme_addrl d) + unat (sizel d) < 0x100000000" and n: "n < unat (sizel d)"
  shows "\<exists>pci. user_pci s' (va + of_nat n) = Some pci \<and> ot_accepts (otrans (tsi (bridge s')) ! i) (unat pci)
    \<and> ot_translate (otrans (tsi (bridge s')) ! i) pci = ucast (vme_addrl d) + of_nat n"
proof (cases rule: vme_map_result [OF ok fr ar, of d force])
  case (1 d'' s'')
  with map va show ?thesis by simp
next
  case (2 h f m w a d'' s'')
  with map have same: "va = user_va d''" "s' = s''" by simp_all
  let ?s = "(win_view (bridge s))\<lparr>vme_create_on_find_fail := force\<rparr>" and ?d = "d\<lparr>fd := h\<rparr>"
  have wi: "wins_inv ?s" using inv by (simp add: bridge_inv_def)
  have F: "vme_find_mapping_file (ukernel env) ?d (force \<noteq> 0) (Some f) ?s = (OK, m, w)" using 2(5) by simp
  have i': "first_match ?d ?s = Some i" using i by simp
  have p': "plain_window (desc (window_table ?s ! i))" using p by (simp add: win_view_def)
  have mt: "window_matches ?d (window_table ?s ! i)" using find_bound [OF i'] by blast
  from vme_find_mapping_cases [OF wi F] i' have m: "m = place_mapping (desc (window_table ?s ! i)) ?d (int i)" by auto
  have nw': "unat (vme_addrl ?d) + unat (sizel ?d) < 0x100000000" and n': "n < unat (sizel ?d)" using nw n by simp_all
  note T = mapping_translates [OF wi F i' p' nw' n'] and P = placed_inside [OF mt p' nw' m]
  have sz: "sizel m = sizel d" by (simp add: m place_mapping_def Let_def)
  have b: "unat (pci_addrl m) + unat (sizel m) < 0x100000000" using P(2) p' sz by (simp add: plain_window_def)
  have "user_pci s'' (a + page_aligned_size_incr m + of_nat n) = Some (ucast (pci_addrl m) + of_nat n)"
    by (rule mapped_byte [OF ar 2(10) b _ 2(11)]) (use n sz in simp)
  moreover have "unat (of_nat n :: u64) = n" "n + unat (pci_addrl m) < 0x100000000" using b n sz by (simp_all add: unat_of_nat_u64)
  then have "unat (ucast (pci_addrl m) + of_nat n :: u64) = unat (pci_addrl m) + n" by (simp add: unat_add_u64_cases unat_ucast_u32)
  ultimately show ?thesis using T by (simp add: same 2(7,8))
qed

subsection \<open>Unmapping\<close>

lemma new_pages_in:
  assumes "unat a + unat len \<le> 0x800000000000"
  shows "\<forall>x \<in> set (new_pages a pg len f). page_in a len x"
proof
  fix x assume "x \<in> set (new_pages a pg len f)"
  then obtain j where x: "fst x = drop_bit PAGE_SHIFT a + of_nat j" and j: "j < unat (drop_bit PAGE_SHIFT len)" by (auto simp: new_pages_def)
  have b: "unat (drop_bit PAGE_SHIFT a) + unat (drop_bit PAGE_SHIFT len) < 0x10000000000000000"
    unfolding page_nat by (rule le_less_trans [OF add_mono [OF div_le_dividend div_le_dividend]]) (use assms in simp)
  then have "unat (of_nat j :: u64) = j" using j by (simp add: unat_of_nat_u64)
  then have "unat (fst x) = unat (drop_bit PAGE_SHIFT a) + j" using b j by (simp add: x unat_add_u64_cases)
  then show "page_in a len x" using b j by (simp add: page_in_def word_le_nat_alt word_less_nat_alt unat_add_u64_cases)
qed

lemma fput_open: "f \<in> set (map snd (fds s)) \<Longrightarrow> fput f s = s"
  by (simp add: fput_def)

lemma fold_fput_same: "set fs \<subseteq> {f} \<Longrightarrow> f \<in> set (map snd (fds s)) \<Longrightarrow> fold fput fs s = s"
  by (induction fs) (simp_all add: fput_open)

lemma munmap_mapped:
  assumes ar: "free_areas env" and A: "mmap_area env (map fst U) (page_align (page_aligned_size m)) = Some a" and z: "page_aligned_size m \<noteq> 0"
    and up: "upages s = new_pages a pg (page_align (page_aligned_size m)) f @ U" and f: "f \<in> set (map snd (fds s))"
  shows "lib_munmap (m\<lparr>user_va := a + page_aligned_size_incr m\<rparr>) s = (True, s\<lparr>upages := U\<rparr>)"
proof -
  let ?len = "page_align (page_aligned_size m)" and ?new = "new_pages a pg (page_align (page_aligned_size m)) f"
  have a: "a AND 0xfff = 0" "unat a + unat ?len \<le> 0x800000000000" "\<forall>p \<in> fst ` set U. \<not> (drop_bit PAGE_SHIFT a \<le> p \<and> p < drop_bit PAGE_SHIFT a + drop_bit PAGE_SHIFT ?len)"
    using ar A unfolding free_areas_def by (metis set_map)+
  have new: "filter (page_in a ?len) ?new = ?new" "filter (\<lambda>x. \<not> page_in a ?len x) ?new = []"
    using new_pages_in [OF a(2)] by (simp_all add: filter_id_conv filter_empty_conv)
  have old: "filter (page_in a ?len) U = []" "filter (\<lambda>x. \<not> page_in a ?len x) U = U"
    using a(3) by (auto simp: filter_id_conv filter_empty_conv page_in_def)
  have "set (remdups (map (snd \<circ> snd) ?new)) \<subseteq> {f}" using new_pages_file by auto
  from fold_fput_same [OF this, of "s\<lparr>upages := U\<rparr>"] f
  have "sys_munmap a (page_aligned_size m) s = (OK, s\<lparr>upages := U\<rparr>)"
    using a(1) z by (simp add: sys_munmap_def up new old Let_def)
  moreover have "page_aligned_size (m\<lparr>user_va := v\<rparr>) = page_aligned_size m"
    "page_aligned_size_incr (m\<lparr>user_va := v\<rparr>) = page_aligned_size_incr m" for v
    by (simp_all add: page_aligned_size_def page_aligned_size_incr_def)
  ultimately show ?thesis by (simp add: lib_munmap_def)
qed

text \<open>Releasing the mapping changes only the driver and \<open>errno\<close>, and restores the flags.\<close>

definition same_proc :: "ustate \<Rightarrow> ustate \<Rightarrow> bool" where
  "same_proc s t \<longleftrightarrow> fds t = fds s \<and> files t = files s \<and> upages t = upages s \<and> descs t = descs s
     \<and> flags (win (bridge t)) = flags (win (bridge s))"

lemma same_proc_fd: "same_proc s t \<Longrightarrow> fd_file n t = fd_file n s"
  by (simp add: same_proc_def fd_file_def split: option.split)

text \<open>A driver that is sound, has the mapping and is not interrupted releases it.\<close>

definition can_release :: "vme_mapping \<Rightarrow> filp \<Rightarrow> bdev \<Rightarrow> bool" where
  "can_release d f b \<longleftrightarrow> bridge_inv b \<and> signals (win b) = [] \<and> has_mapping d f (window_table (win b))"

lemma release_ioctl:
  assumes fd: "fd_file (fd d) s = Some (f, VME_MINOR_MWINDOW)"
  shows "\<exists>r t. wioctl env (fd d) (VME_IOCTL_RELEASE_MAPPING d) s = Some (r, t) \<and> same_proc s t \<and> (can_release d f (bridge s) \<longrightarrow> \<not> isl r)"
proof -
  let ?x = "vme_release_mapping_file d (vme_destroy_on_remove (win (bridge s)) \<noteq> 0) (Some f) (win_view (bridge s))"
  have "fst ?x = OK" if "can_release d f (bridge s)"
  proof -
    from that obtain i x where "i < 8" "window_num d = int i" "active (window_table (win_view (bridge s)) ! i)"
      "x \<in> set (mappings (window_table (win_view (bridge s)) ! i))" "mapping_matches d (Some f) x"
      "wins_inv (win_view (bridge s))" "signals (win_view (bridge s)) = []"
      by (auto simp: can_release_def has_mapping_def bridge_inv_def win_view_def)
    then show ?thesis by (intro vme_release_mapping_succeeds)
  qed
  then show ?thesis
    by (auto simp: wioctl_eq [OF fd] vme_window_ioctl_def Let_def case_prod_unfold sys_fail_def same_proc_def flags_release_mapping
        split: sum.split)
qed

lemma release_steps:
  assumes fd: "fd_file (fd d) s = Some (f, VME_MINOR_MWINDOW)"
  shows "\<exists>ok t. (if force \<noteq> 0 then release_forced env d force s else release_plain env d s) = Some (ok, t) \<and> same_proc s t
    \<and> (can_release d f (bridge s) \<longrightarrow> ok)"
proof (cases "force = 0")
  case True
  with release_ioctl [OF fd, of env] show ?thesis by (auto simp: release_plain_def)
next
  case False
  let ?s = "s\<lparr>bridge := (bridge s)\<lparr>win := (win (bridge s))\<lparr>vme_destroy_on_remove := force\<rparr>\<rparr>\<rparr>"
  from release_ioctl [of d ?s f env] fd obtain r t where R: "wioctl env (fd d) (VME_IOCTL_RELEASE_MAPPING d) ?s = Some (r, t)"
    and t: "same_proc ?s t" "can_release d f (bridge ?s) \<longrightarrow> \<not> isl r" by auto
  have c: "can_release d f (bridge ?s) = can_release d f (bridge s)"
    by (simp add: can_release_def bridge_inv_def win_view_def wins_inv_def)
  have "fd_file (fd d) t = Some (f, VME_MINOR_MWINDOW)" using same_proc_fd [OF t(1)] fd by simp
  note final = flag_ioctls(4) [OF this, of env "vme_destroy_on_remove (win (bridge s))"]
  from False t c show ?thesis
    by (simp add: release_forced_def flag_ioctls(2,4) [OF fd] uint_out_def R final) (simp add: same_proc_def flags_def)
qed

text \<open>C34: vme_unmap after vme_map returns and restores the descriptors, open files and
mapped pages of the process and both driver flags, with or without forced destruction; the result
is 0 when the driver state is sound and no signal is pending.\<close>

theorem map_unmap_roundtrip:
  assumes ok: "proc_ok s" and fr: "fresh_fds env" and ar: "free_areas env"
    and map: "vme_map env d force s = Some (va, d', s')" and va: "va \<noteq> 0"
  shows "\<exists>r s''. vme_unmap env (Some d') force' s' = Some (r, s'') \<and> fds s'' = fds s \<and> files s'' = files s \<and> upages s'' = upages s
    \<and> flags (win (bridge s'')) = flags (win (bridge s)) \<and> (bridge_inv (bridge s) \<and> signals (win (bridge s')) = [] \<longrightarrow> r = 0)"
proof (cases rule: vme_map_result [OF ok fr ar, of d force])
  case (1 d1 s1)
  with map va show ?thesis by simp
next
  case (2 n f m w a d1 s1)
  have same: "d' = d1" "s' = s1" using map 2(1) by (simp_all only: option.inject prod.inject)
  have f: "f \<in> set (map snd (fds s1))" using 2(3) by (simp add: one_more_file_def)
  let ?s = "s1\<lparr>upages := upages s\<rparr>"
  have U: "lib_munmap d1 s1 = (True, ?s)" unfolding 2(8) by (rule munmap_mapped [OF ar 2(10,9,11) f])
  have n: "fd d1 = n" using 2(6) by (simp add: 2(8))
  have "fd_file (fd d1) ?s = Some (f, VME_MINOR_MWINDOW)" using opened_file [OF 2(3)] by (simp add: n)
  from release_steps [OF this, of force' env] obtain g t
    where R: "(if force' \<noteq> 0 then release_forced env d1 force' ?s else release_plain env d1 ?s) = Some (g, t)" and t: "same_proc ?s t" and g: "can_release d1 f (bridge ?s) \<longrightarrow> g" by blast
  have "has_mapping d1 f (window_table w)" if "bridge_inv (bridge s)"
    using find_leaves_mapping [OF _ 2(5)] that set_create_inv [of force "bridge s"]
    by (simp add: 2(8) has_mapping_def mapping_matches_def bridge_inv_def del: set_create_inv)
  then have g': "bridge_inv (bridge s) \<and> signals (win (bridge s1)) = [] \<longrightarrow> g" using g 2(12) by (auto simp: can_release_def)
  have "one_more_file n f VME_MINOR_MWINDOW s t" "upages t = upages s" using 2(3) t by (simp_all add: one_more_file_def same_proc_def)
  note C = close_opened [OF ok this]
  have "vme_unmap env (Some d') force' s' = Some (if g then 0 else -1, snd (sys_close n t))"
    using R by (auto simp: vme_unmap_def same U n split: if_splits)
  then show ?thesis using t 2(4) \<open>upages t = upages s\<close> g' same(2) by (simp add: C flags_vme_release same_proc_def)
qed

subsection \<open>A process at work\<close>

definition sample_user_env :: user_env where
  "sample_user_env = \<lparr> ukernel = sample_kernel, udma = sample_dkernel, uwait = Granted False,
     free_fd = (\<lambda>F G. if F = [] \<and> G = [] then Inr (3, 7) else Inl ENOMEM),
     mmap_area = (\<lambda>ps len. if ps = [] \<and> len \<le> 0x10000000 then Some 0x7f0000000000 else None), calloc_ok = True, junk = 0 \<rparr>"

definition sample_user :: "vme_irq list \<Rightarrow> u32 list \<Rightarrow> ustate" where
  "sample_user tab st = \<lparr> bridge = (sample_bdev tab st)\<lparr>win := sample_state1, tsi := chip sample_state1\<rparr>,
     fds = [], files = [], upages = [], uerrno = None, descs = 0 \<rparr>"

abbreviation sample_process :: ustate where
  "sample_process \<equiv> sample_user (replicate 256 vme_irq_zero) (replicate 20 0)"

lemma sample_user_env_ok: "fresh_fds sample_user_env" "free_areas sample_user_env"
  by (auto simp: fresh_fds_def free_areas_def sample_user_env_def word_le_nat_alt split: if_splits)

lemma sample_process_ok: "proc_ok sample_process" "bridge_inv (bridge sample_process)"
proof -
  have "win_view (bridge sample_process) = sample_state1" by (simp add: sample_user_def win_view_def)
  then show "bridge_inv (bridge sample_process)"
    using sample_inv1 by (simp add: bridge_inv_def irq_inv_def sample_user_def sample_bdev_def hw_consts)
qed (simp add: proc_ok_def sample_user_def)

lemma sample_user_map: "map_option fst (vme_map sample_user_env sample_request 0 (sample_user tab st)) = Some 0x7f0000000340"
  by code_simp

lemma sample_mapped_user:
  obtains d' s' where "vme_map sample_user_env sample_request 0 sample_process = Some (0x7f0000000340, d', s')"
  using sample_user_map [of "replicate 256 vme_irq_zero" "replicate 20 0"] by auto

theorem map_keeps_process_witness:
  "\<exists>d' s'. vme_map sample_user_env sample_request 0 sample_process = Some (0x7f0000000340, d', s')
     \<and> proc_ok s' \<and> flags (win (bridge s')) = flags sample_state1"
proof -
  obtain d' s' where e: "vme_map sample_user_env sample_request 0 sample_process = Some (0x7f0000000340, d', s')" by (rule sample_mapped_user)
  from map_keeps_process [OF sample_process_ok(1) sample_user_env_ok, of sample_request 0] e show ?thesis
    by (auto simp: sample_user_def)
qed

theorem map_unmap_roundtrip_witness:
  "\<exists>d' s' r s''. vme_map sample_user_env sample_request 0 sample_process = Some (0x7f0000000340, d', s')
     \<and> vme_unmap sample_user_env (Some d') 1 s' = Some (r, s'') \<and> fds s'' = [] \<and> upages s'' = []"
proof -
  obtain d' s' where e: "vme_map sample_user_env sample_request 0 sample_process = Some (0x7f0000000340, d', s')" by (rule sample_mapped_user)
  from map_unmap_roundtrip [OF sample_process_ok(1) sample_user_env_ok e, of 1] e show ?thesis
    by (auto simp: sample_user_def)
qed

theorem user_address_reaches_vme_witness:
  "\<exists>d' s' pci. vme_map sample_user_env sample_request 0 sample_process = Some (0x7f0000000340, d', s')
     \<and> user_pci s' 0x7f0000000347 = Some pci \<and> ot_translate (otrans (tsi (bridge s')) ! 2) pci = 0x8012347"
proof -
  obtain d' s' where e: "vme_map sample_user_env sample_request 0 sample_process = Some (0x7f0000000340, d', s')" by (rule sample_mapped_user)
  have "first_match sample_request sample_state1 = Some 2" by code_simp
  then have m: "first_match sample_request (win_view (bridge sample_process)) = Some 2" by (simp add: sample_user_def win_view_def)
  have "plain_window (desc (window_table sample_state1 ! 2))" by (rule sample_plain1)
  then have p: "plain_window (desc (window_table (win (bridge sample_process)) ! 2))" by (simp add: sample_user_def)
  have r: "vme_addrl sample_request = 0x8012340" "sizel sample_request = 0x200" by (simp_all add: sample_request_def)
  from user_address_reaches_vme [OF sample_process_ok(1) sample_user_env_ok sample_process_ok(2) e _ m p, of 7] e show ?thesis
    by (auto simp: r)
qed

text \<open>The CES emulation gives up without closing the device it opened: when no mapping is found, the
  descriptor stays open.\<close>

theorem controller_leaks_fd:
  "map_option (\<lambda>(va, d, s). (va, map fst (fds s), descs s))
     (lib_find_controller (sample_user_env\<lparr>mmap_area := (\<lambda>ps len. None)\<rparr>) 0x8000000 0x10000 0x09 4 False (sample_user tab st))
   = Some (0, [3], 0)"
  by code_simp

end
