(* ===== verification/C_Strings.thy ===== *)
theory C_Strings
  imports Prelude
begin

text \<open>
  What the MTT tools (\<open>src/mttn/tools\<close>) use of the C library on strings: \<open>strtoul\<close> with base 0, the
  \<open>%X\<close> and \<open>%d\<close> conversions of \<open>printf\<close>, \<open>fgets\<close> and bounded \<open>sprintf\<close> buffers. A C string is the list
  of its characters before the terminating NUL; a pointer into a string is the remaining suffix. The
  tools are built for ILP32 targets (\<open>ppc4\<close>, \<open>L865\<close>), so \<open>long\<close> and \<open>unsigned long\<close> are 32 bits wide.
\<close>

subsection \<open>Numbers in text\<close>

definition isspace :: "char \<Rightarrow> bool" where
  "isspace c \<longleftrightarrow> c \<in> {CHR '' '', CHR 0x09, CHR 0x0A, CHR 0x0B, CHR 0x0C, CHR 0x0D}"

text \<open>The value of a digit of any base up to 36.\<close>

definition digit_val :: "char \<Rightarrow> nat option" where
  "digit_val c = (let n = of_char c :: nat in
     if 48 \<le> n \<and> n \<le> 57 then Some (n - 48)
     else if 65 \<le> n \<and> n \<le> 90 then Some (n - 55)
     else if 97 \<le> n \<and> n \<le> 122 then Some (n - 87)
     else None)"

definition is_digit :: "nat \<Rightarrow> char \<Rightarrow> bool" where
  "is_digit b c \<longleftrightarrow> (case digit_val c of Some d \<Rightarrow> d < b | None \<Rightarrow> False)"

fun read_digits :: "nat \<Rightarrow> nat \<Rightarrow> string \<Rightarrow> nat \<times> string" where
  "read_digits b acc [] = (acc, [])"
| "read_digits b acc (c # cs) =
     (if is_digit b c then read_digits b (acc * b + the (digit_val c)) cs else (acc, c # cs))"

definition read_sign :: "string \<Rightarrow> bool \<times> string" where
  "read_sign s = (case s of
     c # cs \<Rightarrow> if c = CHR ''-'' then (True, cs) else if c = CHR ''+'' then (False, cs) else (False, s)
   | [] \<Rightarrow> (False, s))"

text \<open>Base 0: \<open>0x\<close> before a hexadecimal digit is base 16, a leading 0 is octal.\<close>

definition read_base :: "string \<Rightarrow> nat \<times> string" where
  "read_base s =
     (if take 1 s = ''0'' then
        (case drop 1 s of
           x # d # ds \<Rightarrow> if (x = CHR ''x'' \<or> x = CHR ''X'') \<and> is_digit 16 d then (16, d # ds) else (8, s)
         | _ \<Rightarrow> (8, s))
      else (10, s))"

text \<open>\<open>strtoul (cp, &ep, 0)\<close>: the value and \<open>ep\<close>. Without digits \<open>ep\<close> is \<open>cp\<close> and the value 0; a number
  that does not fit gives \<open>ULONG_MAX\<close>.\<close>

definition strtoul :: "string \<Rightarrow> u32 \<times> string" where
  "strtoul cp =
     (let (neg, s1) = read_sign (dropWhile isspace cp);
          (b, s2) = read_base s1;
          (v, ep) = read_digits b 0 s2
      in if ep = s2 then (0, cp)
         else (if v \<ge> 2 ^ 32 then -1 else if neg then - of_nat v else of_nat v, ep))"

subsection \<open>Printing\<close>

definition digit_char :: "nat \<Rightarrow> char" where
  "digit_char n = char_of (if n < 10 then 48 + n else 55 + n)"

fun to_base :: "nat \<Rightarrow> nat \<Rightarrow> string" where
  "to_base b n = (if n < b \<or> b < 2 then [digit_char n] else to_base b (n div b) @ [digit_char (n mod b)])"

declare to_base.simps [simp del]

definition fmt_X :: "u32 \<Rightarrow> string" where
  "fmt_X w = to_base 16 (unat w)"

definition fmt_x :: "u32 \<Rightarrow> string" where
  "fmt_x w = map (\<lambda>c. if 65 \<le> (of_char c :: nat) then char_of ((of_char c :: nat) + 32) else c) (fmt_X w)"

definition fmt_d :: "u32 \<Rightarrow> string" where
  "fmt_d w = (if sint w < 0 then ''-'' @ to_base 10 (nat (- sint w)) else to_base 10 (nat (sint w)))"

definition pad_left :: "nat \<Rightarrow> char \<Rightarrow> string \<Rightarrow> string" where
  "pad_left n c s = replicate (n - length s) c @ s"

text \<open>\<open>sprintf\<close> into a buffer of \<open>n\<close> bytes: nothing when the text and its NUL do not fit.\<close>

definition sprintf_buf :: "nat \<Rightarrow> string \<Rightarrow> string option" where
  "sprintf_buf n s = (if length s < n then Some s else None)"

subsection \<open>Lines\<close>

text \<open>\<open>fgets (ln, n, f)\<close> on what is left of a file: at most \<open>n - 1\<close> characters, up to a newline.\<close>

fun read_line :: "nat \<Rightarrow> string \<Rightarrow> string \<times> string" where
  "read_line 0 s = ([], s)"
| "read_line (Suc n) [] = ([], [])"
| "read_line (Suc n) (c # cs) =
     (if c = CHR 0x0A then ([c], cs) else (let (l, r) = read_line n cs in (c # l, r)))"

definition fgets :: "nat \<Rightarrow> string \<Rightarrow> (string \<times> string) option" where
  "fgets n s = (if s = [] then None else Some (read_line (n - 1) s))"

subsection \<open>Printing and reading numbers\<close>

lemma digit_val_char: "n < 36 \<Longrightarrow> digit_val (digit_char n) = Some n"
  by (auto simp: digit_val_def digit_char_def Let_def of_char_of take_bit_eq_mod)

lemma is_digit_char: "n < b \<Longrightarrow> b \<le> 36 \<Longrightarrow> is_digit b (digit_char n)"
  by (simp add: is_digit_def digit_val_char)

lemma read_digits_to_base:
  "2 \<le> b \<Longrightarrow> b \<le> 36 \<Longrightarrow>
   read_digits b a (to_base b n @ r) = read_digits b (a * b ^ length (to_base b n) + n) r"
proof (induction b n arbitrary: a r rule: to_base.induct)
  case (1 b n)
  show ?case
  proof (cases "n < b")
    case True
    with "1.prems" show ?thesis
      by (simp add: to_base.simps [of b n] is_digit_char digit_val_char)
  next
    case False
    with "1.prems" have "read_digits b a (to_base b n @ r)
        = read_digits b (a * b ^ length (to_base b (n div b)) + n div b) (digit_char (n mod b) # r)"
      using "1.IH" by (simp add: to_base.simps [of b n])
    moreover have "digit_val (digit_char (n mod b)) = Some (n mod b)"
      using "1.prems" by (intro digit_val_char) (simp add: less_le_trans [of _ b])
    ultimately show ?thesis using False "1.prems"
      by (simp add: to_base.simps [of b n] is_digit_char algebra_simps)
  qed
qed

lemma read_digits_stop: "r = [] \<or> \<not> is_digit b (hd r) \<Longrightarrow> read_digits b a r = (a, r)"
  by (cases r) auto

lemma to_base_not_Nil [simp]: "to_base b n \<noteq> []"
  by (subst to_base.simps) simp

lemma to_base_hd: "2 \<le> b \<Longrightarrow> b \<le> 36 \<Longrightarrow> \<exists>d < b. hd (to_base b n) = digit_char d \<and> (d = 0 \<longrightarrow> n = 0)"
proof (induction b n rule: to_base.induct)
  case (1 b n)
  show ?case
  proof (cases "n < b")
    case True
    then show ?thesis by (auto simp: to_base.simps [of b n])
  next
    case False
    with 1 show ?thesis by (simp add: to_base.simps [of b n] div_eq_0_iff)
  qed
qed

lemma length_to_base: "2 \<le> b \<Longrightarrow> n < b ^ Suc k \<Longrightarrow> length (to_base b n) \<le> Suc k"
proof (induction k arbitrary: n)
  case 0
  then show ?case by (simp add: to_base.simps [of b n])
next
  case (Suc k)
  then have "n div b < b ^ Suc k" by (intro less_mult_imp_div_less) (simp add: mult.commute)
  with Suc show ?case by (simp add: to_base.simps [of b n])
qed

lemma digit_char_not_special: "d < 36 \<Longrightarrow>
   \<not> isspace (digit_char d) \<and> digit_char d \<noteq> CHR ''-'' \<and> digit_char d \<noteq> CHR ''+''"
proof -
  assume d: "d < 36"
  have "isspace c \<or> c = CHR ''-'' \<or> c = CHR ''+'' \<Longrightarrow> digit_val c = None" for c
    by (auto simp: isspace_def digit_val_def)
  with digit_val_char [OF d] show ?thesis by force
qed

text \<open>A hexadecimal number printed with \<open>0x%X\<close> is read back, whatever follows it.\<close>

lemma strtoul_hex:
  assumes "r = [] \<or> \<not> is_digit 16 (hd r)"
  shows "strtoul (''0x'' @ fmt_X w @ r) = (w, r)"
proof -
  obtain d ds where h: "fmt_X w = d # ds" unfolding fmt_X_def by (cases "to_base 16 (unat w)") auto
  obtain k where k: "k < 16" "d = digit_char k"
    using to_base_hd [of 16 "unat w"] h by (auto simp: fmt_X_def)
  have b: "read_base (''0x'' @ fmt_X w @ r) = (16, fmt_X w @ r)"
    using k h by (simp add: read_base_def is_digit_char)
  have v: "read_digits 16 0 (fmt_X w @ r) = (unat w, r)"
    using read_digits_to_base [of 16 0 "unat w" r] read_digits_stop [OF assms] by (simp add: fmt_X_def)
  have "unat w < 2 ^ 32" using unat_u32_bound [of w] by simp
  with b v h show ?thesis by (simp add: strtoul_def read_sign_def isspace_def)
qed

lemma strtoul_space: "isspace c \<Longrightarrow> strtoul cs = (v, ep) \<Longrightarrow> ep \<noteq> cs \<Longrightarrow> strtoul (c # cs) = (v, ep)"
  by (auto simp: strtoul_def Let_def split: prod.splits if_splits)

text \<open>Decimal numbers without a leading zero.\<close>

lemma strtoul_dec:
  assumes "0 < n" and "n < 2 ^ 32" and "r = [] \<or> \<not> is_digit 10 (hd r)"
  shows "strtoul (to_base 10 n @ r) = (of_nat n, r)"
proof -
  obtain d ds where h: "to_base 10 n = d # ds" by (cases "to_base 10 n") auto
  obtain k where k: "k < 10" "d = digit_char k" "k \<noteq> 0"
    using to_base_hd [of 10 n] h assms(1) by auto
  have "d \<noteq> CHR ''0''"
  proof
    assume "d = CHR ''0''"
    then have "digit_val d = Some 0" by (simp add: digit_val_def)
    with k digit_val_char [of k] show False by simp
  qed
  then have b: "read_base (to_base 10 n @ r) = (10, to_base 10 n @ r)"
    using h by (simp add: read_base_def)
  have v: "read_digits 10 0 (to_base 10 n @ r) = (n, r)"
    using read_digits_to_base [of 10 0 n r] read_digits_stop [OF assms(3)] by simp
  have "\<not> isspace d" "d \<noteq> CHR ''-''" "d \<noteq> CHR ''+''"
    using digit_char_not_special [of k] k by auto
  with b v h assms(2) show ?thesis by (simp add: strtoul_def read_sign_def)
qed

text \<open>\<open>strtoul\<close> never moves backwards, and moves past a leading digit.\<close>

lemma read_digits_length: "length (snd (read_digits b a s)) \<le> length s"
  by (induction b a s rule: read_digits.induct) auto

lemma read_sign_length: "length (snd (read_sign s)) \<le> length s"
  by (auto simp: read_sign_def split: list.splits)

lemma read_base_length: "length (snd (read_base s)) \<le> length s"
proof -
  have "drop 1 s = x # d # ds \<Longrightarrow> Suc (length ds) \<le> length s" for x d ds
    by (metis length_drop length_Cons diff_le_self Suc_leD)
  then show ?thesis by (simp add: read_base_def split: list.split)
qed

lemma strtoul_length: "length (snd (strtoul s)) \<le> length s"
  unfolding strtoul_def Let_def
  using read_sign_length [of "dropWhile isspace s"] length_dropWhile_le [of isspace s]
    read_base_length [of "snd (read_sign (dropWhile isspace s))"]
    read_digits_length [of "fst (read_base (snd (read_sign (dropWhile isspace s))))" 0
       "snd (read_base (snd (read_sign (dropWhile isspace s))))"]
  by (auto split: prod.splits)

end
