(* ===== verification/Mtt_Opcodes.thy ===== *)
theory Mtt_Opcodes
  imports C_Strings
begin

text \<open>
  The instruction set and the registers of the MTT sequencer as the assembler and the emulator share
  them: \<open>include/asm.h\<close>, \<open>include/opcodes.h\<close>, \<open>lib/opcodes.c\<close>, the character classes of \<open>tools/asmP.h\<close>, and
  the routines that both tools have a copy of (\<open>StrToUpper\<close>, \<open>TabTo\<close>, register names, object files).
\<close>

subsection \<open>Instructions\<close>

datatype ArgType = AtNothing | AtLiteral | AtAddress | AtRegister

text \<open>\<open>IdNumber\<close>: the opcodes, and the byte each is encoded by.\<close>

datatype IdNumber =
    HALT | NOOP | INT_op | WEQV | WEQR | WRLV | WRLR | WORV | WORR
  | MOVV | MOVR | MOVIR | MOVRI | ADDV | ADDR | SUBV | SUBR | LORV
  | LORR | ANDV | ANDR | XORV | XORR | LSV | LSR | RSV | RSR
  | WDOG | JMP | BEQ | BNE | BLT | BGT | BLE | BGE | BCR

primrec id_number :: "IdNumber \<Rightarrow> u8" where
  "id_number HALT = 0x00"
| "id_number NOOP = 0x4d"
| "id_number INT_op = 0xc1"
| "id_number WEQV = 0x91"
| "id_number WEQR = 0x11"
| "id_number WRLV = 0x92"
| "id_number WRLR = 0x12"
| "id_number WORV = 0x93"
| "id_number WORR = 0x13"
| "id_number MOVV = 0xe2"
| "id_number MOVR = 0x62"
| "id_number MOVIR = 0x64"
| "id_number MOVRI = 0x65"
| "id_number ADDV = 0xe6"
| "id_number ADDR = 0x66"
| "id_number SUBV = 0xe7"
| "id_number SUBR = 0x67"
| "id_number LORV = 0xe8"
| "id_number LORR = 0x68"
| "id_number ANDV = 0xe9"
| "id_number ANDR = 0x69"
| "id_number XORV = 0xea"
| "id_number XORR = 0x6a"
| "id_number LSV = 0xeb"
| "id_number LSR = 0x6b"
| "id_number RSV = 0xec"
| "id_number RSR = 0x6c"
| "id_number WDOG = 0x34"
| "id_number JMP = 0x85"
| "id_number BEQ = 0x86"
| "id_number BNE = 0x87"
| "id_number BLT = 0x88"
| "id_number BGT = 0x89"
| "id_number BLE = 0x8a"
| "id_number BGE = 0x8b"
| "id_number BCR = 0x8c"

definition all_ids :: "IdNumber list" where
  "all_ids = [HALT, NOOP, INT_op, WEQV, WEQR, WRLV, WRLR, WORV, WORR,
     MOVV, MOVR, MOVIR, MOVRI, ADDV, ADDR, SUBV, SUBR, LORV,
     LORR, ANDV, ANDR, XORV, XORR, LSV, LSR, RSV, RSR,
     WDOG, JMP, BEQ, BNE, BLT, BGT, BLE, BGE, BCR]"

text \<open>The \<open>switch (inst->Number)\<close> of the emulator: the case label that the byte selects.\<close>

definition opcode_case :: "u8 \<Rightarrow> IdNumber option" where
  "opcode_case n = find (\<lambda>i. id_number i = n) all_ids"

record OpCode =
  op_Name :: string
  op_Comment :: string
  op_Number :: u8
  op_Src1 :: ArgType
  op_Src2 :: ArgType
  op_Dest :: ArgType

definition mk_op :: "string \<Rightarrow> string \<Rightarrow> IdNumber \<Rightarrow> ArgType \<Rightarrow> ArgType \<Rightarrow> ArgType \<Rightarrow> OpCode" where
  "mk_op n c i s1 s2 d = \<lparr>op_Name = n, op_Comment = c, op_Number = id_number i,
     op_Src1 = s1, op_Src2 = s2, op_Dest = d\<rparr>"

definition InstructionSet :: "OpCode list" where
  "InstructionSet = [
     mk_op ''HALT'' ''Stop program'' HALT AtNothing AtNothing AtNothing,
     mk_op ''NOOP'' ''No operation'' NOOP AtNothing AtNothing AtNothing,
     mk_op ''INT'' ''Interrupt[1..16]'' INT_op AtLiteral AtNothing AtNothing,
     mk_op ''WEQV'' ''Wait value equal'' WEQV AtLiteral AtRegister AtNothing,
     mk_op ''WRLV'' ''Wait value relative'' WRLV AtLiteral AtRegister AtNothing,
     mk_op ''WORV'' ''Wait value bit mask'' WORV AtLiteral AtRegister AtNothing,
     mk_op ''WEQR'' ''Wait register equal'' WEQR AtRegister AtRegister AtNothing,
     mk_op ''WRLR'' ''Wait register relative'' WRLR AtRegister AtRegister AtNothing,
     mk_op ''WORR'' ''Wait register bit mask'' WORR AtRegister AtRegister AtNothing,
     mk_op ''MOVV'' ''Load register'' MOVV AtLiteral AtNothing AtRegister,
     mk_op ''MOVR'' ''Move register'' MOVR AtRegister AtNothing AtRegister,
     mk_op ''MOVIR'' ''Move Index register'' MOVIR AtRegister AtNothing AtRegister,
     mk_op ''MOVRI'' ''Move register Index'' MOVRI AtRegister AtRegister AtNothing,
     mk_op ''ADDR'' ''Add register'' ADDR AtRegister AtRegister AtRegister,
     mk_op ''SUBR'' ''Subtract register'' SUBR AtRegister AtRegister AtRegister,
     mk_op ''LORR'' ''Or register'' LORR AtRegister AtRegister AtRegister,
     mk_op ''ANDR'' ''And register'' ANDR AtRegister AtRegister AtRegister,
     mk_op ''XORR'' ''ExclusiveOr register'' XORR AtRegister AtRegister AtRegister,
     mk_op ''LSR'' ''LeftShift register'' LSR AtRegister AtRegister AtRegister,
     mk_op ''RSR'' ''RightShift register'' RSR AtRegister AtRegister AtRegister,
     mk_op ''ADDV'' ''Add value'' ADDV AtLiteral AtRegister AtRegister,
     mk_op ''SUBV'' ''Subtract value'' SUBV AtLiteral AtRegister AtRegister,
     mk_op ''LORV'' ''Or value'' LORV AtLiteral AtRegister AtRegister,
     mk_op ''ANDV'' ''And value'' ANDV AtLiteral AtRegister AtRegister,
     mk_op ''XORV'' ''ExclusiveOr value'' XORV AtLiteral AtRegister AtRegister,
     mk_op ''LSV'' ''LeftShift value'' LSV AtLiteral AtRegister AtRegister,
     mk_op ''RSV'' ''RightShift value'' RSV AtLiteral AtRegister AtRegister,
     mk_op ''WDOG'' ''Watch Dod'' WDOG AtAddress AtNothing AtNothing,
     mk_op ''JMP'' ''Jump'' JMP AtAddress AtNothing AtNothing,
     mk_op ''BEQ'' ''Branch Equal'' BEQ AtAddress AtNothing AtNothing,
     mk_op ''BNE'' ''Branch NotEqual'' BNE AtAddress AtNothing AtNothing,
     mk_op ''BLT'' ''Branch LessThan'' BLT AtAddress AtNothing AtNothing,
     mk_op ''BGT'' ''Branch GreaterThan'' BGT AtAddress AtNothing AtNothing,
     mk_op ''BLE'' ''Branch LessThanEqual'' BLE AtAddress AtNothing AtNothing,
     mk_op ''BGE'' ''Branch GreaterThanEqual'' BGE AtAddress AtNothing AtNothing,
     mk_op ''BCR'' ''Branch Carry'' BCR AtAddress AtNothing AtNothing]"

record Instruction =
  Dest :: u8
  Src2 :: u8
  Number :: u8
  Crc :: u8
  Src1 :: u32

definition zero_inst :: Instruction where
  "zero_inst = \<lparr>Dest = 0, Src2 = 0, Number = 0, Crc = 0, Src1 = 0\<rparr>"

record ProgramBuf =
  LoadAddress :: u32
  InstructionCount :: u32
  Program :: "Instruction list"

text \<open>The search \<open>for (j = 0; j < OPCODES; j++) if (opcd->Number == inst->Number)\<close> of the tools.\<close>

definition find_opcode :: "u8 \<Rightarrow> OpCode option" where
  "find_opcode n = find (\<lambda>o'. op_Number o' = n) InstructionSet"

subsection \<open>Registers\<close>

record RegisterDsc =
  rg_Name :: string
  rg_Comment :: string
  rg_Start :: nat
  rg_End :: nat
  rg_Offset :: nat
  rg_LorG :: nat

definition mk_reg :: "string \<Rightarrow> string \<Rightarrow> nat \<Rightarrow> nat \<Rightarrow> nat \<Rightarrow> nat \<Rightarrow> RegisterDsc" where
  "mk_reg n c st en off lg = \<lparr>rg_Name = n, rg_Comment = c, rg_Start = st, rg_End = en,
     rg_Offset = off, rg_LorG = lg\<rparr>"

definition Regs :: "RegisterDsc list" where
  "Regs = [
     mk_reg ''GR'' ''Global'' 0 211 1 1,
     mk_reg ''OUTPUTS'' ''Control of outputs'' 212 212 0 1,
     mk_reg ''EVIN'' ''Event input'' 213 213 0 1,
     mk_reg ''EVINCNT'' ''Event input counter'' 214 214 0 1,
     mk_reg ''EVOUTCNT'' ''Event output counter'' 215 215 0 1,
     mk_reg ''EVOUTFB'' ''Event output feed back'' 216 216 0 1,
     mk_reg ''EVOUTL'' ''Event output low priority'' 217 217 0 1,
     mk_reg ''MSMR'' ''MilliSecond modulo'' 218 218 0 1,
     mk_reg ''TSYNC'' ''Time from sync'' 219 219 0 1,
     mk_reg ''VMEP2'' ''VME P2 input'' 220 220 0 1,
     mk_reg ''EVOUTH'' ''Event output high priority'' 221 221 0 1,
     mk_reg ''MSFR'' ''Free running milliSecond'' 222 222 0 1,
     mk_reg ''SYNCFR'' ''Free running Sync time'' 223 223 0 1,
     mk_reg ''INDEX'' ''Index address'' 224 224 0 2,
     mk_reg ''LR'' ''Local'' 225 255 1 2]"

subsection \<open>Character classes\<close>

datatype AtomType =
    Seperator | Operator | Open | Close | Comment | Numeric | Alpha | Open_index | Close_index
  | Illegal_char | Terminator | Bit | Op_code | Register | Expression | Not_set

definition atom_types :: "AtomType list" where
  "atom_types = [Seperator, Operator, Open, Close, Comment, Numeric, Alpha, Open_index, Close_index,
     Illegal_char, Terminator, Bit, Op_code, Register, Expression, Not_set]"

definition atomhash :: "nat list" where
  "atomhash = [
     10,9,9,9,9,9,9,9,9,0,0,9,9,0,9,9,9,9,9,9,9,9,9,9,9,9,9,9,9,9,9,9,
     0,1,9,4,9,4,1,9,2,3,1,1,0,1,11,1,5,5,5,5,5,5,5,5,5,5,1,1,1,1,1,1,
     10,6,6,6,6,6,6,6,6,6,6,6,6,6,6,6,6,6,6,6,6,6,6,6,6,6,6,7,9,8,9,6,
     9,6,6,6,6,6,6,6,6,6,6,6,6,6,6,6,6,6,6,6,6,6,6,6,6,6,6,9,9,9,1,9,
     9,9,9,9,9,9,9,9,9,9,9,9,9,9,9,9,9,9,9,9,9,9,9,9,9,9,9,9,9,9,9,9,
     9,9,9,9,9,9,9,9,9,9,9,9,9,9,9,9,9,9,9,9,9,9,9,9,9,9,9,9,9,9,9,9,
     9,9,9,9,9,9,9,9,9,9,9,9,9,9,9,9,9,9,9,9,9,9,9,9,9,9,9,9,9,9,9,9,
     9,9,9,9,9,9,9,9,9,9,9,9,9,9,9,9,9,9,9,9,9,9,9,9,9,9,9,9,9,9,9,9]"

text \<open>\<open>atomhash[(int) c]\<close>, with the unsigned \<open>char\<close> of the PowerPC target.\<close>

definition atom_type :: "char \<Rightarrow> AtomType" where
  "atom_type c = atom_types ! (atomhash ! of_char c)"

subsection \<open>Routines of both tools\<close>

definition upper_char :: "char \<Rightarrow> char" where
  "upper_char c = (if atom_type c = Alpha \<and> (of_char c :: nat) \<ge> 97 then char_of ((of_char c :: nat) - 32) else c)"

definition StrToUpper :: "string \<Rightarrow> string" where
  "StrToUpper inp = map upper_char inp"

text \<open>\<open>TabTo\<close> gives the blanks that bring a text to a column, and none when the text is already there.\<close>

definition TabTo :: "string \<Rightarrow> nat \<Rightarrow> string" where
  "TabTo cp pos = replicate (pos - length cp) CHR '' ''"

text \<open>The name of a register, formatted into a static buffer of \<open>MAX_REGISTER_STRING_LENGTH\<close> bytes:
  \<open>None\<close> when \<open>sprintf\<close> runs past its end.\<close>

definition MAX_REGISTER_STRING_LENGTH :: nat where
  "MAX_REGISTER_STRING_LENGTH = 8"

fun register_name :: "RegisterDsc list \<Rightarrow> u32 \<Rightarrow> string option" where
  "register_name [] regnum = Some ''???''"
| "register_name (reg # rs) regnum =
     (if sint regnum \<ge> int (rg_Start reg) \<and> sint regnum \<le> int (rg_End reg) then
        (let rn = nat (sint regnum) - rg_Start reg + rg_Offset reg in
         sprintf_buf MAX_REGISTER_STRING_LENGTH
           (if rg_Start reg < rg_End reg then rg_Name reg @ fmt_d (of_nat rn) else rg_Name reg))
      else register_name rs regnum)"

definition GetRegisterName :: "u32 \<Rightarrow> string option" where
  "GetRegisterName regnum = register_name Regs regnum"

definition RegToString :: "u32 \<Rightarrow> string option" where
  "RegToString regnum = register_name Regs regnum"

text \<open>The search for a register whose name begins the (upper-case) text, with the number of a range
  read from the text itself.\<close>

fun register_in_range :: "string \<Rightarrow> string \<Rightarrow> RegisterDsc list \<Rightarrow> u32 option" where
  "register_in_range text upr [] = None"
| "register_in_range text upr (reg # rs) =
     (if take (length (rg_Name reg)) upr = rg_Name reg then
        (if rg_Start reg < rg_End reg then
           (if length (rg_Name reg) < length text then
              (let cp = drop (length (rg_Name reg)) text; (rn, ep) = strtoul cp in
               if cp \<noteq> ep \<and> unat rn \<ge> rg_Offset reg
                  \<and> unat rn \<le> rg_End reg - rg_Start reg + rg_Offset reg
               then Some (of_nat (rg_Start reg) + rn - of_nat (rg_Offset reg))
               else register_in_range text upr rs)
            else register_in_range text upr rs)
         else Some (of_nat (rg_Start reg)))
      else register_in_range text upr rs)"

text \<open>\<open>LookUpRegister\<close> of the assembler (the value it gives the atom): names match exactly, or with a
  number. \<open>StringToReg\<close> of the emulator has the second search only and gives 0 for no match.\<close>

definition LookUpRegister :: "string \<Rightarrow> u32 option" where
  "LookUpRegister text =
     (if length text \<le> MAX_REGISTER_STRING_LENGTH then
        (let upr = StrToUpper text in
         case find (\<lambda>reg. upr = rg_Name reg) Regs of
           Some reg \<Rightarrow> Some (of_nat (rg_Start reg))
         | None \<Rightarrow> register_in_range text upr Regs)
      else None)"

definition StringToReg :: "string \<Rightarrow> u32" where
  "StringToReg name =
     (if length name \<le> MAX_REGISTER_STRING_LENGTH then
        (case register_in_range name (StrToUpper name) Regs of Some r \<Rightarrow> r | None \<Rightarrow> 0)
      else 0)"

text \<open>\<open>LookUpOpCode\<close>: the index in the instruction set.\<close>

definition MAX_OP_CODE_STRING_LENGTH :: nat where
  "MAX_OP_CODE_STRING_LENGTH = 8"

fun opcode_index :: "string \<Rightarrow> OpCode list \<Rightarrow> nat \<Rightarrow> nat option" where
  "opcode_index upr [] i = None"
| "opcode_index upr (o' # os) i = (if upr = op_Name o' then Some i else opcode_index upr os (Suc i))"

definition LookUpOpCode :: "string \<Rightarrow> nat option" where
  "LookUpOpCode text =
     (if length text \<le> MAX_OP_CODE_STRING_LENGTH
      then opcode_index (StrToUpper text) InstructionSet 0 else None)"

subsection \<open>Listing an instruction\<close>

text \<open>One field of an instruction in a listing; \<open>tmp\<close> is empty for a field that is not used.\<close>

definition field_text :: "ArgType \<Rightarrow> u32 \<Rightarrow> string option" where
  "field_text t v = (case t of
     AtNothing \<Rightarrow> Some []
   | AtLiteral \<Rightarrow> Some (''0x'' @ fmt_X v)
   | AtAddress \<Rightarrow> Some (''0x'' @ fmt_X v)
   | AtRegister \<Rightarrow> RegToString v)"

text \<open>\<open>InstToStr\<close> of the emulator: the name and the three fields at columns 0, 8, 16 and 24.\<close>

definition tabbed :: "string \<Rightarrow> nat \<Rightarrow> string" where
  "tabbed ln pos = ln @ TabTo ln pos"

definition InstToStr :: "Instruction \<Rightarrow> string option" where
  "InstToStr inst = (case find_opcode (Number inst) of
     None \<Rightarrow> Some []
   | Some opcd \<Rightarrow> do {
       t1 \<leftarrow> field_text (op_Src1 opcd) (Src1 inst);
       t2 \<leftarrow> field_text (op_Src2 opcd) (ucast (Src2 inst));
       t3 \<leftarrow> field_text (op_Dest opcd) (ucast (Dest inst));
       Some (tabbed (tabbed (tabbed (tabbed (op_Name opcd) 8 @ t1) 16 @ t2) 24 @ t3) 32) })"

subsection \<open>Object files\<close>

text \<open>\<open>WriteObject\<close> and \<open>ReadObject\<close>: the text of the file. \<open>ReadObject\<close> allocates \<open>InstructionCount\<close>
  instructions; those it finds no line for keep what the allocation held (\<open>junk\<close>).\<close>

definition hex_field :: "u32 \<Rightarrow> string" where
  "hex_field v = ''0x'' @ fmt_X v"

definition inst_line :: "Instruction \<Rightarrow> string" where
  "inst_line inst = hex_field (ucast (Number inst)) @ '' '' @ hex_field (Src1 inst) @ '' ''
     @ hex_field (ucast (Src2 inst)) @ '' '' @ hex_field (ucast (Dest inst)) @ '' ''
     @ hex_field (ucast (Crc inst)) @ [CHR 0x0A]"

definition WriteObject :: "ProgramBuf \<Rightarrow> string" where
  "WriteObject code =
     hex_field (LoadAddress code) @ '' '' @ hex_field (InstructionCount code) @ [CHR 0x0A]
     @ concat (map inst_line (take (unat (InstructionCount code)) (Program code)))"

definition LN :: nat where
  "LN = 128"

definition read_inst :: "string \<Rightarrow> Instruction \<Rightarrow> Instruction" where
  "read_inst ln inst =
     (let (n, ep1) = strtoul ln; (s1, ep2) = strtoul ep1; (s2, ep3) = strtoul ep2;
          (d, ep4) = strtoul ep3; (c, ep5) = strtoul ep4
      in inst\<lparr>Number := ucast n, Src1 := s1, Src2 := ucast s2, Dest := ucast d, Crc := ucast c\<rparr>)"

fun read_insts :: "Instruction list \<Rightarrow> string \<Rightarrow> Instruction list" where
  "read_insts [] f = []"
| "read_insts (inst # is) f = (case fgets LN f of
     Some (ln, f') \<Rightarrow> read_inst ln inst # read_insts is f'
   | None \<Rightarrow> inst # read_insts is f)"

definition ReadObject :: "(nat \<Rightarrow> Instruction list) \<Rightarrow> string \<Rightarrow> ProgramBuf \<Rightarrow> ProgramBuf" where
  "ReadObject junk f code =
     (let (code', f') = (case fgets LN f of
        Some (ln, r) \<Rightarrow>
          (let (la, ep) = strtoul ln; (n, ep') = strtoul ep
           in (code\<lparr>LoadAddress := la, InstructionCount := n\<rparr>, r))
      | None \<Rightarrow> (code, f))
      in code'\<lparr>Program := read_insts (junk (unat (InstructionCount code'))) f'\<rparr>)"

text \<open>The words that \<open>HexDump\<close> writes for the VHDL simulation, two per instruction.\<close>

definition hex_word :: "Instruction \<Rightarrow> u32" where
  "hex_word inst = push_bit 24 (ucast (Dest inst)) OR push_bit 16 (ucast (Src2 inst))
     OR push_bit 8 (ucast (Number inst)) OR ucast (Crc inst)"

definition hex_line :: "u32 \<Rightarrow> string" where
  "hex_line w = ''X'' @ [CHR 0x22] @ pad_left 8 CHR ''0'' (fmt_X w) @ [CHR 0x22, CHR 0x0A]"

definition HexDump :: "ProgramBuf \<Rightarrow> string" where
  "HexDump code = concat (map (\<lambda>inst. hex_line (hex_word inst) @ hex_line (Src1 inst))
     (take (unat (InstructionCount code)) (Program code)))"

end
