(* ===== verification/Mtt_Opcodes_Props.thy ===== *)
theory Mtt_Opcodes_Props
  imports Mtt_Opcodes
begin

text \<open>
  The tables of \<open>Mtt_Opcodes\<close> are consistent: opcodes and their bytes and names determine each other,
  the printed name of a register is read back, and a program survives being written to an object
  file and read again.
\<close>

subsection \<open>Tables\<close>

lemma length_InstructionSet [simp]: "length InstructionSet = 36"
  by (simp add: InstructionSet_def)

lemma id_number_inj: "id_number i = id_number j \<Longrightarrow> i = j"
  by (cases i; cases j; simp)

lemma all_ids_complete: "i \<in> set all_ids"
  by (cases i) (simp_all add: all_ids_def)

lemma opcode_case_iff: "opcode_case n = Some i \<longleftrightarrow> id_number i = n"
proof
  assume "opcode_case n = Some i"
  then show "id_number i = n" by (auto simp: opcode_case_def find_Some_iff)
next
  assume n: "id_number i = n"
  then obtain j where j: "opcode_case n = Some j"
    using all_ids_complete [of i] by (cases "opcode_case n") (auto simp: opcode_case_def find_None_iff)
  then have "id_number j = n" by (auto simp: opcode_case_def find_Some_iff)
  with n j show "opcode_case n = Some i" using id_number_inj by metis
qed

lemma opcode_case_number [simp]: "opcode_case (id_number i) = Some i"
  by (simp add: opcode_case_iff)

lemma set_InstructionSet_ids: "map op_Number InstructionSet = map id_number
   [HALT, NOOP, INT_op, WEQV, WRLV, WORV, WEQR, WRLR, WORR, MOVV, MOVR, MOVIR, MOVRI, ADDR, SUBR, LORR,
    ANDR, XORR, LSR, RSR, ADDV, SUBV, LORV, ANDV, XORV, LSV, RSV, WDOG, JMP, BEQ, BNE, BLT, BGT, BLE,
    BGE, BCR]"
  by (simp add: InstructionSet_def mk_op_def)

lemma find_distinct_nth:
  assumes "distinct (map f xs)" and "i < length xs"
  shows "find (\<lambda>x. f x = f (xs ! i)) xs = Some (xs ! i)"
proof -
  have "f (xs ! j) \<noteq> f (xs ! i)" if "j < i" for j
    using assms that nth_eq_iff_index_eq [OF assms(1), of j i] by simp
  with assms(2) show ?thesis by (auto simp: find_Some_iff intro!: exI [of _ i])
qed

lemma find_opcode_nth: "i < 36 \<Longrightarrow> find_opcode (op_Number (InstructionSet ! i)) = Some (InstructionSet ! i)"
proof -
  assume i: "i < 36"
  have "distinct (map op_Number InstructionSet)"
    unfolding set_InstructionSet_ids by simp
  with i show ?thesis unfolding find_opcode_def by (intro find_distinct_nth) simp_all
qed

lemma opcode_index_nth: "distinct (map op_Name os) \<Longrightarrow> i < length os \<Longrightarrow>
   opcode_index (op_Name (os ! i)) os k = Some (k + i)"
proof (induction os arbitrary: i k)
  case (Cons o' os)
  show ?case
  proof (cases i)
    case (Suc j)
    with Cons.prems have "op_Name (os ! j) \<in> op_Name ` set os" by simp
    with Cons Suc show ?thesis by (auto simp: image_def)
  qed simp
qed simp

lemma opcode_names: "map op_Name InstructionSet =
   [''HALT'', ''NOOP'', ''INT'', ''WEQV'', ''WRLV'', ''WORV'', ''WEQR'', ''WRLR'', ''WORR'', ''MOVV'', ''MOVR'',
    ''MOVIR'', ''MOVRI'', ''ADDR'', ''SUBR'', ''LORR'', ''ANDR'', ''XORR'', ''LSR'', ''RSR'', ''ADDV'', ''SUBV'',
    ''LORV'', ''ANDV'', ''XORV'', ''LSV'', ''RSV'', ''WDOG'', ''JMP'', ''BEQ'', ''BNE'', ''BLT'', ''BGT'', ''BLE'',
    ''BGE'', ''BCR'']"
  by (simp add: InstructionSet_def mk_op_def)

text \<open>Upper-case letters and decimal digits are left alone by \<open>StrToUpper\<close>.\<close>

lemma upper_id: "\<forall>c \<in> set s. (of_char c :: nat) < 97 \<Longrightarrow> StrToUpper s = s"
  unfolding StrToUpper_def upper_char_def by (induction s) auto

lemma opcode_name_props:
  "\<forall>n \<in> set (map op_Name InstructionSet). (\<forall>c \<in> set n. 65 \<le> (of_char c :: nat) \<and> (of_char c :: nat) \<le> 90)
     \<and> 0 < length n \<and> length n \<le> 5"
  unfolding opcode_names by simp

lemma LookUpOpCode_name:
  assumes "i < 36"
  shows "LookUpOpCode (op_Name (InstructionSet ! i)) = Some i"
proof -
  let ?n = "op_Name (InstructionSet ! i)"
  have "?n \<in> set (map op_Name InstructionSet)" using assms by simp
  with opcode_name_props have p: "\<forall>c \<in> set ?n. (of_char c :: nat) \<le> 90" "length ?n \<le> 5" by auto
  have "distinct (map op_Name InstructionSet)" unfolding opcode_names by simp
  then have "opcode_index ?n InstructionSet 0 = Some (0 + i)" using assms by (intro opcode_index_nth) simp_all
  moreover have "StrToUpper ?n = ?n" using p(1) by (intro upper_id) force
  ultimately show ?thesis using p(2) by (simp add: LookUpOpCode_def MAX_OP_CODE_STRING_LENGTH_def)
qed

subsection \<open>Register names\<close>

lemma digit_char_range: "d < 10 \<Longrightarrow> 48 \<le> (of_char (digit_char d) :: nat) \<and> (of_char (digit_char d) :: nat) \<le> 57"
  by (simp add: digit_char_def of_char_of take_bit_eq_mod)

lemma set_to_base: "2 \<le> b \<Longrightarrow> set (to_base b n) \<subseteq> digit_char ` {..<b}"
proof (induction b n rule: to_base.induct)
  case (1 b n)
  then show ?case by (cases "n < b") (auto simp: to_base.simps [of b n])
qed

lemma dec_chars: "c \<in> set (to_base 10 n) \<Longrightarrow> 48 \<le> (of_char c :: nat) \<and> (of_char c :: nat) \<le> 57"
  using set_to_base [of 10 n] digit_char_range by auto

lemma sint_of_nat_u32: "n < 2 ^ 31 \<Longrightarrow> sint (of_nat n :: u32) = int n"
  by transfer (simp add: signed_take_bit_int_eq_self)

lemma fmt_d_nat: "n < 2 ^ 31 \<Longrightarrow> fmt_d (of_nat n) = to_base 10 n"
  by (simp add: fmt_d_def sint_of_nat_u32)

text \<open>The two ranges \<open>GR1 .. GR212\<close> and \<open>LR1 .. LR31\<close>.\<close>

lemma register_name_GR: "n < 212 \<Longrightarrow> register_name Regs (of_nat n) = Some (''GR'' @ to_base 10 (Suc n))"
  using length_to_base [of 10 "Suc n" 2]
  by (simp add: Regs_def mk_reg_def sint_of_nat_u32 fmt_d_nat [of "Suc n", simplified] sprintf_buf_def
      MAX_REGISTER_STRING_LENGTH_def)

lemma register_name_LR: "n < 31 \<Longrightarrow> register_name Regs (of_nat (225 + n)) = Some (''LR'' @ to_base 10 (Suc n))"
  using length_to_base [of 10 "Suc n" 2]
  by (simp add: Regs_def mk_reg_def sint_of_nat_u32 [of "225 + n", simplified] fmt_d_nat [of "Suc n", simplified]
      sprintf_buf_def MAX_REGISTER_STRING_LENGTH_def)

lemma upper_numbered: "x \<in> {''GR'', ''LR''} \<Longrightarrow> StrToUpper (x @ to_base 10 n) = x @ to_base 10 n"
  by (rule upper_id) (auto dest: dec_chars)

lemma register_in_range_numbered:
  assumes "Suc n < 2 ^ 32"
  shows "n < 212 \<Longrightarrow> register_in_range (''GR'' @ to_base 10 (Suc n)) (''GR'' @ to_base 10 (Suc n)) Regs = Some (of_nat n)"
    and "n < 31 \<Longrightarrow> register_in_range (''LR'' @ to_base 10 (Suc n)) (''LR'' @ to_base 10 (Suc n)) Regs = Some (of_nat (225 + n))"
  using strtoul_dec [of "Suc n" "[]"] assms
  by (simp_all add: Regs_def mk_reg_def unat_word_ariths take_bit_eq_mod unsigned_of_nat)

lemma find_exact_numbered: "x \<in> {''GR'', ''LR''} \<Longrightarrow> find (\<lambda>reg. x @ to_base 10 n = rg_Name reg) Regs = None"
  by (auto simp: Regs_def mk_reg_def)

definition register_read_back :: "u32 \<Rightarrow> bool" where
  "register_read_back r \<longleftrightarrow> (case GetRegisterName r of
     None \<Rightarrow> r = 215
   | Some s \<Rightarrow> LookUpRegister s = Some r \<and> StringToReg s = (if r = 214 then 213 else r)
       \<and> r \<noteq> 215 \<and> length s < 8)"

lemma read_back_numbered:
  "n < 212 \<Longrightarrow> register_read_back (of_nat n)"
  "n < 31 \<Longrightarrow> register_read_back (of_nat (225 + n))"
proof -
  have l: "length (to_base 10 (Suc n)) \<le> 3" if "n < 999" using length_to_base [of 10 "Suc n" 2] that by simp
  have w: "(of_nat n :: u32) = of_nat k \<longleftrightarrow> n = k" if "n < 256" "k < 256" for k
    using that by (simp add: of_nat_eq_iff word_of_nat_eq_iff take_bit_eq_mod)
  show "register_read_back (of_nat n)" if n: "n < 212"
    using n l w [of 214] w [of 215] register_in_range_numbered(1) [of n] upper_numbered [of "''GR''" "Suc n"]
      find_exact_numbered [of "''GR''" "Suc n"] register_name_GR [of n]
    by (simp add: register_read_back_def GetRegisterName_def LookUpRegister_def StringToReg_def
        MAX_REGISTER_STRING_LENGTH_def Let_def)
  show "register_read_back (of_nat (225 + n))" if n: "n < 31"
  proof -
    have "(of_nat (225 + n) :: u32) = of_nat k \<longleftrightarrow> 225 + n = k" if "k < 256" for k
      using that n by (simp only: of_nat_eq_iff word_of_nat_eq_iff take_bit_eq_mod) simp
    from this [of 214] this [of 215] show ?thesis
      using n l register_in_range_numbered(2) [of n] upper_numbered [of "''LR''" "Suc n"]
        find_exact_numbered [of "''LR''" "Suc n"] register_name_LR [of n]
      by (simp add: register_read_back_def GetRegisterName_def LookUpRegister_def StringToReg_def
          MAX_REGISTER_STRING_LENGTH_def Let_def)
  qed
qed

lemma read_back_named: "n \<in> {212 ..< 225} \<Longrightarrow> register_read_back (of_nat n)"
proof -
  have "register_read_back (of_nat n)" if "n \<in> set [212 ..< 225]" for n
    using that
    by (simp add: upt_rec) (elim disjE, simp_all add: register_read_back_def GetRegisterName_def LookUpRegister_def
        StringToReg_def MAX_REGISTER_STRING_LENGTH_def Regs_def mk_reg_def sprintf_buf_def StrToUpper_def
        upper_char_def atom_type_def atom_types_def atomhash_def)
  then show "n \<in> {212 ..< 225} \<Longrightarrow> ?thesis" by (simp only: set_upt)
qed

lemma registers_read_back: "register_read_back (ucast (r :: u8))"
proof -
  have u: "(ucast r :: u32) = of_nat (unat r)" by simp
  have b: "unat r < 256" using unsigned_less [of r, where ?'a = nat] by simp
  consider "unat r < 212" | "unat r \<in> {212 ..< 225}" | "unat r = 225 + (unat r - 225)" "unat r - 225 < 31"
    using b by fastforce
  then show ?thesis
    unfolding u by cases (metis read_back_numbered read_back_named)+
qed

lemma byte_register: "unat (r :: u32) < 256 \<Longrightarrow> r = ucast (ucast r :: u8)"
proof -
  assume "unat r < 256"
  then have "unat (ucast (ucast r :: u8) :: u32) = unat r"
    by (simp only: unsigned_ucast_eq) (simp add: take_bit_eq_mod unat_mod)
  then show ?thesis by (simp only: word_unat_eq_iff)
qed

subsection \<open>Object files\<close>

lemma read_line_newline: "CHR 0x0A \<notin> set l \<Longrightarrow> length l < n \<Longrightarrow>
   read_line n (l @ CHR 0x0A # r) = (l @ [CHR 0x0A], r)"
proof (induction l arbitrary: n)
  case Nil
  then show ?case by (cases n) auto
next
  case (Cons c l)
  then show ?case by (cases n) auto
qed

lemma digit_char_not_newline: "d < 36 \<Longrightarrow> digit_char d \<noteq> CHR 0x0A"
  using digit_char_not_special [of d] by (auto simp: isspace_def)

lemma hex_field_chars: "CHR 0x0A \<notin> set (hex_field w)"
proof -
  have "CHR 0x0A \<notin> digit_char ` {..<16}"
    by (auto dest: digit_char_not_newline [OF less_trans [where y = 16]] sym)
  with set_to_base [of 16 "unat w"] show ?thesis by (auto simp: hex_field_def fmt_X_def)
qed

lemma length_fmt_X: "length (fmt_X w) \<le> 8"
  using length_to_base [of 16 "unat w" 7] unat_u32_bound [of w] by (simp add: fmt_X_def)

lemma length_hex_field: "length (hex_field w) \<le> 10"
  using length_fmt_X [of w] by (simp add: hex_field_def)

lemma isspace_not_hex: "isspace c \<Longrightarrow> \<not> is_digit b c"
  by (auto simp: isspace_def is_digit_def digit_val_def)

lemma strtoul_hex_field: "isspace c \<Longrightarrow> strtoul (hex_field w @ c # r) = (w, c # r)"
  using strtoul_hex [of "c # r" w] by (simp add: hex_field_def isspace_not_hex)

lemma strtoul_space_hex_field: "isspace c \<Longrightarrow> strtoul (CHR '' '' # hex_field w @ c # r) = (w, c # r)"
proof (rule strtoul_space)
  show "isspace CHR '' ''" by (simp add: isspace_def)
  show "isspace c \<Longrightarrow> strtoul (hex_field w @ c # r) = (w, c # r)" by (rule strtoul_hex_field)
  show "c # r \<noteq> hex_field w @ c # r" by (simp add: hex_field_def)
qed

lemma read_inst_line: "read_inst (inst_line i) j = i"
proof -
  have sp: "isspace CHR '' ''" "isspace CHR 0x0A" by (simp_all add: isspace_def)
  note s = strtoul_hex_field [OF sp(1)] strtoul_space_hex_field [OF sp(1)] strtoul_space_hex_field [OF sp(2)]
  have "ucast (ucast (b :: u8) :: u32) = b" for b
    by (rule bit_word_eqI) (auto simp: bit_simps)
  then show ?thesis by (simp add: read_inst_def inst_line_def s)
qed

lemma fgets_inst_line: "fgets LN (inst_line i @ r) = Some (inst_line i, r)"
proof -
  obtain l where l: "inst_line i = l @ [CHR 0x0A]" "CHR 0x0A \<notin> set l" "length l < 127"
    using length_hex_field [of "ucast (Number i)"] length_hex_field [of "Src1 i"]
      length_hex_field [of "ucast (Src2 i)"] length_hex_field [of "ucast (Dest i)"] length_hex_field [of "ucast (Crc i)"]
    by (simp add: inst_line_def hex_field_chars)
  then show ?thesis using read_line_newline [of l 127 r] by (simp add: fgets_def LN_def)
qed

lemma read_insts_lines: "length js = length is \<Longrightarrow> read_insts js (concat (map inst_line is) @ r) = is"
proof (induction js "is" arbitrary: r rule: list_induct2)
  case (Cons j js i "is")
  then show ?case by (simp add: fgets_inst_line read_inst_line)
qed simp

lemma object_read_back:
  assumes "length (Program code) = unat (InstructionCount code)" and "\<And>n. length (junk n) = n"
  shows "ReadObject junk (WriteObject code) c0 = code"
proof -
  let ?h = "hex_field (LoadAddress code) @ '' '' @ hex_field (InstructionCount code)"
  let ?r = "concat (map inst_line (Program code))"
  have w: "WriteObject code = ?h @ CHR 0x0A # ?r" using assms(1) by (simp add: WriteObject_def)
  have "fgets LN (?h @ CHR 0x0A # ?r) = Some (?h @ [CHR 0x0A], ?r)"
    using read_line_newline [of ?h 127 ?r] length_hex_field [of "LoadAddress code"]
      length_hex_field [of "InstructionCount code"]
    by (simp add: fgets_def LN_def hex_field_chars)
  moreover have "strtoul (?h @ [CHR 0x0A]) = (LoadAddress code, '' '' @ hex_field (InstructionCount code) @ [CHR 0x0A])"
    using strtoul_hex_field [of "CHR '' ''" "LoadAddress code" "hex_field (InstructionCount code) @ [CHR 0x0A]"]
    by (simp add: isspace_def)
  moreover have "strtoul ('' '' @ hex_field (InstructionCount code) @ [CHR 0x0A]) = (InstructionCount code, [CHR 0x0A])"
    using strtoul_space_hex_field [of "CHR 0x0A" "InstructionCount code" "[]"] by (simp add: isspace_def)
  ultimately show ?thesis
    using read_insts_lines [of "junk (unat (InstructionCount code))" "Program code" "[]"] assms
    by (simp add: ReadObject_def w)
qed

end
