(* ===== verification/Mtt_Emu.thy ===== *)
theory Mtt_Emu
  imports Mtt_Opcodes_Props
begin

text \<open>
  The emulator of the MTT sequencer, \<open>src/mttn/tools/emu.c\<close>: the registers and the processor status, one
  definition per group of cases of \<open>Execute\<close>, and the command interpreter on the lines of its standard
  input. \<open>None\<close> is undefined behaviour of the C program: an access outside an array, a shift by 32 or
  more, a text that does not fit its buffer. Signed sums wrap, as compiled.
\<close>

definition GREGS :: nat where "GREGS = 224"

definition LREGS :: nat where "LREGS = 32"

definition REGS :: nat where "REGS = GREGS + LREGS"

record emu =
  Regm :: "u32 list"
  regm :: "u32 list"
  PSwd :: u32
  Pc :: u32
  waiting :: bool
  waitr :: u32
  regwa :: u32
  Dfs :: string

definition PsEQ :: u32 where [hw_consts]: "PsEQ = 0x1"

definition PsLT :: u32 where [hw_consts]: "PsLT = 0x2"

definition PsGT :: u32 where [hw_consts]: "PsGT = 0x4"

definition PsCR :: u32 where [hw_consts]: "PsCR = 0x8"

text \<open>\<open>Regm[i]\<close> for an index of type \<open>long\<close>; an index of type \<open>unsigned char\<close> is always in range.\<close>

definition reg_at :: "emu \<Rightarrow> u32 \<Rightarrow> u32 option" where
  "reg_at e i = (if unat i < REGS then Some (Regm e ! unat i) else None)"

text \<open>The text that \<open>ShowDiffs\<close> leaves in \<open>Dfs\<close>: the first register that differs from the copy \<open>regm\<close>, and
  the register waited for.\<close>

definition diff_text :: "emu \<Rightarrow> string option" where
  "diff_text e = do {
     d \<leftarrow> (case find (\<lambda>i. regm e ! i \<noteq> Regm e ! i) [0 ..< REGS] of
         Some i \<Rightarrow> do {
           n \<leftarrow> RegToString (of_nat i);
           Some (n @ '':0x'' @ fmt_X (regm e ! i) @ ''=>0x'' @ fmt_X (Regm e ! i)) }
       | None \<Rightarrow> Some []);
     t \<leftarrow> (if waiting e then do {
           n \<leftarrow> RegToString (regwa e);
           Some (''Wait['' @ n @ ''/0x'' @ fmt_X (waitr e) @ '']'') }
         else Some []);
     Some (d @ t) }"

definition ShowDiffs :: "emu \<Rightarrow> emu option" where
  "ShowDiffs e = (case diff_text e of None \<Rightarrow> None | Some t \<Rightarrow> Some (e\<lparr>regm := Regm e, Dfs := t\<rparr>))"

definition SetPSwd :: "u32 \<Rightarrow> emu \<Rightarrow> emu" where
  "SetPSwd val e =
     (let p = 0;
          p = (if val = 0 then p OR PsEQ else p);
          p = (if sint val > 0 then p OR PsGT else p);
          p = (if sint val < 0 then p OR PsLT else p)
      in e\<lparr>PSwd := p\<rparr>)"

subsection \<open>Instructions\<close>

definition next_pc :: "emu \<Rightarrow> emu" where
  "next_pc e = e\<lparr>Pc := Pc e + 1\<rparr>"

text \<open>The wait instructions: the first execution notes the target, and each execution completes the wait
  when the condition holds.\<close>

definition wait_until :: "u32 \<Rightarrow> u32 \<Rightarrow> (emu \<Rightarrow> bool) \<Rightarrow> emu \<Rightarrow> emu option" where
  "wait_until target r done e =
     (let e1 = (if \<not> waiting e then e\<lparr>waiting := True, waitr := target, regwa := r\<rparr> else e);
          e2 = (if done e1 then next_pc (e1\<lparr>waiting := False\<rparr>) else e1)
      in ShowDiffs e2)"

definition exec_wait :: "IdNumber \<Rightarrow> Instruction \<Rightarrow> emu \<Rightarrow> emu option" where
  "exec_wait i inst e = (let r = Regm e ! unat (Src2 inst); w = ucast (Src2 inst); v = Src1 inst in
     case i of
       WEQV \<Rightarrow> wait_until v w (\<lambda>_. r = v) e
     | WEQR \<Rightarrow> do { s \<leftarrow> reg_at e v; wait_until s w (\<lambda>_. r = s) e }
     | WRLV \<Rightarrow> wait_until (r + v) w (\<lambda>e'. sint r \<ge> sint (waitr e')) e
     | WRLR \<Rightarrow> (if waiting e then wait_until 0 w (\<lambda>e'. sint r \<ge> sint (waitr e')) e
                else do { s \<leftarrow> reg_at e v; wait_until (r + s) w (\<lambda>e'. sint r \<ge> sint (waitr e')) e })
     | WORV \<Rightarrow> wait_until v w (\<lambda>_. r AND v \<noteq> 0) e
     | WORR \<Rightarrow> do { s \<leftarrow> reg_at e v; wait_until s w (\<lambda>_. r AND s \<noteq> 0) e }
     | _ \<Rightarrow> Some e)"

text \<open>Writing a result: \<open>Regm[d] = v; SetPSwd (v); ShowDiffs (); Pc++\<close>.\<close>

definition put_result :: "nat \<Rightarrow> u32 \<Rightarrow> emu \<Rightarrow> emu option" where
  "put_result d v e = do {
     e' \<leftarrow> ShowDiffs (SetPSwd v (e\<lparr>Regm := (Regm e)[d := v]\<rparr>));
     Some (next_pc e') }"

definition exec_move :: "IdNumber \<Rightarrow> Instruction \<Rightarrow> emu \<Rightarrow> emu option" where
  "exec_move i inst e = (let d = unat (Dest inst); irg = Regm e ! GREGS in
     case i of
       MOVV \<Rightarrow> put_result d (Src1 inst) e
     | MOVR \<Rightarrow> do { v \<leftarrow> reg_at e (Src1 inst); put_result d v e }
     | MOVIR \<Rightarrow> (if sint irg \<ge> 0 \<and> sint irg < int REGS then put_result d (Regm e ! unat irg) e
                 else Some (next_pc e))
     | MOVRI \<Rightarrow> (if sint irg \<ge> 0 \<and> sint irg < int REGS then put_result (unat irg) (Regm e ! d) e
                 else Some (next_pc e))
     | _ \<Rightarrow> Some e)"

definition alu :: "IdNumber \<Rightarrow> u32 \<Rightarrow> u32 \<Rightarrow> u32 option" where
  "alu i l r = (case i of
       ADDR \<Rightarrow> Some (r + l) | ADDV \<Rightarrow> Some (l + r)
     | SUBR \<Rightarrow> Some (l - r) | SUBV \<Rightarrow> Some (l - r)
     | LORR \<Rightarrow> Some (l OR r) | LORV \<Rightarrow> Some (l OR r)
     | ANDR \<Rightarrow> Some (l AND r) | ANDV \<Rightarrow> Some (l AND r)
     | XORR \<Rightarrow> Some (l XOR r) | XORV \<Rightarrow> Some (l XOR r)
     | LSR \<Rightarrow> (if unat r < 32 then Some (push_bit (unat r) l) else None)
     | LSV \<Rightarrow> (if unat r < 32 then Some (push_bit (unat r) l) else None)
     | RSR \<Rightarrow> (if unat r < 32 then Some (signed_drop_bit (unat r) l) else None)
     | RSV \<Rightarrow> (if unat r < 32 then Some (signed_drop_bit (unat r) l) else None)
     | _ \<Rightarrow> None)"

definition exec_alu_reg :: "IdNumber \<Rightarrow> Instruction \<Rightarrow> emu \<Rightarrow> emu option" where
  "exec_alu_reg i inst e = do {
     r \<leftarrow> reg_at e (Src1 inst);
     v \<leftarrow> alu i (Regm e ! unat (Src2 inst)) r;
     put_result (unat (Dest inst)) v e }"

definition exec_alu_val :: "IdNumber \<Rightarrow> Instruction \<Rightarrow> emu \<Rightarrow> emu option" where
  "exec_alu_val i inst e = do {
     v \<leftarrow> alu i (Regm e ! unat (Src2 inst)) (Src1 inst);
     put_result (unat (Dest inst)) v e }"

definition branch_taken :: "IdNumber \<Rightarrow> u32 \<Rightarrow> bool" where
  "branch_taken i p = (case i of
       JMP \<Rightarrow> True
     | BEQ \<Rightarrow> p AND PsEQ \<noteq> 0
     | BNE \<Rightarrow> p AND PsEQ = 0
     | BLT \<Rightarrow> p AND PsLT \<noteq> 0
     | BGT \<Rightarrow> p AND PsGT \<noteq> 0
     | BLE \<Rightarrow> p AND PsEQ \<noteq> 0 \<or> p AND PsLT \<noteq> 0
     | BGE \<Rightarrow> p AND PsEQ \<noteq> 0 \<or> p AND PsGT \<noteq> 0
     | BCR \<Rightarrow> p AND PsCR \<noteq> 0
     | _ \<Rightarrow> False)"

definition exec_branch :: "IdNumber \<Rightarrow> Instruction \<Rightarrow> emu \<Rightarrow> emu" where
  "exec_branch i inst e = (if branch_taken i (PSwd e) then e\<lparr>Pc := Src1 inst\<rparr> else next_pc e)"

text \<open>\<open>Execute\<close> may change the instruction itself (\<open>WDOG\<close>); a byte that is no opcode selects no case.\<close>

definition Execute :: "Instruction \<Rightarrow> emu \<Rightarrow> (Instruction \<times> emu) option" where
  "Execute inst e = (case opcode_case (Number inst) of
     None \<Rightarrow> Some (inst, e)
   | Some i \<Rightarrow>
       (if i = HALT then Some (inst, e)
        else if i \<in> {NOOP, INT_op} then Some (inst, next_pc e)
        else if i \<in> {WEQV, WEQR, WRLV, WRLR, WORV, WORR} then map_option (Pair inst) (exec_wait i inst e)
        else if i \<in> {MOVV, MOVR, MOVIR, MOVRI} then map_option (Pair inst) (exec_move i inst e)
        else if i \<in> {ADDR, SUBR, LORR, ANDR, XORR, LSR, RSR} then map_option (Pair inst) (exec_alu_reg i inst e)
        else if i \<in> {ADDV, SUBV, LORV, ANDV, XORV, LSV, RSV} then map_option (Pair inst) (exec_alu_val i inst e)
        else if i = WDOG then Some (inst\<lparr>Number := Number inst + 1\<rparr>, next_pc e)
        else Some (inst, exec_branch i inst e)))"

subsection \<open>The command interpreter\<close>

text \<open>A session: the machine, the program, the list position \<open>i\<close>, the mode (\<open>exc\<close>) and the text written to
  the standard output. The standard input is the list of the lines that \<open>fgets\<close> returns; the model ends
  when they are used up.\<close>

record session =
  mach :: emu
  prog :: ProgramBuf
  pos_i :: u32
  exc :: bool
  out :: string

definition say :: "string \<Rightarrow> session \<Rightarrow> session" where
  "say t s = s\<lparr>out := out s @ t\<rparr>"

definition nl_text :: string where
  "nl_text = [CHR 0x0A]"

definition PsToString :: "u32 \<Rightarrow> string" where
  "PsToString ps = (if PsEQ AND ps \<noteq> 0 then ''EQ.'' else ''eq.'') @ (if PsLT AND ps \<noteq> 0 then ''LT.'' else ''lt.'')
     @ (if PsGT AND ps \<noteq> 0 then ''GT.'' else ''gt.'') @ (if PsCR AND ps \<noteq> 0 then ''CR'' else ''cr'')"

text \<open>\<open>EditRegs\<close> between \<open>min\<close> and \<open>max\<close>: the rest of the input, the session.\<close>

definition edit_seek :: "u32 \<Rightarrow> nat \<Rightarrow> nat \<Rightarrow> int \<Rightarrow> int" where
  "edit_seek trv mn mx reg = (if unat trv < mx \<and> unat trv \<ge> mn then int (unat trv) else reg)"

definition edit_line :: "string \<Rightarrow> int \<Rightarrow> nat \<Rightarrow> nat \<Rightarrow> session \<Rightarrow> int \<times> session" where
  "edit_line ln reg mn mx s =
     (let c = take 1 ln; cp = (if c = ''/'' then drop 1 ln else ln) in
      if c = ''/'' \<and> snd (strtoul cp) \<noteq> cp then (edit_seek (fst (strtoul cp) + of_nat mn) mn mx reg, s)
      else if c = ''/'' \<and> length ln > 1 then (edit_seek (StringToReg cp) mn mx reg, s)
      else if c = nl_text then
        (if reg + 1 \<ge> int mx then (int mn, say nl_text s) else (reg + 1, s))
      else if snd (strtoul cp) \<noteq> cp then
        (reg, s\<lparr>mach := (mach s)\<lparr>regm := (regm (mach s))[nat reg := fst (strtoul cp)],
                               Regm := (Regm (mach s))[nat reg := fst (strtoul cp)]\<rparr>\<rparr>)
      else (reg, s))"

fun EditRegs :: "string list \<Rightarrow> int \<Rightarrow> nat \<Rightarrow> nat \<Rightarrow> session \<Rightarrow> (string list \<times> session) option" where
  "EditRegs lns reg mn mx s =
     (if reg < 0 \<or> reg \<ge> int REGS then None
      else case RegToString (of_int reg) of
        None \<Rightarrow> None
      | Some n \<Rightarrow>
          (let s1 = say (pad_left 3 CHR ''0'' (to_base 10 (nat reg)) @ '':'' @ n @ '' 0x''
                 @ fmt_x (Regm (mach s) ! nat reg) @ '': '') s
           in case lns of
                [] \<Rightarrow> Some ([], s1)
              | ln # rest \<Rightarrow>
                  if take 1 ln = ''.'' then Some (rest, s1)
                  else (let (reg', s2) = edit_line ln reg mn mx s1 in EditRegs rest reg' mn mx s2)))"

declare EditRegs.simps [simp del]

definition EditGlobalReg :: "string list \<Rightarrow> int \<Rightarrow> session \<Rightarrow> (string list \<times> session) option" where
  "EditGlobalReg lns reg s = (if reg \<ge> int GREGS then Some (lns, s) else EditRegs lns reg 0 GREGS s)"

definition EditLocalReg :: "string list \<Rightarrow> int \<Rightarrow> session \<Rightarrow> (string list \<times> session) option" where
  "EditLocalReg lns reg s =
     (if reg \<ge> int REGS \<or> reg < int GREGS then Some (lns, s) else EditRegs lns reg GREGS REGS s)"

text \<open>One instruction at the program counter: \<open>code->Program[Pc - code->LoadAddress]\<close>.\<close>

definition exec_pc :: "session \<Rightarrow> session option" where
  "exec_pc s =
     (let pc = unat (Pc (mach s) - LoadAddress (prog s)) in
      if pc < length (Program (prog s)) then do {
        (inst, e) \<leftarrow> Execute (Program (prog s) ! pc) (mach s);
        txt \<leftarrow> InstToStr inst;
        Some (say (''ExPc:'' @ pad_left 4 CHR ''0'' (fmt_X (Pc (mach s))) @ '':'' @ txt @ '' ''
                   @ PsToString (PSwd e) @ '' '' @ Dfs e @ '' '')
          (s\<lparr>mach := e\<lparr>Dfs := []\<rparr>, prog := (prog s)\<lparr>Program := (Program (prog s))[pc := inst]\<rparr>\<rparr>)) }
      else None)"

fun exec_pcs :: "nat \<Rightarrow> session \<Rightarrow> session option" where
  "exec_pcs 0 s = Some s"
| "exec_pcs (Suc n) s = do { s' \<leftarrow> exec_pc s; exec_pcs n (if n = 0 then s' else say nl_text s') }"

text \<open>The commands.\<close>

definition in_program :: "u32 \<Rightarrow> ProgramBuf \<Rightarrow> bool" where
  "in_program pc c \<longleftrightarrow> pc \<ge> LoadAddress c \<and> pc < LoadAddress c + InstructionCount c"

definition cmd_execute :: "string \<Rightarrow> session \<Rightarrow> session option" where
  "cmd_execute cp s =
     (let s1 = (if \<not> exc s then say ''MODE:ExPc (Execute PC mode)'' (s\<lparr>exc := True\<rparr>) else s);
          cnt = sint (fst (strtoul cp))
      in exec_pcs (if cnt \<le> 0 then 1 else nat cnt) (say nl_text s1))"

definition cmd_pc :: "string \<Rightarrow> session \<Rightarrow> session option" where
  "cmd_pc cp s =
     (let pc = fst (strtoul cp) in
      if in_program pc (prog s) then
        (if unat (pc - LoadAddress (prog s)) < length (Program (prog s)) then do {
           txt \<leftarrow> InstToStr (Program (prog s) ! unat (pc - LoadAddress (prog s)));
           Some (say (nl_text @ ''PC:'' @ pad_left 6 CHR ''0'' (fmt_X pc) @ '': '' @ txt @ nl_text @ nl_text)
             (s\<lparr>mach := (mach s)\<lparr>waitr := 0, Pc := pc\<rparr>\<rparr>)) }
         else None)
      else Some (say (nl_text @ nl_text) s))"

definition cmd_seek :: "string \<Rightarrow> session \<Rightarrow> session" where
  "cmd_seek cp s =
     (let (pc, ep) = strtoul cp in
      if cp \<noteq> ep \<and> in_program pc (prog s) then s\<lparr>pos_i := pc - LoadAddress (prog s)\<rparr> else s)"

definition cmd_newline :: "session \<Rightarrow> session option" where
  "cmd_newline s =
     (if \<not> exc s then
        (if pos_i s + 1 \<ge> InstructionCount (prog s) then Some (say nl_text (s\<lparr>pos_i := 0\<rparr>))
         else Some (s\<lparr>pos_i := pos_i s + 1\<rparr>))
      else exec_pc s)"

definition help_text :: string where
  "help_text = concat (map (\<lambda>l. l @ nl_text)
     [''<crtn>           Next Address/Instruction/Register'',
      ''x[<count>]<crtn> Goto Execute PC Mode; Run count instructions (Default = 1)'',
      ''/<address><crtn> Goto program instruction at address'',
      ''p[<PC>]<crtn>    Change PC'',
      ''g[<reg>]<crtn>   Open global reg (Default = Last)'',
      ''l[<reg>]<crtn>   Open local reg  (Default = Last)'',
      ''<value><crtn>    Change register contents to value'',
      ''.<crtn>          Back to List Address Mode / Exit command'',
      ''?                Help''])"

text \<open>One command line: whether the emulator ends, the rest of the input, the session.\<close>

definition command :: "string \<Rightarrow> string list \<Rightarrow> session \<Rightarrow> (bool \<times> string list \<times> session) option" where
  "command ln rest s =
     (let c = (case ln of [] \<Rightarrow> CHR 0x00 | d # _ \<Rightarrow> d); cp = drop 1 ln; n = fst (strtoul cp) in
      case atom_type c of
        Bit \<Rightarrow> (if \<not> exc s then Some (True, rest, say (''Exit emulator'' @ nl_text) s)
                else Some (False, rest, say (''MODE:LsAd (List Address mode)'' @ nl_text) (s\<lparr>exc := False\<rparr>)))
      | Seperator \<Rightarrow> (if [c] = nl_text then do { s' \<leftarrow> cmd_newline s; Some (False, rest, s') }
                      else Some (False, rest, s))
      | Alpha \<Rightarrow>
          (if c = CHR ''x'' then do { s' \<leftarrow> cmd_execute cp s; Some (False, rest, s') }
           else if c = CHR ''p'' then do { s' \<leftarrow> cmd_pc cp s; Some (False, rest, s') }
           else if c = CHR ''g'' then do { (r, s') \<leftarrow> EditGlobalReg rest (sint n) s; Some (False, r, s') }
           else if c = CHR ''l'' then do {
             (r, s') \<leftarrow> EditLocalReg rest (sint (n + of_nat GREGS)) s; Some (False, r, s') }
           else Some (False, rest, s))
      | Operator \<Rightarrow> Some (False, rest,
           if c = CHR ''/'' then cmd_seek cp s else if c = CHR ''?'' then say help_text s else s)
      | _ \<Rightarrow> Some (False, rest, s))"

text \<open>The prompt of the list mode shows \<open>code->Program[i]\<close>.\<close>

definition prompt :: "session \<Rightarrow> session option" where
  "prompt s =
     (if unat (pos_i s) < length (Program (prog s)) then
        (if exc s then Some s
         else do {
           txt \<leftarrow> InstToStr (Program (prog s) ! unat (pos_i s));
           Some (say (''LsAd:'' @ pad_left 4 CHR ''0'' (fmt_X (pos_i s + LoadAddress (prog s))) @ '': '' @ txt @ '' '') s) })
      else None)"

lemma EditRegs_length: "EditRegs lns reg mn mx s = Some (r, s') \<Longrightarrow> length r \<le> length lns"
proof (induction lns reg mn mx s arbitrary: r s' rule: EditRegs.induct)
  case (1 lns reg mn mx s)
  show ?case
  proof (cases lns)
    case Nil
    with 1(2) show ?thesis
      by (auto simp: EditRegs.simps [of "[]" reg mn mx s] split: if_splits option.splits)
  next
    case (Cons ln rest)
    with 1 show ?thesis
      by (auto simp: EditRegs.simps [of "ln # rest" reg mn mx s] Let_def split: if_splits option.splits prod.splits
          intro: le_SucI)
  qed
qed

lemma command_length: "command ln rest s = Some (q, r, s') \<Longrightarrow> length r \<le> length rest"
  by (auto simp: command_def EditGlobalReg_def EditLocalReg_def Let_def split: AtomType.splits if_splits
      Option.bind_splits dest: EditRegs_length)

function Emulate_loop :: "string list \<Rightarrow> session \<Rightarrow> (string list \<times> session) option" where
  "Emulate_loop lns s = (case prompt s of
     None \<Rightarrow> None
   | Some s1 \<Rightarrow> (case lns of
       [] \<Rightarrow> Some ([], s1)
     | ln # rest \<Rightarrow> (case command ln rest s1 of
         None \<Rightarrow> None
       | Some (quit, rest', s2) \<Rightarrow> (if quit then Some (rest', s2) else Emulate_loop rest' s2))))"
  by pat_completeness auto
termination
  by (relation "measure (\<lambda>(lns, s). length lns)") (auto dest: command_length)

declare Emulate_loop.simps [simp del]

definition emu_start :: "ProgramBuf \<Rightarrow> emu" where
  "emu_start c = \<lparr>Regm = replicate REGS 0, regm = replicate REGS 0, PSwd = 0, Pc = LoadAddress c,
     waiting = False, waitr = 0, regwa = 0, Dfs = []\<rparr>"

definition emu_session :: "ProgramBuf \<Rightarrow> session" where
  "emu_session c = \<lparr>mach = emu_start c, prog = c, pos_i = 0, exc = False, out = []\<rparr>"

definition Emulate :: "ProgramBuf \<Rightarrow> string list \<Rightarrow> (string list \<times> session) option" where
  "Emulate c lns = Emulate_loop lns (emu_session c)"

end
