(* ===== verification/Mtt_Emu_Props.thy ===== *)
theory Mtt_Emu_Props
  imports Mtt_Emu
begin

text \<open>
  The emulator keeps its registers and its status word in shape, decides branches on the sign of the
  last result, and runs a program that passes a static check without ever leaving it or an array.
\<close>

definition ps_ok :: "u32 \<Rightarrow> bool" where
  "ps_ok p \<longleftrightarrow> p \<in> {0, PsEQ, PsLT, PsGT}"

definition emu_inv :: "emu \<Rightarrow> bool" where
  "emu_inv e \<longleftrightarrow> length (Regm e) = REGS \<and> regm e = Regm e \<and> ps_ok (PSwd e)"

lemma REGS_256: "REGS = 256"
  by (simp add: REGS_def GREGS_def LREGS_def)

lemma u8_in_regs [simp]: "unat (r :: u8) < REGS"
  using unsigned_less [of r, where ?'a = nat] by (simp add: REGS_256)

subsection \<open>Parts of an instruction\<close>

lemma SetPSwd_eq: "SetPSwd v e = e\<lparr>PSwd := if v = 0 then PsEQ else if sint v > 0 then PsGT else PsLT\<rparr>"
proof -
  have "sint v = 0 \<longleftrightarrow> v = 0" by (metis signed_0 signed_word_eqI)
  then show ?thesis by (auto simp: SetPSwd_def Let_def)
qed

lemma put_result_Some:
  assumes "put_result d v e = Some e'"
  obtains t where "e' = e\<lparr>Regm := (Regm e)[d := v], regm := (Regm e)[d := v],
     PSwd := if v = 0 then PsEQ else if sint v > 0 then PsGT else PsLT, Pc := Pc e + 1, Dfs := t\<rparr>"
proof -
  from assms obtain t where "e' = next_pc ((SetPSwd v (e\<lparr>Regm := (Regm e)[d := v]\<rparr>))
      \<lparr>regm := Regm (SetPSwd v (e\<lparr>Regm := (Regm e)[d := v]\<rparr>)), Dfs := t\<rparr>)"
    by (auto simp: put_result_def ShowDiffs_def split: option.splits)
  with that [of t] show ?thesis by (simp add: next_pc_def SetPSwd_eq)
qed

lemma wait_until_Some: "wait_until t r dn e = Some e' \<Longrightarrow>
   Regm e' = Regm e \<and> regm e' = Regm e \<and> PSwd e' = PSwd e"
  by (auto simp: wait_until_def next_pc_def ShowDiffs_def Let_def split: if_splits option.splits)

subsection \<open>The invariant\<close>

lemma ps_ok_result: "ps_ok (if v = 0 then PsEQ else if sint v > 0 then PsGT else PsLT)"
  by (simp add: ps_ok_def)

lemma put_result_inv: "emu_inv e \<Longrightarrow> put_result d v e = Some e' \<Longrightarrow> emu_inv e'"
  by (erule put_result_Some) (simp add: emu_inv_def ps_ok_def)

lemma exec_wait_effect: "exec_wait i inst e = Some e' \<Longrightarrow>
   (\<exists>t dn. wait_until t (ucast (Src2 inst)) dn e = Some e') \<or> e' = e"
  by (auto simp: exec_wait_def Let_def split: IdNumber.splits Option.bind_splits if_splits)

lemma exec_move_effect: "exec_move i inst e = Some e' \<Longrightarrow>
   (\<exists>d v. put_result d v e = Some e') \<or> e' = next_pc e \<or> e' = e"
  by (auto simp: exec_move_def Let_def split: IdNumber.splits Option.bind_splits if_splits)

text \<open>What an instruction can do to the machine.\<close>

definition jumped :: "emu \<Rightarrow> emu \<Rightarrow> bool" where
  "jumped e e' \<longleftrightarrow> (\<exists>p. e' = e\<lparr>Pc := p\<rparr>)"

lemma jumped_intros [simp, intro]: "jumped e e" "jumped e (next_pc e)" "jumped e (e\<lparr>Pc := p\<rparr>)"
  unfolding jumped_def by (rule exI [of _ "Pc e"], simp) (auto simp: next_pc_def)

lemma Execute_effect:
  assumes "Execute inst e = Some (inst', e')"
  shows "(\<exists>d v. put_result d v e = Some e') \<or> (\<exists>t dn. wait_until t (ucast (Src2 inst)) dn e = Some e')
     \<or> jumped e e'"
proof (cases "opcode_case (Number inst)")
  case None
  with assms show ?thesis by (simp add: Execute_def)
next
  case (Some i)
  have "exec_alu_reg i inst e = Some e' \<Longrightarrow> \<exists>d v. put_result d v e = Some e'"
    "exec_alu_val i inst e = Some e' \<Longrightarrow> \<exists>d v. put_result d v e = Some e'"
    by (auto simp: exec_alu_reg_def exec_alu_val_def split: Option.bind_splits)
  moreover have "jumped e (exec_branch i inst e)" by (simp add: exec_branch_def)
  moreover note exec_wait_effect [of i inst e e'] exec_move_effect [of i inst e e']
  ultimately show ?thesis using assms Some jumped_intros
    by (simp add: Execute_def split: if_splits) blast+
qed

lemma Execute_inv:
  assumes "emu_inv e" and "Execute inst e = Some (inst', e')"
  shows "emu_inv e'"
  using Execute_effect [OF assms(2)] assms(1)
  by (auto intro: put_result_inv) (auto simp: emu_inv_def jumped_def dest!: wait_until_Some)

subsection \<open>Names of registers\<close>

text \<open>\<open>EVOUTCNT\<close>, register 215, is the one whose name does not fit the buffer of \<open>RegToString\<close>.\<close>

lemma register_name_outside:
  "\<forall>reg \<in> set rs. \<not> (int (rg_Start reg) \<le> sint r \<and> sint r \<le> int (rg_End reg)) \<Longrightarrow> register_name rs r = Some ''???''"
  by (induction rs) auto

lemma register_name_high:
  assumes "\<not> (0 \<le> sint r \<and> sint r < 256)"
  shows "register_name Regs r = Some ''???''"
proof (rule register_name_outside, rule ballI)
  fix reg assume "reg \<in> set Regs"
  moreover have "\<forall>reg \<in> set Regs. rg_End reg < 256" by (simp add: Regs_def mk_reg_def)
  ultimately show "\<not> (int (rg_Start reg) \<le> sint r \<and> sint r \<le> int (rg_End reg))" using assms by force
qed

lemma small_sint: "0 \<le> sint (r :: u32) \<Longrightarrow> sint r < int n \<Longrightarrow> n \<le> 2 ^ 31 \<Longrightarrow> unat r < n"
proof -
  assume a: "0 \<le> sint r" "sint r < int n" "n \<le> 2 ^ 31"
  have "uint (word_of_int (sint r) :: u32) = sint r"
    using a by (simp only: uint_word_of_int take_bit_eq_mod) simp
  moreover have "word_of_int (sint r) = r" by simp
  ultimately have "uint r = sint r" by metis
  with a show "unat r < n" by (simp add: unat_eq_nat_uint nat_less_iff)
qed

lemma RegToString_None: "RegToString r = None \<longleftrightarrow> r = 215"
proof (cases "unat r < 256")
  case True
  have "register_read_back r" using registers_read_back [of "ucast r"] byte_register [OF True] by simp
  then show ?thesis
    by (auto simp: register_read_back_def RegToString_def GetRegisterName_def split: option.splits)
next
  case False
  then have "\<not> (0 \<le> sint r \<and> sint r < 256)" using small_sint [of r 256] by auto
  moreover from False have "r \<noteq> 215" by auto
  ultimately show ?thesis by (simp add: RegToString_def register_name_high)
qed

lemma RegToString_some: "r \<noteq> 215 \<Longrightarrow> \<exists>n. RegToString r = Some n"
  using RegToString_None [of r] by auto

subsection \<open>Defined instructions\<close>

text \<open>Displaying the machine is defined when the changed register and the one waited for have names.\<close>

definition wait_named :: "emu \<Rightarrow> bool" where
  "wait_named e \<longleftrightarrow> (waiting e \<longrightarrow> regwa e \<noteq> 215)"

lemma diff_text_same: "regm e = Regm e \<Longrightarrow> wait_named e \<Longrightarrow> diff_text e \<noteq> None"
proof -
  have "find (\<lambda>i. False) xs = None" for xs :: "nat list" by (simp add: find_None_iff)
  then show "regm e = Regm e \<Longrightarrow> wait_named e \<Longrightarrow> ?thesis"
    by (auto simp: diff_text_def wait_named_def RegToString_None split: Option.bind_split)
qed

lemma diff_text_one:
  assumes "length (regm e) = REGS" and "Regm e = (regm e)[d := v]" and "d < REGS" and "d \<noteq> 215" and "wait_named e"
  shows "diff_text e \<noteq> None"
proof -
  have "i = d" if "find (\<lambda>i. regm e ! i \<noteq> Regm e ! i) [0 ..< REGS] = Some i" for i
    using that assms(2) by (auto simp: find_Some_iff) (metis nth_list_update_neq)
  moreover have "(of_nat d :: u32) \<noteq> 215"
  proof
    assume "(of_nat d :: u32) = 215"
    then have "unat (of_nat d :: u32) = 215" by simp
    then show False using assms(3,4) by (simp add: REGS_256 unsigned_of_nat take_bit_eq_mod)
  qed
  ultimately show ?thesis using assms(5)
    by (auto simp: diff_text_def wait_named_def RegToString_None split: option.split Option.bind_split)
qed

lemma put_result_defined:
  assumes "emu_inv e" and "wait_named e" and "d < REGS" and "d \<noteq> 215"
  obtains e' where "put_result d v e = Some e'" "Pc e' = Pc e + 1" "wait_named e'"
proof -
  let ?e = "SetPSwd v (e\<lparr>Regm := (Regm e)[d := v]\<rparr>)"
  have "diff_text ?e \<noteq> None"
    using assms by (intro diff_text_one [of _ d v]) (simp_all add: SetPSwd_eq emu_inv_def wait_named_def)
  then obtain t where "diff_text ?e = Some t" by auto
  then have "put_result d v e = Some (next_pc (?e\<lparr>regm := Regm ?e, Dfs := t\<rparr>))"
    by (simp add: put_result_def ShowDiffs_def)
  with assms(2) that show ?thesis by (simp add: next_pc_def SetPSwd_eq wait_named_def)
qed

lemma wait_until_defined:
  assumes "emu_inv e" and "wait_named e" and "r \<noteq> 215"
  obtains e' where "wait_until t r dn e = Some e'" "Pc e' = Pc e \<or> Pc e' = Pc e + 1" "wait_named e'"
proof -
  define e1 where "e1 = (if \<not> waiting e then e\<lparr>waiting := True, waitr := t, regwa := r\<rparr> else e)"
  define e2 where "e2 = (if dn e1 then next_pc (e1\<lparr>waiting := False\<rparr>) else e1)"
  have "regm e2 = Regm e2" "wait_named e2" "Pc e2 = Pc e \<or> Pc e2 = Pc e + 1"
    using assms by (auto simp: e2_def e1_def emu_inv_def wait_named_def next_pc_def)
  moreover from this obtain x where "diff_text e2 = Some x" using diff_text_same [of e2] by auto
  ultimately show ?thesis
    using that [of "e2\<lparr>regm := Regm e2, Dfs := x\<rparr>"]
    by (simp add: wait_until_def ShowDiffs_def e1_def [symmetric] e2_def [symmetric] wait_named_def Let_def)
qed

subsection \<open>Checked programs\<close>

text \<open>
  A static check of a program: register operands are registers (and not the one without a printable
  name), branches stay in the program, shift counts are literals below 32, the register moved to by
  \<open>MOVRI\<close> cannot be told statically, and the last instruction does not fall through.
\<close>

definition arg_ok :: "ArgType \<Rightarrow> u32 \<Rightarrow> bool" where
  "arg_ok t v \<longleftrightarrow> (t = AtRegister \<longrightarrow> unat v < REGS \<and> v \<noteq> 215)"

definition branches :: "IdNumber set" where
  "branches = {JMP, BEQ, BNE, BLT, BGT, BLE, BGE, BCR}"

definition checked_inst :: "ProgramBuf \<Rightarrow> nat \<Rightarrow> Instruction \<Rightarrow> bool" where
  "checked_inst c k inst \<longleftrightarrow> (case opcode_case (Number inst) of
     None \<Rightarrow> True
   | Some i \<Rightarrow>
       (case find_opcode (Number inst) of None \<Rightarrow> False | Some opcd \<Rightarrow>
          arg_ok (op_Src1 opcd) (Src1 inst) \<and> arg_ok (op_Src2 opcd) (ucast (Src2 inst))
          \<and> arg_ok (op_Dest opcd) (ucast (Dest inst)))
       \<and> (i \<in> branches \<longrightarrow> unat (Src1 inst - LoadAddress c) < length (Program c))
       \<and> (i \<in> {LSV, RSV} \<longrightarrow> unat (Src1 inst) < 32)
       \<and> i \<notin> {LSR, RSR, MOVRI}
       \<and> (i \<notin> {HALT, JMP} \<longrightarrow> Suc k < length (Program c)))"

definition checked_program :: "ProgramBuf \<Rightarrow> bool" where
  "checked_program c \<longleftrightarrow> length (Program c) = unat (InstructionCount c)
     \<and> list_all (\<lambda>k. checked_inst c k (Program c ! k)) [0 ..< length (Program c)]"

definition session_inv :: "session \<Rightarrow> bool" where
  "session_inv s \<longleftrightarrow> emu_inv (mach s) \<and> wait_named (mach s) \<and> checked_program (prog s)
     \<and> unat (Pc (mach s) - LoadAddress (prog s)) < length (Program (prog s))"

lemma opcode_entry: "opcode_case (Number inst) = Some i \<Longrightarrow>
   \<exists>opcd. find_opcode (Number inst) = Some opcd
     \<and> (op_Src1 opcd = AtRegister \<longleftrightarrow>
        i \<in> {WEQR, WRLR, WORR, MOVR, MOVIR, MOVRI, ADDR, SUBR, LORR, ANDR, XORR, LSR, RSR})
     \<and> (op_Src2 opcd = AtRegister \<longleftrightarrow> i \<notin> {HALT, NOOP, INT_op, MOVV, MOVR, MOVIR, WDOG} \<union> branches)
     \<and> (op_Dest opcd = AtRegister \<longleftrightarrow>
        i \<notin> {HALT, NOOP, INT_op, WEQV, WRLV, WORV, WEQR, WRLR, WORR, MOVRI, WDOG} \<union> branches)"
  by (cases i) (simp_all add: opcode_case_iff find_opcode_def InstructionSet_def branches_def mk_op_def)

lemma checked_operands:
  assumes "checked_inst c k inst" and "opcode_case (Number inst) = Some i"
  shows "i \<in> {WEQR, WRLR, WORR, MOVR, MOVIR, ADDR, SUBR, LORR, ANDR, XORR} \<Longrightarrow> reg_at e (Src1 inst) \<noteq> None"
    and "i \<in> {WEQV, WEQR, WRLV, WRLR, WORV, WORR} \<Longrightarrow> (ucast (Src2 inst) :: u32) \<noteq> 215"
    and "i \<in> {MOVV, MOVR, MOVIR, ADDR, SUBR, LORR, ANDR, XORR, ADDV, SUBV, LORV, ANDV, XORV, LSV, RSV}
       \<Longrightarrow> unat (Dest inst) \<noteq> 215"
proof -
  obtain opcd where o: "find_opcode (Number inst) = Some opcd"
    and t: "op_Src1 opcd = AtRegister \<longleftrightarrow>
        i \<in> {WEQR, WRLR, WORR, MOVR, MOVIR, MOVRI, ADDR, SUBR, LORR, ANDR, XORR, LSR, RSR}"
      "op_Src2 opcd = AtRegister \<longleftrightarrow> i \<notin> {HALT, NOOP, INT_op, MOVV, MOVR, MOVIR, WDOG} \<union> branches"
      "op_Dest opcd = AtRegister \<longleftrightarrow>
        i \<notin> {HALT, NOOP, INT_op, WEQV, WRLV, WORV, WEQR, WRLR, WORR, MOVRI, WDOG} \<union> branches"
    using opcode_entry [OF assms(2)] by blast
  have a: "arg_ok (op_Src1 opcd) (Src1 inst)" "arg_ok (op_Src2 opcd) (ucast (Src2 inst))"
      "arg_ok (op_Dest opcd) (ucast (Dest inst))"
    using assms o by (simp_all add: checked_inst_def)
  show "i \<in> {WEQR, WRLR, WORR, MOVR, MOVIR, ADDR, SUBR, LORR, ANDR, XORR} \<Longrightarrow> reg_at e (Src1 inst) \<noteq> None"
    using a(1) t(1) by (auto simp: arg_ok_def reg_at_def)
  show "i \<in> {WEQV, WEQR, WRLV, WRLR, WORV, WORR} \<Longrightarrow> (ucast (Src2 inst) :: u32) \<noteq> 215"
    using a(2) t(2) by (auto simp: arg_ok_def branches_def)
  have "unat (Dest inst) = 215 \<Longrightarrow> (ucast (Dest inst) :: u32) = 215"
    by (metis of_nat_numeral of_nat_unat)
  then show "i \<in> {MOVV, MOVR, MOVIR, ADDR, SUBR, LORR, ANDR, XORR, ADDV, SUBV, LORV, ANDV, XORV, LSV, RSV}
       \<Longrightarrow> unat (Dest inst) \<noteq> 215"
    using a(3) t(3) by (auto simp: arg_ok_def branches_def)
qed

text \<open>A checked instruction is defined; the program counter moves on, stays, or takes the branch.\<close>

definition pc_move :: "Instruction \<Rightarrow> emu \<Rightarrow> emu \<Rightarrow> bool" where
  "pc_move inst e e' \<longleftrightarrow> Pc e' = Pc e
     \<or> Pc e' = Pc e + 1 \<and> (\<exists>i. opcode_case (Number inst) = Some i \<and> i \<notin> {HALT, JMP})
     \<or> Pc e' = Src1 inst \<and> (\<exists>i \<in> branches. opcode_case (Number inst) = Some i)"

lemma checked_wait_defined:
  assumes "emu_inv e" "wait_named e" "checked_inst c k inst" "opcode_case (Number inst) = Some i"
    and "i \<in> {WEQV, WEQR, WRLV, WRLR, WORV, WORR}"
  obtains e' where "exec_wait i inst e = Some e'" "wait_named e'" "pc_move inst e e'"
proof -
  have r: "(ucast (Src2 inst) :: u32) \<noteq> 215" using checked_operands(2) [OF assms(3,4,5)] .
  have "i \<in> {WEQR, WRLR, WORR} \<Longrightarrow> \<exists>v. reg_at e (Src1 inst) = Some v"
    using checked_operands(1) [OF assms(3,4)] by auto
  then obtain t dn where "exec_wait i inst e = wait_until t (ucast (Src2 inst)) dn e"
    using assms(5) by (cases "waiting e") (auto simp: exec_wait_def Let_def)
  moreover obtain e' where "wait_until t (ucast (Src2 inst)) dn e = Some e'" "wait_named e'"
      "Pc e' = Pc e \<or> Pc e' = Pc e + 1"
    using wait_until_defined [OF assms(1,2) r] by metis
  ultimately show ?thesis using that [of e'] assms(4,5) by (auto simp: pc_move_def)
qed

lemma checked_put_defined:
  assumes "emu_inv e" "wait_named e" "checked_inst c k inst" "opcode_case (Number inst) = Some i"
    and "i \<in> {MOVV, MOVR, MOVIR, ADDR, SUBR, LORR, ANDR, XORR, ADDV, SUBV, LORV, ANDV, XORV, LSV, RSV}"
  obtains e' where "put_result (unat (Dest inst)) v e = Some e'" "wait_named e'" "pc_move inst e e'"
proof -
  obtain e' where "put_result (unat (Dest inst)) v e = Some e'" "wait_named e'" "Pc e' = Pc e + 1"
    using put_result_defined [OF assms(1,2) u8_in_regs checked_operands(3) [OF assms(3,4,5)]] by metis
  then show ?thesis using that assms(4,5) by (auto simp: pc_move_def)
qed

lemma checked_move_defined:
  assumes "emu_inv e" "wait_named e" "checked_inst c k inst" "opcode_case (Number inst) = Some i"
    and "i \<in> {MOVV, MOVR, MOVIR}"
  obtains e' where "exec_move i inst e = Some e'" "wait_named e'" "pc_move inst e e'"
proof (cases "i = MOVIR \<and> \<not> (0 \<le> sint (Regm e ! GREGS) \<and> sint (Regm e ! GREGS) < int REGS)")
  case True
  then have "exec_move i inst e = Some (next_pc e)" by (auto simp: exec_move_def Let_def)
  with True assms(2,4) that [of "next_pc e"] show ?thesis by (auto simp: wait_named_def next_pc_def pc_move_def)
next
  case False
  obtain v where "exec_move i inst e = put_result (unat (Dest inst)) v e"
    using False assms(5) checked_operands(1) [OF assms(3,4), of e] by (auto simp: exec_move_def Let_def)
  with checked_put_defined [OF assms(1-4), of v] assms(5) that show ?thesis by auto
qed

lemma checked_alu_defined:
  assumes "emu_inv e" "wait_named e" "checked_inst c k inst" "opcode_case (Number inst) = Some i"
  shows "i \<in> {ADDR, SUBR, LORR, ANDR, XORR} \<Longrightarrow>
      \<exists>e'. exec_alu_reg i inst e = Some e' \<and> wait_named e' \<and> pc_move inst e e'"
    and "i \<in> {ADDV, SUBV, LORV, ANDV, XORV, LSV, RSV} \<Longrightarrow>
      \<exists>e'. exec_alu_val i inst e = Some e' \<and> wait_named e' \<and> pc_move inst e e'"
proof -
  have put: "\<exists>e'. put_result (unat (Dest inst)) v e = Some e' \<and> wait_named e' \<and> pc_move inst e e'"
    if "i \<in> {ADDR, SUBR, LORR, ANDR, XORR} \<union> {ADDV, SUBV, LORV, ANDV, XORV, LSV, RSV}" for v
    using checked_put_defined [OF assms, of v] that by auto
  have sh: "i \<in> {LSV, RSV} \<Longrightarrow> unat (Src1 inst) < 32"
    using assms(3,4) by (auto simp: checked_inst_def)
  show "\<exists>e'. exec_alu_reg i inst e = Some e' \<and> wait_named e' \<and> pc_move inst e e'"
    if "i \<in> {ADDR, SUBR, LORR, ANDR, XORR}"
    using put that checked_operands(1) [OF assms(3,4), of e] by (auto simp: exec_alu_reg_def alu_def)
  show "\<exists>e'. exec_alu_val i inst e = Some e' \<and> wait_named e' \<and> pc_move inst e e'"
    if "i \<in> {ADDV, SUBV, LORV, ANDV, XORV, LSV, RSV}"
    using put that sh by (auto simp: exec_alu_val_def alu_def)
qed

lemma Execute_groups:
  assumes "opcode_case (Number inst) = Some i"
  shows "i \<in> {WEQV, WEQR, WRLV, WRLR, WORV, WORR} \<Longrightarrow> Execute inst e = map_option (Pair inst) (exec_wait i inst e)"
    and "i \<in> {MOVV, MOVR, MOVIR, MOVRI} \<Longrightarrow> Execute inst e = map_option (Pair inst) (exec_move i inst e)"
    and "i \<in> {ADDR, SUBR, LORR, ANDR, XORR, LSR, RSR} \<Longrightarrow> Execute inst e = map_option (Pair inst) (exec_alu_reg i inst e)"
    and "i \<in> {ADDV, SUBV, LORV, ANDV, XORV, LSV, RSV} \<Longrightarrow> Execute inst e = map_option (Pair inst) (exec_alu_val i inst e)"
    and "i \<in> branches \<Longrightarrow> Execute inst e = Some (inst, exec_branch i inst e)"
  using assms by (auto simp: Execute_def branches_def)

lemma checked_Execute:
  assumes "emu_inv e" "wait_named e" "checked_inst c k inst"
  obtains inst' e' where "Execute inst e = Some (inst', e')" "wait_named e'" "pc_move inst e e'"
    "inst' = inst \<or> Number inst' = 0x35"
proof (cases "opcode_case (Number inst)")
  case None
  then show ?thesis using that [of inst e] assms(2) by (simp add: Execute_def pc_move_def)
next
  case (Some i)
  note checked = assms Some
  have j: "wait_named (next_pc e)" "i \<notin> {HALT, JMP} \<Longrightarrow> pc_move inst e (next_pc e)" "pc_move inst e e"
    using assms(2) Some by (auto simp: wait_named_def next_pc_def pc_move_def)
  have no: "i \<notin> {LSR, RSR, MOVRI}" using assms(3) Some by (auto simp: checked_inst_def)
  consider (halt) "i = HALT" | (noop) "i \<in> {NOOP, INT_op, WDOG}"
    | (wait) "i \<in> {WEQV, WEQR, WRLV, WRLR, WORV, WORR}" | (move) "i \<in> {MOVV, MOVR, MOVIR}"
    | (alur) "i \<in> {ADDR, SUBR, LORR, ANDR, XORR}" | (aluv) "i \<in> {ADDV, SUBV, LORV, ANDV, XORV, LSV, RSV}"
    | (branch) "i \<in> branches"
    using no by (cases i) (auto simp: branches_def)
  then show ?thesis
  proof cases
    case halt
    with that [of inst e] Some assms(2) j(3) show ?thesis by (simp add: Execute_def)
  next
    case noop
    then show ?thesis
      using that [of "if i = WDOG then inst\<lparr>Number := Number inst + 1\<rparr> else inst" "next_pc e"] Some j
      by (auto simp: Execute_def opcode_case_iff)
  next
    case wait
    obtain e' where "exec_wait i inst e = Some e'" "wait_named e'" "pc_move inst e e'"
      using checked_wait_defined [OF checked wait] by metis
    moreover have "Execute inst e = map_option (Pair inst) (exec_wait i inst e)"
      using Execute_groups(1) [OF Some] wait by blast
    ultimately show ?thesis using that [of inst e'] by simp
  next
    case move
    obtain e' where "exec_move i inst e = Some e'" "wait_named e'" "pc_move inst e e'"
      using checked_move_defined [OF checked move] by metis
    moreover have "Execute inst e = map_option (Pair inst) (exec_move i inst e)"
      using Execute_groups(2) [OF Some] move by blast
    ultimately show ?thesis using that [of inst e'] by simp
  next
    case alur
    have "Execute inst e = map_option (Pair inst) (exec_alu_reg i inst e)"
      using Execute_groups(3) [OF Some] alur by blast
    with checked_alu_defined(1) [OF checked alur] that [of inst] show ?thesis by auto
  next
    case aluv
    have "Execute inst e = map_option (Pair inst) (exec_alu_val i inst e)"
      using Execute_groups(4) [OF Some] aluv by blast
    with checked_alu_defined(2) [OF checked aluv] that [of inst] show ?thesis by auto
  next
    case branch
    have "pc_move inst e (exec_branch i inst e)" "wait_named (exec_branch i inst e)"
      using branch Some assms(2)
      by (auto simp: exec_branch_def pc_move_def next_pc_def wait_named_def branch_taken_def branches_def)
    with that Execute_groups(5) [OF Some branch] show ?thesis by blast
  qed
qed

lemma no_opcode: "opcode_case n = None \<Longrightarrow> find_opcode n = None"
proof -
  assume n: "opcode_case n = None"
  then have "id_number i \<noteq> n" for i using opcode_case_iff [of n i] by auto
  then have "n \<notin> set (map op_Number InstructionSet)" unfolding set_InstructionSet_ids set_map by blast
  then show ?thesis by (auto simp: find_opcode_def find_None_iff)
qed

lemma field_text_defined: "arg_ok t v \<Longrightarrow> \<exists>x. field_text t v = Some x"
  by (cases t) (auto simp: field_text_def arg_ok_def intro: RegToString_some)

lemma InstToStr_defined:
  assumes "checked_inst c k inst"
  shows "\<exists>t. InstToStr inst = Some t"
proof (cases "find_opcode (Number inst)")
  case (Some opcd)
  then obtain i where "opcode_case (Number inst) = Some i" using no_opcode by fastforce
  with assms Some have "arg_ok (op_Src1 opcd) (Src1 inst)" "arg_ok (op_Src2 opcd) (ucast (Src2 inst))"
      "arg_ok (op_Dest opcd) (ucast (Dest inst))"
    by (simp_all add: checked_inst_def)
  from this [THEN field_text_defined] Some show ?thesis by (auto simp: InstToStr_def)
qed (simp add: InstToStr_def)

lemma checked_programD:
  assumes "checked_program c"
  shows "length (Program c) < 2 ^ 32" and "k < length (Program c) \<Longrightarrow> checked_inst c k (Program c ! k)"
  using assms unat_u32_bound [of "InstructionCount c"]
  by (simp_all add: checked_program_def list_all_iff)

lemma checked_35: "Number inst = 0x35 \<Longrightarrow> checked_inst c k inst"
proof -
  have "opcode_case 0x35 = None" by (simp add: opcode_case_def all_ids_def)
  then show "Number inst = 0x35 \<Longrightarrow> ?thesis" by (simp add: checked_inst_def)
qed

lemma checked_program_update:
  assumes "checked_program c" and "inst = Program c ! k \<or> Number inst = 0x35"
  shows "checked_program (c\<lparr>Program := (Program c)[k := inst]\<rparr>)"
proof -
  have same: "checked_inst (c\<lparr>Program := (Program c)[k := inst]\<rparr>) j x = checked_inst c j x" for j x
    by (cases "opcode_case (Number x)") (simp_all add: checked_inst_def)
  have "checked_inst c j ((Program c)[k := inst] ! j)" if "j < length (Program c)" for j
    using that assms checked_programD(2) [OF assms(1)] checked_35 by (cases "j = k") auto
  with assms(1) show ?thesis by (simp add: checked_program_def list_all_iff same)
qed

lemma next_in_program:
  assumes "unat (p - l :: u32) = k" and "Suc k < n" and "n < 2 ^ 32"
  shows "unat (p + 1 - l) = Suc k"
proof -
  have "p + 1 - l = (p - l) + 1" by simp
  moreover have "unat ((p - l) + 1) = unat (p - l) + 1"
    using assms unat_add_u32 [of "p - l" 1] by simp
  ultimately show ?thesis using assms(1) by (simp only: Suc_eq_plus1)
qed

lemma pc_move_in_program:
  assumes "pc_move inst e e'" and "checked_inst c k inst" and "unat (Pc e - LoadAddress c) = k"
    and "k < length (Program c)" and "length (Program c) < 2 ^ 32"
  shows "unat (Pc e' - LoadAddress c) < length (Program c)"
proof -
  from assms(1) consider "Pc e' = Pc e" | i where "Pc e' = Pc e + 1" "opcode_case (Number inst) = Some i" "i \<notin> {HALT, JMP}"
    | i where "Pc e' = Src1 inst" "opcode_case (Number inst) = Some i" "i \<in> branches"
    unfolding pc_move_def by blast
  then show ?thesis
  proof cases
    case (2 i)
    then have "Suc k < length (Program c)" using assms(2) by (auto simp: checked_inst_def)
    with 2 next_in_program [OF assms(3) this assms(5)] show ?thesis by simp
  qed (use assms in \<open>auto simp: checked_inst_def\<close>)
qed

lemma exec_pc_checked:
  assumes "session_inv s"
  shows "\<exists>s'. exec_pc s = Some s' \<and> session_inv s'"
proof -
  let ?c = "prog s" and ?k = "unat (Pc (mach s) - LoadAddress (prog s))"
  let ?inst = "Program ?c ! ?k"
  have inv: "emu_inv (mach s)" "wait_named (mach s)" and c: "checked_program ?c" and k: "?k < length (Program ?c)"
    using assms by (auto simp: session_inv_def)
  have ci: "checked_inst ?c ?k ?inst" using checked_programD(2) [OF c k] .
  obtain inst' e' where x: "Execute ?inst (mach s) = Some (inst', e')" "wait_named e'" "pc_move ?inst (mach s) e'"
      "inst' = ?inst \<or> Number inst' = 0x35"
    using checked_Execute [OF inv ci] by blast
  have "checked_inst ?c ?k inst'" using x(4) ci checked_35 by auto
  then obtain t where "InstToStr inst' = Some t" using InstToStr_defined by blast
  moreover have "emu_inv (e'\<lparr>Dfs := []\<rparr>)" "wait_named (e'\<lparr>Dfs := []\<rparr>)"
    using Execute_inv [OF inv(1) x(1)] x(2) by (simp_all add: emu_inv_def wait_named_def)
  moreover have "unat (Pc e' - LoadAddress ?c) < length (Program ?c)"
    using pc_move_in_program [OF x(3) ci refl k checked_programD(1) [OF c]] .
  ultimately show ?thesis
    using x(1,4) k checked_program_update [OF c, of inst' ?k]
    by (simp add: exec_pc_def session_inv_def say_def Let_def)
qed

lemma exec_pcs_checked: "session_inv s \<Longrightarrow> \<exists>s'. exec_pcs n s = Some s' \<and> session_inv s'"
proof (induction n arbitrary: s)
  case (Suc n)
  from exec_pc_checked [OF Suc.prems] obtain s' where s': "exec_pc s = Some s'" "session_inv s'" by blast
  then have "session_inv (if n = 0 then s' else say nl_text s')" by (simp add: session_inv_def say_def)
  from Suc.IH [OF this] s'(1) show ?case by simp
qed simp

end
