(* ===== verification/Mtt_Emu_Spec.thy ===== *)
theory Mtt_Emu_Spec
  imports Mtt_Emu_Props
begin

text \<open>
  Properties of the emulator as a whole: the invariant under every input, runs of checked programs,
  termination of programs without loops, what branches and waits mean.
\<close>

subsection \<open>The invariant under every input\<close>

text \<open>What the interpreter keeps whatever it is told: the invariant of the machine, the place and the
  size of the program, a list position inside it.\<close>

definition ses_inv :: "ProgramBuf \<Rightarrow> session \<Rightarrow> bool" where
  "ses_inv c s \<longleftrightarrow> emu_inv (mach s) \<and> LoadAddress (prog s) = LoadAddress c
     \<and> InstructionCount (prog s) = InstructionCount c \<and> length (Program (prog s)) = length (Program c)
     \<and> (pos_i s < InstructionCount c \<or> pos_i s = 0)"

lemma ses_inv_say [simp]: "ses_inv c (say t s) \<longleftrightarrow> ses_inv c s"
  by (simp add: ses_inv_def say_def)

lemma edit_line_inv: "ses_inv c s \<Longrightarrow> edit_line ln reg mn mx s = (reg', s') \<Longrightarrow> ses_inv c s'"
  by (auto simp: edit_line_def Let_def split: if_splits) (auto simp: ses_inv_def emu_inv_def)

lemma EditRegs_inv: "ses_inv c s \<Longrightarrow> EditRegs lns reg mn mx s = Some (r, s') \<Longrightarrow> ses_inv c s'"
proof (induction lns arbitrary: reg s)
  case Nil
  then show ?case by (auto simp: EditRegs.simps [of "[]"] split: if_splits option.splits)
next
  case (Cons ln lns)
  from Cons.prems(2) show ?case
    using Cons.prems(1)
    by (auto simp: EditRegs.simps [of "ln # lns"] Let_def split: if_splits option.splits prod.splits
        intro: Cons.IH dest: edit_line_inv [of c "say t s" for t, simplified, rotated])
qed

lemma exec_pc_inv:
  assumes "ses_inv c s" and "exec_pc s = Some s'"
  shows "ses_inv c s'"
proof -
  obtain inst e t where x: "Execute (Program (prog s) ! unat (Pc (mach s) - LoadAddress (prog s))) (mach s) = Some (inst, e)"
      "s' = say t (s\<lparr>mach := e\<lparr>Dfs := []\<rparr>, prog := (prog s)\<lparr>Program :=
          (Program (prog s))[unat (Pc (mach s) - LoadAddress (prog s)) := inst]\<rparr>\<rparr>)"
    using assms(2) by (auto simp: exec_pc_def Let_def split: if_splits Option.bind_splits)
  have "emu_inv e" using Execute_inv [OF _ x(1)] assms(1) by (simp add: ses_inv_def)
  with assms(1) x(2) show ?thesis by (simp add: ses_inv_def emu_inv_def say_def)
qed

lemma exec_pcs_inv: "ses_inv c s \<Longrightarrow> exec_pcs n s = Some s' \<Longrightarrow> ses_inv c s'"
proof (induction n arbitrary: s)
  case (Suc n)
  then obtain x where "exec_pc s = Some x" "exec_pcs n (if n = 0 then x else say nl_text x) = Some s'"
    by (auto split: Option.bind_splits)
  with Suc exec_pc_inv [OF Suc.prems(1)] show ?case by (metis ses_inv_say)
qed simp

lemma cmd_inv:
  assumes "ses_inv c s"
  shows "cmd_execute cp s = Some s' \<Longrightarrow> ses_inv c s'"
    and "cmd_pc cp s = Some s' \<Longrightarrow> ses_inv c s'"
    and "cmd_newline s = Some s' \<Longrightarrow> ses_inv c s'"
    and "ses_inv c (cmd_seek cp s)"
proof -
  have "ses_inv c (s\<lparr>exc := b\<rparr>)" for b using assms by (simp add: ses_inv_def)
  with assms show "cmd_execute cp s = Some s' \<Longrightarrow> ses_inv c s'"
    unfolding cmd_execute_def Let_def by (elim exec_pcs_inv [rotated]) auto
  show "cmd_pc cp s = Some s' \<Longrightarrow> ses_inv c s'" using assms
    by (auto simp: cmd_pc_def Let_def split: if_splits Option.bind_splits) (auto simp: ses_inv_def emu_inv_def)
  show "cmd_newline s = Some s' \<Longrightarrow> ses_inv c s'" using assms exec_pc_inv [OF assms]
    by (auto simp: cmd_newline_def split: if_splits) (auto simp: ses_inv_def not_le)
  have "pc - l < n" if "l \<le> pc" "pc < l + n" for pc l n :: u32
    using that unat_add_u32_cases [of l n] unat_u32_bound [of n]
    by (auto simp: word_less_nat_alt word_le_nat_alt unat_sub split: if_splits)
  with assms show "ses_inv c (cmd_seek cp s)"
    by (auto simp: cmd_seek_def in_program_def ses_inv_def split: prod.splits)
qed

lemma command_inv: "ses_inv c s \<Longrightarrow> command ln rest s = Some (q, r, s') \<Longrightarrow> ses_inv c s'"
  by (auto simp: command_def EditGlobalReg_def EditLocalReg_def Let_def
      split: AtomType.splits if_splits Option.bind_splits dest: EditRegs_inv cmd_inv)
    (auto simp: cmd_inv ses_inv_def)

lemma prompt_inv: "ses_inv c s \<Longrightarrow> prompt s = Some s' \<Longrightarrow> ses_inv c s'"
  by (auto simp: prompt_def split: if_splits Option.bind_splits)

lemma Emulate_loop_inv: "ses_inv c s \<Longrightarrow> Emulate_loop lns s = Some (r, s') \<Longrightarrow> ses_inv c s'"
proof (induction lns s rule: Emulate_loop.induct)
  case (1 lns s)
  from 1(3) show ?case
    using 1(1) [OF _ _ _ refl refl] 1(2)
    by (auto simp: Emulate_loop.simps [of lns s] split: option.splits list.splits if_splits dest: prompt_inv)
      (metis prompt_inv command_inv)+
qed

lemma emu_session_inv: "ses_inv c (emu_session c)"
  by (simp add: ses_inv_def emu_session_def emu_start_def emu_inv_def ps_ok_def)

text \<open>C25: Whatever program and commands the emulator is given, when it reaches the end of
its input without undefined behaviour of the C code (such as an edited register number outside the
table) it has 256 registers equal to their shadow copies, a status word with at most one of its
three flags, the length and load address of the program as they were, and a listing position
inside the program or 0.\<close>

theorem emulator_invariant:
  assumes "Emulate c lns = Some (r, s)"
  shows "length (Regm (mach s)) = REGS \<and> regm (mach s) = Regm (mach s)
     \<and> PSwd (mach s) \<in> {0, PsEQ, PsLT, PsGT}
     \<and> length (Program (prog s)) = length (Program c) \<and> LoadAddress (prog s) = LoadAddress c
     \<and> (pos_i s < InstructionCount c \<or> pos_i s = 0)"
  using Emulate_loop_inv [OF emu_session_inv] assms
  by (simp add: Emulate_def ses_inv_def emu_inv_def ps_ok_def)

subsection \<open>Programs that halt\<close>

text \<open>C12: A program runs for any number of instructions without undefined behaviour and
stays such a program with the program counter inside; when its instructions name registers below
256 other than EVOUTCNT (whose name overflows the buffer of the display), none is LSR, RSR or
MOVRI (whose shift or target depends on a register), literal shifts are by less than 32, branches
go into the program and the last instruction does not fall off its end.\<close>

theorem checked_program_runs:
  assumes "checked_program c" and "Program c \<noteq> []"
  shows "\<exists>s. exec_pcs n (emu_session c) = Some s
     \<and> unat (Pc (mach s) - LoadAddress (prog s)) < length (Program (prog s)) \<and> checked_program (prog s)"
proof -
  have "session_inv (emu_session c)" using assms emu_session_inv [of c]
    by (simp add: session_inv_def ses_inv_def emu_session_def emu_start_def wait_named_def)
  from exec_pcs_checked [OF this] show ?thesis unfolding session_inv_def by blast
qed

definition waits :: "IdNumber set" where
  "waits = {WEQV, WEQR, WRLV, WRLR, WORV, WORR}"

definition forward_inst :: "ProgramBuf \<Rightarrow> nat \<Rightarrow> Instruction \<Rightarrow> bool" where
  "forward_inst c k inst \<longleftrightarrow> (case opcode_case (Number inst) of
     None \<Rightarrow> False
   | Some i \<Rightarrow> i \<notin> waits \<and> (i \<in> branches \<longrightarrow> k < unat (Src1 inst - LoadAddress c)))"

definition forward_program :: "ProgramBuf \<Rightarrow> bool" where
  "forward_program c \<longleftrightarrow> checked_program c \<and> list_all (\<lambda>k. forward_inst c k (Program c ! k)) [0 ..< length (Program c)]"

definition at_halt :: "session \<Rightarrow> bool" where
  "at_halt s \<longleftrightarrow> opcode_case (Number (Program (prog s) ! unat (Pc (mach s) - LoadAddress (prog s)))) = Some HALT"

lemma Execute_moves_on:
  assumes "Execute inst e = Some (inst', e')" and "opcode_case (Number inst) = Some i"
    and "i \<notin> waits" and "i \<noteq> HALT"
  shows "Pc e' = Pc e + 1 \<and> i \<noteq> JMP \<or> i \<in> branches \<and> Pc e' = Src1 inst"
proof -
  have p: "put_result d v e = Some e' \<Longrightarrow> Pc e' = Pc e + 1" for d v by (erule put_result_Some) simp
  consider "i \<in> {NOOP, INT_op, WDOG}" | (m) "i \<in> {MOVV, MOVR, MOVIR, MOVRI}"
    | (r) "i \<in> {ADDR, SUBR, LORR, ANDR, XORR, LSR, RSR}" | (v) "i \<in> {ADDV, SUBV, LORV, ANDV, XORV, LSV, RSV}"
    | (b) "i \<in> branches"
    using assms(3,4) by (cases i) (auto simp: branches_def waits_def)
  then show ?thesis
  proof cases
    case 1
    with assms show ?thesis by (auto simp: Execute_def next_pc_def)
  next
    case m
    with Execute_groups(2) [OF assms(2) m] assms(1) have "exec_move i inst e = Some e'" by auto
    with m show ?thesis
      by (auto simp: exec_move_def next_pc_def Let_def split: if_splits Option.bind_splits dest: p)
  next
    case r
    with Execute_groups(3) [OF assms(2) r] assms(1) show ?thesis
      by (auto simp: exec_alu_reg_def split: Option.bind_splits dest: p)
  next
    case v
    with Execute_groups(4) [OF assms(2) v] assms(1) show ?thesis
      by (auto simp: exec_alu_val_def split: Option.bind_splits dest: p)
  next
    case b
    with Execute_groups(5) [OF assms(2) b] assms(1) show ?thesis
      by (auto simp: exec_branch_def branch_taken_def next_pc_def)
  qed
qed

text \<open>One step from position \<open>k\<close>: the machine halts there or gets past it, and the instructions still to
  come are those of the program.\<close>

definition ahead :: "ProgramBuf \<Rightarrow> session \<Rightarrow> nat \<Rightarrow> bool" where
  "ahead c s k \<longleftrightarrow> session_inv s \<and> ses_inv c s \<and> k = unat (Pc (mach s) - LoadAddress c)
     \<and> (\<forall>j. k \<le> j \<longrightarrow> Program (prog s) ! j = Program c ! j)"

lemma forward_step:
  assumes "forward_program c" and "ahead c s k"
  shows "\<exists>s'. exec_pc s = Some s' \<and> (if at_halt s then ahead c s' k \<and> at_halt s' else \<exists>k' > k. ahead c s' k')"
proof -
  have inv: "session_inv s" "ses_inv c s" and k: "k = unat (Pc (mach s) - LoadAddress c)"
    and same: "\<And>j. k \<le> j \<Longrightarrow> Program (prog s) ! j = Program c ! j"
    using assms(2) by (auto simp: ahead_def)
  have l: "LoadAddress (prog s) = LoadAddress c" "length (Program (prog s)) = length (Program c)"
    using inv(2) by (auto simp: ses_inv_def)
  have kl: "k < length (Program c)" using inv(1) k l by (simp add: session_inv_def)
  let ?inst = "Program c ! k"
  obtain s' where s': "exec_pc s = Some s'" "session_inv s'" using exec_pc_checked [OF inv(1)] by blast
  have si: "ses_inv c s'" using exec_pc_inv [OF inv(2) s'(1)] .
  obtain inst' e' t where x: "Execute ?inst (mach s) = Some (inst', e')"
      "s' = say t (s\<lparr>mach := e'\<lparr>Dfs := []\<rparr>, prog := (prog s)\<lparr>Program := (Program (prog s))[k := inst']\<rparr>\<rparr>)"
    using s'(1) k l same [of k] by (auto simp: exec_pc_def Let_def split: if_splits Option.bind_splits)
  have fi: "forward_inst c k ?inst" using assms(1) kl by (simp add: forward_program_def list_all_iff)
  obtain i where i: "opcode_case (Number ?inst) = Some i" "i \<notin> waits"
      "i \<in> branches \<Longrightarrow> k < unat (Src1 ?inst - LoadAddress c)"
    using fi by (cases "opcode_case (Number ?inst)") (auto simp: forward_inst_def)
  show ?thesis
  proof (cases "i = HALT")
    case True
    then have "inst' = ?inst" "e' = mach s" using x(1) i(1) by (auto simp: Execute_def)
    moreover have "(Program (prog s))[k := ?inst] = Program (prog s)"
      using same [of k] by (metis le_refl list_update_id)
    ultimately have "prog s' = prog s" "Pc (mach s') = Pc (mach s)"
      using x(2) by (simp_all add: say_def)
    then have "ahead c s' k" "at_halt s" "at_halt s'"
      using s'(2) si same k l i(1) True by (simp_all add: ahead_def at_halt_def)
    with s'(1) show ?thesis by simp
  next
    case False
    then have "\<not> at_halt s" using i(1) same [of k] k l by (simp add: at_halt_def)
    moreover have "k < unat (Pc e' - LoadAddress c)"
      using Execute_moves_on [OF x(1) i(1,2) False]
    proof
      assume e: "Pc e' = Pc (mach s) + 1 \<and> i \<noteq> JMP"
      have "checked_inst c k ?inst" using checked_programD(2) assms(1) kl by (simp add: forward_program_def)
      then have "Suc k < length (Program c)" using i(1) False e by (auto simp: checked_inst_def)
      from next_in_program [OF k [symmetric] this checked_programD(1)] e assms(1) show ?thesis by (simp add: forward_program_def)
    qed (use i in auto)
    moreover from this have "ahead c s' (unat (Pc e' - LoadAddress c))" using s'(2) si same x(2)
      by (simp add: ahead_def say_def)
    ultimately show ?thesis using s'(1) by auto
  qed
qed

lemma ahead_say [simp]: "ahead c (say t s) k \<longleftrightarrow> ahead c s k" "at_halt (say t s) \<longleftrightarrow> at_halt s"
  by (simp_all add: ahead_def session_inv_def ses_inv_def at_halt_def say_def)

lemma halted_run:
  assumes "forward_program c"
  shows "ahead c s k \<Longrightarrow> at_halt s \<Longrightarrow> \<exists>s'. exec_pcs n s = Some s' \<and> at_halt s'"
proof (induction n arbitrary: s)
  case (Suc n)
  obtain s' where "exec_pc s = Some s'" "ahead c s' k" "at_halt s'"
    using forward_step [OF assms Suc.prems(1)] Suc.prems(2) by auto
  with Suc.IH [of "if n = 0 then s' else say nl_text s'"] show ?case by auto
qed simp

lemma forward_run:
  assumes "forward_program c"
  shows "ahead c s k \<Longrightarrow> length (Program c) \<le> n + k \<Longrightarrow> \<exists>s'. exec_pcs n s = Some s' \<and> at_halt s'"
proof (induction n arbitrary: s k)
  case 0
  then show ?case by (auto simp: ahead_def session_inv_def ses_inv_def)
next
  case (Suc n)
  show ?case
  proof (cases "at_halt s")
    case True
    with halted_run [OF assms Suc.prems(1)] show ?thesis by blast
  next
    case False
    then obtain s' k' where "exec_pc s = Some s'" "k < k'" "ahead c s' k'"
      using forward_step [OF assms Suc.prems(1)] by auto
    with Suc.IH [of "if n = 0 then s' else say nl_text s'" k'] Suc.prems(2) show ?thesis by auto
  qed
qed

lemma forward_halts:
  assumes "forward_program c" and "Program c \<noteq> []"
  shows "\<exists>s. exec_pcs (length (Program c)) (emu_session c) = Some s \<and> at_halt s"
proof -
  have "ahead c (emu_session c) 0" using assms emu_session_inv [of c]
    by (simp add: ahead_def session_inv_def ses_inv_def forward_program_def emu_session_def emu_start_def wait_named_def)
  from forward_run [OF assms(1) this] show ?thesis by simp
qed

text \<open>C13: A checked program without waits whose branches go forward reaches HALT within as
many steps as it has instructions.\<close>

theorem forward_program_halts:
  assumes "forward_program c" and "Program c \<noteq> []"
  shows "\<exists>s. exec_pcs (length (Program c)) (emu_session c) = Some s \<and> at_halt s"
  using assms by (rule forward_halts)

subsection \<open>Branches\<close>

text \<open>What a branch decides about the signed value of the last result; \<open>BCR\<close> never branches, because the
  emulator does not compute the carry.\<close>

definition branch_cond :: "IdNumber \<Rightarrow> int \<Rightarrow> bool" where
  "branch_cond j v = (case j of
     JMP \<Rightarrow> True | BEQ \<Rightarrow> v = 0 | BNE \<Rightarrow> v \<noteq> 0 | BLT \<Rightarrow> v < 0 | BGT \<Rightarrow> v > 0 | BLE \<Rightarrow> v \<le> 0 | BGE \<Rightarrow> v \<ge> 0
   | _ \<Rightarrow> False)"

text \<open>The register that an instruction writes; a move by index writes only when the index register names a
  register.\<close>

definition writers :: "IdNumber set" where
  "writers = {MOVV, MOVR, MOVIR, MOVRI, ADDV, ADDR, SUBV, SUBR, LORV, LORR, ANDV, ANDR, XORV, XORR, LSV, LSR, RSV, RSR}"

definition target_reg :: "IdNumber \<Rightarrow> Instruction \<Rightarrow> emu \<Rightarrow> nat option" where
  "target_reg i inst e = (let irg = Regm e ! GREGS in
     if i \<notin> writers \<or> i \<in> {MOVIR, MOVRI} \<and> \<not> (sint irg \<ge> 0 \<and> sint irg < int REGS) then None
     else Some (if i = MOVRI then unat irg else unat (Dest inst)))"

lemma target_reg_bound: "target_reg i inst e = Some d \<Longrightarrow> d < REGS"
  using u8_in_regs [of "Dest inst"] small_sint [of "Regm e ! GREGS" REGS] by (auto simp: target_reg_def Let_def REGS_256 split: if_splits)

lemma writer_result:
  assumes "Execute inst e = Some (inst', e')" and "opcode_case (Number inst) = Some i" and "target_reg i inst e = Some d"
  obtains v where "put_result d v e = Some e'"
proof -
  have "i \<in> writers" using assms(3) by (auto simp: target_reg_def Let_def split: if_splits)
  then consider (m) "i \<in> {MOVV, MOVR, MOVIR, MOVRI}" | (r) "i \<in> {ADDR, SUBR, LORR, ANDR, XORR, LSR, RSR}"
    | (v) "i \<in> {ADDV, SUBV, LORV, ANDV, XORV, LSV, RSV}"
    unfolding writers_def by blast
  then show ?thesis
  proof cases
    case m
    from Execute_groups(2) [OF assms(2) m] assms(1) have "exec_move i inst e = Some e'" by auto
    with m that assms(3) show ?thesis by (auto simp: exec_move_def target_reg_def Let_def split: Option.bind_splits if_splits)
  next
    case r
    with Execute_groups(3) [OF assms(2) r] assms(1) have "exec_alu_reg i inst e = Some e'" by auto
    with r that assms(3) show ?thesis by (auto simp: exec_alu_reg_def target_reg_def Let_def split: Option.bind_splits if_splits)
  next
    case v
    with Execute_groups(4) [OF assms(2) v] assms(1) have "exec_alu_val i inst e = Some e'" by auto
    with v that assms(3) show ?thesis by (auto simp: exec_alu_val_def target_reg_def Let_def split: Option.bind_splits if_splits)
  qed
qed

lemma branch_taken_result:
  "j \<in> branches \<Longrightarrow> branch_taken j (if v = 0 then PsEQ else if sint v > 0 then PsGT else PsLT) = branch_cond j (sint v)"
proof -
  have "sint v = 0 \<longleftrightarrow> v = 0" by (metis signed_0 signed_word_eqI)
  then show "j \<in> branches \<Longrightarrow> ?thesis"
    by (auto simp: branches_def branch_taken_def branch_cond_def hw_consts)
qed

text \<open>C17: After an instruction that writes a register has been executed without undefined
behaviour (a move, also by an index register that names an existing register, or an arithmetic,
logic or shift instruction), a branch is taken exactly when the signed value written satisfies its
condition (zero, not zero, negative, positive, not positive, not negative, and never for carry),
and otherwise goes to the next instruction.\<close>

theorem branch_on_last_result:
  assumes "emu_inv e" and "Execute inst e = Some (inst', e')"
    and "opcode_case (Number inst) = Some i" and "target_reg i inst e = Some d"
    and "opcode_case (Number b) = Some j" and "j \<in> branches"
  shows "Execute b e' = Some (b, e'\<lparr>Pc := if branch_cond j (sint (Regm e' ! d)) then Src1 b else Pc e' + 1\<rparr>)"
proof -
  obtain v where "put_result d v e = Some e'" using writer_result [OF assms(2-4)] .
  then have "PSwd e' = (if v = 0 then PsEQ else if sint v > 0 then PsGT else PsLT)" "Regm e' ! d = v"
    using assms(1) target_reg_bound [OF assms(4)] by (auto simp: emu_inv_def elim!: put_result_Some)
  then show ?thesis
    using Execute_groups(5) [OF assms(5,6)] branch_taken_result [OF assms(6), of v]
    by (simp add: exec_branch_def next_pc_def)
qed

subsection \<open>Waits\<close>

text \<open>A register set from outside between two executions of a wait, as the commands of \<open>EditRegs\<close> do.\<close>

definition poke :: "nat \<Rightarrow> u32 \<Rightarrow> emu \<Rightarrow> emu" where
  "poke r v e = e\<lparr>regm := (regm e)[r := v], Regm := (Regm e)[r := v]\<rparr>"

fun wait_run :: "Instruction \<Rightarrow> u32 list \<Rightarrow> emu \<Rightarrow> emu option" where
  "wait_run inst [] e = Some e"
| "wait_run inst (v # vs) e = do {
     (_, e') \<leftarrow> Execute inst (poke (unat (Src2 inst)) v e); wait_run inst vs e' }"

lemma poke_inv: "emu_inv e \<Longrightarrow> emu_inv (poke r v e)"
  by (simp add: emu_inv_def poke_def)

text \<open>The offset of a relative wait is a literal, or the value of a register when the wait starts.\<close>

definition wait_offset :: "Instruction \<Rightarrow> emu \<Rightarrow> u32 option" where
  "wait_offset inst e = (case opcode_case (Number inst) of
     Some WRLV \<Rightarrow> Some (Src1 inst) | Some WRLR \<Rightarrow> reg_at e (Src1 inst) | _ \<Rightarrow> None)"

lemma wrl_step:
  assumes "emu_inv e" and i: "opcode_case (Number inst) = Some i" "i \<in> {WRLV, WRLR}" and "Src2 inst \<noteq> 215"
    and "waiting e \<Longrightarrow> regwa e = ucast (Src2 inst) \<and> waitr e = t"
    and "\<not> waiting e \<Longrightarrow> \<exists>off. wait_offset inst (poke (unat (Src2 inst)) v e) = Some off \<and> t = v + off"
  shows "\<exists>e'. Execute inst (poke (unat (Src2 inst)) v e) = Some (inst, e') \<and> emu_inv e'
     \<and> (if sint v \<ge> sint t then \<not> waiting e' \<and> Pc e' = Pc e + 1
        else waiting e' \<and> regwa e' = ucast (Src2 inst) \<and> waitr e' = t \<and> Pc e' = Pc e)"
proof -
  let ?p = "poke (unat (Src2 inst)) v e"
  have r: "Regm ?p ! unat (Src2 inst) = v" using assms(1) by (simp add: poke_def emu_inv_def)
  have n: "(ucast (Src2 inst) :: u32) \<noteq> 215"
    using assms(4) unsigned_less [of "Src2 inst", where ?'a = nat]
    by (simp add: word_unat_eq_iff unsigned_ucast_eq take_bit_nat_eq_self)
  define e1 where "e1 = (if \<not> waiting ?p then ?p\<lparr>waiting := True, waitr := t, regwa := ucast (Src2 inst)\<rparr> else ?p)"
  define e2 where "e2 = (if sint v \<ge> sint (waitr e1) then next_pc (e1\<lparr>waiting := False\<rparr>) else e1)"
  have e1: "waiting e1" "waitr e1 = t" "regwa e1 = ucast (Src2 inst)" "emu_inv e1" "Pc e1 = Pc e"
    using assms(1,5) by (auto simp: e1_def poke_def emu_inv_def)
  then have "regm e2 = Regm e2" "wait_named e2"
    using n by (auto simp: e2_def emu_inv_def wait_named_def next_pc_def)
  then obtain x where x: "diff_text e2 = Some x" using diff_text_same [of e2] by auto
  have w: "waiting ?p = waiting e" by (simp add: poke_def)
  have "exec_wait i inst ?p = ShowDiffs e2"
    using i(2) assms(6) r unfolding e2_def e1_def w
    by (cases "waiting e") (auto simp: exec_wait_def wait_until_def wait_offset_def Let_def i(1) w)
  with x have "exec_wait i inst ?p = Some (e2\<lparr>regm := Regm e2, Dfs := x\<rparr>)" by (simp add: ShowDiffs_def)
  then have "Execute inst ?p = Some (inst, e2\<lparr>regm := Regm e2, Dfs := x\<rparr>)"
    using Execute_groups(1) [of inst i ?p] i by auto
  with e1 show ?thesis by (auto simp: e2_def next_pc_def emu_inv_def)
qed

text \<open>C24: A relative wait, with a literal offset or one in a register (WRLV, WRLR), that
starts on a machine not yet waiting and looks at a register other than EVOUTCNT, holds the program
counter while that register stays below the value it had at the start plus the offset, and
completes at the first look at or above it; comparisons are signed and the sum wraps at 32
bits.\<close>

theorem relative_wait_completes:
  assumes "emu_inv e" and "\<not> waiting e" and "Src2 inst \<noteq> 215"
    and "wait_offset inst (poke (unat (Src2 inst)) v0 e) = Some off"
    and "\<forall>v \<in> set (v0 # vs). sint v < sint (v0 + off)" and "sint w \<ge> sint (v0 + off)"
  shows "\<exists>e1 e2. wait_run inst (v0 # vs) e = Some e1 \<and> waiting e1 \<and> Pc e1 = Pc e
     \<and> wait_run inst (v0 # vs @ [w]) e = Some e2 \<and> \<not> waiting e2 \<and> Pc e2 = Pc e + 1"
proof -
  let ?t = "v0 + off"
  obtain i where i: "opcode_case (Number inst) = Some i" "i \<in> {WRLV, WRLR}"
    using assms(4) by (auto simp: wait_offset_def split: option.splits IdNumber.splits)
  have run: "\<exists>e1 e2. wait_run inst us x = Some e1 \<and> waiting e1 \<and> Pc e1 = Pc x
       \<and> wait_run inst (us @ [w]) x = Some e2 \<and> \<not> waiting e2 \<and> Pc e2 = Pc x + 1"
    if "emu_inv x" "waiting x" "regwa x = ucast (Src2 inst)" "waitr x = ?t" "\<forall>v \<in> set us. sint v < sint ?t" for us x
    using that
  proof (induction us arbitrary: x)
    case Nil
    then show ?case using wrl_step [of x inst i ?t w] i assms(3,6) by auto
  next
    case (Cons u us)
    from wrl_step [of x inst i ?t u] i Cons.prems assms(3)
    obtain y where y: "Execute inst (poke (unat (Src2 inst)) u x) = Some (inst, y)" "emu_inv y" "waiting y"
        "regwa y = ucast (Src2 inst)" "waitr y = ?t" "Pc y = Pc x" by auto
    with Cons.IH [of y] Cons.prems(5) show ?case by auto
  qed
  from wrl_step [of e inst i ?t v0] i assms
  obtain y where "Execute inst (poke (unat (Src2 inst)) v0 e) = Some (inst, y)" "emu_inv y" "waiting y"
      "regwa y = ucast (Src2 inst)" "waitr y = ?t" "Pc y = Pc e" by auto
  with run [of y vs] assms(5) show ?thesis by auto
qed

subsection \<open>Deviations\<close>

text \<open>\<open>WDOG\<close> increments its own opcode byte, so a second execution finds no instruction and stays.\<close>

lemma wdog_runs_once:
  assumes "Number inst = id_number WDOG"
  shows "Execute inst e = Some (inst\<lparr>Number := 0x35\<rparr>, next_pc e)"
    and "Execute (inst\<lparr>Number := 0x35\<rparr>) e = Some (inst\<lparr>Number := 0x35\<rparr>, e)"
  using assms opcode_case_iff [of "Number inst" WDOG]
  by (simp_all add: Execute_def opcode_case_def all_ids_def)

text \<open>\<open>MOVRI\<close> has two register operands in the instruction set, and the emulator reads neither.\<close>

lemma movri_ignores_operands: "exec_move MOVRI (inst\<lparr>Src1 := a, Src2 := b\<rparr>) e = exec_move MOVRI inst e"
  by (simp add: exec_move_def)

text \<open>The command \<open>p\<close> leaves a wait pending: the relative wait at the new place takes 0 for its target.\<close>

lemma stale_wait:
  assumes "cmd_pc cp s = Some s'" and "in_program (fst (strtoul cp)) (prog s)" and "waiting (mach s)"
  shows "waiting (mach s') \<and> waitr (mach s') = 0"
    and "exec_wait WRLV inst (mach s') = ShowDiffs (if sint (Regm (mach s') ! unat (Src2 inst)) \<ge> 0
        then next_pc ((mach s')\<lparr>waiting := False\<rparr>) else mach s')"
proof -
  show "waiting (mach s') \<and> waitr (mach s') = 0"
    using assms by (auto simp: cmd_pc_def Let_def say_def split: if_splits Option.bind_splits)
  then show "exec_wait WRLV inst (mach s') = ShowDiffs (if sint (Regm (mach s') ! unat (Src2 inst)) \<ge> 0
        then next_pc ((mach s')\<lparr>waiting := False\<rparr>) else mach s')"
    by (simp add: exec_wait_def wait_until_def Let_def)
qed

text \<open>\<open>EditGlobalReg\<close> checks its upper bound only; a negative number indexes before the array.\<close>

lemma edit_global_negative: "EditGlobalReg lns (-1) s = None"
  by (simp add: EditGlobalReg_def EditRegs.simps [of lns])

subsection \<open>A sample program\<close>

definition mk_inst :: "IdNumber \<Rightarrow> u32 \<Rightarrow> u8 \<Rightarrow> u8 \<Rightarrow> Instruction" where
  "mk_inst i s1 s2 d = \<lparr>Dest = d, Src2 = s2, Number = id_number i, Crc = 0, Src1 = s1\<rparr>"

definition sample_code :: ProgramBuf where
  "sample_code = \<lparr>LoadAddress = 0x100, InstructionCount = 4,
     Program = [mk_inst MOVV 3 0 0, mk_inst SUBV 4 0 1, mk_inst BLT 0x103 0 0, mk_inst HALT 0 0 0]\<rparr>"

lemma sample_code_forward: "forward_program sample_code"
  by (simp add: forward_program_def checked_program_def sample_code_def forward_inst_def checked_inst_def mk_inst_def
      opcode_case_def all_ids_def find_opcode_def InstructionSet_def mk_op_def arg_ok_def branches_def waits_def
      REGS_256 upt_rec)

theorem checked_program_runs_witness:
  "\<exists>s. exec_pcs 7 (emu_session sample_code) = Some s
     \<and> unat (Pc (mach s) - LoadAddress (prog s)) < length (Program (prog s)) \<and> checked_program (prog s)"
  using sample_code_forward
  by (intro checked_program_runs) (simp_all add: forward_program_def sample_code_def)

theorem forward_program_halts_witness:
  "\<exists>s. exec_pcs (length (Program sample_code)) (emu_session sample_code) = Some s \<and> at_halt s"
  using sample_code_forward by (intro forward_program_halts) (simp_all add: sample_code_def)

lemma sample_emulation: "\<exists>s. Emulate sample_code [''?'', ''.''] = Some ([], s)"
  by (simp add: Emulate_def Emulate_loop.simps [of "_ # _"] Emulate_loop.simps [of "[]"] prompt_def emu_session_def
      sample_code_def InstToStr_def mk_inst_def find_opcode_def InstructionSet_def mk_op_def field_text_def
      RegToString_def Regs_def mk_reg_def sprintf_buf_def MAX_REGISTER_STRING_LENGTH_def fmt_d_def fmt_X_def
      to_base.simps [of 16] to_base.simps [of 10] digit_char_def command_def atom_type_def atom_types_def atomhash_def say_def)

theorem emulator_invariant_witness:
  "\<exists>s. Emulate sample_code [''?'', ''.''] = Some ([], s) \<and> length (Regm (mach s)) = REGS
     \<and> PSwd (mach s) \<in> {0, PsEQ, PsLT, PsGT}"
  using sample_emulation emulator_invariant [of sample_code "[''?'', ''.'']"] by blast

definition sample_emu :: emu where
  "sample_emu = (emu_start sample_code)\<lparr>Pc := 0x101\<rparr>"

lemma sample_emu_inv: "emu_inv sample_emu"
  by (simp add: sample_emu_def emu_start_def emu_inv_def ps_ok_def)

lemma sample_execute: "\<exists>e'. Execute (mk_inst SUBV 4 0 1) sample_emu = Some (mk_inst SUBV 4 0 1, e')
   \<and> Regm e' ! 1 = - 4 \<and> Pc e' = 0x102"
proof -
  obtain e' where p: "put_result 1 (- 4) sample_emu = Some e'" "Pc e' = Pc sample_emu + 1"
    using put_result_defined [OF sample_emu_inv, of 1 "- 4"]
    by (auto simp: sample_emu_def emu_start_def wait_named_def REGS_256)
  have "Regm sample_emu ! 0 = 0" by (simp add: sample_emu_def emu_start_def REGS_256)
  then have "Execute (mk_inst SUBV 4 0 1) sample_emu = Some (mk_inst SUBV 4 0 1, e')"
    using p(1) Execute_groups(4) [of "mk_inst SUBV 4 0 1" SUBV sample_emu] opcode_case_number [of SUBV]
    by (simp add: mk_inst_def exec_alu_val_def alu_def)
  moreover have "Regm e' ! 1 = - 4"
    using p(1) by (auto simp: sample_emu_def emu_start_def REGS_256 elim!: put_result_Some)
  ultimately show ?thesis using p(2) by (simp add: sample_emu_def)
qed

theorem branch_on_last_result_witness:
  "\<exists>e'. Execute (mk_inst SUBV 4 0 1) sample_emu = Some (mk_inst SUBV 4 0 1, e')
     \<and> Execute (mk_inst BLT 0x103 0 0) e' = Some (mk_inst BLT 0x103 0 0, e'\<lparr>Pc := 0x103\<rparr>)"
proof -
  obtain e' where x: "Execute (mk_inst SUBV 4 0 1) sample_emu = Some (mk_inst SUBV 4 0 1, e')" "Regm e' ! 1 = - 4"
    using sample_execute by blast
  have o: "opcode_case (Number (mk_inst SUBV 4 0 1)) = Some SUBV" "opcode_case (Number (mk_inst BLT 0x103 0 0)) = Some BLT"
    by (simp_all add: mk_inst_def opcode_case_number del: id_number.simps)
  have "target_reg SUBV (mk_inst SUBV 4 0 1) sample_emu = Some 1" "BLT \<in> branches"
    by (simp_all add: target_reg_def writers_def branches_def mk_inst_def Let_def)
  from branch_on_last_result [OF sample_emu_inv x(1) o(1) this(1) o(2) this(2)] x show ?thesis
    by (simp add: mk_inst_def branch_cond_def)
qed

theorem relative_wait_completes_witness:
  "\<exists>e1 e2. wait_run (mk_inst WRLV 5 222 0) [10, 12] sample_emu = Some e1 \<and> waiting e1 \<and> Pc e1 = 0x101
     \<and> wait_run (mk_inst WRLV 5 222 0) [10, 12, 15] sample_emu = Some e2 \<and> \<not> waiting e2 \<and> Pc e2 = 0x102"
proof -
  have "wait_offset (mk_inst WRLV 5 222 0) e = Some 5" for e
    by (simp add: wait_offset_def mk_inst_def opcode_case_number del: id_number.simps)
  from relative_wait_completes [OF sample_emu_inv _ _ this, of 10 "[12]" 15] show ?thesis
    by (simp add: mk_inst_def sample_emu_def emu_start_def)
qed

end
