(* ===== verification/Mtt_Asm.thy ===== *)
theory Mtt_Asm
  imports Mtt_Opcodes_Props
begin

text \<open>
  The assembler of the MTT sequencer, \<open>src/mttn/tools/asm.c\<close>: lexical analysis, the symbol table, the
  stacks and the evaluation of expressions, the translation of atoms into instructions with forward
  references, and the two passes of \<open>main\<close>. A run ends with a value or with one of two outcomes:
  \<open>Exit\<close> is \<open>exit (1)\<close> from \<open>Error\<close>, \<open>Undefined\<close> is undefined behaviour of the C program (an access outside
  an array, a division by 0). Printed messages and listings are not part of the model, except the
  lines of \<open>DisAssemble\<close>.
\<close>

datatype asm_stop = Exit | Undefined

type_synonym 'a asm_res = "asm_stop + 'a"

definition bindR :: "'a asm_res \<Rightarrow> ('a \<Rightarrow> 'b asm_res) \<Rightarrow> 'b asm_res" where
  "bindR m f = (case m of Inl e \<Rightarrow> Inl e | Inr x \<Rightarrow> f x)"

lemma bindR_simps [simp]: "bindR (Inl e) f = Inl e" "bindR (Inr x) f = f x"
  by (simp_all add: bindR_def)

lemma bindR_Inr: "bindR m f = Inr y \<longleftrightarrow> (\<exists>x. m = Inr x \<and> f x = Inr y)"
  by (cases m) auto

subsection \<open>Errors\<close>

datatype ErrorType = FATAL_RUN_TIME | RUN_TIME | FATAL_SYNTAX | SYNTAX

definition MAX_ERROR_COUNT :: nat where
  "MAX_ERROR_COUNT = 10"

text \<open>\<open>Error\<close> on the count of errors so far: the eleventh error and every fatal one end the program.\<close>

definition Error :: "ErrorType \<Rightarrow> nat \<Rightarrow> nat asm_res" where
  "Error et n = (if n \<ge> MAX_ERROR_COUNT then Inl Exit
     else case et of FATAL_RUN_TIME \<Rightarrow> Inl Exit | FATAL_SYNTAX \<Rightarrow> Inl Exit | _ \<Rightarrow> Inr (Suc n))"

subsection \<open>Operators\<close>

datatype OprId =
    OprNOOP | OprNE | OprEQ | OprGT | OprGE | OprLT | OprLE | OprAS | OprPL | OprMI | OprTI | OprDI
  | OprAND | OprOR | OprXOR | OprNOT | OprNEG | OprLSH | OprRSH | OprINC | OprDECR | OprPOP | OprSTM | OprLBL

definition OprNames :: "(OprId \<times> string) list" where
  "OprNames = [(OprNOOP, ''?''), (OprNE, ''!=''), (OprEQ, ''=''), (OprGT, ''>''), (OprGE, ''>=''), (OprLT, ''<''),
     (OprLE, ''<=''), (OprAS, '':=''), (OprPL, ''+''), (OprMI, ''-''), (OprTI, ''*''), (OprDI, ''/''), (OprAND, ''&''),
     (OprOR, ''!''), (OprXOR, ''!!''), (OprNOT, ''~''), (OprNEG, ''-~''), (OprLSH, ''<<''), (OprRSH, ''>>''),
     (OprINC, ''++''), (OprDECR, ''--''), (OprPOP, '';''), (OprSTM, ''->''), (OprLBL, '':'')]"

fun operator_index :: "string \<Rightarrow> (OprId \<times> string) list \<Rightarrow> nat \<Rightarrow> nat option" where
  "operator_index t [] i = None"
| "operator_index t (p # ps) i = (if t = snd p then Some i else operator_index t ps (Suc i))"

text \<open>\<open>LookUpOperator\<close>; an atom whose text is no operator keeps the value 0, \<open>OprNOOP\<close>.\<close>

definition LookUpOperator :: "string \<Rightarrow> nat option" where
  "LookUpOperator t = operator_index t OprNames 0"

definition opr_of :: "u32 \<Rightarrow> OprId" where
  "opr_of v = fst (OprNames ! unat v)"

subsection \<open>Atoms\<close>

record Atom =
  Type :: AtomType
  Text :: "string option"
  Value :: u32
  Position :: int
  LineNumber :: int

text \<open>\<open>NewAtom\<close> gives a zeroed atom, whose type 0 is \<open>Seperator\<close>.\<close>

definition zero_atom :: Atom where
  "zero_atom = \<lparr>Type = Seperator, Text = None, Value = 0, Position = 0, LineNumber = 0\<rparr>"

definition TEXT :: nat where
  "TEXT = 128"

definition peek :: "string \<Rightarrow> char" where
  "peek cp = (case cp of [] \<Rightarrow> CHR 0x00 | c # _ \<Rightarrow> c)"

text \<open>One turn of the loop of \<open>GetAtoms\<close>: the end of the text, an illegal character, a text that does not
  fit its buffer, or the atom made (a run of blanks makes none) with the new \<open>cp\<close>, \<open>pos\<close>, \<open>line\<close> and
  \<open>newline\<close>.\<close>

datatype lex_result = Stop | Illegal | Crash | Next "Atom option" string int int int

definition lex_numeric :: "string \<Rightarrow> int \<Rightarrow> int \<Rightarrow> int \<Rightarrow> lex_result" where
  "lex_numeric cp pos line nl =
     (let (v, ep) = strtoul cp in
      Next (Some (zero_atom\<lparr>Type := Numeric, Value := v, Position := pos, LineNumber := line\<rparr>))
        ep (pos + int (length cp - length ep)) line nl)"

definition alpha_atom :: "string \<Rightarrow> int \<Rightarrow> int \<Rightarrow> Atom" where
  "alpha_atom t pos line =
     (let a = zero_atom\<lparr>Type := Alpha, Text := Some t, Position := pos, LineNumber := line\<rparr> in
      case LookUpOpCode t of
        Some i \<Rightarrow> a\<lparr>Type := Op_code, Value := of_nat i\<rparr>
      | None \<Rightarrow> (case LookUpRegister t of
          Some r \<Rightarrow> a\<lparr>Type := Register, Value := r\<rparr>
        | None \<Rightarrow> a))"

definition lex_alpha :: "string \<Rightarrow> int \<Rightarrow> int \<Rightarrow> int \<Rightarrow> lex_result" where
  "lex_alpha cp pos line nl =
     (let t = takeWhile (\<lambda>c. atom_type c \<in> {Alpha, Numeric}) cp in
      if length t \<ge> TEXT then Crash
      else Next (Some (alpha_atom t pos line)) (drop (length t) cp) (pos + int (length t)) line nl)"

definition lex_seperator :: "string \<Rightarrow> int \<Rightarrow> int \<Rightarrow> lex_result" where
  "lex_seperator cp pos line =
     (let ws = takeWhile (\<lambda>c. atom_type c = Seperator \<and> c \<noteq> CHR 0x0A) cp;
          rest = drop (length ws) cp; pos' = pos + int (length ws)
      in if peek rest = CHR 0x0A
         then Next (Some (zero_atom\<lparr>Position := pos', LineNumber := line\<rparr>)) (tl rest) 0 (line + 1) 1
         else Next None rest pos' line 0)"

text \<open>A comment ends before its closing character, which therefore begins another one; a newline, or the
  end of the text, makes the atom a separator.\<close>

definition lex_comment :: "string \<Rightarrow> int \<Rightarrow> int \<Rightarrow> int \<Rightarrow> lex_result" where
  "lex_comment cp pos line nl =
     (let t = takeWhile (\<lambda>c. atom_type c \<noteq> Comment \<and> c \<noteq> CHR 0x0A \<and> c \<noteq> CHR 0x00) (tl cp);
          rest = drop (length t) (tl cp); ends = peek rest \<in> {CHR 0x0A, CHR 0x00};
          nl' = (if ends then 1 else nl)
      in if length t \<ge> TEXT then Crash
         else Next (Some (zero_atom\<lparr>Type := (if ends then Seperator else Comment), Text := Some t,
                                   Position := pos, LineNumber := line\<rparr>))
                (if ends then tl rest else rest) (pos + int (length t)) (line + nl') nl')"

definition lex_operator :: "string \<Rightarrow> int \<Rightarrow> int \<Rightarrow> int \<Rightarrow> lex_result" where
  "lex_operator cp pos line nl =
     (let t = takeWhile (\<lambda>c. atom_type c = Operator) cp in
      if length t \<ge> TEXT then Crash
      else Next (Some (zero_atom\<lparr>Type := Operator, Text := Some t, Position := pos, LineNumber := line,
                                Value := (case LookUpOperator t of Some i \<Rightarrow> of_nat i | None \<Rightarrow> 0)\<rparr>))
             (drop (length t) cp) (pos + int (length t)) line nl)"

definition lex_step :: "string \<Rightarrow> int \<Rightarrow> int \<Rightarrow> int \<Rightarrow> lex_result" where
  "lex_step cp pos line nl =
     (let at = atom_type (peek cp) in
      case at of
        Numeric \<Rightarrow> lex_numeric cp pos line nl
      | Alpha \<Rightarrow> lex_alpha cp pos line nl
      | Seperator \<Rightarrow> lex_seperator cp pos line
      | Comment \<Rightarrow> lex_comment cp pos line nl
      | Operator \<Rightarrow> lex_operator cp pos line nl
      | Illegal_char \<Rightarrow> Illegal
      | _ \<Rightarrow> (if at \<in> {Open, Close, Open_index, Close_index, Bit}
             then Next (Some (zero_atom\<lparr>Type := at, Position := pos, LineNumber := line\<rparr>)) (tl cp) (pos + 1) line nl
             else Stop))"

subsection \<open>Every turn consumes text\<close>

lemma Terminator_nul: "atom_type (CHR 0x00) = Terminator"
  by (simp add: atom_type_def atom_types_def atomhash_def)

lemma atom_type_newline: "atom_type (CHR 0x0A) = Seperator"
  by (simp add: atom_type_def atom_types_def atomhash_def)

lemma numeric_table: "list_all (\<lambda>n. (atom_types ! (atomhash ! n) = Numeric) = (48 \<le> n \<and> n \<le> 57)) [0 ..< 256]"
  by code_simp

lemma Numeric_iff: "atom_type c = Numeric \<longleftrightarrow> 48 \<le> (of_char c :: nat) \<and> (of_char c :: nat) \<le> 57"
  using numeric_table nat_of_char_less_256 [of c] by (simp add: list_all_iff atom_type_def)

lemma digit_is_space: "48 \<le> (of_char c :: nat) \<Longrightarrow> (of_char c :: nat) \<le> 57 \<Longrightarrow>
   \<not> isspace c \<and> c \<noteq> CHR ''-'' \<and> c \<noteq> CHR ''+'' \<and> is_digit 10 c \<and> is_digit 16 c \<and> (c = CHR ''0'' \<longrightarrow> is_digit 8 c)"
  by (auto simp: isspace_def is_digit_def digit_val_def Let_def)

lemma read_digits_progress: "s \<noteq> [] \<Longrightarrow> is_digit b (hd s) \<Longrightarrow> length (snd (read_digits b a s)) < length s"
  using read_digits_length by (cases s) (auto simp: less_Suc_eq_le)

lemma strtoul_progress:
  assumes "atom_type c = Numeric"
  shows "length (snd (strtoul (c # cs))) < length (c # cs)"
proof -
  have d: "\<not> isspace c" "c \<noteq> CHR ''-''" "c \<noteq> CHR ''+''" "is_digit 10 c" "is_digit 16 c" "c = CHR ''0'' \<longrightarrow> is_digit 8 c"
    using assms digit_is_space [of c] by (auto simp: Numeric_iff)
  obtain b s where b: "read_base (c # cs) = (b, s)" by fastforce
  have s: "s \<noteq> [] \<and> is_digit b (hd s) \<and> length s \<le> length (c # cs)"
    using b d by (auto simp: read_base_def split: list.splits if_splits)
  then have "length (snd (read_digits b 0 s)) < length s" using read_digits_progress by blast
  then show ?thesis using d b s by (auto simp: strtoul_def read_sign_def split: prod.splits if_splits)
qed

lemma takeWhile_progress: "cp \<noteq> [] \<Longrightarrow> P (hd cp) \<Longrightarrow> length (drop (length (takeWhile P cp)) cp) < length cp"
  by (cases cp) auto

lemma lex_step_length:
  assumes "lex_step cp pos line nl = Next a cp' pos' line' nl'"
  shows "length cp' < length cp"
proof (cases cp)
  case Nil
  with assms show ?thesis by (simp add: lex_step_def peek_def Terminator_nul)
next
  case (Cons c cs)
  have len: "length (tl xs) \<le> length xs" "length (drop n xs) \<le> length xs" for xs :: string and n by auto
  consider "atom_type c = Numeric" | "atom_type c = Alpha" | "atom_type c = Seperator" | "atom_type c = Comment"
    | "atom_type c = Operator" | "atom_type c \<in> {Open, Close, Open_index, Close_index, Bit}"
    using assms Cons by (auto simp: lex_step_def peek_def Let_def split: AtomType.splits if_splits)
  then show ?thesis
  proof cases
    case 1
    with assms Cons strtoul_progress [OF 1, of cs] show ?thesis
      by (auto simp: lex_step_def peek_def lex_numeric_def split: prod.splits)
  next
    case 2
    with assms Cons show ?thesis by (auto simp: lex_step_def peek_def lex_alpha_def Let_def split: if_splits)
  next
    case 3
    with assms Cons show ?thesis
      by (auto simp: lex_step_def peek_def lex_seperator_def Let_def atom_type_newline split: if_splits list.splits
          dest: arg_cong [where f = length])
  next
    case 4
    with assms Cons show ?thesis
      by (auto simp: lex_step_def peek_def lex_comment_def Let_def split: if_splits)
  next
    case 5
    with assms Cons show ?thesis by (auto simp: lex_step_def peek_def lex_operator_def Let_def split: if_splits)
  next
    case 6
    with assms Cons show ?thesis by (auto simp: lex_step_def peek_def Let_def)
  qed
qed

function GetAtoms_loop :: "int \<Rightarrow> string \<Rightarrow> int \<Rightarrow> int \<Rightarrow> int \<Rightarrow> nat \<Rightarrow> (Atom list \<times> nat) asm_res" where
  "GetAtoms_loop sz cp pos line nl n =
     (if pos > sz then Inr ([zero_atom], n)
      else case lex_step cp pos line nl of
        Stop \<Rightarrow> Inr ([zero_atom], n)
      | Illegal \<Rightarrow> bindR (Error SYNTAX n) (\<lambda>n'. Inr ([zero_atom], n'))
      | Crash \<Rightarrow> Inl Undefined
      | Next a cp' pos' line' nl' \<Rightarrow>
          (case GetAtoms_loop sz cp' pos' line' nl' n of
             Inl e \<Rightarrow> Inl e
           | Inr (as, n') \<Rightarrow> Inr ((case a of Some b \<Rightarrow> b # as | None \<Rightarrow> as), n')))"
  by pat_completeness auto
termination
  by (relation "measure (\<lambda>(sz, cp, pos, line, nl, n). length cp)") (auto dest: lex_step_length)

declare GetAtoms_loop.simps [simp del]

text \<open>\<open>GetAtoms\<close>: no atoms at all (\<open>NULL\<close>) for a text that begins with a dot. \<open>nl\<close> is the value of the local
  \<open>newline\<close>, which a comment may read before it is set.\<close>

definition GetAtoms :: "int \<Rightarrow> int \<Rightarrow> string \<Rightarrow> nat \<Rightarrow> (Atom list option \<times> nat) asm_res" where
  "GetAtoms nl sz buf n =
     (if peek buf = CHR ''.'' then Inr (None, n)
      else bindR (GetAtoms_loop sz buf 1 1 nl n) (\<lambda>(as, n'). Inr (Some as, n')))"

subsection \<open>Symbols, stacks and the state of the assembler\<close>

record Symbol =
  sy_Name :: string
  sy_Value :: u32
  sy_Defined :: bool

record Operand =
  SymbolRef :: "nat option"
  LiteralValue :: u32

definition SYMBOLS :: nat where "SYMBOLS = 1024"

definition OPERAND_STACK :: nat where "OPERAND_STACK = 64"

definition OPERATOR_STACK :: nat where "OPERATOR_STACK = 32"

definition FORWARD_REFS :: nat where "FORWARD_REFS = 100"

text \<open>The static tables of the program and the locals of \<open>Assemble\<close>: the stacks are arrays with a size, the
  pointer \<open>inst\<close> is an index into \<open>code->Program\<close>, a pointer to a symbol is its index, and \<open>forward\<close> has a
  symbol and an instruction for every forward reference.\<close>

record asm =
  symbolTable :: "Symbol list"
  operandStack :: "Operand list"
  operandStackSize :: nat
  operatorStack :: "OprId list"
  operatorStackSize :: nat
  error_count :: nat
  forward :: "(nat \<times> nat) list"
  code :: ProgramBuf
  inst :: nat
  pc :: u32
  index :: nat
  expect_lit :: bool
  expect_sr1 :: bool
  expect_sr2 :: bool
  expect_dst :: bool

definition report :: "ErrorType \<Rightarrow> asm \<Rightarrow> asm asm_res" where
  "report et s = bindR (Error et (error_count s)) (\<lambda>n. Inr (s\<lparr>error_count := n\<rparr>))"

fun symbol_index :: "string \<Rightarrow> Symbol list \<Rightarrow> nat \<Rightarrow> nat option" where
  "symbol_index name [] i = None"
| "symbol_index name (y # ys) i = (if name = sy_Name y then Some i else symbol_index name ys (Suc i))"

definition GetSymbol :: "string \<Rightarrow> asm \<Rightarrow> (nat \<times> asm) asm_res" where
  "GetSymbol name s = (case symbol_index name (symbolTable s) 0 of
     Some i \<Rightarrow> Inr (i, s)
   | None \<Rightarrow>
       (let i = length (symbolTable s) in
        if i \<ge> SYMBOLS then Inl Exit
        else Inr (i, s\<lparr>symbolTable := symbolTable s @ [\<lparr>sy_Name = name, sy_Value = 0, sy_Defined = False\<rparr>]\<rparr>)))"

definition PushOperand :: "Operand \<Rightarrow> asm \<Rightarrow> asm asm_res" where
  "PushOperand operand s =
     (if operandStackSize s < OPERAND_STACK
      then Inr (s\<lparr>operandStack := (operandStack s)[operandStackSize s := operand],
                  operandStackSize := Suc (operandStackSize s)\<rparr>)
      else Inl Exit)"

definition PushOperator :: "OprId \<Rightarrow> asm \<Rightarrow> asm asm_res" where
  "PushOperator oprId s =
     (if operatorStackSize s < OPERATOR_STACK
      then Inr (s\<lparr>operatorStack := (operatorStack s)[operatorStackSize s := oprId],
                  operatorStackSize := Suc (operatorStackSize s)\<rparr>)
      else Inl Exit)"

text \<open>\<open>PopOperand\<close> and \<open>PopOperator\<close> report an empty stack and give nothing.\<close>

definition PopOperand :: "asm \<Rightarrow> (Operand option \<times> asm) asm_res" where
  "PopOperand s =
     (if operandStackSize s > 0
      then Inr (Some (operandStack s ! (operandStackSize s - 1)), s\<lparr>operandStackSize := operandStackSize s - 1\<rparr>)
      else bindR (report RUN_TIME s) (\<lambda>s'. Inr (None, s')))"

definition PopOperator :: "asm \<Rightarrow> (OprId option \<times> asm) asm_res" where
  "PopOperator s =
     (if operatorStackSize s > 0
      then Inr (Some (operatorStack s ! (operatorStackSize s - 1)), s\<lparr>operatorStackSize := operatorStackSize s - 1\<rparr>)
      else bindR (report RUN_TIME s) (\<lambda>s'. Inr (None, s')))"

definition ResetStacks :: "asm \<Rightarrow> asm" where
  "ResetStacks s = s\<lparr>operandStackSize := 0, operatorStackSize := 0\<rparr>"

definition GetValue :: "Operand \<Rightarrow> asm \<Rightarrow> u32" where
  "GetValue operand s = (case SymbolRef operand of
     Some i \<Rightarrow> sy_Value (symbolTable s ! i) | None \<Rightarrow> LiteralValue operand)"

subsection \<open>Expressions\<close>

text \<open>The outcome of one turn of the loop of \<open>DoExpression\<close>: a value that it returns, or nothing yet.\<close>

definition literal :: "u32 \<Rightarrow> Operand" where
  "literal v = \<lparr>SymbolRef = None, LiteralValue = v\<rparr>"

definition push_value :: "u32 \<Rightarrow> asm \<Rightarrow> (u32 option \<times> asm) asm_res" where
  "push_value v s = bindR (PushOperand (literal v) s) (\<lambda>s'. Inr (None, s'))"

definition with_one :: "asm \<Rightarrow> (Operand \<Rightarrow> asm \<Rightarrow> (u32 option \<times> asm) asm_res) \<Rightarrow> (u32 option \<times> asm) asm_res" where
  "with_one s f = bindR (PopOperand s) (\<lambda>(x, s'). case x of None \<Rightarrow> Inr (Some 0, s') | Some left \<Rightarrow> f left s')"

definition with_two :: "asm \<Rightarrow> (Operand \<Rightarrow> Operand \<Rightarrow> asm \<Rightarrow> (u32 option \<times> asm) asm_res) \<Rightarrow> (u32 option \<times> asm) asm_res" where
  "with_two s f = with_one s (\<lambda>right s1. with_one s1 (\<lambda>left s2. f left right s2))"

text \<open>C division truncates towards 0; it is undefined for the divisor 0 and for the quotient \<open>2 ^ 31\<close>.\<close>

definition c_div :: "u32 \<Rightarrow> u32 \<Rightarrow> u32 option" where
  "c_div l r = (if r = 0 \<or> (sint l = - (2 ^ 31) \<and> sint r = - 1) then None
     else Some (of_int (sgn (sint l) * sgn (sint r) * (\<bar>sint l\<bar> div \<bar>sint r\<bar>))))"

definition truth :: "bool \<Rightarrow> u32 option" where
  "truth b = Some (if b then 0xFFFFFFFF else 0)"

definition binary_value :: "OprId \<Rightarrow> u32 \<Rightarrow> u32 \<Rightarrow> u32 option" where
  "binary_value opr l r = (case opr of
       OprNE \<Rightarrow> truth (l \<noteq> r) | OprEQ \<Rightarrow> truth (l = r)
     | OprGT \<Rightarrow> truth (sint l > sint r) | OprGE \<Rightarrow> truth (sint l \<ge> sint r)
     | OprLT \<Rightarrow> truth (sint l < sint r) | OprLE \<Rightarrow> truth (sint l \<le> sint r)
     | OprPL \<Rightarrow> Some (l + r) | OprMI \<Rightarrow> Some (l - r) | OprTI \<Rightarrow> Some (l * r) | OprDI \<Rightarrow> c_div l r
     | OprAND \<Rightarrow> Some (l AND r) | OprOR \<Rightarrow> Some (l OR r) | OprXOR \<Rightarrow> Some (l XOR r)
     | OprLSH \<Rightarrow> (if unat r < 32 then Some (push_bit (unat r) l) else None)
     | OprRSH \<Rightarrow> (if unat r < 32 then Some (signed_drop_bit (unat r) l) else None)
     | _ \<Rightarrow> None)"

definition do_binary :: "OprId \<Rightarrow> asm \<Rightarrow> (u32 option \<times> asm) asm_res" where
  "do_binary opr s = with_two s (\<lambda>left right s'.
     case binary_value opr (GetValue left s') (GetValue right s') of
       None \<Rightarrow> Inl Undefined | Some v \<Rightarrow> push_value v s')"

definition do_step :: "u32 \<Rightarrow> asm \<Rightarrow> (u32 option \<times> asm) asm_res" where
  "do_step d s = with_one s (\<lambda>left s'.
     case SymbolRef left of
       Some i \<Rightarrow>
         (let v = GetValue left s' + d in
          push_value v (s'\<lparr>symbolTable := (symbolTable s')[i := (symbolTable s' ! i)\<lparr>sy_Value := v\<rparr>]\<rparr>))
     | None \<Rightarrow> bindR (report RUN_TIME s') (\<lambda>s2. Inr (None, s2)))"

definition do_assign :: "asm \<Rightarrow> (u32 option \<times> asm) asm_res" where
  "do_assign s = with_two s (\<lambda>left right s'.
     case SymbolRef left of
       Some i \<Rightarrow>
         bindR (PushOperand right (s'\<lparr>symbolTable := (symbolTable s')[i :=
             (symbolTable s' ! i)\<lparr>sy_Value := GetValue right s', sy_Defined := True\<rparr>]\<rparr>)) (\<lambda>s2. Inr (None, s2))
     | None \<Rightarrow> bindR (report RUN_TIME s') (\<lambda>s2. Inr (None, s2)))"

definition do_operator :: "OprId \<Rightarrow> asm \<Rightarrow> (u32 option \<times> asm) asm_res" where
  "do_operator opr s = (case opr of
       OprNOT \<Rightarrow> with_one s (\<lambda>left s'. push_value (NOT (GetValue left s')) s')
     | OprNEG \<Rightarrow> with_one s (\<lambda>left s'. push_value (- GetValue left s') s')
     | OprINC \<Rightarrow> do_step 1 s
     | OprDECR \<Rightarrow> do_step (- 1) s
     | OprPOP \<Rightarrow> with_one s (\<lambda>right s'. Inr (Some (LiteralValue right), s'))
     | OprAS \<Rightarrow> do_assign s
     | OprSTM \<Rightarrow> (if operandStackSize s < OPERAND_STACK
                 then Inr (Some (LiteralValue (operandStack s ! operandStackSize s)), s) else Inl Undefined)
     | OprNOOP \<Rightarrow> Inr (Some 0, s)
     | OprLBL \<Rightarrow> Inr (Some 0, s)
     | _ \<Rightarrow> do_binary opr s)"

text \<open>\<open>DoExpression\<close> takes one operator per turn off a stack that nothing in the loop grows; the recursion is
  on its size.\<close>

fun expression_loop :: "nat \<Rightarrow> asm \<Rightarrow> (u32 \<times> asm) asm_res" where
  "expression_loop 0 s = bindR (report RUN_TIME s) (\<lambda>s'. Inr (0, s'))"
| "expression_loop (Suc n) s =
     bindR (do_operator (operatorStack s ! n) (s\<lparr>operatorStackSize := n\<rparr>))
       (\<lambda>(r, s'). case r of Some v \<Rightarrow> Inr (v, s') | None \<Rightarrow> expression_loop n s')"

definition DoExpression :: "asm \<Rightarrow> (u32 \<times> asm) asm_res" where
  "DoExpression s = expression_loop (operatorStackSize s) s"

subsection \<open>Checking operands\<close>

definition CompareAtomTypes :: "AtomType \<Rightarrow> AtomType \<Rightarrow> bool" where
  "CompareAtomTypes x y \<longleftrightarrow>
     (if x = y then True
      else if x = Not_set \<or> y = Not_set then True
      else if x = Expression \<and> (y = Numeric \<or> y = Alpha) then True
      else if y = Expression \<and> (x = Numeric \<or> x = Alpha) then True
      else if x = Seperator \<and> y = Comment then True
      else y = Seperator \<and> x = Comment)"

text \<open>Walking the list of atoms: a list is the atom pointed to and those that follow it.\<close>

fun skip_seps :: "Atom list \<Rightarrow> Atom list" where
  "skip_seps (a # b # as) = (if CompareAtomTypes (Type a) Seperator then skip_seps (b # as) else a # b # as)"
| "skip_seps as = as"

definition next_arg :: "Atom list \<Rightarrow> Atom list" where
  "next_arg as = (case tl as of [] \<Rightarrow> as | _ \<Rightarrow> skip_seps (tl as))"

fun confirm_args :: "AtomType list \<Rightarrow> Atom list \<Rightarrow> bool" where
  "confirm_args [] as = True"
| "confirm_args (t # ts) as = (CompareAtomTypes (Type (hd as)) t \<and> confirm_args ts (next_arg as))"

definition expected :: "OpCode \<Rightarrow> AtomType list" where
  "expected opcd = (if op_Src1 opcd \<in> {AtLiteral, AtAddress} then [Expression] else [])
     @ (if op_Src1 opcd = AtRegister then [Register] else [])
     @ (if op_Src2 opcd = AtRegister then [Register] else [])
     @ (if op_Dest opcd = AtRegister then [Register] else [])"

text \<open>\<open>GetConfirm\<close> at an opcode: the operands it announces, and a syntax error unless they follow.\<close>

definition GetConfirm :: "Atom list \<Rightarrow> OpCode \<Rightarrow> asm \<Rightarrow> asm asm_res" where
  "GetConfirm as opcd s =
     (let s1 = s\<lparr>expect_sr1 := (op_Src1 opcd = AtRegister), expect_sr2 := (op_Src2 opcd = AtRegister),
                expect_lit := (op_Src1 opcd \<in> {AtLiteral, AtAddress}), expect_dst := (op_Dest opcd = AtRegister)\<rparr>
      in if confirm_args (expected opcd) (next_arg as) then Inr s1 else report SYNTAX s1)"

subsection \<open>Translation\<close>

text \<open>\<open>inst->field = v\<close> through the pointer \<open>inst\<close>.\<close>

definition upd_inst :: "(Instruction \<Rightarrow> Instruction) \<Rightarrow> asm \<Rightarrow> asm asm_res" where
  "upd_inst f s =
     (if inst s < length (Program (code s))
      then Inr (s\<lparr>code := (code s)\<lparr>Program := (Program (code s))[inst s := f (Program (code s) ! inst s)]\<rparr>\<rparr>)
      else Inl Undefined)"

definition on_numeric :: "Atom \<Rightarrow> asm \<Rightarrow> asm asm_res" where
  "on_numeric atom s =
     (if expect_lit s then upd_inst (\<lambda>i. i\<lparr>Src1 := Value atom\<rparr>) (s\<lparr>expect_lit := False\<rparr>)
      else PushOperand (literal (Value atom)) s)"

definition add_forward :: "nat \<Rightarrow> asm \<Rightarrow> asm asm_res" where
  "add_forward i s =
     (if Suc (length (forward s)) \<ge> FORWARD_REFS then Inl Exit
      else Inr (s\<lparr>forward := forward s @ [(i, inst s)]\<rparr>))"

definition on_alpha :: "string \<Rightarrow> asm \<Rightarrow> asm asm_res" where
  "on_alpha name s = bindR (GetSymbol name s) (\<lambda>(i, s1).
     if expect_lit s1 then
       (let v = sy_Value (symbolTable s1 ! i) in
        bindR (upd_inst (\<lambda>x. x\<lparr>Src1 := v\<rparr>) (s1\<lparr>expect_lit := False\<rparr>))
          (\<lambda>s2. if v = 0 then add_forward i s2 else Inr s2))
     else PushOperand \<lparr>SymbolRef = Some i, LiteralValue = 0\<rparr> s1)"

definition set_label :: "nat \<Rightarrow> asm \<Rightarrow> asm" where
  "set_label i s = s\<lparr>symbolTable := (symbolTable s)[i :=
     (symbolTable s ! i)\<lparr>sy_Value := pc s, sy_Defined := True\<rparr>]\<rparr>"

text \<open>\<open>name:\<close> defines a label, \<open>number:\<close> the load address; \<open>patom\<close> is the atom before, unset at the first.\<close>

definition on_label :: "Atom option \<Rightarrow> asm \<Rightarrow> asm asm_res" where
  "on_label patom s = (case patom of
     None \<Rightarrow> Inl Undefined
   | Some p \<Rightarrow>
       (if Type p = Alpha then
          bindR (GetSymbol (the (Text p)) s) (\<lambda>(i, s1).
            bindR (if sy_Value (symbolTable s1 ! i) \<noteq> 0 then report SYNTAX s1 else Inr s1)
              (\<lambda>s2. Inr (set_label i s2)))
        else if Type p = Numeric then
          (if pc s = 0 then Inr (s\<lparr>pc := Value p, code := (code s)\<lparr>LoadAddress := Value p\<rparr>\<rparr>)
           else report SYNTAX s)
        else Inr s))"

definition on_operator :: "Atom option \<Rightarrow> Atom \<Rightarrow> asm \<Rightarrow> asm asm_res" where
  "on_operator patom atom s =
     (let oprId = opr_of (Value atom) in
      if oprId = OprLBL then on_label patom s else PushOperator oprId s)"

definition on_opcode :: "Atom list \<Rightarrow> Atom \<Rightarrow> asm \<Rightarrow> asm asm_res" where
  "on_opcode as atom s =
     bindR (upd_inst (\<lambda>_. zero_inst) (s\<lparr>inst := index s\<rparr>)) (\<lambda>s1.
       let opcd = InstructionSet ! unat (Value atom) in
       bindR (GetConfirm as opcd s1) (\<lambda>s2.
         bindR (upd_inst (\<lambda>i. i\<lparr>Number := op_Number opcd\<rparr>) s2) (\<lambda>s3.
           Inr (s3\<lparr>pc := pc s3 + 1, index := Suc (index s3),
                   code := (code s3)\<lparr>InstructionCount := of_nat (Suc (index s3))\<rparr>\<rparr>))))"

definition on_register :: "Atom \<Rightarrow> asm \<Rightarrow> asm asm_res" where
  "on_register atom s =
     (if expect_sr1 s then upd_inst (\<lambda>i. i\<lparr>Src1 := Value atom\<rparr>) (s\<lparr>expect_sr1 := False\<rparr>)
      else if expect_sr2 s then upd_inst (\<lambda>i. i\<lparr>Src2 := ucast (Value atom)\<rparr>) (s\<lparr>expect_sr2 := False\<rparr>)
      else if expect_dst s then upd_inst (\<lambda>i. i\<lparr>Dest := ucast (Value atom)\<rparr>) (s\<lparr>expect_dst := False\<rparr>)
      else Inr s)"

definition on_seperator :: "asm \<Rightarrow> asm asm_res" where
  "on_seperator s =
     (if expect_lit s then bindR (report SYNTAX (ResetStacks s)) (\<lambda>s'. Inr (s'\<lparr>expect_lit := False\<rparr>))
      else Inr (ResetStacks s))"

text \<open>One atom of the loop of \<open>Assemble\<close>.\<close>

definition on_atom :: "Atom option \<Rightarrow> Atom list \<Rightarrow> asm \<Rightarrow> asm asm_res" where
  "on_atom patom as s = (let atom = hd as in case Type atom of
       Numeric \<Rightarrow> on_numeric atom s
     | Alpha \<Rightarrow> on_alpha (the (Text atom)) s
     | Operator \<Rightarrow> on_operator patom atom s
     | Op_code \<Rightarrow> on_opcode as atom s
     | Register \<Rightarrow> on_register atom s
     | Open \<Rightarrow> bindR (PushOperator OprSTM s) (\<lambda>s'. Inr (s'\<lparr>expect_lit := False\<rparr>))
     | Open_index \<Rightarrow> bindR (PushOperator OprSTM s) (\<lambda>s'. Inr (s'\<lparr>expect_lit := False\<rparr>))
     | Close \<Rightarrow> bindR (DoExpression s) (\<lambda>(v, s'). upd_inst (\<lambda>i. i\<lparr>Src1 := v\<rparr>) (s'\<lparr>expect_lit := False\<rparr>))
     | Close_index \<Rightarrow> bindR (DoExpression s) (\<lambda>(v, s'). upd_inst (\<lambda>i. i\<lparr>Src1 := v\<rparr>) (s'\<lparr>expect_lit := False\<rparr>))
     | Seperator \<Rightarrow> on_seperator s
     | _ \<Rightarrow> Inr s)"

fun atoms_loop :: "Atom option \<Rightarrow> Atom list \<Rightarrow> asm \<Rightarrow> asm asm_res" where
  "atoms_loop patom [] s = Inr s"
| "atoms_loop patom (a # as) s = bindR (on_atom patom (a # as) s) (atoms_loop (Some a) as)"

definition asm_start :: "ProgramBuf \<Rightarrow> nat \<Rightarrow> asm" where
  "asm_start c n = \<lparr>symbolTable = [], operandStack = replicate OPERAND_STACK (literal 0), operandStackSize = 0,
     operatorStack = replicate OPERATOR_STACK OprNOOP, operatorStackSize = 0, error_count = n, forward = [],
     code = c, inst = 0, pc = 0, index = 0, expect_lit = False, expect_sr1 = False, expect_sr2 = False,
     expect_dst = False\<rparr>"

definition Assemble :: "int \<Rightarrow> int \<Rightarrow> string \<Rightarrow> ProgramBuf \<Rightarrow> asm asm_res" where
  "Assemble nl sz text c = bindR (GetAtoms nl sz text 0) (\<lambda>(as, n).
     case as of
       None \<Rightarrow> Inl Exit
     | Some as' \<Rightarrow> bindR (upd_inst (\<lambda>_. zero_inst) (asm_start c n)) (atoms_loop None as'))"

subsection \<open>The two passes\<close>

text \<open>\<open>main\<close> for a source file: the characters up to a NUL or \<open>(char) EOF\<close>, one instruction allocated per
  line (with the contents \<open>junk\<close>), pass 1, the forward references when there were no errors, and the
  object file.\<close>

definition resolve_forward :: "asm \<Rightarrow> asm" where
  "resolve_forward s = s\<lparr>code := (code s)\<lparr>Program :=
     fold (\<lambda>(y, i) p. p[i := (p ! i)\<lparr>Src1 := sy_Value (symbolTable s ! y)\<rparr>]) (forward s) (Program (code s))\<rparr>\<rparr>"

definition read_source :: "string \<Rightarrow> string" where
  "read_source file = takeWhile (\<lambda>c. c \<noteq> CHR 0x00 \<and> c \<noteq> CHR 0xFF) file"

definition assemble_file :: "int \<Rightarrow> (nat \<Rightarrow> Instruction list) \<Rightarrow> string \<Rightarrow> (asm \<times> string) asm_res" where
  "assemble_file nl junk file =
     (let source = read_source file; lines = length (filter (\<lambda>c. c = CHR 0x0A) source) in
      if length file < 2 then Inl Exit
      else bindR (Assemble nl (int (length file)) source
               \<lparr>LoadAddress = 0, InstructionCount = 0, Program = junk lines\<rparr>)
        (\<lambda>s. let s' = (if error_count s = 0 then resolve_forward s else s)
             in Inr (s', WriteObject (code s'))))"

subsection \<open>Disassembly and file names\<close>

definition dis_line :: "nat \<Rightarrow> u32 \<Rightarrow> OpCode \<Rightarrow> Instruction \<Rightarrow> string option" where
  "dis_line k adr opcd i = do {
     t1 \<leftarrow> field_text (op_Src1 opcd) (Src1 i);
     t2 \<leftarrow> field_text (op_Src2 opcd) (ucast (Src2 i));
     t3 \<leftarrow> field_text (op_Dest opcd) (ucast (Dest i));
     Some (tabbed (tabbed (tabbed (tabbed (pad_left 4 CHR ''0'' (fmt_X adr) @ '':'' @ pad_left 3 CHR ''0'' (fmt_X (of_nat k))
        @ '' '' @ op_Name opcd) 16 @ t1) 28 @ t2) 36 @ t3) 44 @ ''% '' @ op_Comment opcd @ [CHR 0x0A]) }"

fun dis_lines :: "nat \<Rightarrow> u32 \<Rightarrow> Instruction list \<Rightarrow> string option" where
  "dis_lines k adr [] = Some []"
| "dis_lines k adr (i # is) = (case find_opcode (Number i) of
     None \<Rightarrow> do { t \<leftarrow> dis_lines k adr is; Some (''Garbage object file'' @ [CHR 0x0A] @ t) }
   | Some opcd \<Rightarrow> do { l \<leftarrow> dis_line k adr opcd i; t \<leftarrow> dis_lines (Suc k) (adr + 1) is; Some (l @ t) })"

definition DisAssemble :: "ProgramBuf \<Rightarrow> string option" where
  "DisAssemble c = do {
     t \<leftarrow> dis_lines 0 (LoadAddress c) (take (unat (InstructionCount c)) (Program c));
     Some (tabbed (tabbed (tabbed ''       %'' 16 @ ''Src-1'') 28 @ ''Src-2'') 36 @ ''Dest'' @ [CHR 0x0A] @ t) }"

datatype FileType = ASM | OBJ | INVALID

definition GetFileType :: "string \<Rightarrow> FileType" where
  "GetFileType path =
     (if CHR ''.'' \<in> set path then
        (let ext = take 4 (CHR ''.'' # rev (takeWhile (\<lambda>c. c \<noteq> CHR ''.'') (rev path))) in
         if ext = ''.ass'' then ASM else if ext = ''.obj'' then OBJ else INVALID)
      else INVALID)"

end
