(* ===== verification/Mtt_Asm_Props.thy ===== *)
theory Mtt_Asm_Props
  imports Mtt_Asm
begin

text \<open>
  The assembler translates the listing of a program (the lines of \<open>InstToStr\<close>) back into the program:
  lexical analysis of such lines, their translation, and the whole run with its object file.
\<close>

subsection \<open>Lexical analysis\<close>

text \<open>What the translation uses of an atom.\<close>

definition gist :: "Atom \<Rightarrow> AtomType \<times> string option \<times> u32" where
  "gist a = (Type a, Text a, Value a)"

definition lexes :: "string \<Rightarrow> (AtomType \<times> string option \<times> u32) list \<Rightarrow> bool" where
  "lexes cp ks \<longleftrightarrow> (\<forall>sz pos line nl n. 0 \<le> pos \<and> pos + int (length cp) \<le> sz + 1 \<longrightarrow>
     (\<exists>as. GetAtoms_loop sz cp pos line nl n = Inr (as, n) \<and> map gist as = ks))"

lemma lexesD: "lexes cp ks \<Longrightarrow> 0 \<le> pos \<Longrightarrow> pos + int (length cp) \<le> sz + 1 \<Longrightarrow>
   \<exists>as. GetAtoms_loop sz cp pos line nl n = Inr (as, n) \<and> map gist as = ks"
  unfolding lexes_def by blast

lemma lexes_end: "lexes [] [(Seperator, None, 0)]"
  by (auto simp: lexes_def GetAtoms_loop.simps [of _ "[]"] lex_step_def peek_def Terminator_nul gist_def zero_atom_def)

lemma lexes_step:
  assumes "lexes cp' ks" and "cp \<noteq> []"
    and "\<And>pos line nl. 0 \<le> pos \<Longrightarrow> \<exists>a pos' line' nl'. lex_step cp pos line nl = Next (Some a) cp' pos' line' nl' \<and> gist a = k
       \<and> 0 \<le> pos' \<and> pos' + int (length cp') \<le> pos + int (length cp)"
  shows "lexes cp (k # ks)"
  unfolding lexes_def
proof (intro allI impI)
  fix sz pos line nl n
  assume p: "0 \<le> pos \<and> pos + int (length cp) \<le> sz + 1"
  then obtain a pos' line' nl' where l: "lex_step cp pos line nl = Next (Some a) cp' pos' line' nl'" "gist a = k"
      "0 \<le> pos'" "pos' + int (length cp') \<le> pos + int (length cp)" using assms(3) [of pos line nl] by blast
  then obtain as where "GetAtoms_loop sz cp' pos' line' nl' n = Inr (as, n)" "map gist as = ks"
    using lexesD [OF assms(1) l(3), of sz line' nl' n] l(4) p by auto
  moreover have "pos \<le> sz" using p assms(2) by (cases cp) auto
  ultimately show "\<exists>as. GetAtoms_loop sz cp pos line nl n = Inr (as, n) \<and> map gist as = k # ks"
    using l by (auto simp: GetAtoms_loop.simps [of sz cp])
qed

lemma lexes_hex:
  assumes "lexes cp ks" and "cp = [] \<or> \<not> is_digit 16 (hd cp)"
  shows "lexes (''0x'' @ fmt_X w @ cp) ((Numeric, None, w) # ks)"
proof (rule lexes_step [OF assms(1)])
  fix pos line nl :: int assume "0 \<le> pos"
  have "atom_type CHR ''0'' = Numeric" by (simp add: Numeric_iff)
  then show "\<exists>a pos' line' nl'. lex_step (''0x'' @ fmt_X w @ cp) pos line nl = Next (Some a) cp pos' line' nl'
      \<and> gist a = (Numeric, None, w) \<and> 0 \<le> pos' \<and> pos' + int (length cp) \<le> pos + int (length (''0x'' @ fmt_X w @ cp))"
    using strtoul_hex [OF assms(2), of w] \<open>0 \<le> pos\<close>
    by (simp add: lex_step_def peek_def lex_numeric_def gist_def zero_atom_def)
qed simp

definition word_char :: "char \<Rightarrow> bool" where
  "word_char c \<longleftrightarrow> atom_type c \<in> {Alpha, Numeric}"

definition alpha_gist :: "string \<Rightarrow> AtomType \<times> string option \<times> u32" where
  "alpha_gist t = (case LookUpOpCode t of
     Some i \<Rightarrow> (Op_code, Some t, of_nat i)
   | None \<Rightarrow> (case LookUpRegister t of Some r \<Rightarrow> (Register, Some t, r) | None \<Rightarrow> (Alpha, Some t, 0)))"

lemma lexes_alpha:
  assumes "lexes cp ks" and "t \<noteq> []" and "atom_type (hd t) = Alpha" and "\<forall>c \<in> set t. word_char c" and "length t < 128"
    and "cp = [] \<or> \<not> word_char (hd cp)"
  shows "lexes (t @ cp) (alpha_gist t # ks)"
proof (rule lexes_step [OF assms(1)])
  fix pos line nl :: int assume "0 \<le> pos"
  have w: "takeWhile (\<lambda>c. atom_type c \<in> {Alpha, Numeric}) (t @ cp) = t"
    using assms(4,6) by (cases cp) (auto simp: word_char_def takeWhile_append2)
  have k: "gist (alpha_atom t pos line) = alpha_gist t"
    by (auto simp: gist_def alpha_atom_def alpha_gist_def zero_atom_def split: option.split)
  from assms(2,3) have "atom_type (peek (t @ cp)) = Alpha" by (cases t) (auto simp: peek_def)
  with w k assms(5) \<open>0 \<le> pos\<close> show "\<exists>a pos' line' nl'. lex_step (t @ cp) pos line nl = Next (Some a) cp pos' line' nl'
      \<and> gist a = alpha_gist t \<and> 0 \<le> pos' \<and> pos' + int (length cp) \<le> pos + int (length (t @ cp))"
    by (simp add: lex_step_def lex_alpha_def TEXT_def)
qed (use assms(2) in simp)

lemma atom_type_blank: "atom_type CHR '' '' = Seperator"
  by (simp add: atom_type_def atom_types_def atomhash_def)

lemma takeWhile_blanks:
  "cp = [] \<or> hd cp = CHR 0x0A \<or> atom_type (hd cp) \<noteq> Seperator \<Longrightarrow>
   takeWhile (\<lambda>c. atom_type c = Seperator \<and> c \<noteq> CHR 0x0A) (replicate k CHR '' '' @ cp) = replicate k CHR '' ''"
  by (induction k; cases cp) (auto simp: atom_type_blank)

lemma lexes_newline:
  assumes "lexes cp ks"
  shows "lexes (replicate k CHR '' '' @ CHR 0x0A # cp) ((Seperator, None, 0) # ks)"
proof (rule lexes_step [OF assms])
  fix pos line nl :: int assume "0 \<le> pos"
  have "atom_type (peek (replicate k CHR '' '' @ CHR 0x0A # cp)) = Seperator"
    by (cases k) (simp_all add: peek_def atom_type_blank atom_type_newline)
  then show "\<exists>a pos' line' nl'. lex_step (replicate k CHR '' '' @ CHR 0x0A # cp) pos line nl = Next (Some a) cp pos' line' nl'
      \<and> gist a = (Seperator, None, 0) \<and> 0 \<le> pos'
      \<and> pos' + int (length cp) \<le> pos + int (length (replicate k CHR '' '' @ CHR 0x0A # cp))"
    using takeWhile_blanks [of "CHR 0x0A # cp" k] \<open>0 \<le> pos\<close>
    by (simp add: lex_step_def lex_seperator_def peek_def gist_def zero_atom_def)
qed simp

lemma lexes_blanks:
  assumes "lexes cp ks" and "0 < k" and "cp \<noteq> []" and "atom_type (hd cp) \<noteq> Seperator"
  shows "lexes (replicate k CHR '' '' @ cp) ks"
  unfolding lexes_def
proof (intro allI impI)
  let ?cp = "replicate k CHR '' '' @ cp"
  fix sz pos line nl n
  assume p: "0 \<le> pos \<and> pos + int (length ?cp) \<le> sz + 1"
  have "peek ?cp = CHR '' ''" using assms(2) by (cases k) (auto simp: peek_def)
  moreover have "peek cp \<noteq> CHR 0x0A" using assms(3,4) atom_type_newline by (cases cp) (auto simp: peek_def)
  ultimately have "lex_step ?cp pos line nl = Next None cp (pos + int k) line 0"
    using takeWhile_blanks [of cp k] assms(3,4) by (simp add: lex_step_def lex_seperator_def atom_type_blank)
  moreover obtain as where "GetAtoms_loop sz cp (pos + int k) line 0 n = Inr (as, n)" "map gist as = ks"
    using lexesD [OF assms(1), of "pos + int k" sz line 0 n] p by auto
  moreover have "pos \<le> sz" using p assms(3) by (cases cp) auto
  ultimately show "\<exists>as. GetAtoms_loop sz ?cp pos line nl n = Inr (as, n) \<and> map gist as = ks"
    by (auto simp: GetAtoms_loop.simps [of sz ?cp])
qed

subsection \<open>Words of a listing\<close>

lemma alpha_table: "list_all (\<lambda>n. atom_types ! (atomhash ! n) = Alpha) [65 ..< 91]"
  by code_simp

lemma upper_is_Alpha: "65 \<le> (of_char c :: nat) \<Longrightarrow> (of_char c :: nat) \<le> 90 \<Longrightarrow> atom_type c = Alpha"
proof -
  assume "65 \<le> (of_char c :: nat)" "(of_char c :: nat) \<le> 90"
  then have "of_char c \<in> set [65 ..< 91]" unfolding set_upt by auto
  with alpha_table show ?thesis unfolding list_all_iff atom_type_def by blast
qed

lemma letters_word:
  assumes "\<forall>c \<in> set x. 65 \<le> (of_char c :: nat) \<and> (of_char c :: nat) \<le> 90" and "x \<noteq> []"
  shows "\<forall>c \<in> set x. word_char c" and "atom_type (hd x) = Alpha"
  using assms by (auto simp: word_char_def upper_is_Alpha)

lemma opcode_index_None: "t \<notin> op_Name ` set os \<Longrightarrow> opcode_index t os k = None"
  by (induction os arbitrary: k) auto

lemma not_opcode: "StrToUpper x \<notin> set (map op_Name InstructionSet) \<Longrightarrow> LookUpOpCode x = None"
  by (auto simp: LookUpOpCode_def opcode_index_None)

text \<open>The printed name of a register is one word, which is no opcode.\<close>

definition register_word :: "string \<Rightarrow> bool" where
  "register_word x \<longleftrightarrow> x \<noteq> [] \<and> atom_type (hd x) = Alpha \<and> (\<forall>c \<in> set x. word_char c) \<and> LookUpOpCode x = None"

lemma numbered_word:
  assumes "p \<in> {''GR'', ''LR''}"
  shows "register_word (p @ to_base 10 n)"
proof -
  have d: "\<forall>c \<in> set (to_base 10 n). word_char c" using dec_chars by (auto simp: word_char_def Numeric_iff)
  have p: "\<forall>c \<in> set p. word_char c" "atom_type (hd p) = Alpha"
    using letters_word [of p] assms by auto
  obtain c where "c \<in> set (to_base 10 n)" using to_base_not_Nil [of 10 n] by (cases "to_base 10 n") auto
  then have "\<not> 65 \<le> (of_char c :: nat)" "c \<in> set (p @ to_base 10 n)" using dec_chars [of c n] by auto
  then have "p @ to_base 10 n \<notin> set (map op_Name InstructionSet)" using opcode_name_props by blast
  then have "LookUpOpCode (p @ to_base 10 n) = None"
    using upper_numbered [OF assms, of n] by (intro not_opcode) simp
  with d p assms show ?thesis by (auto simp: register_word_def)
qed

lemma named_word:
  "x \<in> {''OUTPUTS'', ''EVIN'', ''EVINCNT'', ''EVOUTFB'', ''EVOUTL'', ''MSMR'', ''TSYNC'', ''VMEP2'', ''EVOUTH'', ''MSFR'', ''SYNCFR'', ''INDEX''}
   \<Longrightarrow> register_word x"
proof -
  assume x: "x \<in> {''OUTPUTS'', ''EVIN'', ''EVINCNT'', ''EVOUTFB'', ''EVOUTL'', ''MSMR'', ''TSYNC'', ''VMEP2'', ''EVOUTH'', ''MSFR'', ''SYNCFR'', ''INDEX''}"
  then have u: "StrToUpper x = x" by (intro upper_id) auto
  have "x \<notin> set (map op_Name InstructionSet)" using x unfolding opcode_names by auto
  then have "LookUpOpCode x = None" using u by (intro not_opcode) simp
  moreover have "x \<noteq> [] \<and> atom_type (hd x) = Alpha \<and> (\<forall>c \<in> set x. word_char c)"
    using x by (auto simp: word_char_def upper_is_Alpha Numeric_iff)
  ultimately show ?thesis by (simp add: register_word_def)
qed

lemma named_registers: "m \<in> set [212 ..< 225] \<Longrightarrow> register_name Regs (of_nat m) = Some y \<Longrightarrow>
   y = ''EVOUTCNT'' \<or> register_word y"
proof -
  have r: "register_name Regs (of_nat m) \<in> {None, Some ''OUTPUTS'', Some ''EVIN'', Some ''EVINCNT'', Some ''EVOUTFB'',
      Some ''EVOUTL'', Some ''MSMR'', Some ''TSYNC'', Some ''VMEP2'', Some ''EVOUTH'', Some ''MSFR'', Some ''SYNCFR'', Some ''INDEX''}"
    if "m \<in> set [212 ..< 225]" for m
    using that
    by (simp add: upt_rec) (elim disjE, simp_all add: Regs_def mk_reg_def sprintf_buf_def MAX_REGISTER_STRING_LENGTH_def)
  show "m \<in> set [212 ..< 225] \<Longrightarrow> register_name Regs (of_nat m) = Some y \<Longrightarrow> ?thesis"
    using r [of m] named_word [of y] by (simp del: set_upt)
qed

lemma register_name_word:
  assumes "unat v < 256" and "RegToString v = Some x"
  shows "register_word x" and "LookUpRegister x = Some v" and "length x < 8"
proof -
  have v: "v = of_nat (unat v)" "v = ucast (ucast v :: u8)" using byte_register [OF assms(1)] by simp_all
  have "register_read_back v" using registers_read_back [of "ucast v"] v(2) by simp
  then show "LookUpRegister x = Some v" "length x < 8"
    using assms(2) by (simp_all add: register_read_back_def GetRegisterName_def RegToString_def)
  consider (g) "unat v < 212" | (n) "unat v \<in> {212 ..< 225}" | (l) "unat v - 225 < 31" "unat v = 225 + (unat v - 225)"
    using assms(1) by fastforce
  then show "register_word x"
  proof cases
    case g
    with register_name_GR [OF g] assms(2) numbered_word [of "''GR''" "Suc (unat v)"] show ?thesis by (simp add: RegToString_def)
  next
    case l
    with register_name_LR [OF l(1)] assms(2) numbered_word [of "''LR''" "Suc (unat v - 225)"] show ?thesis by (simp add: RegToString_def)
  next
    case n
    have "unat v \<in> set [212 ..< 225]" "x \<noteq> ''EVOUTCNT''"
      using n \<open>length x < 8\<close> unfolding set_upt by auto
    with named_registers [of "unat v" x] assms(2) v(1) show ?thesis by (simp add: RegToString_def del: set_upt)
  qed
qed

subsection \<open>Lines of a listing\<close>

text \<open>What an instruction has to be so that its line can be read back: fields that the opcode does not use
  are 0, literals leave a blank before the next column, registers have a printable name.\<close>

definition listed_field :: "ArgType \<Rightarrow> u32 \<Rightarrow> bool" where
  "listed_field t v \<longleftrightarrow> (case t of
     AtNothing \<Rightarrow> v = 0 | AtRegister \<Rightarrow> unat v < 256 \<and> v \<noteq> 215 | _ \<Rightarrow> unat v < 2 ^ 20)"

definition listable :: "Instruction \<Rightarrow> bool" where
  "listable i \<longleftrightarrow> Crc i = 0 \<and> (case find_opcode (Number i) of
     None \<Rightarrow> False
   | Some opcd \<Rightarrow> listed_field (op_Src1 opcd) (Src1 i) \<and> listed_field (op_Src2 opcd) (ucast (Src2 i))
       \<and> listed_field (op_Dest opcd) (ucast (Dest i)))"

definition field_gists :: "ArgType \<Rightarrow> u32 \<Rightarrow> string \<Rightarrow> (AtomType \<times> string option \<times> u32) list" where
  "field_gists t v x = (case t of
     AtNothing \<Rightarrow> [] | AtRegister \<Rightarrow> [(Register, Some x, v)] | _ \<Rightarrow> [(Numeric, None, v)])"

definition blank_lexes :: "string \<Rightarrow> (AtomType \<times> string option \<times> u32) list \<Rightarrow> bool" where
  "blank_lexes cp ks \<longleftrightarrow> (\<forall>j. lexes (replicate j CHR '' '' @ cp) ks)"

lemma blank_lexes_newline: "lexes cp ks \<Longrightarrow> blank_lexes (CHR 0x0A # cp) ((Seperator, None, 0) # ks)"
  by (simp add: blank_lexes_def lexes_newline)

lemma blank_lexes_blanks: "blank_lexes cp ks \<Longrightarrow> blank_lexes (replicate b CHR '' '' @ cp) ks"
  unfolding blank_lexes_def by (metis append_assoc replicate_add)

lemma blank_lexes_word:
  "lexes cp ks \<Longrightarrow> cp \<noteq> [] \<Longrightarrow> atom_type (hd cp) \<noteq> Seperator \<Longrightarrow> blank_lexes cp ks"
  unfolding blank_lexes_def
proof
  fix j assume "lexes cp ks" "cp \<noteq> []" "atom_type (hd cp) \<noteq> Seperator"
  then show "lexes (replicate j CHR '' '' @ cp) ks" by (cases "j = 0") (auto intro: lexes_blanks)
qed

lemma blank_not_word: "0 < b \<Longrightarrow> \<not> word_char (hd (replicate b CHR '' '' @ cp)) \<and> \<not> is_digit 16 (hd (replicate b CHR '' '' @ cp))"
  by (cases b) (auto simp: word_char_def atom_type_blank is_digit_def digit_val_def)

lemma alpha_blank_lexes:
  assumes "blank_lexes cp ks" and "0 < b" and "x \<noteq> []" and "atom_type (hd x) = Alpha" and "\<forall>c \<in> set x. word_char c"
    and "length x < 128"
  shows "blank_lexes (x @ replicate b CHR '' '' @ cp) (alpha_gist x # ks)"
proof (rule blank_lexes_word)
  have "lexes (replicate b CHR '' '' @ cp) ks" using assms(1) by (simp add: blank_lexes_def)
  then show "lexes (x @ replicate b CHR '' '' @ cp) (alpha_gist x # ks)"
    using assms(3-6) blank_not_word [OF assms(2), of cp] by (intro lexes_alpha) auto
qed (use assms in auto)

lemma field_lexes:
  assumes "blank_lexes cp ks" and "0 < b" and "listed_field t v" and "field_text t v = Some x"
  shows "blank_lexes (x @ replicate b CHR '' '' @ cp) (field_gists t v x @ ks)"
proof -
  have r: "lexes (replicate b CHR '' '' @ cp) ks" using assms(1) by (simp add: blank_lexes_def)
  have hex: "blank_lexes (''0x'' @ fmt_X v @ replicate b CHR '' '' @ cp) ((Numeric, None, v) # ks)"
    using lexes_hex [OF r, of v] blank_not_word [OF assms(2), of cp] Numeric_iff [of "CHR ''0''"]
    by (intro blank_lexes_word) auto
  show ?thesis
  proof (cases t)
    case AtNothing
    with assms(1,4) show ?thesis by (simp add: field_text_def field_gists_def blank_lexes_blanks)
  next
    case AtRegister
    with assms(3,4) have v: "unat v < 256" "RegToString v = Some x" by (simp_all add: listed_field_def field_text_def)
    note w = register_name_word [OF v]
    have "alpha_gist x = (Register, Some x, v)" using w(1,2) by (simp add: alpha_gist_def register_word_def)
    with AtRegister alpha_blank_lexes [OF assms(1,2), of x] w(1,3) show ?thesis
      by (simp add: field_gists_def register_word_def)
  qed (use hex assms(4) in \<open>auto simp: field_text_def field_gists_def\<close>)
qed

lemma field_width:
  assumes "listed_field t v" and "field_text t v = Some x"
  shows "length x \<le> 7"
proof -
  have "unat v < 2 ^ 20 \<Longrightarrow> length (fmt_X v) \<le> 5" using length_to_base [of 16 "unat v" 4] by (simp add: fmt_X_def)
  moreover have "unat v < 256 \<Longrightarrow> RegToString v = Some x \<Longrightarrow> length x \<le> 7" using register_name_word(3) [of v x] by simp
  ultimately show ?thesis using assms by (cases t) (auto simp: listed_field_def field_text_def)
qed

lemma listed_field_text: "listed_field t v \<Longrightarrow> \<exists>x. field_text t v = Some x"
proof (cases t)
  case AtRegister
  moreover assume "listed_field t v"
  ultimately have "unat v < 256" "v \<noteq> 215" by (simp_all add: listed_field_def)
  then have "register_read_back v" "v \<noteq> 215" using registers_read_back [of "ucast v"] byte_register [of v] by simp_all
  then show ?thesis using AtRegister
    by (auto simp: register_read_back_def field_text_def RegToString_def GetRegisterName_def split: option.splits)
qed (simp_all add: field_text_def)

definition line_gists :: "nat \<Rightarrow> Instruction \<Rightarrow> (AtomType \<times> string option \<times> u32) list" where
  "line_gists k i = (let opcd = InstructionSet ! k in
     (Op_code, Some (op_Name opcd), of_nat k)
     # field_gists (op_Src1 opcd) (Src1 i) (the (field_text (op_Src1 opcd) (Src1 i)))
     @ field_gists (op_Src2 opcd) (ucast (Src2 i)) (the (field_text (op_Src2 opcd) (ucast (Src2 i))))
     @ field_gists (op_Dest opcd) (ucast (Dest i)) (the (field_text (op_Dest opcd) (ucast (Dest i))))
     @ [(Seperator, None, 0)])"

lemma line_lexes:
  assumes "listable i" and "find_opcode (Number i) = Some (InstructionSet ! k)" and "k < 36" and "lexes cp ks"
  shows "\<exists>ln. InstToStr i = Some ln \<and> blank_lexes (ln @ CHR 0x0A # cp) (line_gists k i @ ks)"
proof -
  let ?o = "InstructionSet ! k"
  have l: "listed_field (op_Src1 ?o) (Src1 i)" "listed_field (op_Src2 ?o) (ucast (Src2 i))"
      "listed_field (op_Dest ?o) (ucast (Dest i))"
    using assms(1,2) by (simp_all add: listable_def)
  from l [THEN listed_field_text] obtain x1 x2 x3 where x: "field_text (op_Src1 ?o) (Src1 i) = Some x1"
      "field_text (op_Src2 ?o) (ucast (Src2 i)) = Some x2" "field_text (op_Dest ?o) (ucast (Dest i)) = Some x3" by blast
  have w: "length x1 \<le> 7" "length x2 \<le> 7" "length x3 \<le> 7" using field_width l x by blast+
  have "op_Name ?o \<in> set (map op_Name InstructionSet)" using assms(3) by simp
  then have n: "\<forall>c \<in> set (op_Name ?o). 65 \<le> (of_char c :: nat) \<and> (of_char c :: nat) \<le> 90" "op_Name ?o \<noteq> []" "length (op_Name ?o) \<le> 5"
    using opcode_name_props by auto
  let ?b1 = "8 - length (op_Name ?o)" and ?b2 = "8 - length x1" and ?b3 = "8 - length x2" and ?b4 = "8 - length x3"
  let ?B = "\<lambda>b. replicate b CHR '' ''"
  have "blank_lexes (x3 @ ?B ?b4 @ CHR 0x0A # cp) (field_gists (op_Dest ?o) (ucast (Dest i)) x3 @ (Seperator, None, 0) # ks)"
    using w x l by (intro field_lexes blank_lexes_newline assms(4)) auto
  then have "blank_lexes (x2 @ ?B ?b3 @ x3 @ ?B ?b4 @ CHR 0x0A # cp)
      (field_gists (op_Src2 ?o) (ucast (Src2 i)) x2 @ field_gists (op_Dest ?o) (ucast (Dest i)) x3 @ (Seperator, None, 0) # ks)"
    using w x l by - (rule field_lexes, auto)
  then have "blank_lexes (x1 @ ?B ?b2 @ x2 @ ?B ?b3 @ x3 @ ?B ?b4 @ CHR 0x0A # cp)
      (field_gists (op_Src1 ?o) (Src1 i) x1 @ field_gists (op_Src2 ?o) (ucast (Src2 i)) x2
        @ field_gists (op_Dest ?o) (ucast (Dest i)) x3 @ (Seperator, None, 0) # ks)"
    using w x l by - (rule field_lexes, auto)
  then have "blank_lexes (op_Name ?o @ ?B ?b1 @ x1 @ ?B ?b2 @ x2 @ ?B ?b3 @ x3 @ ?B ?b4 @ CHR 0x0A # cp)
      (alpha_gist (op_Name ?o) # field_gists (op_Src1 ?o) (Src1 i) x1 @ field_gists (op_Src2 ?o) (ucast (Src2 i)) x2
        @ field_gists (op_Dest ?o) (ucast (Dest i)) x3 @ (Seperator, None, 0) # ks)"
    using letters_word [OF n(1,2)] n by (intro alpha_blank_lexes) auto
  moreover have "alpha_gist (op_Name ?o) = (Op_code, Some (op_Name ?o), of_nat k)"
    using LookUpOpCode_name [OF assms(3)] by (simp add: alpha_gist_def)
  moreover have "InstToStr i = Some (op_Name ?o @ ?B ?b1 @ x1 @ ?B ?b2 @ x2 @ ?B ?b3 @ x3 @ ?B ?b4)"
    using assms(2) x w n(3) by (simp add: InstToStr_def tabbed_def TabTo_def)
  ultimately show ?thesis using x by (simp add: line_gists_def Let_def)
qed

subsection \<open>Translation of a line\<close>

text \<open>The state after the line of an instruction: the instruction is in its place, nothing is pending.\<close>

definition after_line :: "Instruction \<Rightarrow> asm \<Rightarrow> asm" where
  "after_line i s = s\<lparr>code := (code s)\<lparr>Program := (Program (code s))[index s := i], InstructionCount := of_nat (Suc (index s))\<rparr>,
     inst := index s, index := Suc (index s), pc := pc s + 1, operandStackSize := 0, operatorStackSize := 0\<rparr>"

definition nothing_expected :: "asm \<Rightarrow> bool" where
  "nothing_expected s \<longleftrightarrow> \<not> expect_lit s \<and> \<not> expect_sr1 s \<and> \<not> expect_sr2 s \<and> \<not> expect_dst s"

lemma gist_eq: "gist a = (t, x, v) \<longleftrightarrow> Type a = t \<and> Text a = x \<and> Value a = v"
  by (auto simp: gist_def)

lemma operand_types: "k < 36 \<Longrightarrow> op_Src2 (InstructionSet ! k) \<in> {AtNothing, AtRegister} \<and> op_Dest (InstructionSet ! k) \<in> {AtNothing, AtRegister}"
proof -
  have "list_all (\<lambda>o'. op_Src2 o' \<in> {AtNothing, AtRegister} \<and> op_Dest o' \<in> {AtNothing, AtRegister}) InstructionSet"
    by (simp add: InstructionSet_def mk_op_def)
  then show "k < 36 \<Longrightarrow> ?thesis" by (simp add: list_all_length)
qed

text \<open>\<open>GetConfirm\<close> finds the operands that an opcode announces.\<close>

lemma not_seps: "\<not> CompareAtomTypes Numeric Seperator" "\<not> CompareAtomTypes Register Seperator"
    "CompareAtomTypes Numeric Expression" "CompareAtomTypes Register Register"
  by (simp_all add: CompareAtomTypes_def)

lemma skip_not_sep: "\<not> CompareAtomTypes (Type a) Seperator \<Longrightarrow> skip_seps (a # as) = a # as"
  by (cases as) auto

lemma confirm_line:
  assumes "map gist as = (Op_code, n, v) # field_gists t1 v1 x1 @ field_gists t2 v2 x2 @ field_gists t3 v3 x3 @ [(Seperator, None, 0)] @ ks"
    and "op_Src1 opcd = t1" and "op_Src2 opcd = t2" and "op_Dest opcd = t3"
    and "t2 \<in> {AtNothing, AtRegister}" and "t3 \<in> {AtNothing, AtRegister}"
  shows "confirm_args (expected opcd) (next_arg as)"
  using assms
  by (cases t1; elim insertE; auto simp: field_gists_def expected_def next_arg_def map_eq_Cons_conv gist_eq not_seps skip_not_sep)

text \<open>The state inside a line: the instruction filled in so far and the operands still expected.\<close>

definition mid_line :: "asm \<Rightarrow> Instruction \<Rightarrow> bool \<Rightarrow> bool \<Rightarrow> bool \<Rightarrow> bool \<Rightarrow> asm" where
  "mid_line s i l r1 r2 d = s\<lparr>code := (code s)\<lparr>Program := (Program (code s))[index s := i], InstructionCount := of_nat (Suc (index s))\<rparr>,
     inst := index s, index := Suc (index s), pc := pc s + 1, expect_lit := l, expect_sr1 := r1, expect_sr2 := r2, expect_dst := d\<rparr>"

lemma upd_mid_line: "index s < length (Program (code s)) \<Longrightarrow>
   upd_inst f (mid_line s i l r1 r2 d) = Inr (mid_line s (f i) l r1 r2 d)"
  by (simp add: upd_inst_def mid_line_def)

lemma expect_mid_line:
  "expect_lit (mid_line s i l r1 r2 d) = l" "expect_sr1 (mid_line s i l r1 r2 d) = r1"
  "expect_sr2 (mid_line s i l r1 r2 d) = r2" "expect_dst (mid_line s i l r1 r2 d) = d"
  "(mid_line s i l r1 r2 d)\<lparr>expect_lit := b\<rparr> = mid_line s i b r1 r2 d"
  "(mid_line s i l r1 r2 d)\<lparr>expect_sr1 := b\<rparr> = mid_line s i l b r2 d"
  "(mid_line s i l r1 r2 d)\<lparr>expect_sr2 := b\<rparr> = mid_line s i l r1 b d"
  "(mid_line s i l r1 r2 d)\<lparr>expect_dst := b\<rparr> = mid_line s i l r1 r2 b"
  by (simp_all add: mid_line_def)

lemma line_opcode:
  assumes "index s < length (Program (code s))" and "confirm_args (expected opcd) (next_arg as)"
    and "unat (Value a) < 36" and "opcd = InstructionSet ! unat (Value a)"
  shows "on_opcode as a s = Inr (mid_line s (zero_inst\<lparr>Number := op_Number opcd\<rparr>)
     (op_Src1 opcd \<in> {AtLiteral, AtAddress}) (op_Src1 opcd = AtRegister) (op_Src2 opcd = AtRegister) (op_Dest opcd = AtRegister))"
  using assms by (simp add: on_opcode_def upd_inst_def GetConfirm_def mid_line_def Let_def)

text \<open>The loop over the atoms gets from one state to another, with the atoms \<open>ks\<close> left.\<close>

definition gets_to :: "Atom list \<Rightarrow> asm \<Rightarrow> (AtomType \<times> string option \<times> u32) list \<Rightarrow> asm \<Rightarrow> bool" where
  "gets_to as s ks s' \<longleftrightarrow> (\<forall>p. \<exists>q bs. map gist bs = ks \<and> atoms_loop p as s = atoms_loop q bs s')"

lemma gets_to_refl [simp, intro]: "gets_to as s (map gist as) s"
  unfolding gets_to_def by blast

lemma gets_to_step:
  "(\<And>p. on_atom p (a # as) s = Inr s') \<Longrightarrow> gets_to (a # as) s (map gist as) s'"
  unfolding gets_to_def by (intro allI exI [of _ "Some a"] exI [of _ as]) simp

lemma gets_to_trans:
  assumes "gets_to as s ks s'" and "\<And>bs. map gist bs = ks \<Longrightarrow> gets_to bs s' ks' s''"
  shows "gets_to as s ks' s''"
  using assms unfolding gets_to_def by metis

lemma line_src1:
  assumes "map gist as = field_gists t v x @ ks" and "index s < length (Program (code s))"
  shows "gets_to as (mid_line s i (t \<in> {AtLiteral, AtAddress}) (t = AtRegister) r2 d) ks
     (mid_line s (if t = AtNothing then i else i\<lparr>Src1 := v\<rparr>) False False r2 d)"
  using assms
  by (cases t) (auto simp: field_gists_def map_eq_Cons_conv gist_eq on_atom_def on_numeric_def on_register_def
      expect_mid_line upd_mid_line intro!: gets_to_step)

lemma line_src2:
  assumes "map gist as = field_gists t v x @ ks" and "index s < length (Program (code s))" and "t \<in> {AtNothing, AtRegister}"
  shows "gets_to as (mid_line s i False False (t = AtRegister) d) ks
     (mid_line s (if t = AtNothing then i else i\<lparr>Src2 := ucast v\<rparr>) False False False d)"
  using assms
  by (auto simp: field_gists_def map_eq_Cons_conv gist_eq on_atom_def on_register_def expect_mid_line upd_mid_line
      intro!: gets_to_step)

lemma line_dest:
  assumes "map gist as = field_gists t v x @ ks" and "index s < length (Program (code s))" and "t \<in> {AtNothing, AtRegister}"
  shows "gets_to as (mid_line s i False False False (t = AtRegister)) ks
     (mid_line s (if t = AtNothing then i else i\<lparr>Dest := ucast v\<rparr>) False False False False)"
  using assms
  by (auto simp: field_gists_def map_eq_Cons_conv gist_eq on_atom_def on_register_def expect_mid_line upd_mid_line
      intro!: gets_to_step)

lemma line_end:
  assumes "map gist as = (Seperator, None, 0) # ks" and "nothing_expected s"
  shows "gets_to as (mid_line s i False False False False) ks (after_line i s)"
proof -
  have "on_seperator (mid_line s i False False False False) = Inr (after_line i s)"
    using assms(2) by (simp add: on_seperator_def expect_mid_line ResetStacks_def)
      (simp add: mid_line_def after_line_def nothing_expected_def)
  with assms(1) show ?thesis by (auto simp: map_eq_Cons_conv gist_eq on_atom_def intro!: gets_to_step)
qed

lemma byte_back: "ucast (ucast (b :: u8) :: u32) = b" "(ucast b :: u32) = 0 \<Longrightarrow> b = 0"
proof -
  show b: "ucast (ucast b :: u32) = b" by (rule bit_word_eqI) (auto simp: bit_simps)
  show "(ucast b :: u32) = 0 \<Longrightarrow> b = 0" using b by auto
qed

lemma line_translates:
  assumes "map gist as = line_gists k i @ ks" and "listable i" and "find_opcode (Number i) = Some (InstructionSet ! k)"
    and "k < 36" and "index s < length (Program (code s))" and "nothing_expected s"
  shows "gets_to as s ks (after_line i s)"
proof -
  let ?o = "InstructionSet ! k"
  obtain x1 x2 x3 where x: "map gist as = (Op_code, Some (op_Name ?o), of_nat k) # field_gists (op_Src1 ?o) (Src1 i) x1
      @ field_gists (op_Src2 ?o) (ucast (Src2 i)) x2 @ field_gists (op_Dest ?o) (ucast (Dest i)) x3 @ [(Seperator, None, 0)] @ ks"
    using assms(1) by (simp add: line_gists_def Let_def)
  note t = operand_types [OF assms(4)]
  obtain a as' where a: "as = a # as'" "Type a = Op_code" "Value a = of_nat k" "map gist as' = tl (map gist as)"
    using x by (auto simp: map_eq_Cons_conv gist_eq)
  have u: "unat (of_nat k :: u32) = k" using assms(4) by (simp add: unsigned_of_nat take_bit_nat_eq_self)
  define i0 where "i0 = zero_inst\<lparr>Number := op_Number ?o\<rparr>"
  define i1 where "i1 = (if op_Src1 ?o = AtNothing then i0 else i0\<lparr>Src1 := Src1 i\<rparr>)"
  define i2 where "i2 = (if op_Src2 ?o = AtNothing then i1 else i1\<lparr>Src2 := ucast (ucast (Src2 i) :: u32)\<rparr>)"
  define i3 where "i3 = (if op_Dest ?o = AtNothing then i2 else i2\<lparr>Dest := ucast (ucast (Dest i) :: u32)\<rparr>)"
  have c: "confirm_args (expected ?o) (next_arg as)" by (rule confirm_line [OF x refl refl refl]) (use t in simp_all)
  have "on_opcode as a s = Inr (mid_line s i0 (op_Src1 ?o \<in> {AtLiteral, AtAddress}) (op_Src1 ?o = AtRegister)
      (op_Src2 ?o = AtRegister) (op_Dest ?o = AtRegister))"
    unfolding i0_def by (rule line_opcode [OF assms(5) c]) (use a(3) u assms(4) in simp_all)
  then have "gets_to (a # as') s (map gist as') (mid_line s i0 (op_Src1 ?o \<in> {AtLiteral, AtAddress}) (op_Src1 ?o = AtRegister)
      (op_Src2 ?o = AtRegister) (op_Dest ?o = AtRegister))"
    unfolding a(1) by - (rule gets_to_step, simp add: on_atom_def a(2))
  then have "gets_to (a # as') s (field_gists (op_Src2 ?o) (ucast (Src2 i)) x2 @ field_gists (op_Dest ?o) (ucast (Dest i)) x3
      @ [(Seperator, None, 0)] @ ks) (mid_line s i1 False False (op_Src2 ?o = AtRegister) (op_Dest ?o = AtRegister))"
    unfolding i1_def by (rule gets_to_trans) (rule line_src1 [OF _ assms(5)], use x a(4) in simp)
  then have "gets_to (a # as') s (field_gists (op_Dest ?o) (ucast (Dest i)) x3 @ [(Seperator, None, 0)] @ ks)
      (mid_line s i2 False False False (op_Dest ?o = AtRegister))"
    unfolding i2_def by (rule gets_to_trans) (rule line_src2 [OF _ assms(5) conjunct1 [OF t]], simp)
  then have "gets_to (a # as') s ([(Seperator, None, 0)] @ ks) (mid_line s i3 False False False False)"
    unfolding i3_def by (rule gets_to_trans) (rule line_dest [OF _ assms(5) conjunct2 [OF t]], simp)
  then have "gets_to (a # as') s ks (after_line i3 s)"
    by (rule gets_to_trans) (rule line_end [OF _ assms(6)], simp)
  moreover have "i3 = i"
  proof -
    have "op_Number ?o = Number i" using assms(3) by (auto simp: find_opcode_def find_Some_iff)
    moreover have "op_Src1 ?o = AtNothing \<Longrightarrow> Src1 i = 0" "op_Src2 ?o = AtNothing \<Longrightarrow> Src2 i = 0"
        "op_Dest ?o = AtNothing \<Longrightarrow> Dest i = 0" "Crc i = 0"
      using assms(2,3) by (auto simp: listable_def listed_field_def byte_back(2))
    ultimately show ?thesis by (simp add: byte_back(1) i3_def i2_def i1_def i0_def zero_inst_def)
  qed
  ultimately show ?thesis using a(1) by simp
qed

subsection \<open>Whole programs\<close>

definition listing :: "Instruction list \<Rightarrow> string" where
  "listing is = concat (map (\<lambda>i. the (InstToStr i) @ [CHR 0x0A]) is)"

definition op_pos :: "Instruction \<Rightarrow> nat" where
  "op_pos i = length (takeWhile (\<lambda>o'. op_Number o' \<noteq> Number i) InstructionSet)"

lemma find_pos: "find P xs = Some x \<Longrightarrow> length (takeWhile (\<lambda>y. \<not> P y) xs) < length xs \<and> xs ! length (takeWhile (\<lambda>y. \<not> P y) xs) = x"
  by (induction xs) (auto split: if_splits)

lemma listable_opcode: "listable i \<Longrightarrow> op_pos i < 36 \<and> find_opcode (Number i) = Some (InstructionSet ! op_pos i)"
  using find_pos [of "\<lambda>o'. op_Number o' = Number i" InstructionSet]
  by (cases "find_opcode (Number i)") (auto simp: listable_def find_opcode_def op_pos_def)

fun after_lines :: "Instruction list \<Rightarrow> asm \<Rightarrow> asm" where
  "after_lines [] s = s"
| "after_lines (i # is) s = after_lines is (after_line i s)"

definition program_gists :: "Instruction list \<Rightarrow> (AtomType \<times> string option \<times> u32) list" where
  "program_gists is = concat (map (\<lambda>i. line_gists (op_pos i) i) is) @ [(Seperator, None, 0)]"

lemma program_gists_Cons: "program_gists (i # is) = line_gists (op_pos i) i @ program_gists is"
  by (simp add: program_gists_def)

lemma listing_Cons: "InstToStr i = Some ln \<Longrightarrow> listing (i # is) = ln @ CHR 0x0A # listing is"
  by (simp add: listing_def)

lemma blank_lexes_lexes: "blank_lexes cp ks \<Longrightarrow> lexes cp ks"
  unfolding blank_lexes_def by (metis append_Nil replicate_0)

lemma listing_lexes: "list_all listable is \<Longrightarrow> lexes (listing is) (program_gists is)"
proof (induction "is")
  case Nil
  then show ?case by (simp add: listing_def program_gists_def lexes_end)
next
  case (Cons i "is")
  then have i: "listable i" and l: "lexes (listing is) (program_gists is)" by simp_all
  note k = listable_opcode [OF i]
  obtain ln where ln: "InstToStr i = Some ln" "blank_lexes (ln @ CHR 0x0A # listing is) (line_gists (op_pos i) i @ program_gists is)"
    using line_lexes [OF i conjunct2 [OF k] conjunct1 [OF k] l] by blast
  show ?case unfolding program_gists_Cons listing_Cons [OF ln(1)] using ln(2) by (rule blank_lexes_lexes)
qed

lemma after_line_ready:
  "nothing_expected s \<Longrightarrow> nothing_expected (after_line i s)" "index (after_line i s) = Suc (index s)"
  "length (Program (code (after_line i s))) = length (Program (code s))"
  by (simp_all add: after_line_def nothing_expected_def)

lemma program_translates:
  "list_all listable is \<Longrightarrow> index s + length is \<le> length (Program (code s)) \<Longrightarrow> nothing_expected s \<Longrightarrow>
   map gist as = program_gists is \<Longrightarrow> gets_to as s [(Seperator, None, 0)] (after_lines is s)"
proof (induction "is" arbitrary: as s)
  case Nil
  then show ?case using gets_to_refl [of as s] by (simp add: program_gists_def)
next
  case (Cons i "is")
  then have i: "listable i" "list_all listable is" "index s < length (Program (code s))" by simp_all
  note k = listable_opcode [OF i(1)]
  have "gets_to as s (program_gists is) (after_line i s)"
    by (rule line_translates [OF _ i(1) conjunct2 [OF k] conjunct1 [OF k] i(3) Cons.prems(3)])
      (use Cons.prems(4) in \<open>simp only: program_gists_Cons\<close>)
  moreover have "gets_to bs (after_line i s) [(Seperator, None, 0)] (after_lines is (after_line i s))"
    if "map gist bs = program_gists is" for bs
    using Cons.prems(2,3) that by (intro Cons.IH i(2)) (simp_all add: after_line_ready)
  ultimately show ?case unfolding after_lines.simps by (rule gets_to_trans)
qed

lemma after_lines_state:
  "index (after_lines is s) = index s + length is"
  "error_count (after_lines is s) = error_count s" "forward (after_lines is s) = forward s"
  "nothing_expected (after_lines is s) = nothing_expected s"
  "LoadAddress (code (after_lines is s)) = LoadAddress (code s)"
  "length (Program (code (after_lines is s))) = length (Program (code s))"
  by (induction "is" arbitrary: s) (auto simp: after_line_def nothing_expected_def)

lemma after_lines_count: "is \<noteq> [] \<Longrightarrow> InstructionCount (code (after_lines is s)) = of_nat (index s + length is)"
proof (induction "is" arbitrary: s)
  case (Cons i "is")
  then show ?case by (cases "is = []") (simp_all add: after_line_ready, simp add: after_line_def)
qed simp

lemma after_lines_Program:
  "index s + length is \<le> length (Program (code s)) \<Longrightarrow>
   Program (code (after_lines is s)) = take (index s) (Program (code s)) @ is @ drop (index s + length is) (Program (code s))"
proof (induction "is" arbitrary: s)
  case (Cons i "is")
  have l: "index s < length (Program (code s))" using Cons.prems by simp
  have "index (after_line i s) = Suc (index s)" "Program (code (after_line i s)) = (Program (code s))[index s := i]"
    by (simp_all add: after_line_def)
  moreover have "take (Suc (index s)) ((Program (code s))[index s := i]) = take (index s) (Program (code s)) @ [i]"
    using l by (simp add: take_Suc_conv_app_nth)
  ultimately show ?case using Cons.IH [of "after_line i s"] Cons.prems by simp
qed simp

subsection \<open>The whole run\<close>

lemma hex_word_chars: "c \<in> set (fmt_X v) \<Longrightarrow> word_char c"
proof -
  assume "c \<in> set (fmt_X v)"
  then obtain d where d: "d < 16" "c = digit_char d" using set_to_base [of 16 "unat v"] by (auto simp: fmt_X_def)
  then have "48 \<le> (of_char c :: nat) \<and> (of_char c :: nat) \<le> 57 \<or> 65 \<le> (of_char c :: nat) \<and> (of_char c :: nat) \<le> 90"
    by (auto simp: digit_char_def of_char_of take_bit_eq_mod)
  then show ?thesis by (auto simp: word_char_def Numeric_iff upper_is_Alpha)
qed

lemma field_chars:
  assumes "listed_field t v" and "field_text t v = Some x"
  shows "\<forall>c \<in> set x. word_char c"
proof -
  have "word_char CHR ''0''" "word_char CHR ''x''"
    by (simp_all add: word_char_def atom_type_def atom_types_def atomhash_def)
  moreover have "unat v < 256 \<Longrightarrow> RegToString v = Some x \<Longrightarrow> register_word x" by (rule register_name_word(1))
  ultimately show ?thesis
    using assms hex_word_chars by (cases t) (auto simp: listed_field_def field_text_def register_word_def)
qed

lemma line_text:
  assumes "listable i"
  obtains ln where "InstToStr i = Some ln" "ln \<noteq> []" "atom_type (hd ln) = Alpha" "\<forall>c \<in> set ln. word_char c \<or> c = CHR '' ''"
proof -
  let ?o = "InstructionSet ! op_pos i"
  note k = listable_opcode [OF assms]
  have l: "listed_field (op_Src1 ?o) (Src1 i)" "listed_field (op_Src2 ?o) (ucast (Src2 i))" "listed_field (op_Dest ?o) (ucast (Dest i))"
    using assms k by (simp_all add: listable_def)
  from l [THEN listed_field_text] obtain x1 x2 x3 where x: "field_text (op_Src1 ?o) (Src1 i) = Some x1"
      "field_text (op_Src2 ?o) (ucast (Src2 i)) = Some x2" "field_text (op_Dest ?o) (ucast (Dest i)) = Some x3" by blast
  have c: "\<forall>c \<in> set x1 \<union> set x2 \<union> set x3. word_char c" using field_chars l x by blast
  have "op_Name ?o \<in> set (map op_Name InstructionSet)" using k by simp
  then have "\<forall>c \<in> set (op_Name ?o). 65 \<le> (of_char c :: nat) \<and> (of_char c :: nat) \<le> 90" "op_Name ?o \<noteq> []"
    using opcode_name_props by auto
  note n = letters_word [OF this] this(2)
  have "\<forall>c \<in> set (tabbed (tabbed (tabbed (tabbed (op_Name ?o) 8 @ x1) 16 @ x2) 24 @ x3) 32). word_char c \<or> c = CHR '' ''"
    using c n(1) by (auto simp: tabbed_def TabTo_def)
  moreover have "InstToStr i = Some (tabbed (tabbed (tabbed (tabbed (op_Name ?o) 8 @ x1) 16 @ x2) 24 @ x3) 32)"
    using k x by (simp add: InstToStr_def)
  ultimately show ?thesis using that n by (auto simp: tabbed_def)
qed

lemma word_not_special: "word_char c \<or> c = CHR '' '' \<Longrightarrow> c \<noteq> CHR 0x0A \<and> c \<noteq> CHR 0x00 \<and> c \<noteq> CHR 0xFF"
  by (auto simp: word_char_def atom_type_def atom_types_def atomhash_def)

lemma listing_text:
  "list_all listable is \<Longrightarrow> read_source (listing is) = listing is \<and> length (filter (\<lambda>c. c = CHR 0x0A) (listing is)) = length is
     \<and> 2 * length is \<le> length (listing is) \<and> (is \<noteq> [] \<longrightarrow> atom_type (peek (listing is)) = Alpha)"
proof (induction "is")
  case Nil
  then show ?case by (simp add: listing_def read_source_def)
next
  case (Cons i "is")
  then have i: "listable i" by simp
  obtain ln where ln: "InstToStr i = Some ln" "ln \<noteq> []" "atom_type (hd ln) = Alpha" "\<forall>c \<in> set ln. word_char c \<or> c = CHR '' ''"
    using line_text [OF i] by blast
  have "\<forall>c \<in> set ln. c \<noteq> CHR 0x0A \<and> c \<noteq> CHR 0x00 \<and> c \<noteq> CHR 0xFF" using ln(4) word_not_special by blast
  then have "filter (\<lambda>c. c = CHR 0x0A) ln = []" "takeWhile (\<lambda>c. c \<noteq> CHR 0x00 \<and> c \<noteq> CHR 0xFF) (ln @ CHR 0x0A # listing is)
      = ln @ CHR 0x0A # takeWhile (\<lambda>c. c \<noteq> CHR 0x00 \<and> c \<noteq> CHR 0xFF) (listing is)"
    by (auto simp: filter_empty_conv takeWhile_append2)
  moreover have "Suc (2 * length is) \<le> length ln + length (listing is)" using ln(2) Cons by (cases ln) auto
  moreover have "peek (ln @ CHR 0x0A # listing is) = hd ln" using ln(2) by (cases ln) (auto simp: peek_def)
  moreover have "read_source (listing is) = listing is" "length (filter (\<lambda>c. c = CHR 0x0A) (listing is)) = length is"
      "2 * length is \<le> length (listing is)" using Cons by simp_all
  ultimately show ?case unfolding listing_Cons [OF ln(1)] using ln(3) by (simp add: read_source_def)
qed

lemma assemble_listing:
  assumes "list_all listable is" and "is \<noteq> []" and "\<And>n. length (junk n) = n"
  shows "\<exists>s. assemble_file nl junk (listing is) = Inr (s, WriteObject (code s)) \<and> error_count s = 0
     \<and> code s = \<lparr>LoadAddress = 0, InstructionCount = of_nat (length is), Program = is\<rparr>"
proof -
  let ?f = "listing is" and ?c = "\<lparr>LoadAddress = 0, InstructionCount = 0, Program = junk (length is)\<rparr>"
  note t = listing_text [OF assms(1)]
  have "1 \<le> length is" using assms(2) by (cases "is") auto
  then have big: "\<not> length ?f < 2" using t by linarith
  have dot: "peek ?f \<noteq> CHR ''.''" using t assms(2) by (auto simp: atom_type_def atom_types_def atomhash_def)
  obtain as where as: "GetAtoms_loop (int (length ?f)) ?f 1 1 nl 0 = Inr (as, 0)" "map gist as = program_gists is"
    using lexesD [OF listing_lexes [OF assms(1)], of 1 "int (length ?f)" 1 nl 0] by auto
  obtain s0 where s0: "upd_inst (\<lambda>_. zero_inst) (asm_start ?c 0) = Inr s0" "index s0 = 0" "length (Program (code s0)) = length is"
      "nothing_expected s0" "error_count s0 = 0" "forward s0 = []" "LoadAddress (code s0) = 0"
    using assms(2,3) by (auto simp: upd_inst_def asm_start_def nothing_expected_def)
  let ?s = "after_lines is s0"
  have "gets_to as s0 [(Seperator, None, 0)] ?s" using assms(1) s0 as(2) by (intro program_translates) auto
  then obtain q bs where "map gist bs = [(Seperator, None, 0)]" "atoms_loop None as s0 = atoms_loop q bs ?s"
    unfolding gets_to_def by (metis (no_types))
  then obtain b where b: "gist b = (Seperator, None, 0)" "atoms_loop None as s0 = atoms_loop q [b] ?s"
    by (auto simp: map_eq_Cons_conv)
  have "\<not> expect_lit ?s" using s0(4) after_lines_state(4) [of "is" s0] by (simp add: nothing_expected_def)
  then have run: "atoms_loop None as s0 = Inr (ResetStacks ?s)"
    using b by (simp add: on_atom_def gist_eq on_seperator_def)
  have c: "code ?s = \<lparr>LoadAddress = 0, InstructionCount = of_nat (length is), Program = is\<rparr>"
    using after_lines_Program [of s0 "is"] after_lines_count [OF assms(2), of s0] after_lines_state(5) [of "is" s0] s0
    by (intro ProgramBuf.equality) auto
  have "assemble_file nl junk ?f = Inr (resolve_forward (ResetStacks ?s), WriteObject (code (resolve_forward (ResetStacks ?s))))"
    using t big dot as(1) s0 run assms(2) after_lines_state(2) [of "is" s0]
    by (simp add: assemble_file_def Assemble_def GetAtoms_def ResetStacks_def Let_def)
  moreover have "resolve_forward (ResetStacks ?s) = ResetStacks ?s"
    using after_lines_state(3) [of "is" s0] s0(6) by (simp add: resolve_forward_def ResetStacks_def)
  ultimately show ?thesis using c after_lines_state(2) [of "is" s0] s0(5) by (simp add: ResetStacks_def)
qed

end
