(* ===== verification/Mtt_Asm_Inv.thy ===== *)
theory Mtt_Asm_Inv
  imports Mtt_Asm
begin

text \<open>
  The invariant of the assembler's tables: the stacks stay inside their arrays, the symbol table has no
  name twice, every reference to a symbol or an instruction is inside its table, and no instruction has
  two forward references. It is proved with a rule per operation for the outcomes that are values
  (\<open>returns m Q\<close>: \<open>Q\<close> holds of what \<open>m\<close> returns when it returns).
\<close>

subsection \<open>What a run returns\<close>

definition returns :: "'a asm_res \<Rightarrow> ('a \<Rightarrow> bool) \<Rightarrow> bool" where
  "returns m Q \<longleftrightarrow> (\<forall>x. m = Inr x \<longrightarrow> Q x)"

named_theorems run_intro \<open>rules for what the operations of the assembler return\<close>

lemma returns_simps [simp]: "returns (Inl e) Q" "returns (Inr x) Q \<longleftrightarrow> Q x"
  by (auto simp: returns_def)

lemma returns_bindR [run_intro]: "returns m (\<lambda>x. returns (f x) Q) \<Longrightarrow> returns (bindR m f) Q"
  by (cases m) (auto simp: returns_def)

lemma returns_mono: "returns m P \<Longrightarrow> (\<And>x. P x \<Longrightarrow> Q x) \<Longrightarrow> returns m Q"
  by (simp add: returns_def)

lemma returnsD: "returns m Q \<Longrightarrow> m = Inr x \<Longrightarrow> Q x"
  by (simp add: returns_def)

subsection \<open>The invariant\<close>

definition operand_ok :: "nat \<Rightarrow> Operand \<Rightarrow> bool" where
  "operand_ok n x \<longleftrightarrow> (case SymbolRef x of None \<Rightarrow> True | Some i \<Rightarrow> i < n)"

lemma operand_ok_simps [simp]:
  "operand_ok n (literal v)" "operand_ok n \<lparr>SymbolRef = Some i, LiteralValue = v\<rparr> \<longleftrightarrow> i < n"
  by (simp_all add: operand_ok_def literal_def)

lemma operand_ok_mono: "operand_ok n x \<Longrightarrow> n \<le> m \<Longrightarrow> operand_ok m x"
  by (auto simp: operand_ok_def split: option.splits)

definition stacks_inv :: "asm \<Rightarrow> bool" where
  "stacks_inv s \<longleftrightarrow> length (operandStack s) = OPERAND_STACK \<and> operandStackSize s \<le> OPERAND_STACK
     \<and> length (operatorStack s) = OPERATOR_STACK \<and> operatorStackSize s \<le> OPERATOR_STACK
     \<and> (\<forall>x \<in> set (operandStack s). operand_ok (length (symbolTable s)) x)"

definition table_inv :: "asm \<Rightarrow> bool" where
  "table_inv s \<longleftrightarrow> length (symbolTable s) \<le> SYMBOLS \<and> distinct (map sy_Name (symbolTable s))
     \<and> error_count s \<le> MAX_ERROR_COUNT"

text \<open>\<open>fst n\<close> instructions are allocated, and \<open>snd n\<close> are the operation codes of those translated so far.\<close>

definition code_inv :: "nat \<times> u8 list \<Rightarrow> asm \<Rightarrow> bool" where
  "code_inv n s \<longleftrightarrow> length (Program (code s)) = fst n \<and> index s \<le> fst n
     \<and> map Number (take (index s) (Program (code s))) = snd n \<and> InstructionCount (code s) = of_nat (index s)
     \<and> length (forward s) < FORWARD_REFS \<and> distinct (map snd (forward s))
     \<and> (\<forall>(y, i) \<in> set (forward s). y < length (symbolTable s) \<and> i < index s)
     \<and> (expect_lit s \<longrightarrow> inst s < index s \<and> inst s \<notin> snd ` set (forward s))"

definition asm_inv :: "nat \<times> u8 list \<Rightarrow> asm \<Rightarrow> bool" where
  "asm_inv n s \<longleftrightarrow> stacks_inv s \<and> table_inv s \<and> code_inv n s"

lemmas inv_defs = asm_inv_def stacks_inv_def table_inv_def code_inv_def

subsection \<open>Errors, symbols and stacks\<close>

lemma report_inv [run_intro]: "asm_inv n s \<Longrightarrow> (\<And>s'. asm_inv n s' \<Longrightarrow> symbolTable s' = symbolTable s \<Longrightarrow> Q s') \<Longrightarrow> returns (report et s) Q"
  unfolding report_def Error_def by (cases et) (auto simp: inv_defs)

lemma symbol_index_Some: "symbol_index name ys k = Some i \<Longrightarrow> k \<le> i \<and> i < k + length ys \<and> sy_Name (ys ! (i - k)) = name"
  by (induction ys arbitrary: k) (fastforce split: if_splits simp: nth_Cons')+

lemma symbol_index_None: "symbol_index name ys k = None \<longleftrightarrow> name \<notin> sy_Name ` set ys"
  by (induction ys arbitrary: k) auto

lemma GetSymbol_inv [run_intro]:
  assumes "asm_inv n s"
    and "\<And>i s'. asm_inv n s' \<Longrightarrow> i < length (symbolTable s') \<Longrightarrow> sy_Name (symbolTable s' ! i) = name
      \<Longrightarrow> forward s' = forward s \<Longrightarrow> inst s' = inst s \<Longrightarrow> index s' = index s \<Longrightarrow> expect_lit s' = expect_lit s \<Longrightarrow> Q (i, s')"
  shows "returns (GetSymbol name s) Q"
proof (cases "symbol_index name (symbolTable s) 0")
  case None
  let ?s = "s\<lparr>symbolTable := symbolTable s @ [\<lparr>sy_Name = name, sy_Value = 0, sy_Defined = False\<rparr>]\<rparr>"
  show ?thesis
  proof (cases "length (symbolTable s) \<ge> SYMBOLS")
    case False
    have "asm_inv n ?s"
      using None False assms(1) symbol_index_None [of name "symbolTable s" 0]
      by (auto simp: inv_defs operand_ok_mono less_Suc_eq)
    then show ?thesis using None False assms(2) [of ?s "length (symbolTable s)"] by (simp add: GetSymbol_def Let_def)
  qed (simp add: GetSymbol_def None)
next
  case (Some i)
  with assms symbol_index_Some [OF Some] show ?thesis by (simp add: GetSymbol_def)
qed

lemma set_nth_update: "x \<in> set (xs[i := v]) \<Longrightarrow> x = v \<or> x \<in> set xs"
  using set_update_subset_insert by fastforce

lemma PushOperand_inv [run_intro]:
  "asm_inv n s \<Longrightarrow> operand_ok (length (symbolTable s)) x \<Longrightarrow> (\<And>s'. asm_inv n s' \<Longrightarrow> Q s') \<Longrightarrow> returns (PushOperand x s) Q"
proof -
  assume s: "asm_inv n s" and x: "operand_ok (length (symbolTable s)) x" and Q: "\<And>s'. asm_inv n s' \<Longrightarrow> Q s'"
  have "operandStackSize s < OPERAND_STACK \<Longrightarrow>
      asm_inv n (s\<lparr>operandStack := (operandStack s)[operandStackSize s := x], operandStackSize := Suc (operandStackSize s)\<rparr>)"
    using s x by (auto simp: inv_defs dest!: set_nth_update)
  with Q show ?thesis by (simp add: PushOperand_def)
qed

lemma PushOperator_inv [run_intro]: "asm_inv n s \<Longrightarrow> (\<And>s'. asm_inv n s' \<Longrightarrow> Q s') \<Longrightarrow> returns (PushOperator x s) Q"
proof -
  assume s: "asm_inv n s" and Q: "\<And>s'. asm_inv n s' \<Longrightarrow> Q s'"
  have "operatorStackSize s < OPERATOR_STACK \<Longrightarrow>
      asm_inv n (s\<lparr>operatorStack := (operatorStack s)[operatorStackSize s := x], operatorStackSize := Suc (operatorStackSize s)\<rparr>)"
    using s by (auto simp: inv_defs)
  with Q show ?thesis by (simp add: PushOperator_def)
qed

lemma with_one_inv [run_intro]:
  assumes "asm_inv n s"
    and "\<And>x s'. asm_inv n s' \<Longrightarrow> operand_ok (length (symbolTable s)) x \<Longrightarrow> symbolTable s' = symbolTable s \<Longrightarrow> returns (f x s') (\<lambda>(r, s2). asm_inv n s2)"
  shows "returns (with_one s f) (\<lambda>(r, s2). asm_inv n s2)"
proof (cases "operandStackSize s > 0")
  case True
  have "operandStack s ! (operandStackSize s - 1) \<in> set (operandStack s)"
    using assms(1) True by (intro nth_mem) (auto simp: inv_defs)
  then show ?thesis
    using assms(1) True by (simp add: with_one_def PopOperand_def) (rule assms(2), auto simp: inv_defs)
next
  case False
  then show ?thesis using assms(1)
    by (auto simp: with_one_def PopOperand_def intro!: returns_bindR report_inv [where n = n])
qed

lemma with_two_inv [run_intro]:
  assumes "asm_inv n s"
    and "\<And>x y s'. asm_inv n s' \<Longrightarrow> operand_ok (length (symbolTable s')) x \<Longrightarrow> operand_ok (length (symbolTable s')) y
      \<Longrightarrow> returns (f x y s') (\<lambda>(r, s2). asm_inv n s2)"
  shows "returns (with_two s f) (\<lambda>(r, s2). asm_inv n s2)"
  unfolding with_two_def using assms by (intro with_one_inv) auto

subsection \<open>Expressions\<close>

lemma push_value_inv [run_intro]: "asm_inv n s \<Longrightarrow> returns (push_value v s) (\<lambda>(r, s2). asm_inv n s2)"
  unfolding push_value_def by (intro run_intro) auto

lemma symbol_update_inv:
  assumes "asm_inv n s" and "ys = symbolTable s" and "sy_Name y = sy_Name (ys ! i)"
  shows "asm_inv n (s\<lparr>symbolTable := ys[i := y]\<rparr>)"
proof -
  have "map sy_Name ((symbolTable s)[i := y]) = map sy_Name (symbolTable s)"
    using assms(2,3) by (cases "i < length (symbolTable s)") (auto simp: map_update list_update_same_conv list_update_beyond)
  with assms(1,2) show ?thesis by (auto simp: inv_defs)
qed

lemma do_operator_inv: "asm_inv n s \<Longrightarrow> returns (do_operator opr s) (\<lambda>(r, s2). asm_inv n s2)"
proof -
  assume s: "asm_inv n s"
  have step: "returns (do_step d s) (\<lambda>(r, s2). asm_inv n s2)" for d
    using s unfolding do_step_def
    by (intro with_one_inv) (auto simp: Let_def symbol_update_inv split: option.split intro!: push_value_inv returns_bindR report_inv [where n = n])
  have assign: "returns (do_assign s) (\<lambda>(r, s2). asm_inv n s2)"
    using s unfolding do_assign_def
    by (intro with_two_inv) (auto simp: symbol_update_inv split: option.split intro!: returns_bindR PushOperand_inv [where n = n] report_inv [where n = n])
  have binary: "returns (do_binary opr s) (\<lambda>(r, s2). asm_inv n s2)"
    using s unfolding do_binary_def by (intro with_two_inv) (auto split: option.split intro: push_value_inv)
  show ?thesis
    using s step assign binary by (cases opr) (auto simp: do_operator_def intro!: with_one_inv push_value_inv)
qed

lemma expression_loop_inv: "asm_inv n s \<Longrightarrow> k \<le> OPERATOR_STACK \<Longrightarrow> returns (expression_loop k s) (\<lambda>(v, s2). asm_inv n s2)"
proof (induction k arbitrary: s)
  case 0
  then show ?case by (auto intro!: returns_bindR report_inv [where n = n])
next
  case (Suc k)
  then have "asm_inv n (s\<lparr>operatorStackSize := k\<rparr>)" by (auto simp: inv_defs)
  note op = do_operator_inv [OF this, of "operatorStack s ! k"]
  have "returns (case x of (r, s') \<Rightarrow> case r of Some v \<Rightarrow> Inr (v, s') | None \<Rightarrow> expression_loop k s') (\<lambda>(v, s2). asm_inv n s2)"
    if "case x of (r, s2) \<Rightarrow> asm_inv n s2" for x
    using that Suc.IH Suc.prems(2) by (cases x) (auto split: option.split)
  then show ?case using op by (simp only: expression_loop.simps) (intro returns_bindR, erule returns_mono, blast)
qed

lemma DoExpression_inv [run_intro]: "asm_inv n s \<Longrightarrow> returns (DoExpression s) (\<lambda>(v, s2). asm_inv n s2)"
  unfolding DoExpression_def by (rule expression_loop_inv) (auto simp: inv_defs)

subsection \<open>Translation\<close>

lemma upd_inst_inv [run_intro]:
  assumes "asm_inv n s" and "index s = 0 \<or> (\<forall>i. Number (f i) = Number i)"
    and "\<And>s'. asm_inv n s' \<Longrightarrow> forward s' = forward s \<Longrightarrow> inst s' = inst s \<Longrightarrow> index s' = index s \<Longrightarrow> expect_lit s' = expect_lit s
      \<Longrightarrow> symbolTable s' = symbolTable s \<Longrightarrow> Q s'"
  shows "returns (upd_inst f s) Q"
proof -
  let ?s = "s\<lparr>code := (code s)\<lparr>Program := (Program (code s))[inst s := f (Program (code s) ! inst s)]\<rparr>\<rparr>"
  have "index s = 0 \<or> map Number ((Program (code s))[inst s := f (Program (code s) ! inst s)]) = map Number (Program (code s))"
    if "inst s < length (Program (code s))"
    using assms(2) that by (auto simp: map_update list_update_same_conv)
  then have "map Number (take (index s) ((Program (code s))[inst s := f (Program (code s) ! inst s)]))
      = map Number (take (index s) (Program (code s)))" if "inst s < length (Program (code s))"
    using that by (auto simp flip: take_map)
  then have "inst s < length (Program (code s)) \<Longrightarrow> asm_inv n ?s" using assms(1) by (auto simp: inv_defs)
  from assms(3) [OF this] show ?thesis by (simp add: upd_inst_def)
qed

lemma expect_lit_False_inv: "asm_inv n s \<Longrightarrow> asm_inv n (s\<lparr>expect_lit := False\<rparr>)"
  by (auto simp: inv_defs)

lemma expect_regs_inv [simp]:
  "asm_inv n (s\<lparr>expect_sr1 := b\<rparr>) = asm_inv n s" "asm_inv n (s\<lparr>expect_sr2 := b\<rparr>) = asm_inv n s"
  "asm_inv n (s\<lparr>expect_dst := b\<rparr>) = asm_inv n s"
  by (auto simp: inv_defs)

lemma ResetStacks_inv: "asm_inv n s \<Longrightarrow> asm_inv n (ResetStacks s)"
  by (auto simp: inv_defs ResetStacks_def)

lemmas keep_inv = expect_lit_False_inv ResetStacks_inv

lemma on_numeric_inv: "asm_inv n s \<Longrightarrow> returns (on_numeric a s) (asm_inv n)"
  unfolding on_numeric_def by (auto intro!: upd_inst_inv [where n = n] PushOperand_inv [where n = n] keep_inv)

lemma add_forward_inv:
  assumes "asm_inv n s" and "i < length (symbolTable s)" and "inst s < index s" and "\<forall>y. (y, inst s) \<notin> set (forward s)" and "\<not> expect_lit s"
  shows "returns (add_forward i s) (asm_inv n)"
  unfolding add_forward_def using assms by (auto simp: inv_defs)

lemma on_alpha_inv:
  assumes "asm_inv n s"
  shows "returns (on_alpha name s) (asm_inv n)"
proof -
  have "returns (case (i, s1) of (i, s1) \<Rightarrow> if expect_lit s1 then
         (let v = sy_Value (symbolTable s1 ! i) in
          bindR (upd_inst (\<lambda>x. x\<lparr>Src1 := v\<rparr>) (s1\<lparr>expect_lit := False\<rparr>))
            (\<lambda>s2. if v = 0 then add_forward i s2 else Inr s2))
       else PushOperand \<lparr>SymbolRef = Some i, LiteralValue = 0\<rparr> s1) (asm_inv n)"
    if s1: "asm_inv n s1" "i < length (symbolTable s1)" for i s1
  proof (cases "expect_lit s1")
    case True
    have e: "asm_inv n (s1\<lparr>expect_lit := False\<rparr>)" using s1(1) by (rule expect_lit_False_inv)
    have "inst s1 < index s1" "\<forall>y. (y, inst s1) \<notin> set (forward s1)" using True s1(1) by (force simp: inv_defs)+
    with s1(2) True show ?thesis
      by (auto simp: Let_def intro!: returns_bindR upd_inst_inv [OF e] add_forward_inv)
  qed (use s1 in \<open>auto intro!: PushOperand_inv [where n = n]\<close>)
  then show ?thesis unfolding on_alpha_def by (intro returns_bindR GetSymbol_inv [OF assms]) blast
qed

lemma on_label_inv: "asm_inv n s \<Longrightarrow> returns (on_label p s) (asm_inv n)"
  unfolding on_label_def set_label_def
  by (auto split: option.split intro!: returns_bindR GetSymbol_inv [where n = n] report_inv [where n = n] symbol_update_inv)
    (auto simp: inv_defs)

lemma on_operator_inv: "asm_inv n s \<Longrightarrow> returns (on_operator p a s) (asm_inv n)"
  unfolding on_operator_def by (auto simp: Let_def intro: on_label_inv intro!: PushOperator_inv [where n = n])

lemma on_register_inv: "asm_inv n s \<Longrightarrow> returns (on_register a s) (asm_inv n)"
  unfolding on_register_def by (auto intro!: upd_inst_inv [where n = n])

lemma on_seperator_inv: "asm_inv n s \<Longrightarrow> returns (on_seperator s) (asm_inv n)"
  unfolding on_seperator_def by (auto intro!: returns_bindR report_inv [where n = n] keep_inv)

lemma GetConfirm_shape:
  "returns (GetConfirm as opcd s) (\<lambda>t. code t = code s \<and> inst t = inst s \<and> index t = index s \<and> forward t = forward s
     \<and> symbolTable t = symbolTable s \<and> operandStack t = operandStack s \<and> operandStackSize t = operandStackSize s
     \<and> operatorStack t = operatorStack s \<and> operatorStackSize t = operatorStackSize s
     \<and> (error_count s \<le> MAX_ERROR_COUNT \<longrightarrow> error_count t \<le> MAX_ERROR_COUNT))"
  unfolding GetConfirm_def report_def Error_def by (simp add: Let_def)

lemma on_opcode_shape:
  assumes "on_opcode as a s = Inr t" and "error_count s \<le> MAX_ERROR_COUNT"
  shows "index s < length (Program (code s)) \<and> length (Program (code t)) = length (Program (code s))
     \<and> InstructionCount (code t) = of_nat (index t) \<and> index t = Suc (index s) \<and> inst t = index s
     \<and> forward t = forward s \<and> symbolTable t = symbolTable s \<and> error_count t \<le> MAX_ERROR_COUNT
     \<and> operandStack t = operandStack s \<and> operandStackSize t = operandStackSize s
     \<and> operatorStack t = operatorStack s \<and> operatorStackSize t = operatorStackSize s
     \<and> take (index t) (Program (code t)) = take (index s) (Program (code s)) @ [Program (code t) ! index s]
     \<and> Number (Program (code t) ! index s) = op_Number (InstructionSet ! unat (Value a))"
proof -
  obtain s1 s2 where 1: "upd_inst (\<lambda>_. zero_inst) (s\<lparr>inst := index s\<rparr>) = Inr s1"
      and 2: "GetConfirm as (InstructionSet ! unat (Value a)) s1 = Inr s2"
      and 3: "bindR (upd_inst (\<lambda>i. i\<lparr>Number := op_Number (InstructionSet ! unat (Value a))\<rparr>) s2) (\<lambda>s3.
           Inr (s3\<lparr>pc := pc s3 + 1, index := Suc (index s3),
                   code := (code s3)\<lparr>InstructionCount := of_nat (Suc (index s3))\<rparr>\<rparr>)) = Inr t"
    using assms(1) unfolding on_opcode_def Let_def bindR_Inr by blast
  show ?thesis
    using 1 3 returnsD [OF GetConfirm_shape 2] assms(2) unfolding upd_inst_def bindR_Inr
    by (auto simp: take_Suc_conv_app_nth split: if_splits)
qed

text \<open>The operation code that an atom adds to the program.\<close>

definition codes :: "Atom list \<Rightarrow> u8 list" where
  "codes as = map (\<lambda>a. op_Number (InstructionSet ! unat (Value a))) (filter (\<lambda>a. Type a = Op_code) as)"

lemma codes_simps [simp]: "codes [] = []"
  "codes (a # as) = (if Type a = Op_code then op_Number (InstructionSet ! unat (Value a)) # codes as else codes as)"
  by (simp_all add: codes_def)

lemma on_opcode_inv:
  assumes "asm_inv (m, ks) s" and "Type a = Op_code"
  shows "returns (on_opcode as a s) (asm_inv (m, ks @ codes [a]))"
  unfolding returns_def
proof (intro allI impI)
  fix t assume t: "on_opcode as a s = Inr t"
  have "error_count s \<le> MAX_ERROR_COUNT" using assms by (simp add: inv_defs)
  note t = on_opcode_shape [OF t this]
  have "stacks_inv t" "table_inv t" using t assms by (auto simp: asm_inv_def stacks_inv_def table_inv_def)
  moreover have "code_inv (m, ks @ codes [a]) t" using t assms by (auto simp: inv_defs dest: less_SucI)
  ultimately show "asm_inv (m, ks @ codes [a]) t" by (simp add: asm_inv_def)
qed

lemma on_atom_inv:
  assumes "asm_inv (m, ks) s"
  shows "returns (on_atom p (a # as) s) (asm_inv (m, ks @ codes [a]))"
proof -
  let ?n = "(m, ks)"
  have push: "returns (bindR (PushOperator OprSTM s) (\<lambda>s'. Inr (s'\<lparr>expect_lit := False\<rparr>))) (asm_inv ?n)"
    using assms by (intro returns_bindR PushOperator_inv [where n = ?n]) (simp_all add: keep_inv)
  have close: "returns (bindR (DoExpression s) (\<lambda>(v, s'). upd_inst (\<lambda>i. i\<lparr>Src1 := v\<rparr>) (s'\<lparr>expect_lit := False\<rparr>))) (asm_inv ?n)"
    by (intro returns_bindR returns_mono [OF DoExpression_inv [OF assms]]) (auto intro!: upd_inst_inv [where n = ?n] keep_inv)
  show ?thesis
    using assms push close on_numeric_inv on_alpha_inv on_operator_inv on_opcode_inv on_register_inv on_seperator_inv
    unfolding on_atom_def Let_def by (cases "Type a") simp_all
qed

lemma atoms_loop_inv: "asm_inv (m, ks) s \<Longrightarrow> returns (atoms_loop p as s) (asm_inv (m, ks @ codes as))"
proof (induction as arbitrary: p s ks)
  case (Cons a as)
  have "returns (atoms_loop (Some a) as s') (asm_inv (m, ks @ codes (a # as)))" if "asm_inv (m, ks @ codes [a]) s'" for s'
    using Cons.IH [OF that, of "Some a"] by (cases "Type a = Op_code") simp_all
  then show ?case unfolding atoms_loop.simps by (intro returns_bindR returns_mono [OF on_atom_inv [OF Cons.prems]])
qed simp

subsection \<open>The run\<close>

lemma GetAtoms_loop_errors: "k \<le> MAX_ERROR_COUNT \<Longrightarrow> returns (GetAtoms_loop sz cp pos line nl k) (\<lambda>(as, k'). k' \<le> MAX_ERROR_COUNT)"
proof (induction sz cp pos line nl k rule: GetAtoms_loop.induct)
  case (1 sz cp pos line nl k)
  show ?case
  proof (cases "pos > sz")
    case False
    show ?thesis
    proof (cases "lex_step cp pos line nl")
      case (Next a cp' pos' line' nl')
      with 1 False show ?thesis
        by (subst GetAtoms_loop.simps) (force simp: returns_def split: sum.splits)
    qed (use 1 False in \<open>auto simp: GetAtoms_loop.simps [of sz] Error_def\<close>)
  qed (use 1 in \<open>simp add: GetAtoms_loop.simps [of sz]\<close>)
qed

lemma asm_start_inv:
  "InstructionCount c = 0 \<Longrightarrow> k \<le> MAX_ERROR_COUNT \<Longrightarrow> asm_inv (length (Program c), []) (asm_start c k)"
  by (simp add: asm_start_def inv_defs FORWARD_REFS_def)

lemma Assemble_inv:
  assumes "InstructionCount c = 0" and "Assemble nl sz text c = Inr s"
  obtains as k where "GetAtoms nl sz text 0 = Inr (Some as, k)" "asm_inv (length (Program c), codes as) s"
proof -
  obtain as k where a: "GetAtoms nl sz text 0 = Inr (Some as, k)"
      "bindR (upd_inst (\<lambda>_. zero_inst) (asm_start c k)) (atoms_loop None as) = Inr s"
    using assms(2) by (auto simp: Assemble_def bindR_Inr split: option.splits)
  have "k \<le> MAX_ERROR_COUNT"
    using a(1) GetAtoms_loop_errors [of 0 sz "text" 1 1 nl] by (auto simp: GetAtoms_def bindR_Inr returns_def split: if_splits)
  then have "returns (bindR (upd_inst (\<lambda>_. zero_inst) (asm_start c k)) (atoms_loop None as)) (asm_inv (length (Program c), codes as))"
    using atoms_loop_inv [of _ "[]"] assms(1)
    by (intro returns_bindR upd_inst_inv [OF asm_start_inv]) (auto simp: asm_start_def)
  with a that show ?thesis by (auto dest: returnsD)
qed

lemma fold_forward:
  assumes "distinct (map snd fs)" and "\<forall>(y, i) \<in> set fs. i < length p"
    and "r = fold (\<lambda>(y, i) p. p[i := (p ! i)\<lparr>Src1 := g y\<rparr>]) fs p"
  shows "length r = length p \<and> (\<forall>(y, i) \<in> set fs. r ! i = (p ! i)\<lparr>Src1 := g y\<rparr>) \<and> (\<forall>i. i \<notin> snd ` set fs \<longrightarrow> r ! i = p ! i)"
  using assms
proof (induction fs arbitrary: p)
  case (Cons f fs)
  obtain y i where f: "f = (y, i)" by (cases f)
  let ?p = "p[i := (p ! i)\<lparr>Src1 := g y\<rparr>]"
  have i: "i \<notin> snd ` set fs" "i < length p" using Cons.prems f by auto
  have ih: "length r = length ?p" "\<forall>(y, j) \<in> set fs. r ! j = (?p ! j)\<lparr>Src1 := g y\<rparr>" "\<forall>j. j \<notin> snd ` set fs \<longrightarrow> r ! j = ?p ! j"
    using Cons.IH [of ?p] Cons.prems f by auto
  have "\<forall>(y, j) \<in> set fs. j \<noteq> i" using i(1) by force
  with ih(2) have "\<forall>(y, j) \<in> set fs. r ! j = (p ! j)\<lparr>Src1 := g y\<rparr>" by fastforce
  moreover have "r ! i = (p ! i)\<lparr>Src1 := g y\<rparr>" using ih(3) i by simp
  moreover have "\<forall>j. j \<noteq> i \<and> j \<notin> snd ` set fs \<longrightarrow> r ! j = p ! j" using ih(3) by simp
  ultimately show ?case using ih(1) f by simp
qed simp

end
