(* ===== verification/Mtt_Asm_Spec.thy ===== *)
theory Mtt_Asm_Spec
  imports Mtt_Asm_Props Mtt_Asm_Inv Mtt_Emu_Spec
begin

text \<open>
  The properties of the assembler and of its object files: the invariant of its tables, what pass 1 and
  pass 2 put into the program, and the round trips of register names, object files and listings, up to
  the emulator that loads and runs the result. Sample sources at the end show what the assembler does
  with undefined labels, expressions and comments.
\<close>

lemma object_text: "WriteObject (c\<lparr>Program := take (unat (InstructionCount c)) (Program c)\<rparr>) = WriteObject c"
  by (simp add: WriteObject_def)

lemma object_load:
  assumes "unat (InstructionCount c) \<le> length (Program c)" and "\<And>n. length (junk n) = n"
  shows "ReadObject junk (WriteObject c) c0 = c\<lparr>Program := take (unat (InstructionCount c)) (Program c)\<rparr>"
  using object_read_back [of "c\<lparr>Program := take (unat (InstructionCount c)) (Program c)\<rparr>" junk c0] assms
  by (simp add: object_text)

lemma ucast_byte_eq: "(ucast (r :: u8) :: u32) = numeral k \<longleftrightarrow> uint r = uint (numeral k :: u32)"
proof -
  have "uint (ucast r :: u32) = uint r" by (rule uint_up_ucast) (simp add: is_up)
  then show ?thesis by (simp only: word_uint_eq_iff)
qed

theorem registers_roundtrip:
  "case RegToString (ucast r) of
     None \<Rightarrow> r = (215 :: u8)
   | Some name \<Rightarrow> r \<noteq> 215 \<and> LookUpRegister name = Some (ucast r) \<and> StringToReg name = (if r = 214 then 213 else ucast r)"
proof -
  have "RegToString (ucast r) = GetRegisterName (ucast r)" by (simp add: RegToString_def GetRegisterName_def)
  moreover have "(ucast r :: u32) = 215 \<longleftrightarrow> r = 215" "(ucast r :: u32) = 214 \<longleftrightarrow> r = 214"
    by (simp_all only: ucast_byte_eq word_uint_eq_iff [of r]) simp_all
  ultimately show ?thesis
    using registers_read_back [of r] by (auto simp: register_read_back_def split: option.splits)
qed

text \<open>C31: Reading an object file that was written returns the load address, the count and
the counted instructions of the program.\<close>

theorem object_roundtrip:
  assumes "unat (InstructionCount c) \<le> length (Program c)" and "\<forall>n. length (junk n) = n"
  shows "ReadObject junk (WriteObject c) c0 = c\<lparr>Program := take (unat (InstructionCount c)) (Program c)\<rparr>"
  using assms by (intro object_load) auto

subsection \<open>The tables\<close>

lemma assemble_file_Inr:
  assumes "assemble_file nl junk file = Inr (s, obj)" and "\<forall>n. length (junk n) = n"
  defines "m \<equiv> length (filter (\<lambda>c. c = CHR 0x0A) (read_source file))"
  obtains as k s1 where "GetAtoms nl (int (length file)) (read_source file) 0 = Inr (Some as, k)"
    "asm_inv (m, codes as) s1" "s = (if error_count s1 = 0 then resolve_forward s1 else s1)" "obj = WriteObject (code s)"
proof -
  let ?c = "\<lparr>LoadAddress = 0, InstructionCount = 0, Program = junk m\<rparr>"
  obtain s1 where s1: "Assemble nl (int (length file)) (read_source file) ?c = Inr s1"
    using assms(1) unfolding m_def
    by (cases "Assemble nl (int (length file)) (read_source file)
        \<lparr>LoadAddress = 0, InstructionCount = 0, Program = junk (length (filter (\<lambda>c. c = CHR 0x0A) (read_source file)))\<rparr>")
      (auto simp: assemble_file_def Let_def split: if_split_asm)
  then have s: "s = (if error_count s1 = 0 then resolve_forward s1 else s1)" "obj = WriteObject (code s)"
    using assms(1) by (auto simp: assemble_file_def m_def Let_def split: if_split_asm)
  have "InstructionCount ?c = 0" by simp
  from Assemble_inv [OF this s1] show ?thesis using that s assms(2) by auto
qed

lemma resolve_forward_program:
  assumes "asm_inv (m, ks) s" and "p = Program (code (resolve_forward s))"
  shows "length p = length (Program (code s))" and "map Number p = map Number (Program (code s))"
    and "(y, i) \<in> set (forward s) \<Longrightarrow> p ! i = (Program (code s) ! i)\<lparr>Src1 := sy_Value (symbolTable s ! y)\<rparr>"
    and "i \<notin> snd ` set (forward s) \<Longrightarrow> p ! i = Program (code s) ! i"
proof -
  have "distinct (map snd (forward s))" "\<forall>(y, i) \<in> set (forward s). i < length (Program (code s))"
    using assms(1) by (auto simp: inv_defs)
  from fold_forward [OF this, of p "\<lambda>y. sy_Value (symbolTable s ! y)"] assms(2)
  have f: "length p = length (Program (code s))" "\<forall>(y, i) \<in> set (forward s). p ! i = (Program (code s) ! i)\<lparr>Src1 := sy_Value (symbolTable s ! y)\<rparr>"
      "\<forall>i. i \<notin> snd ` set (forward s) \<longrightarrow> p ! i = Program (code s) ! i"
    by (auto simp: resolve_forward_def)
  then show "length p = length (Program (code s))"
    and "(y, i) \<in> set (forward s) \<Longrightarrow> p ! i = (Program (code s) ! i)\<lparr>Src1 := sy_Value (symbolTable s ! y)\<rparr>"
    and "i \<notin> snd ` set (forward s) \<Longrightarrow> p ! i = Program (code s) ! i" by auto
  have "Number (p ! i) = Number (Program (code s) ! i)" for i
    using f(2,3) by (cases "i \<in> snd ` set (forward s)") auto
  with f(1) show "map Number p = map Number (Program (code s))" by (intro nth_equalityI) simp_all
qed

lemma resolve_forward_inv: "asm_inv n s \<Longrightarrow> asm_inv n (resolve_forward s)"
proof (cases n)
  case (Pair m ks)
  assume a: "asm_inv n s"
  note p = resolve_forward_program [OF a [unfolded Pair] refl]
  have "take (index s) (map Number (Program (code (resolve_forward s)))) = take (index s) (map Number (Program (code s)))"
    using p(2) by simp
  then show ?thesis using a p(1) by (auto simp: inv_defs resolve_forward_def take_map)
qed

text \<open>C26: Whatever the source, when the assembler reaches its end the stacks and tables are
inside their arrays, no symbol name occurs twice, every forward reference names a symbol and an
instruction that exist, no instruction has two, and at most ten errors were reported.\<close>

theorem assembler_invariant:
  assumes "assemble_file nl junk file = Inr (s, obj)" and "\<forall>n. length (junk n) = n"
  shows "operandStackSize s \<le> OPERAND_STACK \<and> operatorStackSize s \<le> OPERATOR_STACK
     \<and> length (symbolTable s) \<le> SYMBOLS \<and> distinct (map sy_Name (symbolTable s))
     \<and> length (forward s) < FORWARD_REFS \<and> distinct (map snd (forward s))
     \<and> (\<forall>(y, i) \<in> set (forward s). y < length (symbolTable s) \<and> i < index s)
     \<and> index s \<le> length (Program (code s)) \<and> error_count s \<le> MAX_ERROR_COUNT"
proof -
  obtain m ks where "asm_inv (m, ks) s"
    using assemble_file_Inr [OF assms] resolve_forward_inv by (metis (full_types))
  then show ?thesis by (auto simp: inv_defs)
qed

text \<open>C28: After an assembly without errors the first operand of every instruction with a
forward reference is the final value of the symbol that it names.\<close>

theorem forward_references_resolved:
  assumes "assemble_file nl junk file = Inr (s, obj)" and "\<forall>n. length (junk n) = n" and "error_count s = 0"
    and "(y, i) \<in> set (forward s)"
  shows "y < length (symbolTable s) \<and> i < index s \<and> Src1 (Program (code s) ! i) = sy_Value (symbolTable s ! y)"
proof -
  obtain m ks s1 where s1: "asm_inv (m, ks) s1" "s = (if error_count s1 = 0 then resolve_forward s1 else s1)"
    using assemble_file_Inr [OF assms(1,2)] by metis
  then have s: "s = resolve_forward s1" using assms(3) by (auto split: if_splits)
  then have "forward s = forward s1" "symbolTable s = symbolTable s1" "index s = index s1" by (simp_all add: resolve_forward_def)
  with s1(1) s assms(4) resolve_forward_program(3) [OF s1(1) refl] show ?thesis by (auto simp: inv_defs)
qed

text \<open>C30: The program holds one instruction for each operation code of the source, in the
order of the source and with the number of that code, and its count is the number of them.\<close>

theorem one_instruction_per_opcode:
  assumes "assemble_file nl junk file = Inr (s, obj)" and "\<forall>n. length (junk n) = n"
  shows "\<exists>as k. GetAtoms nl (int (length file)) (read_source file) 0 = Inr (Some as, k)
     \<and> map Number (take (index s) (Program (code s)))
         = map (\<lambda>a. op_Number (InstructionSet ! unat (Value a))) (filter (\<lambda>a. Type a = Op_code) as)
     \<and> InstructionCount (code s) = of_nat (index s)"
proof -
  obtain as k s1 m where a: "GetAtoms nl (int (length file)) (read_source file) 0 = Inr (Some as, k)"
      "asm_inv (m, codes as) s1" "s = (if error_count s1 = 0 then resolve_forward s1 else s1)"
    using assemble_file_Inr [OF assms] by metis
  then have "asm_inv (m, codes as) s" using resolve_forward_inv by auto
  then show ?thesis using a(1) by (auto simp: inv_defs codes_def)
qed

subsection \<open>Labels\<close>

definition symbol :: "string \<Rightarrow> asm \<Rightarrow> Symbol option" where
  "symbol name s = (case symbol_index name (symbolTable s) 0 of None \<Rightarrow> None | Some i \<Rightarrow> Some (symbolTable s ! i))"

lemma symbol_index_other:
  assumes "i < length ys" and "sy_Name y = sy_Name (ys ! i)" and "name \<noteq> sy_Name (ys ! i)"
  shows "symbol_index name (ys[i := y]) k = symbol_index name ys k"
  using assms by (induction ys arbitrary: i k) (auto simp: nth_Cons' split: nat.split)

lemma symbol_index_names: "map sy_Name xs = map sy_Name ys \<Longrightarrow> symbol_index name xs k = symbol_index name ys k"
  by (induction xs ys arbitrary: k rule: list_induct2') auto

lemma symbol_index_append:
  "symbol_index name (ys @ [y]) k = (case symbol_index name ys k of Some i \<Rightarrow> Some i
     | None \<Rightarrow> if name = sy_Name y then Some (k + length ys) else None)"
  by (induction ys arbitrary: k) (auto split: option.split)

text \<open>What \<open>GetSymbol\<close> does to the table as a map from names: an unknown name is entered undefined.\<close>

lemma GetSymbol_map:
  assumes "GetSymbol name s = Inr (i, s')"
  shows "symbol_index name (symbolTable s') 0 = Some i \<and> i < length (symbolTable s')
     \<and> sy_Name (symbolTable s' ! i) = name \<and> (\<exists>ys. s' = s\<lparr>symbolTable := ys\<rparr>)
     \<and> symbolTable s' ! i = (case symbol name s of Some y \<Rightarrow> y | None \<Rightarrow> \<lparr>sy_Name = name, sy_Value = 0, sy_Defined = False\<rparr>)
     \<and> (\<forall>m. m \<noteq> name \<longrightarrow> symbol m s' = symbol m s)"
proof (cases "symbol_index name (symbolTable s) 0")
  case None
  let ?ys = "symbolTable s @ [\<lparr>sy_Name = name, sy_Value = 0, sy_Defined = False\<rparr>]"
  have s': "s' = s\<lparr>symbolTable := ?ys\<rparr>" "i = length (symbolTable s)"
    using assms None by (auto simp: GetSymbol_def Let_def split: if_splits)
  have "symbol m s' = symbol m s" if "m \<noteq> name" for m
    using that symbol_index_Some [of m "symbolTable s" 0]
    by (auto simp: symbol_def s' symbol_index_append nth_append split: option.split)
  then show ?thesis using None s' by (auto simp: symbol_index_append symbol_def)
next
  case (Some j)
  then have "s' = s" "i = j" using assms by (auto simp: GetSymbol_def)
  with Some symbol_index_Some [OF Some] show ?thesis by (auto simp: symbol_def intro: exI [of _ "symbolTable s"])
qed

theorem label_defines_symbol:
  assumes "Type p = Alpha" and "Text p = Some name" and "on_label (Some p) s = Inr s'"
  shows "symbol name s' = Some \<lparr>sy_Name = name, sy_Value = pc s, sy_Defined = True\<rparr>
     \<and> (\<forall>m. m \<noteq> name \<longrightarrow> symbol m s' = symbol m s) \<and> code s' = code s \<and> pc s' = pc s
     \<and> error_count s' = error_count s + (case symbol name s of Some y \<Rightarrow> if sy_Value y \<noteq> 0 then 1 else 0 | None \<Rightarrow> 0)"
proof -
  obtain i s1 s2 where g: "GetSymbol name s = Inr (i, s1)"
      and r: "(if sy_Value (symbolTable s1 ! i) \<noteq> 0 then report SYNTAX s1 else Inr s1) = Inr s2" and s': "s' = set_label i s2"
    using assms by (auto simp: on_label_def bindR_Inr)
  note g = GetSymbol_map [OF g]
  obtain ys where s1: "s1 = s\<lparr>symbolTable := ys\<rparr>" using g by blast
  define k where "k = error_count s + (if sy_Value (ys ! i) \<noteq> 0 then 1 else 0)"
  have s2: "s2 = s1\<lparr>error_count := k\<rparr>"
    using r by (auto simp: s1 k_def report_def Error_def bindR_Inr split: if_splits)
  have "symbolTable s1 = ys" by (simp add: s1)
  then have i: "i < length ys" "symbol_index name ys 0 = Some i" "sy_Name (ys ! i) = name" using g by metis+
  let ?ys = "ys[i := (ys ! i)\<lparr>sy_Value := pc s, sy_Defined := True\<rparr>]"
  have t: "s' = s\<lparr>symbolTable := ?ys, error_count := k\<rparr>" by (simp add: s' set_label_def s2 s1)
  have n: "symbol_index name ?ys 0 = Some i"
  proof -
    have "map sy_Name ?ys = map sy_Name ys" using i(1) by (simp add: map_update list_update_same_conv)
    from symbol_index_names [OF this] show ?thesis using i(2) by simp
  qed
  have "symbol m s' = symbol m s" if m: "m \<noteq> name" for m
  proof -
    have "symbol_index m ?ys 0 = symbol_index m ys 0" using i m by (intro symbol_index_other) simp_all
    moreover have "symbol_index m ys 0 \<noteq> Some i" using symbol_index_Some [of m ys 0 i] i m by auto
    ultimately have "symbol m s' = symbol m s1" by (auto simp: symbol_def t s1 split: option.split)
    then show ?thesis using g m by simp
  qed
  moreover have "symbol name s' = Some \<lparr>sy_Name = name, sy_Value = pc s, sy_Defined = True\<rparr>"
    using n i by (simp add: symbol_def t)
  moreover have "k = error_count s + (case symbol name s of Some y \<Rightarrow> if sy_Value y \<noteq> 0 then 1 else 0 | None \<Rightarrow> 0)"
    using g by (auto simp: k_def s1 split: option.split)
  ultimately show ?thesis by (simp add: t)
qed

subsection \<open>Listings\<close>

lemma listing_load:
  assumes "list_all listable is" and "is \<noteq> []" and "length is < 2 ^ 32" and "\<forall>n. length (junk n) = n"
  shows "\<exists>s obj. assemble_file nl junk (listing is) = Inr (s, obj) \<and> error_count s = 0
     \<and> ReadObject junk obj c0 = \<lparr>LoadAddress = 0, InstructionCount = of_nat (length is), Program = is\<rparr>"
proof -
  let ?c = "\<lparr>LoadAddress = 0, InstructionCount = of_nat (length is), Program = is\<rparr>"
  obtain s where s: "assemble_file nl junk (listing is) = Inr (s, WriteObject (code s))" "error_count s = 0" "code s = ?c"
    using assemble_listing [OF assms(1,2)] assms(4) by blast
  have "length is = unat (of_nat (length is) :: u32)" using assms(3) by (simp add: unat_of_nat take_bit_eq_mod)
  then have "ReadObject junk (WriteObject ?c) c0 = ?c" using assms(4) by (intro object_read_back) simp_all
  with s show ?thesis by metis
qed

text \<open>C6: The texts of the instructions of a program as InstToStr writes them, one per line,
given to the assembler as a source, assemble without error, and the object file written reads back
as the same program at load address 0. The program has between 1 and 2^32 - 1 instructions with
operation codes of the table, registers below 256 other than EVOUTCNT (whose name does not fit its
buffer) and literals below 2^20; the checksum byte and unused fields are 0.\<close>

theorem listing_assembles:
  assumes "list_all listable is" and "is \<noteq> []" and "length is < 2 ^ 32" and "\<forall>n. length (junk n) = n"
  shows "\<exists>s obj. assemble_file nl junk (concat (map (\<lambda>i. the (InstToStr i) @ [CHR 0x0A]) is)) = Inr (s, obj) \<and> error_count s = 0
     \<and> ReadObject junk obj c0 = \<lparr>LoadAddress = 0, InstructionCount = of_nat (length is), Program = is\<rparr>"
  using listing_load [OF assms] by (simp only: listing_def)

text \<open>C7: A program given as the instruction texts of InstToStr, one per line, assembles
without error, and the emulator that loads the object file reaches HALT within as many steps as it
has instructions; for a program that is not empty and loads at 0, has operation codes of the table
but no wait, LSR, RSR or MOVRI, names registers below 256 other than EVOUTCNT, has literals below
2^20 and shifts by less than 32, whose checksum bytes and unused fields are 0, whose branches go
forward inside the program and which does not run off its end.\<close>

theorem assembled_listing_halts:
  assumes "list_all listable is" and "is \<noteq> []" and "\<forall>n. length (junk n) = n"
    and "forward_program \<lparr>LoadAddress = 0, InstructionCount = of_nat (length is), Program = is\<rparr>"
  shows "\<exists>s obj e. assemble_file nl junk (listing is) = Inr (s, obj) \<and> error_count s = 0
     \<and> exec_pcs (length is) (emu_session (ReadObject junk obj c0)) = Some e \<and> at_halt e"
proof -
  let ?c = "\<lparr>LoadAddress = 0, InstructionCount = of_nat (length is), Program = is\<rparr>"
  have "length is = unat (of_nat (length is) :: u32)" using assms(4) by (simp add: forward_program_def checked_program_def)
  then have "length is < 2 ^ 32" using unat_u32_bound [of "of_nat (length is)"] by simp
  from listing_load [OF assms(1,2) this assms(3), of nl c0]
  obtain s obj where "assemble_file nl junk (listing is) = Inr (s, obj)" "error_count s = 0" "ReadObject junk obj c0 = ?c"
    by blast
  with forward_halts [OF assms(4)] assms(2) show ?thesis by simp
qed

subsection \<open>Samples\<close>

text \<open>The same number without the comparison in \<open>nat\<close>, for evaluation.\<close>

lemma strtoul_code [code]:
  "strtoul cp =
     (let (neg, s1) = read_sign (dropWhile isspace cp);
          (b, s2) = read_base s1;
          (v, ep) = read_digits b 0 s2
      in if ep = s2 then (0, cp)
         else (if int v \<ge> 4294967296 then -1 else if neg then - of_nat v else of_nat v, ep))"
  by (simp add: strtoul_def case_prod_beta Let_def)

definition sample_junk :: "nat \<Rightarrow> Instruction list" where
  "sample_junk n = replicate n zero_inst"

lemma sample_junk_length: "\<forall>n. length (sample_junk n) = n"
  by (simp add: sample_junk_def)

definition outcome :: "string \<Rightarrow> (nat \<times> (string \<times> u32) list \<times> (nat \<times> nat) list \<times> ProgramBuf) option" where
  "outcome file = (case assemble_file 0 sample_junk file of
     Inl _ \<Rightarrow> None
   | Inr (s, obj) \<Rightarrow> Some (error_count s, map (\<lambda>y. (sy_Name y, sy_Value y)) (symbolTable s), forward s, code s))"

definition label_source :: string where
  "label_source = ''0x100: JMP skip'' @ [CHR 0x0A] @ ''NOOP'' @ [CHR 0x0A] @ ''skip: HALT'' @ [CHR 0x0A]"

lemma label_outcome:
  "outcome label_source = Some (0, [(''skip'', 0x102)], [(0, 0)],
     \<lparr>LoadAddress = 0x100, InstructionCount = 3, Program = [mk_inst JMP 0x102 0 0, mk_inst NOOP 0 0 0, mk_inst HALT 0 0 0]\<rparr>)"
  by code_simp

lemma undefined_label:
  "outcome (''JMP nowhere'' @ [CHR 0x0A] @ ''HALT'' @ [CHR 0x0A]) = Some (0, [(''nowhere'', 0)], [(0, 0)],
     \<lparr>LoadAddress = 0, InstructionCount = 2, Program = [mk_inst JMP 0 0 0, mk_inst HALT 0 0 0]\<rparr>)"
  by code_simp

lemma expression_stale:
  "outcome (''HALT (3+4)'' @ [CHR 0x0A]) = Some (0, [], [], \<lparr>LoadAddress = 0, InstructionCount = 1, Program = [mk_inst HALT 4 0 0]\<rparr>)"
  by code_simp

lemma expression_operand_rejected:
  "map_option fst (outcome (''MOVV (7) GR1'' @ [CHR 0x0A])) = Some 1"
  by code_simp

lemma comment_swallows:
  "outcome (''NOOP % note % HALT'' @ [CHR 0x0A, CHR 0x0A]) = Some (0, [], [],
     \<lparr>LoadAddress = 0, InstructionCount = 1, Program = [mk_inst NOOP 0 0 0, zero_inst]\<rparr>)"
  by code_simp

lemma opcodes_on_one_line: "outcome (''NOOP HALT'' @ [CHR 0x0A]) = None"
  by code_simp

lemma label_at_zero:
  "outcome (''back: NOOP'' @ [CHR 0x0A] @ ''back: HALT'' @ [CHR 0x0A]) = Some (0, [(''back'', 1)], [],
     \<lparr>LoadAddress = 0, InstructionCount = 2, Program = [mk_inst NOOP 0 0 0, mk_inst HALT 0 0 0]\<rparr>)"
  by code_simp

subsection \<open>The properties on the samples\<close>

theorem object_roundtrip_witness:
  "ReadObject sample_junk (WriteObject sample_code) sample_code = sample_code"
  using object_roundtrip [of sample_code sample_junk sample_code] sample_junk_length by (simp add: sample_code_def)

lemma label_run:
  obtains s obj where "assemble_file 0 sample_junk label_source = Inr (s, obj)" "error_count s = 0" "forward s = [(0, 0)]"
    "map (\<lambda>y. (sy_Name y, sy_Value y)) (symbolTable s) = [(''skip'', 0x102)]"
  using label_outcome by (auto simp: outcome_def split: sum.splits)

theorem assembler_invariant_witness:
  "\<exists>s obj. assemble_file 0 sample_junk label_source = Inr (s, obj) \<and> index s \<le> length (Program (code s)) \<and> forward s = [(0, 0)]"
proof -
  obtain s obj where "assemble_file 0 sample_junk label_source = Inr (s, obj)" "forward s = [(0, 0)]" using label_run by metis
  with assembler_invariant [OF this(1) sample_junk_length] show ?thesis by blast
qed

theorem forward_references_resolved_witness:
  "\<exists>s obj. assemble_file 0 sample_junk label_source = Inr (s, obj) \<and> Src1 (Program (code s) ! 0) = 0x102"
proof -
  obtain s obj where s: "assemble_file 0 sample_junk label_source = Inr (s, obj)" "error_count s = 0" "forward s = [(0, 0)]"
      "map (\<lambda>y. (sy_Name y, sy_Value y)) (symbolTable s) = [(''skip'', 0x102)]" by (rule label_run)
  have "(0, 0) \<in> set (forward s)" using s(3) by simp
  from forward_references_resolved [OF s(1) sample_junk_length s(2) this] s show ?thesis by (auto simp: map_eq_Cons_conv)
qed

theorem one_instruction_per_opcode_witness:
  "\<exists>s obj as k. assemble_file 0 sample_junk label_source = Inr (s, obj)
     \<and> GetAtoms 0 (int (length label_source)) (read_source label_source) 0 = Inr (Some as, k)
     \<and> InstructionCount (code s) = of_nat (index s)"
proof -
  obtain s obj where "assemble_file 0 sample_junk label_source = Inr (s, obj)" using label_run by metis
  with one_instruction_per_opcode [OF this sample_junk_length] show ?thesis by blast
qed

definition label_atom :: Atom where
  "label_atom = zero_atom\<lparr>Type := Alpha, Text := Some ''skip''\<rparr>"

definition label_state :: asm where
  "label_state = (asm_start \<lparr>LoadAddress = 0x100, InstructionCount = 2, Program = []\<rparr> 0)\<lparr>pc := 0x102\<rparr>"

theorem label_defines_symbol_witness:
  "\<exists>s. on_label (Some label_atom) label_state = Inr s
     \<and> symbol ''skip'' s = Some \<lparr>sy_Name = ''skip'', sy_Value = 0x102, sy_Defined = True\<rparr> \<and> error_count s = 0"
proof -
  have a: "Type label_atom = Alpha" "Text label_atom = Some ''skip''" by (simp_all add: label_atom_def)
  have "\<exists>s. on_label (Some label_atom) label_state = Inr s"
    by (simp add: on_label_def a GetSymbol_def label_state_def asm_start_def SYMBOLS_def)
  then obtain s where s: "on_label (Some label_atom) label_state = Inr s" ..
  have "symbol ''skip'' label_state = None" "pc label_state = 0x102" "error_count label_state = 0"
    by (simp_all add: symbol_def label_state_def asm_start_def)
  with label_defines_symbol [OF a s] s show ?thesis by simp
qed

definition sample_list :: "Instruction list" where
  "sample_list = [mk_inst MOVV 3 0 0, mk_inst SUBV 4 0 1, mk_inst BLT 3 0 0, mk_inst HALT 0 0 0]"

lemma sample_list_listable: "list_all listable sample_list"
  by (simp add: sample_list_def listable_def mk_inst_def find_opcode_def InstructionSet_def mk_op_def listed_field_def)

lemma sample_list_forward:
  "forward_program \<lparr>LoadAddress = 0, InstructionCount = of_nat (length sample_list), Program = sample_list\<rparr>"
  by (simp add: forward_program_def checked_program_def sample_list_def forward_inst_def checked_inst_def mk_inst_def
      opcode_case_def all_ids_def find_opcode_def InstructionSet_def mk_op_def branches_def waits_def arg_ok_def REGS_256 upt_rec)

theorem listing_assembles_witness:
  "\<exists>s obj. assemble_file 0 sample_junk (listing sample_list) = Inr (s, obj)
     \<and> ReadObject sample_junk obj sample_code = \<lparr>LoadAddress = 0, InstructionCount = 4, Program = sample_list\<rparr>"
proof -
  have "sample_list \<noteq> []" "length sample_list < 2 ^ 32" "length sample_list = 4" by (simp_all add: sample_list_def)
  with listing_assembles [OF sample_list_listable this(1,2) sample_junk_length, of 0 sample_code] show ?thesis
    unfolding listing_def by auto
qed

theorem assembled_listing_halts_witness:
  "\<exists>s obj e. assemble_file 0 sample_junk (listing sample_list) = Inr (s, obj)
     \<and> exec_pcs 4 (emu_session (ReadObject sample_junk obj sample_code)) = Some e \<and> at_halt e"
proof -
  have "sample_list \<noteq> []" "length sample_list = 4" by (simp_all add: sample_list_def)
  with assembled_listing_halts [OF sample_list_listable this(1) sample_junk_length sample_list_forward, of 0 sample_code]
  show ?thesis by auto
qed

end
