(* ===== verification/Skel.thy ===== *)
theory Skel
  imports Prelude
begin

text \<open>
  The framework of the module drivers, \<open>src/skel/driver/skeldrvr.c\<close> with \<open>skelvme.h\<close>: event queues of the
  clients, connections of clients to interrupts, the entry points, raw access to the hardware, and
  installation of the modules. It is configured as for the sequencer module (\<open>mttn\<close>): the sizes of
  \<open>skeluser.h\<close>, the VME bus only, no entry of \<open>SkelConf\<close> set. The part that a driver supplies (the functions
  \<open>SkelUser\<dots>\<close>) is a record of functions; they work on a module context and give \<open>None\<close> for an access
  through a bad pointer. A client context is an address in a heap, so that a link that outlives its
  client is visible.
\<close>

subsection \<open>Sizes and data\<close>

definition SkelDrvrCLIENT_CONTEXTS :: nat where "SkelDrvrCLIENT_CONTEXTS = 16"

definition SkelDrvrMODULE_CONTEXTS :: nat where "SkelDrvrMODULE_CONTEXTS = 8"

definition SkelDrvrINTERRUPTS :: nat where "SkelDrvrINTERRUPTS = 32"

definition SkelDrvrQUEUE_SIZE :: nat where "SkelDrvrQUEUE_SIZE = 32"

definition SkelDrvrCONNECTIONS :: nat where "SkelDrvrCONNECTIONS = 16"

definition SkelDrvrMAX_MAPS :: nat where "SkelDrvrMAX_MAPS = 10"

definition SkelDrvrDEFAULT_CLIENT_TIMEOUT :: u32 where "SkelDrvrDEFAULT_CLIENT_TIMEOUT = 2000"

definition SkelDrvrDEFAULT_MODULE_TIMEOUT :: u32 where "SkelDrvrDEFAULT_MODULE_TIMEOUT = 10"

lemmas skel_sizes = SkelDrvrCLIENT_CONTEXTS_def SkelDrvrMODULE_CONTEXTS_def SkelDrvrINTERRUPTS_def
  SkelDrvrQUEUE_SIZE_def SkelDrvrCONNECTIONS_def SkelDrvrMAX_MAPS_def

record SkelDrvrConnection =
  Module :: u32
  ConMask :: u32

record SkelDrvrTime =
  Second :: u32
  NanoSecond :: u32

record SkelDrvrReadBuf =
  Connection :: SkelDrvrConnection
  Time :: SkelDrvrTime

definition zero_rb :: SkelDrvrReadBuf where
  "zero_rb = \<lparr>Connection = \<lparr>Module = 0, ConMask = 0\<rparr>, Time = \<lparr>Second = 0, NanoSecond = 0\<rparr>\<rparr>"

record SkelDrvrQueue =
  QueueOff :: bool
  Missed :: u16
  Size :: nat
  RdPntr :: nat
  WrPntr :: nat
  Entries :: "SkelDrvrReadBuf list"

record SkelDrvrClientContext =
  Pid :: u32
  Semaphore :: nat
  Timeout :: u32
  Timer :: u32
  Queue :: SkelDrvrQueue
  Debug :: u32
  ModuleNumber :: u32
  cdcmf :: nat

text \<open>The links of one interrupt are the addresses of the client contexts, in the order of the list.\<close>

record SkelDrvrModConn =
  conn_clients :: "nat list list"
  enabled_ints :: u32

datatype InsLibBusType = BusNOT_SET | BusCARRIER | BusVME | BusPMC | BusPCI

record InsLibIntrDesc =
  IsrFlag :: bool
  Vector :: u32
  Level :: u32

text \<open>A VME address space; seen as an \<open>InsLibAnyAddressSpace\<close>, its modifier is the space number.\<close>

record InsLibVmeAddressSpace =
  Mapped :: "nat option"
  AddressModifier :: u32
  WindowSize :: u32
  DataWidth :: u32
  BigEndian :: bool
  BaseAddress :: u32
  FreeModifierFlag :: bool

record InsLibModlDesc =
  BusType :: InsLibBusType
  ModlNumber :: u32
  IgnoreErrors :: bool
  Isr :: "InsLibIntrDesc option"
  ModuleAddress :: "InsLibVmeAddressSpace list option"

record InsLibDrvrDesc =
  DrvrModules :: "InsLibModlDesc list"
  DebugFlags :: u32
  EmulationFlags :: bool
  ModuleCount :: nat

definition NO_ISR :: u32 where "NO_ISR = 0x001"

definition DISABLED :: u32 where "DISABLED = 0x004"

definition BUS_FAULT :: u32 where "BUS_FAULT = 0x020"

definition FLASH_OPEN :: u32 where "FLASH_OPEN = 0x040"

definition EMULATION :: u32 where "EMULATION = 0x080"

definition NO_HARDWARE :: u32 where "NO_HARDWARE = 0x100"

lemmas status_bits = NO_ISR_def DISABLED_def BUS_FAULT_def FLASH_OPEN_def EMULATION_def NO_HARDWARE_def

text \<open>A module context: \<open>UserData\<close> is the private data of the user part (\<open>'u\<close>) and \<open>hardware\<close> the state of
  the module on the bus.\<close>

record ('u, 'h) SkelDrvrModuleContext =
  ModNumber :: u32
  InUse :: bool
  Modld :: InsLibModlDesc
  ModSemaphore :: nat
  ModTimeout :: u32
  Connected :: SkelDrvrModConn
  ModDebug :: u32
  StandardStatus :: u32
  FlashOpen :: u32
  UserData :: 'u
  hardware :: 'h

record ('u, 'h) SkelDrvrWorkingArea =
  Drvrd :: InsLibDrvrDesc
  InstalledModules :: nat
  clients :: "nat list"
  Modules :: "('u, 'h) SkelDrvrModuleContext list"
  ccons :: "nat \<rightharpoonup> SkelDrvrClientContext"

datatype SkelUserReturn = SkelUserReturnOK | SkelUserReturnFAILED | SkelUserReturnNOT_IMPLEMENTED

text \<open>The functions of the user part, for ioctl commands with their argument, of type \<open>'a\<close>; one that
  fails without setting \<open>errno\<close> gives \<open>Inl None\<close>.\<close>

record ('u, 'h, 'a) skel_user =
  SkelUserModuleInit :: "('u, 'h) SkelDrvrModuleContext \<Rightarrow> (SkelUserReturn \<times> ('u, 'h) SkelDrvrModuleContext) option"
  SkelUserModuleRelease :: "('u, 'h) SkelDrvrModuleContext \<Rightarrow> ('u, 'h) SkelDrvrModuleContext option"
  SkelUserClientInit :: "SkelDrvrClientContext \<Rightarrow> SkelUserReturn"
  SkelUserClientRelease :: "SkelDrvrClientContext \<Rightarrow> SkelDrvrClientContext option"
  SkelUserGetModuleVersion :: "('u, 'h) SkelDrvrModuleContext \<Rightarrow> (string option \<times> ('u, 'h) SkelDrvrModuleContext) option"
  SkelUserGetHardwareStatus :: "('u, 'h) SkelDrvrModuleContext \<Rightarrow> (u32 \<times> ('u, 'h) SkelDrvrModuleContext) option"
  SkelUserGetUtc :: "('u, 'h) SkelDrvrModuleContext \<Rightarrow> (SkelDrvrTime \<times> ('u, 'h) SkelDrvrModuleContext) option"
  SkelUserHardwareReset :: "('u, 'h) SkelDrvrModuleContext \<Rightarrow> ('u, 'h) SkelDrvrModuleContext option"
  SkelUserGetInterruptSource :: "('u, 'h) SkelDrvrModuleContext \<Rightarrow> (SkelDrvrTime \<times> u32 \<times> ('u, 'h) SkelDrvrModuleContext) option"
  SkelUserEnableInterrupts :: "('u, 'h) SkelDrvrModuleContext \<Rightarrow> u32 \<Rightarrow> ('u, 'h) SkelDrvrModuleContext option"
  SkelUserHardwareEnable :: "('u, 'h) SkelDrvrModuleContext \<Rightarrow> u32 \<Rightarrow> (SkelUserReturn \<times> ('u, 'h) SkelDrvrModuleContext) option"
  SkelUserJtagReadByte :: "('u, 'h) SkelDrvrModuleContext \<Rightarrow> (SkelUserReturn \<times> u32 \<times> ('u, 'h) SkelDrvrModuleContext) option"
  SkelUserJtagWriteByte :: "('u, 'h) SkelDrvrModuleContext \<Rightarrow> u32 \<Rightarrow> (SkelUserReturn \<times> ('u, 'h) SkelDrvrModuleContext) option"
  SkelUserIoctls :: "('u, 'h) SkelDrvrModuleContext \<Rightarrow> 'a \<Rightarrow> ((errno option + 'a) \<times> ('u, 'h) SkelDrvrModuleContext) option"

text \<open>The hardware on the bus: access at an address of a mapped space, with a width in bits and big endian or
  not. Linux knows no bus error here: \<open>recoset\<close> of \<open>cdcmLynxAPI.c\<close> always gives 0.\<close>

record 'h vme_device =
  dev_read :: "'h \<Rightarrow> nat \<Rightarrow> nat \<Rightarrow> bool \<Rightarrow> u32 \<times> 'h"
  dev_write :: "'h \<Rightarrow> nat \<Rightarrow> nat \<Rightarrow> bool \<Rightarrow> u32 \<Rightarrow> 'h"

subsection \<open>Queues of the clients\<close>

text \<open>\<open>__q_put\<close>: the oldest event makes room when the queue is full.\<close>

definition q_put :: "SkelDrvrReadBuf \<Rightarrow> SkelDrvrClientContext \<Rightarrow> SkelDrvrClientContext" where
  "q_put rb ccon =
     (let q = Queue ccon;
          q1 = q\<lparr>Entries := (Entries q)[WrPntr q := rb], WrPntr := (WrPntr q + 1) mod SkelDrvrQUEUE_SIZE\<rparr>
      in if Size q < SkelDrvrQUEUE_SIZE
         then ccon\<lparr>Queue := q1\<lparr>Size := Size q + 1\<rparr>, Semaphore := Semaphore ccon + 1\<rparr>
         else ccon\<lparr>Queue := q1\<lparr>Missed := Missed q + 1, RdPntr := (RdPntr q + 1) mod SkelDrvrQUEUE_SIZE\<rparr>\<rparr>)"

definition q_get :: "SkelDrvrClientContext \<Rightarrow> SkelDrvrReadBuf \<times> SkelDrvrClientContext" where
  "q_get ccon =
     (let q = Queue ccon in
      if Size q > 0
      then (Entries q ! RdPntr q,
            ccon\<lparr>Queue := q\<lparr>RdPntr := (RdPntr q + 1) mod SkelDrvrQUEUE_SIZE, Size := Size q - 1\<rparr>\<rparr>)
      else (zero_rb, ccon))"

text \<open>\<open>__reset_queue\<close>, with \<open>sreset\<close> on a semaphore that nobody waits for.\<close>

definition reset_queue :: "SkelDrvrClientContext \<Rightarrow> SkelDrvrClientContext" where
  "reset_queue ccon = ccon\<lparr>Queue := (Queue ccon)\<lparr>Size := 0, RdPntr := 0, WrPntr := 0, Missed := 0\<rparr>, Semaphore := 0\<rparr>"

definition client_timeout :: "SkelDrvrClientContext \<Rightarrow> SkelDrvrClientContext" where
  "client_timeout ccon = ccon\<lparr>Timer := 0, Queue := (Queue ccon)\<lparr>Size := 0, Missed := 0\<rparr>\<rparr>"

definition get_queue_size :: "SkelDrvrQueue \<Rightarrow> u32" where
  "get_queue_size q = of_nat (Size q)"

definition get_queue_overflow :: "SkelDrvrQueue \<Rightarrow> u32 \<times> SkelDrvrQueue" where
  "get_queue_overflow q = (ucast (Missed q), q\<lparr>Missed := 0\<rparr>)"

definition set_queue_flag :: "u32 \<Rightarrow> SkelDrvrQueue \<Rightarrow> SkelDrvrQueue" where
  "set_queue_flag v q = q\<lparr>QueueOff := (v \<noteq> 0)\<rparr>"

subsection \<open>Interrupts\<close>

fun put_queues :: "SkelDrvrReadBuf \<Rightarrow> nat list \<Rightarrow> (nat \<rightharpoonup> SkelDrvrClientContext) \<Rightarrow> (nat \<rightharpoonup> SkelDrvrClientContext) option" where
  "put_queues rb [] h = Some h"
| "put_queues rb (a # as) h = (case h a of None \<Rightarrow> None | Some ccon \<Rightarrow> put_queues rb as (h(a \<mapsto> q_put rb ccon)))"

fun fill_loop :: "nat list \<Rightarrow> SkelDrvrModConn \<Rightarrow> SkelDrvrReadBuf \<Rightarrow> u32 \<Rightarrow> (nat \<rightharpoonup> SkelDrvrClientContext) \<Rightarrow> (nat \<rightharpoonup> SkelDrvrClientContext) option" where
  "fill_loop [] connected rb imask h = Some h"
| "fill_loop (i # is) connected rb imask h =
     (let interrupt = imask AND push_bit i 1; client_list = conn_clients connected ! i in
      if interrupt = 0 \<or> client_list = [] then fill_loop is connected rb imask h
      else do {
        h' \<leftarrow> put_queues (rb\<lparr>Connection := (Connection rb)\<lparr>ConMask := interrupt\<rparr>\<rparr>) client_list h;
        fill_loop is connected rb imask h' })"

definition fill_clients_queues :: "SkelDrvrModConn \<Rightarrow> SkelDrvrReadBuf \<Rightarrow> u32 \<Rightarrow> (nat \<rightharpoonup> SkelDrvrClientContext) \<Rightarrow> (nat \<rightharpoonup> SkelDrvrClientContext) option" where
  "fill_clients_queues connected rb imask h = fill_loop [0 ..< SkelDrvrINTERRUPTS] connected rb imask h"

text \<open>The handler of the module with index \<open>i\<close>.\<close>

definition IntrHandler :: "('u, 'h, 'a) skel_user \<Rightarrow> nat \<Rightarrow> ('u, 'h) SkelDrvrWorkingArea \<Rightarrow> ('u, 'h) SkelDrvrWorkingArea option" where
  "IntrHandler us i wa = do {
     (t, interrupt, m) \<leftarrow> SkelUserGetInterruptSource us (Modules wa ! i);
     (let wa1 = wa\<lparr>Modules := (Modules wa)[i := m]\<rparr> in
      if interrupt = 0 then Some wa1
      else do {
        h \<leftarrow> fill_clients_queues (Connected m)
               \<lparr>Connection = \<lparr>Module = ModNumber m, ConMask = 0\<rparr>, Time = t\<rparr> interrupt (ccons wa1);
        Some (wa1\<lparr>ccons := h\<rparr>) }) }"

subsection \<open>Looking up modules and clients\<close>

fun mcon_index :: "u32 \<Rightarrow> ('u, 'h) SkelDrvrModuleContext list \<Rightarrow> nat \<Rightarrow> nat option" where
  "mcon_index n [] i = None"
| "mcon_index n (m # ms) i = (if ModNumber m = n then Some i else mcon_index n ms (Suc i))"

definition get_mcon :: "u32 \<Rightarrow> ('u, 'h) SkelDrvrWorkingArea \<Rightarrow> nat option" where
  "get_mcon n wa = mcon_index n (take (InstalledModules wa) (Modules wa)) 0"

text \<open>The address of the context of a file; the outer \<open>None\<close> is a link to a context that was freed.\<close>

fun find_ccon :: "(nat \<rightharpoonup> SkelDrvrClientContext) \<Rightarrow> nat \<Rightarrow> nat list \<Rightarrow> nat option option" where
  "find_ccon h flp [] = Some None"
| "find_ccon h flp (a # as) = (case h a of None \<Rightarrow> None
     | Some ccon \<Rightarrow> if cdcmf ccon = flp then Some (Some a) else find_ccon h flp as)"

definition skel_get_ccon :: "nat \<Rightarrow> ('u, 'h) SkelDrvrWorkingArea \<Rightarrow> nat option option" where
  "skel_get_ccon flp wa = find_ccon (ccons wa) flp (clients wa)"

subsection \<open>Connections\<close>

definition enable_on :: "('u, 'h, 'a) skel_user \<Rightarrow> u32 \<Rightarrow> ('u, 'h) SkelDrvrModuleContext \<Rightarrow> ('u, 'h) SkelDrvrModuleContext option" where
  "enable_on us e m = SkelUserEnableInterrupts us (m\<lparr>Connected := (Connected m)\<lparr>enabled_ints := e\<rparr>\<rparr>) e"

definition set_clients :: "nat \<Rightarrow> nat list \<Rightarrow> ('u, 'h) SkelDrvrModuleContext \<Rightarrow> ('u, 'h) SkelDrvrModuleContext" where
  "set_clients j as m = m\<lparr>Connected := (Connected m)\<lparr>conn_clients := (conn_clients (Connected m))[j := as]\<rparr>\<rparr>"

text \<open>The body of the loop of \<open>Connect\<close>; \<open>alloc j\<close> tells whether the link of interrupt \<open>j\<close> was allocated.\<close>

definition connect_one :: "('u, 'h, 'a) skel_user \<Rightarrow> (nat \<Rightarrow> bool) \<Rightarrow> nat \<Rightarrow> u32 \<Rightarrow> nat \<Rightarrow> ('u, 'h) SkelDrvrModuleContext \<Rightarrow> ('u, 'h) SkelDrvrModuleContext option" where
  "connect_one us alloc c imsk j m =
     (if \<not> bit imsk j then Some m
      else let cl = conn_clients (Connected m) ! j; link = c \<in> set cl;
               m1 = (if link \<or> \<not> alloc j then m else set_clients j (c # cl) m)
           in if link \<or> alloc j then enable_on us (enabled_ints (Connected m1) OR imsk) m1 else Some m1)"

fun each_interrupt :: "(nat \<Rightarrow> 'm \<Rightarrow> 'm option) \<Rightarrow> nat list \<Rightarrow> 'm \<Rightarrow> 'm option" where
  "each_interrupt f [] m = Some m"
| "each_interrupt f (j # js) m = do { m' \<leftarrow> f j m; each_interrupt f js m' }"

definition target_module :: "nat \<Rightarrow> SkelDrvrConnection \<Rightarrow> ('u, 'h) SkelDrvrWorkingArea \<Rightarrow> nat option option" where
  "target_module c conx wa = do {
     ccon \<leftarrow> ccons wa c;
     Some (get_mcon (if Module conx = 0 then ModuleNumber ccon else Module conx) wa) }"

definition Connect :: "('u, 'h, 'a) skel_user \<Rightarrow> (nat \<Rightarrow> bool) \<Rightarrow> nat \<Rightarrow> SkelDrvrConnection \<Rightarrow> ('u, 'h) SkelDrvrWorkingArea \<Rightarrow> ('u, 'h) SkelDrvrWorkingArea option" where
  "Connect us alloc c conx wa = do {
     t \<leftarrow> target_module c conx wa;
     (case t of None \<Rightarrow> Some wa
      | Some i \<Rightarrow> do {
          m \<leftarrow> each_interrupt (connect_one us alloc c (ConMask conx)) [0 ..< SkelDrvrINTERRUPTS] (Modules wa ! i);
          Some (wa\<lparr>Modules := (Modules wa)[i := m]\<rparr>) }) }"

definition disconnect_one :: "('u, 'h, 'a) skel_user \<Rightarrow> nat \<Rightarrow> u32 \<Rightarrow> nat \<Rightarrow> ('u, 'h) SkelDrvrModuleContext \<Rightarrow> ('u, 'h) SkelDrvrModuleContext option" where
  "disconnect_one us c imsk j m =
     (let cl = conn_clients (Connected m) ! j in
      if \<not> bit imsk j \<or> cl = [] then Some m
      else if c \<notin> set cl then Some m
      else let m1 = set_clients j (remove1 c cl) m in
           if remove1 c cl = [] then enable_on us (enabled_ints (Connected m1) AND NOT imsk) m1 else Some m1)"

text \<open>An empty mask means every interrupt of the module.\<close>

definition DisConnect :: "('u, 'h, 'a) skel_user \<Rightarrow> nat \<Rightarrow> SkelDrvrConnection \<Rightarrow> ('u, 'h) SkelDrvrWorkingArea \<Rightarrow> ('u, 'h) SkelDrvrWorkingArea option" where
  "DisConnect us c conx wa = do {
     t \<leftarrow> target_module c conx wa;
     (case t of None \<Rightarrow> Some wa
      | Some i \<Rightarrow> do {
          m \<leftarrow> each_interrupt (disconnect_one us c (if ConMask conx = 0 then NOT 0 else ConMask conx))
                 [0 ..< SkelDrvrINTERRUPTS] (Modules wa ! i);
          Some (wa\<lparr>Modules := (Modules wa)[i := m]\<rparr>) }) }"

fun disconnect_loop :: "('u, 'h, 'a) skel_user \<Rightarrow> nat \<Rightarrow> nat list \<Rightarrow> ('u, 'h) SkelDrvrWorkingArea \<Rightarrow> ('u, 'h) SkelDrvrWorkingArea option" where
  "disconnect_loop us c [] wa = Some wa"
| "disconnect_loop us c (i # is) wa = do {
     wa' \<leftarrow> DisConnect us c \<lparr>Module = ModNumber (Modules wa ! i), ConMask = 0\<rparr> wa;
     disconnect_loop us c is wa' }"

definition DisConnectAll :: "('u, 'h, 'a) skel_user \<Rightarrow> nat \<Rightarrow> ('u, 'h) SkelDrvrWorkingArea \<Rightarrow> ('u, 'h) SkelDrvrWorkingArea option" where
  "DisConnectAll us c wa = disconnect_loop us c [0 ..< InstalledModules wa] wa"

end
