(* ===== verification/Skel_Entry.thy ===== *)
theory Skel_Entry
  imports Skel
begin

text \<open>
  The entry points of \<open>skeldrvr.c\<close>: open, close, read, write, select and ioctl, with the raw access to the
  hardware. An entry point gives its result and the new working area; \<open>None\<close> is an access through a bad
  pointer. A failure carries the \<open>errno\<close> set last, if one was set. An ioctl carries its argument as the
  CDCM layer hands it over, a kernel copy of the right size; the reply is what is copied back.
\<close>

type_synonym ('r, 'u, 'h) entry = "((errno option + 'r) \<times> ('u, 'h) SkelDrvrWorkingArea) option"

abbreviation fails :: "errno \<Rightarrow> ('u, 'h) SkelDrvrWorkingArea \<Rightarrow> ('r, 'u, 'h) entry" where
  "fails e wa \<equiv> Some (Inl (Some e), wa)"

abbreviation done_with :: "'r \<Rightarrow> ('u, 'h) SkelDrvrWorkingArea \<Rightarrow> ('r, 'u, 'h) entry" where
  "done_with r wa \<equiv> Some (Inr r, wa)"

subsection \<open>Opening and closing\<close>

definition zero_ccon :: SkelDrvrClientContext where
  "zero_ccon = \<lparr>Pid = 0, Semaphore = 0, Timeout = 0, Timer = 0,
     Queue = \<lparr>QueueOff = False, Missed = 0, Size = 0, RdPntr = 0, WrPntr = 0, Entries = replicate SkelDrvrQUEUE_SIZE zero_rb\<rparr>,
     Debug = 0, ModuleNumber = 0, cdcmf = 0\<rparr>"

definition client_init :: "('u, 'h, 'a) skel_user \<Rightarrow> u32 \<Rightarrow> nat \<Rightarrow> ('u, 'h) SkelDrvrWorkingArea \<Rightarrow> SkelDrvrClientContext option" where
  "client_init us pid flp wa =
     (let ccon = zero_ccon\<lparr>cdcmf := flp, Timeout := SkelDrvrDEFAULT_CLIENT_TIMEOUT, Pid := pid\<rparr>;
          ccon = (if InstalledModules wa \<noteq> 0 then ccon\<lparr>ModuleNumber := ModNumber (Modules wa ! 0)\<rparr> else ccon);
          ccon = reset_queue ccon
      in if SkelUserClientInit us ccon = SkelUserReturnFAILED then None else Some ccon)"

definition skel_add_ccon :: "nat \<Rightarrow> bool \<Rightarrow> ('u, 'h) SkelDrvrWorkingArea \<Rightarrow> ('u, 'h) SkelDrvrWorkingArea option" where
  "skel_add_ccon a alloc wa = (if alloc then Some (wa\<lparr>clients := a # clients wa\<rparr>) else None)"

text \<open>\<open>actx\<close> is the address of the allocated context, if there is memory, and \<open>alink\<close> tells whether there is
  memory for the link. The working area is missing before the driver is installed.\<close>

definition SkelDrvrOpen :: "('u, 'h, 'a) skel_user \<Rightarrow> nat option \<Rightarrow> bool \<Rightarrow> u32 \<Rightarrow> nat \<Rightarrow> ('u, 'h) SkelDrvrWorkingArea option \<Rightarrow> rc \<times> ('u, 'h) SkelDrvrWorkingArea option" where
  "SkelDrvrOpen us actx alink pid flp Wa =
     (case Wa of None \<Rightarrow> (Inl ENODEV, None)
      | Some wa \<Rightarrow>
          (case actx of None \<Rightarrow> (Inl ENOMEM, Wa)
           | Some a \<Rightarrow>
               (case client_init us pid flp wa of None \<Rightarrow> (Inl EBADF, Wa)
                | Some ccon \<Rightarrow>
                    (case skel_add_ccon a alink (wa\<lparr>ccons := (ccons wa)(a \<mapsto> ccon)\<rparr>) of
                       None \<Rightarrow> (Inl ENOMEM, Wa)
                     | Some wa' \<Rightarrow> (OK, Some wa')))))"

definition skel_remove_ccon :: "nat \<Rightarrow> ('u, 'h) SkelDrvrWorkingArea \<Rightarrow> ('u, 'h) SkelDrvrWorkingArea" where
  "skel_remove_ccon c wa = wa\<lparr>clients := remove1 c (clients wa)\<rparr>"

definition do_close :: "('u, 'h, 'a) skel_user \<Rightarrow> nat \<Rightarrow> ('u, 'h) SkelDrvrWorkingArea \<Rightarrow> ('u, 'h) SkelDrvrWorkingArea option" where
  "do_close us c wa = do {
     wa1 \<leftarrow> DisConnectAll us c wa;
     ccon \<leftarrow> ccons wa1 c;
     ccon' \<leftarrow> SkelUserClientRelease us ccon;
     (let wa2 = skel_remove_ccon c (wa1\<lparr>ccons := (ccons wa1)(c \<mapsto> ccon')\<rparr>)
      in Some (wa2\<lparr>ccons := (ccons wa2)(c := None)\<rparr>)) }"

definition SkelDrvrClose :: "('u, 'h, 'a) skel_user \<Rightarrow> nat \<Rightarrow> ('u, 'h) SkelDrvrWorkingArea \<Rightarrow> (unit, 'u, 'h) entry" where
  "SkelDrvrClose us flp wa = do {
     found \<leftarrow> skel_get_ccon flp wa;
     (case found of None \<Rightarrow> fails EBADF wa
      | Some c \<Rightarrow> do { wa' \<leftarrow> do_close us c wa; done_with () wa' }) }"

subsection \<open>Read, write and select\<close>

text \<open>The parts of \<open>SkelDrvrRead\<close>: before the wait, after a wait that failed, and after a successful one. The
  last gives \<open>None\<close> when nothing is read (the call then returns 0).\<close>

definition read_begin :: "SkelDrvrClientContext \<Rightarrow> SkelDrvrClientContext" where
  "read_begin ccon = (if QueueOff (Queue ccon) then reset_queue ccon else ccon)"

definition read_abort :: "SkelDrvrClientContext \<Rightarrow> SkelDrvrClientContext" where
  "read_abort ccon = (if Timeout ccon \<noteq> 0 then client_timeout ccon else ccon)"

definition read_finish :: "SkelDrvrClientContext \<Rightarrow> SkelDrvrReadBuf option \<times> SkelDrvrClientContext" where
  "read_finish ccon =
     (let (rb, ccon') = q_get ccon in (if ConMask (Connection rb) = 0 then None else Some rb, ccon'))"

text \<open>A read while no event arrives: it waits in vain when the semaphore is 0, until the timeout or a signal.\<close>

definition SkelDrvrRead :: "nat \<Rightarrow> ('u, 'h) SkelDrvrWorkingArea \<Rightarrow> (SkelDrvrReadBuf option, 'u, 'h) entry" where
  "SkelDrvrRead flp wa = do {
     found \<leftarrow> skel_get_ccon flp wa;
     (case found of None \<Rightarrow> fails EBADF wa
      | Some c \<Rightarrow> do {
          ccon \<leftarrow> ccons wa c;
          (let ccon1 = read_begin ccon in
           if Semaphore ccon1 = 0 then fails EINTR (wa\<lparr>ccons := (ccons wa)(c \<mapsto> read_abort ccon1)\<rparr>)
           else let (rb, ccon2) = read_finish (ccon1\<lparr>Semaphore := Semaphore ccon1 - 1\<rparr>)
                in done_with rb (wa\<lparr>ccons := (ccons wa)(c \<mapsto> ccon2)\<rparr>)) }) }"

text \<open>\<open>SkelDrvrWrite\<close> simulates interrupts.\<close>

definition SkelDrvrWrite :: "('u, 'h, 'a) skel_user \<Rightarrow> SkelDrvrConnection \<Rightarrow> ('u, 'h) SkelDrvrWorkingArea \<Rightarrow> (unit, 'u, 'h) entry" where
  "SkelDrvrWrite us conx wa =
     (case get_mcon (Module conx) wa of None \<Rightarrow> fails EFAULT wa
      | Some i \<Rightarrow> do {
          (t, m) \<leftarrow> SkelUserGetUtc us (Modules wa ! i);
          h \<leftarrow> fill_clients_queues (Connected m) \<lparr>Connection = conx, Time = t\<rparr> (ConMask conx) (ccons wa);
          done_with () (wa\<lparr>Modules := (Modules wa)[i := m], ccons := h\<rparr>) })"

text \<open>The semaphore to wait for is that of the context.\<close>

definition SkelDrvrSelect :: "nat \<Rightarrow> bool \<Rightarrow> ('u, 'h) SkelDrvrWorkingArea \<Rightarrow> (nat, 'u, 'h) entry" where
  "SkelDrvrSelect flp sread wa = do {
     found \<leftarrow> skel_get_ccon flp wa;
     (case found of None \<Rightarrow> fails EBADF wa
      | Some c \<Rightarrow> if sread then done_with c wa else fails EACCES wa) }"

subsection \<open>Raw access to the hardware\<close>

text \<open>The spaces of a module seen as \<open>InsLibAnyAddressSpace\<close>; a data width of 0 fits any space.\<close>

definition get_addr_space :: "InsLibModlDesc \<Rightarrow> u32 \<Rightarrow> u32 \<Rightarrow> InsLibVmeAddressSpace option" where
  "get_addr_space modld space_number datawidth =
     (case ModuleAddress modld of None \<Rightarrow> None
      | Some spaces \<Rightarrow> find (\<lambda>v. AddressModifier v = space_number \<and> (datawidth = 0 \<or> DataWidth v = datawidth)) spaces)"

record SkelDrvrRawIoBlock =
  rio_SpaceNumber :: u32
  rio_Offset :: u32
  rio_DataWidth :: u32
  rio_Data :: u32

definition RawIo :: "'h vme_device \<Rightarrow> SkelDrvrRawIoBlock \<Rightarrow> bool \<Rightarrow> ('u, 'h) SkelDrvrModuleContext \<Rightarrow> ((errno option + SkelDrvrRawIoBlock) \<times> ('u, 'h) SkelDrvrModuleContext) option" where
  "RawIo dev riob flag mcon =
     (case get_addr_space (Modld mcon) (rio_SpaceNumber riob) (rio_DataWidth riob) of
        None \<Rightarrow> Some (Inl (Some ENXIO), mcon)
      | Some anyas \<Rightarrow>
          if WindowSize anyas \<noteq> 0 \<and> rio_Offset riob \<ge> WindowSize anyas then Some (Inl (Some EINVAL), mcon)
          else let riob = (if rio_DataWidth riob = 0 then riob\<lparr>rio_DataWidth := DataWidth anyas\<rparr> else riob);
                   width = unat (rio_DataWidth riob)
               in if width \<notin> {8, 16, 32} then Some (Inl (Some EINVAL), mcon)
               else do {
                 cp \<leftarrow> Mapped anyas;
                 (let mmap = cp + unat (rio_Offset riob) in
                  if flag then Some (Inr riob, mcon\<lparr>hardware := dev_write dev (hardware mcon) mmap width (BigEndian anyas) (take_bit width (rio_Data riob))\<rparr>)
                  else let (v, h) = dev_read dev (hardware mcon) mmap width (BigEndian anyas)
                       in Some (Inr (riob\<lparr>rio_Data := take_bit width v\<rparr>), mcon\<lparr>hardware := h\<rparr>)) })"

record SkelDrvrRawIoTransferBlock =
  rit_SpaceNumber :: u32
  rit_Offset :: u32
  rit_DataWidth :: u32
  rit_AddrIncr :: u32
  rit_BytesTr :: u32
  rit_Data :: "u8 list"

text \<open>\<open>copy_from_user\<close> clears what it cannot copy; \<open>copy_to_user\<close> stops at the end of the user's memory.\<close>

definition copy_from :: "u8 list \<Rightarrow> nat \<Rightarrow> nat \<Rightarrow> u8 list" where
  "copy_from ud off n = take n (drop off ud @ replicate n 0)"

definition copy_to :: "u8 list \<Rightarrow> nat \<Rightarrow> u8 list \<Rightarrow> u8 list" where
  "copy_to ud off bs = take (length ud) (take off ud @ bs @ drop (off + length bs) ud)"

fun le_item :: "u8 list \<Rightarrow> u32" where
  "le_item [] = 0"
| "le_item (b # bs) = ucast b OR push_bit 8 (le_item bs)"

fun le_bytes :: "nat \<Rightarrow> u32 \<Rightarrow> u8 list" where
  "le_bytes 0 v = []"
| "le_bytes (Suc n) v = ucast v # le_bytes n (drop_bit 8 v)"

definition TRANSFERS :: nat where "TRANSFERS = 1024"

text \<open>The width of an access in bytes: every width but 16 and 32 bits is accessed by bytes.\<close>

definition access_bytes :: "nat \<Rightarrow> nat" where
  "access_bytes tszbt = (if tszbt = 16 then 2 else if tszbt = 32 then 4 else 1)"

text \<open>The state of a transfer; the kernel buffer of a read is taken to start with zeros.\<close>

record 'h rio_state =
  kbuf :: "u8 list"
  kindx :: nat
  hskip :: u32
  uindx :: nat
  udata_mem :: "u8 list"
  rio_hw :: 'h

definition module_address :: "nat \<Rightarrow> u32 \<Rightarrow> nat" where
  "module_address mmap skip = nat (int mmap + sint skip)"

definition rio_write :: "'h vme_device \<Rightarrow> nat \<Rightarrow> bool \<Rightarrow> nat \<Rightarrow> 'h rio_state \<Rightarrow> 'h rio_state" where
  "rio_write dev tszbt bendf mmap s =
     (let n = access_bytes tszbt
      in s\<lparr>rio_hw := dev_write dev (rio_hw s) (module_address mmap (hskip s)) (8 * n) bendf
             (le_item (take n (drop (kindx s) (kbuf s))))\<rparr>)"

text \<open>Reading by bytes uses the address of the first one.\<close>

definition rio_read :: "'h vme_device \<Rightarrow> nat \<Rightarrow> bool \<Rightarrow> nat \<Rightarrow> 'h rio_state \<Rightarrow> 'h rio_state" where
  "rio_read dev tszbt bendf mmap s =
     (let n = access_bytes tszbt;
          (v, h) = dev_read dev (rio_hw s) (if n = 1 then mmap else module_address mmap (hskip s)) (8 * n) bendf
      in s\<lparr>rio_hw := h, kbuf := copy_to (kbuf s) (kindx s) (le_bytes n v)\<rparr>)"

definition rio_step :: "'h vme_device \<Rightarrow> bool \<Rightarrow> nat \<Rightarrow> nat \<Rightarrow> nat \<Rightarrow> u32 \<Rightarrow> bool \<Rightarrow> nat \<Rightarrow> 'h rio_state \<Rightarrow> 'h rio_state" where
  "rio_step dev flag tszbt tszby ksize incr bendf mmap s =
     (let s = (if flag then rio_write dev tszbt bendf mmap s else rio_read dev tszbt bendf mmap s);
          s = s\<lparr>hskip := hskip s + incr * of_nat tszby, kindx := kindx s + tszby\<rparr>
      in if kindx s \<ge> ksize
         then let s = (if flag then s\<lparr>kbuf := copy_from (udata_mem s) (uindx s) ksize\<rparr>
                       else s\<lparr>udata_mem := copy_to (udata_mem s) (uindx s) (kbuf s)\<rparr>)
              in s\<lparr>uindx := uindx s + ksize, kindx := 0\<rparr>
         else s)"

text \<open>The number of transfers, an \<open>int\<close>, at least one.\<close>

definition transfers :: "u32 \<Rightarrow> nat \<Rightarrow> nat" where
  "transfers bytes tszby = (let n = unat bytes div tszby in if n = 0 \<or> n \<ge> 2 ^ 31 then 1 else n)"

definition RawIoBlock :: "'h vme_device \<Rightarrow> bool \<Rightarrow> SkelDrvrRawIoTransferBlock \<Rightarrow> bool \<Rightarrow> ('u, 'h) SkelDrvrModuleContext \<Rightarrow> ((errno option + SkelDrvrRawIoTransferBlock) \<times> ('u, 'h) SkelDrvrModuleContext) option" where
  "RawIoBlock dev alloc riob flag mcon =
     (case get_addr_space (Modld mcon) (rit_SpaceNumber riob) 0 of
        None \<Rightarrow> Some (Inl (Some ENXIO), mcon)
      | Some anyas \<Rightarrow>
          if WindowSize anyas \<noteq> 0 \<and> rit_Offset riob \<ge> WindowSize anyas then Some (Inl (Some EINVAL), mcon)
          else let tszbt = unat (rit_DataWidth riob AND 0x3F);
                   tszbt = (if tszbt = 0 then unat (DataWidth anyas) else tszbt);
                   tszby = tszbt div 8
               in if tszby = 0 then None
               else let tremg = transfers (rit_BytesTr riob) tszby;
                        ksize = (if tremg < TRANSFERS then tremg * tszby else TRANSFERS * tszby)
                    in if \<not> alloc then Some (Inl (Some ENOMEM), mcon)
                    else do {
                      cp \<leftarrow> Mapped anyas;
                      (let s0 = \<lparr>kbuf = (if flag then copy_from (rit_Data riob) 0 ksize else replicate ksize 0),
                                 kindx = 0, hskip = 0, uindx = 0, udata_mem = rit_Data riob, rio_hw = hardware mcon\<rparr>;
                           s = (rio_step dev flag tszbt tszby ksize (rit_AddrIncr riob) (BigEndian anyas)
                                  (cp + unat (rit_Offset riob)) ^^ tremg) s0;
                           ud = (if \<not> flag \<and> kindx s \<noteq> 0 then copy_to (udata_mem s) (uindx s) (take (kindx s) (kbuf s)) else udata_mem s)
                       in Some (Inr (riob\<lparr>rit_Data := ud\<rparr>), mcon\<lparr>hardware := rio_hw s\<rparr>)) })"

subsection \<open>Control of a module\<close>

text \<open>The reset leaves the semaphore of the module at 1; nobody is taken to wait for it.\<close>

definition Reset :: "('u, 'h, 'a) skel_user \<Rightarrow> ('u, 'h) SkelDrvrModuleContext \<Rightarrow> ('u, 'h) SkelDrvrModuleContext option" where
  "Reset us mcon = do {
     m1 \<leftarrow> SkelUserHardwareReset us mcon;
     m2 \<leftarrow> SkelUserEnableInterrupts us m1 (enabled_ints (Connected m1));
     Some (m2\<lparr>ModSemaphore := 1\<rparr>) }"

definition GetStatus :: "('u, 'h, 'a) skel_user \<Rightarrow> ('u, 'h) SkelDrvrModuleContext \<Rightarrow> (u32 \<times> u32 \<times> ('u, 'h) SkelDrvrModuleContext) option" where
  "GetStatus us mcon = do { (hsts, m) \<leftarrow> SkelUserGetHardwareStatus us mcon; Some (StandardStatus m, hsts, m) }"

text \<open>\<open>LockModule\<close> without a timer, while nobody unlocks the module: it waits in vain until a signal.\<close>

definition LockModule :: "('u, 'h) SkelDrvrModuleContext \<Rightarrow> bool \<times> ('u, 'h) SkelDrvrModuleContext" where
  "LockModule mcon = (if ModSemaphore mcon = 0 then (False, mcon) else (True, mcon\<lparr>ModSemaphore := ModSemaphore mcon - 1\<rparr>))"

definition UnLockModule :: "('u, 'h) SkelDrvrModuleContext \<Rightarrow> ('u, 'h) SkelDrvrModuleContext" where
  "UnLockModule mcon = mcon\<lparr>ModSemaphore := ModSemaphore mcon + 1\<rparr>"

definition module_maps :: "('u, 'h) SkelDrvrModuleContext \<Rightarrow> (nat option \<times> u32) list" where
  "module_maps mcon =
     (case ModuleAddress (Modld mcon) of None \<Rightarrow> []
      | Some spaces \<Rightarrow> map (\<lambda>v. (Mapped v, AddressModifier v)) (take SkelDrvrMAX_MAPS spaces))"

subsection \<open>Listing clients and connections\<close>

fun pids :: "(nat \<rightharpoonup> SkelDrvrClientContext) \<Rightarrow> nat list \<Rightarrow> u32 list option" where
  "pids h [] = Some []"
| "pids h (a # as) = do { ccon \<leftarrow> h a; ps \<leftarrow> pids h as; Some (Pid ccon # ps) }"

definition skel_get_client_list :: "('u, 'h) SkelDrvrWorkingArea \<Rightarrow> u32 list option" where
  "skel_get_client_list wa = pids (ccons wa) (take SkelDrvrCLIENT_CONTEXTS (clients wa))"

text \<open>The links of one interrupt whose client has the process number; the flag tells that the list is full.\<close>

fun fill_links :: "(nat \<rightharpoonup> SkelDrvrClientContext) \<Rightarrow> u32 \<Rightarrow> u32 \<Rightarrow> nat \<Rightarrow> nat list \<Rightarrow> SkelDrvrConnection list \<Rightarrow> (bool \<times> SkelDrvrConnection list) option" where
  "fill_links h pid n i [] cs = Some (False, cs)"
| "fill_links h pid n i (a # as) cs = do {
     ccon \<leftarrow> h a;
     (if Pid ccon \<noteq> pid then fill_links h pid n i as cs
      else let cs' = cs @ [\<lparr>Module = n, ConMask = push_bit i 1\<rparr>] in
           if length cs' \<ge> SkelDrvrCONNECTIONS then Some (True, cs') else fill_links h pid n i as cs') }"

fun fill_interrupts :: "(nat \<rightharpoonup> SkelDrvrClientContext) \<Rightarrow> u32 \<Rightarrow> u32 \<Rightarrow> nat \<Rightarrow> nat list list \<Rightarrow> SkelDrvrConnection list \<Rightarrow> (bool \<times> SkelDrvrConnection list) option" where
  "fill_interrupts h pid n i [] cs = Some (False, cs)"
| "fill_interrupts h pid n i (as # ass) cs = do {
     (full, cs') \<leftarrow> fill_links h pid n i as cs;
     (if full then Some (True, cs') else fill_interrupts h pid n (Suc i) ass cs') }"

definition skel_fill_client_connections :: "(nat \<rightharpoonup> SkelDrvrClientContext) \<Rightarrow> u32 \<Rightarrow> ('u, 'h) SkelDrvrModuleContext \<Rightarrow> SkelDrvrConnection list \<Rightarrow> (bool \<times> SkelDrvrConnection list) option" where
  "skel_fill_client_connections h pid mcon cs = fill_interrupts h pid (ModNumber mcon) 0 (conn_clients (Connected mcon)) cs"

fun fill_modules :: "(nat \<rightharpoonup> SkelDrvrClientContext) \<Rightarrow> u32 \<Rightarrow> ('u, 'h) SkelDrvrModuleContext list \<Rightarrow> SkelDrvrConnection list \<Rightarrow> SkelDrvrConnection list option" where
  "fill_modules h pid [] cs = Some cs"
| "fill_modules h pid (m # ms) cs =
     (if \<not> InUse m then fill_modules h pid ms cs
      else do {
        (full, cs') \<leftarrow> skel_fill_client_connections h pid m cs;
        (if full then Some cs' else fill_modules h pid ms cs') })"

definition skel_get_client_connections :: "SkelDrvrClientContext \<Rightarrow> u32 \<Rightarrow> ('u, 'h) SkelDrvrWorkingArea \<Rightarrow> (u32 \<times> SkelDrvrConnection list) option" where
  "skel_get_client_connections ccon pid wa =
     (let pid = (if pid = 0 then Pid ccon else pid) in do {
        cs \<leftarrow> fill_modules (ccons wa) pid (Modules wa) [];
        Some (pid, cs) })"

subsection \<open>Ioctl\<close>

text \<open>The standard commands, the commands of the user part, and any other number.\<close>

datatype 'a skel_ioctl =
    SET_DEBUG u32 | GET_DEBUG | GET_VERSION | SET_TIMEOUT u32 | GET_TIMEOUT
  | SET_QUEUE_FLAG u32 | GET_QUEUE_FLAG | GET_QUEUE_SIZE | GET_QUEUE_OVERFLOW
  | SET_MODULE u32 | GET_MODULE | GET_MODULE_COUNT | GET_MODULE_MAPS
  | CONNECT SkelDrvrConnection | GET_CLIENT_LIST | GET_CLIENT_CONNECTIONS u32
  | ENABLE u32 | RESET | GET_STATUS | GET_CLEAR_STATUS
  | RAW_READ SkelDrvrRawIoBlock | RAW_WRITE SkelDrvrRawIoBlock
  | JTAG_OPEN | JTAG_READ_BYTE | JTAG_WRITE_BYTE u32 | JTAG_CLOSE
  | RAW_BLOCK_READ SkelDrvrRawIoTransferBlock | RAW_BLOCK_WRITE SkelDrvrRawIoTransferBlock
  | USER_IOCTL 'a | OTHER_IOCTL

datatype 'a skel_reply =
    Rnone | Rlong u32 | Rversion "string option" | Rmaps "(nat option \<times> u32) list"
  | Rclients "u32 list" | Rconnections u32 "SkelDrvrConnection list" | Rstatus u32 u32
  | Rraw SkelDrvrRawIoBlock | Rblock SkelDrvrRawIoTransferBlock | Ruser 'a

text \<open>\<open>kalloc\<close> answers the allocations of one call: that of link \<open>j\<close>, or of the buffer of a block transfer.\<close>

definition set_ccon :: "nat \<Rightarrow> SkelDrvrClientContext \<Rightarrow> ('u, 'h) SkelDrvrWorkingArea \<Rightarrow> ('u, 'h) SkelDrvrWorkingArea" where
  "set_ccon c ccon wa = wa\<lparr>ccons := (ccons wa)(c \<mapsto> ccon)\<rparr>"

definition set_mcon :: "nat \<Rightarrow> ('u, 'h) SkelDrvrModuleContext \<Rightarrow> ('u, 'h) SkelDrvrWorkingArea \<Rightarrow> ('u, 'h) SkelDrvrWorkingArea" where
  "set_mcon i m wa = wa\<lparr>Modules := (Modules wa)[i := m]\<rparr>"

text \<open>Commands about the client.\<close>

fun client_ioctl :: "'a skel_ioctl \<Rightarrow> nat \<Rightarrow> SkelDrvrClientContext \<Rightarrow> ('u, 'h) SkelDrvrWorkingArea \<Rightarrow> ('a skel_reply, 'u, 'h) entry" where
  "client_ioctl (SET_DEBUG f) c ccon wa = done_with Rnone (set_ccon c (ccon\<lparr>Debug := f\<rparr>) wa)"
| "client_ioctl GET_DEBUG c ccon wa = done_with (Rlong (Debug ccon)) wa"
| "client_ioctl (SET_TIMEOUT v) c ccon wa = done_with Rnone (set_ccon c (ccon\<lparr>Timeout := v\<rparr>) wa)"
| "client_ioctl GET_TIMEOUT c ccon wa = done_with (Rlong (Timeout ccon)) wa"
| "client_ioctl (SET_QUEUE_FLAG v) c ccon wa = done_with Rnone (set_ccon c (ccon\<lparr>Queue := set_queue_flag v (Queue ccon)\<rparr>) wa)"
| "client_ioctl GET_QUEUE_FLAG c ccon wa = done_with (Rlong (of_bool (QueueOff (Queue ccon)))) wa"
| "client_ioctl GET_QUEUE_SIZE c ccon wa = done_with (Rlong (get_queue_size (Queue ccon))) wa"
| "client_ioctl GET_QUEUE_OVERFLOW c ccon wa =
     (let (v, q) = get_queue_overflow (Queue ccon) in done_with (Rlong v) (set_ccon c (ccon\<lparr>Queue := q\<rparr>) wa))"
| "client_ioctl (SET_MODULE v) c ccon wa =
     (case get_mcon v wa of None \<Rightarrow> fails ENODEV wa
      | Some _ \<Rightarrow> done_with Rnone (set_ccon c (ccon\<lparr>ModuleNumber := v\<rparr>) wa))"
| "client_ioctl GET_MODULE c ccon wa = done_with (Rlong (ModuleNumber ccon)) wa"
| "client_ioctl GET_MODULE_COUNT c ccon wa = done_with (Rlong (of_nat (InstalledModules wa))) wa"
| "client_ioctl GET_CLIENT_LIST c ccon wa = do { ps \<leftarrow> skel_get_client_list wa; done_with (Rclients ps) wa }"
| "client_ioctl (GET_CLIENT_CONNECTIONS pid) c ccon wa = do {
     (p, cs) \<leftarrow> skel_get_client_connections ccon pid wa;
     done_with (Rconnections p cs) wa }"
| "client_ioctl _ c ccon wa = fails ENOTTY wa"

definition connect_ioctl :: "('u, 'h, 'a) skel_user \<Rightarrow> (nat \<Rightarrow> bool) \<Rightarrow> SkelDrvrConnection \<Rightarrow> nat \<Rightarrow> ('u, 'h) SkelDrvrWorkingArea \<Rightarrow> ('a skel_reply, 'u, 'h) entry" where
  "connect_ioctl us kalloc conx c wa = do {
     wa' \<leftarrow> (if ConMask conx \<noteq> 0 then Connect us kalloc c conx wa
             else if Module conx = 0 then DisConnectAll us c wa
             else DisConnect us c conx wa);
     done_with Rnone wa' }"

text \<open>Commands about the module of the client, which must be there.\<close>

fun module_ioctl :: "('u, 'h, 'a) skel_user \<Rightarrow> 'h vme_device \<Rightarrow> (nat \<Rightarrow> bool) \<Rightarrow> 'a skel_ioctl \<Rightarrow> ('u, 'h) SkelDrvrModuleContext \<Rightarrow> ((errno option + 'a skel_reply) \<times> ('u, 'h) SkelDrvrModuleContext) option" where
  "module_ioctl us dev kalloc GET_VERSION m = do { (v, m') \<leftarrow> SkelUserGetModuleVersion us m; Some (Inr (Rversion v), m') }"
| "module_ioctl us dev kalloc GET_MODULE_MAPS m = Some (Inr (Rmaps (module_maps m)), m)"
| "module_ioctl us dev kalloc (ENABLE v) m = do {
     (r, m') \<leftarrow> SkelUserHardwareEnable us m v;
     Some (Inr Rnone, m'\<lparr>StandardStatus := (if r = SkelUserReturnOK then StandardStatus m' AND NOT DISABLED
                                           else StandardStatus m' OR DISABLED)\<rparr>) }"
| "module_ioctl us dev kalloc RESET m = do { m' \<leftarrow> Reset us m; Some (Inr Rnone, m') }"
| "module_ioctl us dev kalloc GET_STATUS m = do { (s, h, m') \<leftarrow> GetStatus us m; Some (Inr (Rstatus s h), m') }"
| "module_ioctl us dev kalloc JTAG_OPEN m =
     (let (locked, m') = LockModule m in
      if locked then Some (Inr Rnone, m'\<lparr>StandardStatus := StandardStatus m' OR FLASH_OPEN\<rparr>)
      else Some (Inl (Some ENOTTY), m'))"
| "module_ioctl us dev kalloc JTAG_CLOSE m = do {
     m' \<leftarrow> Reset us (m\<lparr>StandardStatus := StandardStatus m AND NOT FLASH_OPEN, FlashOpen := 0\<rparr>);
     Some (Inr Rnone, UnLockModule m') }"
| "module_ioctl us dev kalloc JTAG_READ_BYTE m =
     (if StandardStatus m AND FLASH_OPEN = 0 then Some (Inl (Some EBUSY), m)
      else do {
        (r, v, m') \<leftarrow> SkelUserJtagReadByte us m;
        Some (if r = SkelUserReturnOK then Inr (Rlong v) else Inl (Some EBUSY), m') })"
| "module_ioctl us dev kalloc (JTAG_WRITE_BYTE v) m =
     (if StandardStatus m AND FLASH_OPEN = 0 then Some (Inl (Some EBUSY), m)
      else do {
        (r, m') \<leftarrow> SkelUserJtagWriteByte us m (v AND 0xFF);
        Some (if r = SkelUserReturnOK then Inr Rnone else Inl (Some EBUSY), m') })"
| "module_ioctl us dev kalloc (RAW_READ riob) m = do { (r, m') \<leftarrow> RawIo dev riob False m; Some (map_sum id Rraw r, m') }"
| "module_ioctl us dev kalloc (RAW_WRITE riob) m = do { (r, m') \<leftarrow> RawIo dev riob True m; Some (map_sum id Rraw r, m') }"
| "module_ioctl us dev kalloc (RAW_BLOCK_READ riobt) m = do {
     (r, m') \<leftarrow> RawIoBlock dev (kalloc 0) riobt False m; Some (map_sum id Rblock r, m') }"
| "module_ioctl us dev kalloc (RAW_BLOCK_WRITE riobt) m = do {
     (r, m') \<leftarrow> RawIoBlock dev (kalloc 0) riobt True m; Some (map_sum id Rblock r, m') }"
| "module_ioctl us dev kalloc (USER_IOCTL a) m = do { (r, m') \<leftarrow> SkelUserIoctls us m a; Some (map_sum id Ruser r, m') }"
| "module_ioctl us dev kalloc _ m = Some (Inl (Some ENOTTY), m)"

fun is_module_ioctl :: "'a skel_ioctl \<Rightarrow> bool" where
  "is_module_ioctl GET_VERSION = True" | "is_module_ioctl GET_MODULE_MAPS = True" | "is_module_ioctl (ENABLE _) = True"
| "is_module_ioctl RESET = True" | "is_module_ioctl GET_STATUS = True"
| "is_module_ioctl JTAG_OPEN = True" | "is_module_ioctl JTAG_CLOSE = True"
| "is_module_ioctl JTAG_READ_BYTE = True" | "is_module_ioctl (JTAG_WRITE_BYTE _) = True"
| "is_module_ioctl (RAW_READ _) = True" | "is_module_ioctl (RAW_WRITE _) = True"
| "is_module_ioctl (RAW_BLOCK_READ _) = True" | "is_module_ioctl (RAW_BLOCK_WRITE _) = True"
| "is_module_ioctl (USER_IOCTL _) = True"
| "is_module_ioctl _ = False"

text \<open>Only the commands of the user part are refused when the client has no module.\<close>

definition SkelDrvrIoctl :: "('u, 'h, 'a) skel_user \<Rightarrow> 'h vme_device \<Rightarrow> (nat \<Rightarrow> bool) \<Rightarrow> nat \<Rightarrow> 'a skel_ioctl \<Rightarrow> ('u, 'h) SkelDrvrWorkingArea \<Rightarrow> ('a skel_reply, 'u, 'h) entry" where
  "SkelDrvrIoctl us dev kalloc flp cm wa = do {
     found \<leftarrow> skel_get_ccon flp wa;
     (case found of None \<Rightarrow> fails EBADF wa
      | Some c \<Rightarrow> do {
          ccon \<leftarrow> ccons wa c;
          (case cm of CONNECT conx \<Rightarrow> connect_ioctl us kalloc conx c wa
           | _ \<Rightarrow>
             if \<not> is_module_ioctl cm then client_ioctl cm c ccon wa
             else (case get_mcon (ModuleNumber ccon) wa of
                     None \<Rightarrow> (case cm of USER_IOCTL _ \<Rightarrow> fails EINVAL wa | _ \<Rightarrow> None)
                   | Some i \<Rightarrow> do {
                       (r, m) \<leftarrow> module_ioctl us dev kalloc cm (Modules wa ! i);
                       Some (r, set_mcon i m wa) })) }) }"

end
