(* ===== verification/Skel_Install.thy ===== *)
theory Skel_Install
  imports Skel_Entry
begin

text \<open>
  Installation of the modules: \<open>skelvme.h\<close> (mapping the address spaces, the interrupt) and the installation
  and removal of the driver in \<open>skeldrvr.c\<close>. The bus controller, the CES calls that the VME bridge driver
  provides, is a record of functions on a state of the bus. Only the VME bus is configured.
\<close>

subsection \<open>The bus\<close>

text \<open>\<open>find_controller\<close> of base address, size, modifier and width gives the address of the mapping, or \<open>None\<close> for
  its -1; the others tell success. A handler is known by the index of its module context.\<close>

record 'b vme_bus =
  bus_find_controller :: "'b \<Rightarrow> u32 \<Rightarrow> u32 \<Rightarrow> u32 \<Rightarrow> u32 \<Rightarrow> nat option \<times> 'b"
  bus_return_controller :: "'b \<Rightarrow> nat \<Rightarrow> u32 \<Rightarrow> bool \<times> 'b"
  bus_intset :: "'b \<Rightarrow> u32 \<Rightarrow> nat \<Rightarrow> bool \<times> 'b"
  bus_intclr :: "'b \<Rightarrow> u32 \<Rightarrow> bool \<times> 'b"

subsection \<open>Address spaces\<close>

definition do_vme_mapping :: "'b vme_bus \<Rightarrow> InsLibVmeAddressSpace \<Rightarrow> 'b \<Rightarrow> nat option \<times> 'b" where
  "do_vme_mapping bus v b =
     bus_find_controller bus b (BaseAddress v) (WindowSize v) (AddressModifier v) (DataWidth v div 8)"

definition region_is_a_block :: "InsLibVmeAddressSpace \<Rightarrow> bool" where
  "region_is_a_block vas \<longleftrightarrow>
     AddressModifier vas \<in> {0x00, 0x03, 0x08, 0x0b, 0x0c, 0x0f, 0x37, 0x38, 0x3b, 0x3c, 0x3f}"

definition map_vmeas :: "'b vme_bus \<Rightarrow> InsLibVmeAddressSpace \<Rightarrow> ('u, 'h) SkelDrvrModuleContext \<Rightarrow> 'b \<Rightarrow> bool \<times> InsLibVmeAddressSpace \<times> ('u, 'h) SkelDrvrModuleContext \<times> 'b" where
  "map_vmeas bus vas mcon b =
     (let vas = vas\<lparr>BigEndian := True\<rparr> in
      if StandardStatus mcon AND EMULATION \<noteq> 0
      then (True, vas\<lparr>Mapped := None\<rparr>, mcon\<lparr>StandardStatus := StandardStatus mcon OR NO_HARDWARE\<rparr>, b)
      else if region_is_a_block vas then (True, vas, mcon, b)
      else let (a, b) = do_vme_mapping bus vas b in (a \<noteq> None, vas\<lparr>Mapped := a\<rparr>, mcon, b))"

fun unmap_spaces :: "'b vme_bus \<Rightarrow> bool \<Rightarrow> InsLibVmeAddressSpace list \<Rightarrow> 'b \<Rightarrow> InsLibVmeAddressSpace list \<times> 'b" where
  "unmap_spaces bus force [] b = ([], b)"
| "unmap_spaces bus force (vas # vs) b =
     (let (vas', b1) =
            (case Mapped vas of None \<Rightarrow> (vas, b)
             | Some a \<Rightarrow> if force \<or> FreeModifierFlag vas
                 then let (ok, b') = bus_return_controller bus b a (WindowSize vas)
                      in (if ok then vas\<lparr>Mapped := None\<rparr> else vas, b')
                 else (vas, b));
          (vs', b2) = unmap_spaces bus force vs b1
      in (vas' # vs', b2))"

definition set_spaces :: "InsLibVmeAddressSpace list \<Rightarrow> ('u, 'h) SkelDrvrModuleContext \<Rightarrow> ('u, 'h) SkelDrvrModuleContext" where
  "set_spaces vs mcon = mcon\<lparr>Modld := (Modld mcon)\<lparr>ModuleAddress := Some vs\<rparr>\<rparr>"

definition unmap_vmeas :: "'b vme_bus \<Rightarrow> bool \<Rightarrow> ('u, 'h) SkelDrvrModuleContext \<Rightarrow> 'b \<Rightarrow> ('u, 'h) SkelDrvrModuleContext \<times> 'b" where
  "unmap_vmeas bus force mcon b =
     (case ModuleAddress (Modld mcon) of None \<Rightarrow> (mcon, b)
      | Some vs \<Rightarrow> let (vs', b') = unmap_spaces bus force vs b in (set_spaces vs' mcon, b'))"

text \<open>The result is \<open>None\<close> when the vector of a missing interrupt descriptor is read.\<close>

definition RemoveVmeModule :: "'b vme_bus \<Rightarrow> ('u, 'h) SkelDrvrModuleContext \<Rightarrow> 'b \<Rightarrow> (('u, 'h) SkelDrvrModuleContext \<times> 'b) option" where
  "RemoveVmeModule bus mcon b = do {
     (mcon1, b1) \<leftarrow>
       (if StandardStatus mcon AND NO_ISR = 0
        then do {
          intrd \<leftarrow> Isr (Modld mcon);
          (let (ok, b') = bus_intclr bus b (Vector intrd)
           in Some (if ok then mcon\<lparr>StandardStatus := StandardStatus mcon OR NO_ISR\<rparr> else mcon, b')) }
        else Some (mcon, b));
     Some (unmap_vmeas bus True mcon1 b1) }"

text \<open>The loop over the address spaces, with those already done; it stops at a failure that is not ignored.\<close>

fun map_spaces :: "'b vme_bus \<Rightarrow> InsLibVmeAddressSpace list \<Rightarrow> InsLibVmeAddressSpace list \<Rightarrow> ('u, 'h) SkelDrvrModuleContext \<Rightarrow> 'b \<Rightarrow> bool \<times> ('u, 'h) SkelDrvrModuleContext \<times> 'b" where
  "map_spaces bus dn [] mcon b = (True, set_spaces dn mcon, b)"
| "map_spaces bus dn (vas # vs) mcon b =
     (let (cc, vas', mcon', b') = map_vmeas bus vas mcon b in
      if \<not> cc \<and> \<not> IgnoreErrors (Modld mcon) then (False, set_spaces (dn @ vas' # vs) mcon', b')
      else map_spaces bus (dn @ [vas']) vs mcon' b')"

text \<open>\<open>i\<close> is the index of the module context.\<close>

definition AddVmeModule :: "'b vme_bus \<Rightarrow> nat \<Rightarrow> ('u, 'h) SkelDrvrModuleContext \<Rightarrow> 'b \<Rightarrow> (bool \<times> ('u, 'h) SkelDrvrModuleContext \<times> 'b) option" where
  "AddVmeModule bus i mcon b =
     (let (cc, m1, b1) = (case ModuleAddress (Modld mcon) of None \<Rightarrow> (True, mcon, b) | Some vs \<Rightarrow> map_spaces bus [] vs mcon b);
          out_err = (\<lambda>m b. do { (m', b') \<leftarrow> RemoveVmeModule bus m b; Some (False, m', b') })
      in if \<not> cc then out_err m1 b1
      else case Isr (Modld m1) of None \<Rightarrow> Some (True, m1, b1)
      | Some intrd \<Rightarrow>
          if \<not> IsrFlag intrd then Some (True, m1, b1)
          else let (ok, b2) = bus_intset bus b1 (Vector intrd) i in
               if ok then Some (True, m1\<lparr>StandardStatus := StandardStatus m1 AND NOT NO_ISR\<rparr>, b2)
               else if IgnoreErrors (Modld m1) then Some (True, m1, b2)
               else out_err m1 b2)"

fun find_vmeas :: "u32 \<Rightarrow> u32 \<Rightarrow> InsLibVmeAddressSpace list \<Rightarrow> InsLibVmeAddressSpace option" where
  "find_vmeas a dw [] = None"
| "find_vmeas a dw (vas # vs) = (if AddressModifier vas = a \<and> DataWidth vas = dw then Some vas else find_vmeas a dw vs)"

definition get_vmemap_addr :: "('u, 'h) SkelDrvrModuleContext \<Rightarrow> u32 \<Rightarrow> u32 \<Rightarrow> nat option" where
  "get_vmemap_addr mcon a dw = do { vs \<leftarrow> ModuleAddress (Modld mcon); vas \<leftarrow> find_vmeas a dw vs; Mapped vas }"

definition get_vme_addr :: "('u, 'h) SkelDrvrModuleContext \<Rightarrow> u32 \<Rightarrow> u32 \<Rightarrow> u32 option" where
  "get_vme_addr mcon a dw = do { vs \<leftarrow> ModuleAddress (Modld mcon); vas \<leftarrow> find_vmeas a dw vs; Some (BaseAddress vas) }"

subsection \<open>Modules\<close>

definition RemoveModule :: "('u, 'h, 'a) skel_user \<Rightarrow> 'b vme_bus \<Rightarrow> ('u, 'h) SkelDrvrModuleContext \<Rightarrow> 'b \<Rightarrow> (('u, 'h) SkelDrvrModuleContext \<times> 'b) option" where
  "RemoveModule us bus mcon b =
     (if StandardStatus mcon AND EMULATION \<noteq> 0 then Some (mcon, b)
      else do {
        m \<leftarrow> SkelUserModuleRelease us mcon;
        (case BusType (Modld m) of BusVME \<Rightarrow> RemoveVmeModule bus m b | _ \<Rightarrow> Some (m, b)) })"

definition unmap_flagged :: "'b vme_bus \<Rightarrow> ('u, 'h) SkelDrvrModuleContext \<Rightarrow> 'b \<Rightarrow> ('u, 'h) SkelDrvrModuleContext \<times> 'b" where
  "unmap_flagged bus mcon b = (case BusType (Modld mcon) of BusVME \<Rightarrow> unmap_vmeas bus False mcon b | _ \<Rightarrow> (mcon, b))"

text \<open>\<open>InstalledModules\<close> is counted by the caller from the result.\<close>

definition AddModule :: "('u, 'h, 'a) skel_user \<Rightarrow> 'b vme_bus \<Rightarrow> nat \<Rightarrow> ('u, 'h) SkelDrvrModuleContext \<Rightarrow> 'b \<Rightarrow> (bool \<times> ('u, 'h) SkelDrvrModuleContext \<times> 'b) option" where
  "AddModule us bus i mcon b = do {
     (mod_ok, m1, b1) \<leftarrow> (case BusType (Modld mcon) of BusVME \<Rightarrow> AddVmeModule bus i mcon b | _ \<Rightarrow> Some (False, mcon, b));
     (if \<not> mod_ok then Some (False, m1, b1)
      else do {
        (r, m2) \<leftarrow> SkelUserModuleInit us m1;
        (if r = SkelUserReturnFAILED
         then do { (m3, b3) \<leftarrow> RemoveModule us bus m2 b1; Some (False, m3, b3) }
         else let (m3, b3) = unmap_flagged bus m2 b1 in Some (True, m3, b3)) }) }"

definition DebugFlagEMULATION :: u32 where "DebugFlagEMULATION = 0x100"

definition set_mcon_defaults :: "InsLibDrvrDesc \<Rightarrow> ('u, 'h) SkelDrvrModuleContext \<Rightarrow> ('u, 'h) SkelDrvrModuleContext" where
  "set_mcon_defaults drvrd mcon =
     (let m = mcon\<lparr>ModTimeout := SkelDrvrDEFAULT_MODULE_TIMEOUT, ModDebug := DebugFlags drvrd\<rparr>;
          m = (if EmulationFlags drvrd
               then m\<lparr>ModDebug := ModDebug m OR DebugFlagEMULATION, StandardStatus := StandardStatus m OR EMULATION\<rparr> else m)
      in m\<lparr>ModSemaphore := 1, Connected := (Connected m)\<lparr>conn_clients := replicate SkelDrvrINTERRUPTS []\<rparr>,
           StandardStatus := StandardStatus m OR NO_ISR\<rparr>)"

text \<open>The loop of \<open>modules_install\<close>; \<open>hw\<close> gives the hardware behind a descriptor. A failed module leaves its
  context to the next.\<close>

fun install_loop :: "('u, 'h, 'a) skel_user \<Rightarrow> 'b vme_bus \<Rightarrow> (InsLibModlDesc \<Rightarrow> 'h) \<Rightarrow> InsLibModlDesc list \<Rightarrow> nat \<Rightarrow> ('u, 'h) SkelDrvrWorkingArea \<Rightarrow> 'b \<Rightarrow> (('u, 'h) SkelDrvrWorkingArea \<times> 'b) option" where
  "install_loop us bus hw [] i wa b = Some (wa, b)"
| "install_loop us bus hw (modld # ms) i wa b =
     (if i \<ge> ModuleCount (Drvrd wa) then Some (wa, b)
      else let m = set_mcon_defaults (Drvrd wa) ((Modules wa ! i)\<lparr>Modld := modld, ModNumber := ModlNumber modld, hardware := hw modld\<rparr>)
           in do {
             (mod_ok, m', b') \<leftarrow> AddModule us bus i m b;
             (if mod_ok
              then install_loop us bus hw ms (Suc i)
                     (wa\<lparr>Modules := (Modules wa)[i := m'\<lparr>InUse := True\<rparr>], InstalledModules := InstalledModules wa + 1\<rparr>) b'
              else install_loop us bus hw ms i (wa\<lparr>Modules := (Modules wa)[i := m']\<rparr>) b') })"

definition modules_install :: "('u, 'h, 'a) skel_user \<Rightarrow> 'b vme_bus \<Rightarrow> (InsLibModlDesc \<Rightarrow> 'h) \<Rightarrow> ('u, 'h) SkelDrvrWorkingArea \<Rightarrow> 'b \<Rightarrow> (('u, 'h) SkelDrvrWorkingArea \<times> 'b) option" where
  "modules_install us bus hw wa b =
     (if ModuleCount (Drvrd wa) > SkelDrvrMODULE_CONTEXTS then Some (wa, b)
      else install_loop us bus hw (DrvrModules (Drvrd wa)) 0 wa b)"

text \<open>A cleared module context: \<open>u0\<close> stands for the missing private data and \<open>h0\<close> for no hardware.\<close>

definition zero_mcon :: "'u \<Rightarrow> 'h \<Rightarrow> ('u, 'h) SkelDrvrModuleContext" where
  "zero_mcon u0 h0 = \<lparr>ModNumber = 0, InUse = False,
     Modld = \<lparr>BusType = BusNOT_SET, ModlNumber = 0, IgnoreErrors = False, Isr = None, ModuleAddress = None\<rparr>,
     ModSemaphore = 0, ModTimeout = 0, Connected = \<lparr>conn_clients = [], enabled_ints = 0\<rparr>, ModDebug = 0, StandardStatus = 0,
     FlashOpen = 0, UserData = u0, hardware = h0\<rparr>"

definition wa_init :: "'u \<Rightarrow> 'h \<Rightarrow> InsLibDrvrDesc \<Rightarrow> ('u, 'h) SkelDrvrWorkingArea" where
  "wa_init u0 h0 drvrd = \<lparr>Drvrd = drvrd, InstalledModules = 0, clients = [],
     Modules = replicate SkelDrvrMODULE_CONTEXTS (zero_mcon u0 h0), ccons = Map.empty\<rparr>"

text \<open>\<open>clone\<close> is the copy of the driver description, if there is memory, and \<open>walloc\<close> tells whether the working
  area was allocated.\<close>

definition SkelDrvrInstall :: "('u, 'h, 'a) skel_user \<Rightarrow> 'b vme_bus \<Rightarrow> (InsLibModlDesc \<Rightarrow> 'h) \<Rightarrow> 'u \<Rightarrow> 'h \<Rightarrow> InsLibDrvrDesc option \<Rightarrow> bool \<Rightarrow> 'b \<Rightarrow> ((errno + ('u, 'h) SkelDrvrWorkingArea) \<times> 'b) option" where
  "SkelDrvrInstall us bus hw u0 h0 clone walloc b =
     (case clone of None \<Rightarrow> Some (Inl ENOMEM, b)
      | Some drvrd \<Rightarrow>
          if \<not> walloc then Some (Inl ENOMEM, b)
          else if ModuleCount drvrd = 0 then Some (Inl EINVAL, b)
          else do {
            (wa, b') \<leftarrow> modules_install us bus hw (wa_init u0 h0 drvrd) b;
            (if InstalledModules wa = 0 then Some (Inl ENODEV, b') else Some (Inr wa, b')) })"

fun uninstall_loop :: "('u, 'h, 'a) skel_user \<Rightarrow> 'b vme_bus \<Rightarrow> nat list \<Rightarrow> ('u, 'h) SkelDrvrWorkingArea \<Rightarrow> 'b \<Rightarrow> (('u, 'h) SkelDrvrWorkingArea \<times> 'b) option" where
  "uninstall_loop us bus [] wa b = Some (wa, b)"
| "uninstall_loop us bus (i # is) wa b = do {
     (m, b') \<leftarrow> RemoveModule us bus (Modules wa ! i) b;
     uninstall_loop us bus is (set_mcon i m wa) b' }"

definition modules_uninstall :: "('u, 'h, 'a) skel_user \<Rightarrow> 'b vme_bus \<Rightarrow> ('u, 'h) SkelDrvrWorkingArea \<Rightarrow> 'b \<Rightarrow> (('u, 'h) SkelDrvrWorkingArea \<times> 'b) option" where
  "modules_uninstall us bus wa b = uninstall_loop us bus [0 ..< InstalledModules wa] wa b"

definition SkelDrvrUninstall :: "('u, 'h, 'a) skel_user \<Rightarrow> 'b vme_bus \<Rightarrow> ('u, 'h) SkelDrvrWorkingArea option \<Rightarrow> 'b \<Rightarrow> (rc \<times> ('u, 'h) SkelDrvrWorkingArea option \<times> 'b) option" where
  "SkelDrvrUninstall us bus Wa b =
     (case Wa of None \<Rightarrow> Some (OK, None, b)
      | Some wa \<Rightarrow>
          if clients wa \<noteq> [] then Some (Inl EBUSY, Wa, b)
          else do { (wa', b') \<leftarrow> modules_uninstall us bus wa b; Some (OK, None, b') })"

end
