(* ===== verification/Mtt_Driver.thy ===== *)
theory Mtt_Driver
  imports Skel_Install C_Strings
begin

text \<open>
  The driver of the sequencer module, \<open>src/mttn/driver/mtt-skel.c\<close>: the user part of the driver framework.
  Registers are accessed through the functions of a VME device; the private data of a module is missing
  (\<open>None\<close>) before it is allocated and after it is freed, and an access to it then gives \<open>None\<close>. A long has 32
  bits. Locks are left out: each function runs alone on its module.
\<close>

subsection \<open>Hardware and private data\<close>

definition MTT_INTSR :: nat where "MTT_INTSR = 0x000"
definition MTT_INTEN :: nat where "MTT_INTEN = 0x004"
definition MTT_INTR :: nat where "MTT_INTR = 0x008"
definition MTT_VHDL :: nat where "MTT_VHDL = 0x00c"
definition MTT_STATUS :: nat where "MTT_STATUS = 0x010"
definition MTT_COMMAND :: nat where "MTT_COMMAND = 0x014"
definition MTT_COMMAND_VAL :: nat where "MTT_COMMAND_VAL = 0x018"
definition MTT_SEC :: nat where "MTT_SEC = 0x01c"
definition MTT_MSEC :: nat where "MTT_MSEC = 0x020"
definition MTT_TASKS_START :: nat where "MTT_TASKS_START = 0x024"
definition MTT_TASKS_STOP :: nat where "MTT_TASKS_STOP = 0x028"
definition MTT_TASKS_CURR :: nat where "MTT_TASKS_CURR = 0x02c"

lemmas mtt_regs = MTT_INTSR_def MTT_INTEN_def MTT_INTR_def MTT_VHDL_def MTT_STATUS_def MTT_COMMAND_def
  MTT_COMMAND_VAL_def MTT_SEC_def MTT_MSEC_def MTT_TASKS_START_def MTT_TASKS_STOP_def MTT_TASKS_CURR_def

definition MttDrvrTASKS :: nat where "MttDrvrTASKS = 16"
definition MttDrvrTASK_MASK :: u32 where "MttDrvrTASK_MASK = 0xFFFF"
definition MttDrvrGRAM_SIZE :: nat where "MttDrvrGRAM_SIZE = 224"
definition MttDrvrLRAM_SIZE :: nat where "MttDrvrLRAM_SIZE = 32"
definition MttDrvrINSTRUCTIONS :: nat where "MttDrvrINSTRUCTIONS = 4096"
definition MttDrvrNameSIZE :: nat where "MttDrvrNameSIZE = 32"
definition MttDrvrIntMASK :: u32 where "MttDrvrIntMASK = 0x03FFFFFF"
definition MTT_REV_PRIO :: u32 where "MTT_REV_PRIO = 1251465263"

lemmas mtt_sizes = MttDrvrTASKS_def MttDrvrTASK_MASK_def MttDrvrGRAM_SIZE_def MttDrvrLRAM_SIZE_def
  MttDrvrINSTRUCTIONS_def MttDrvrNameSIZE_def MttDrvrIntMASK_def MTT_REV_PRIO_def

text \<open>Offsets of the arrays of \<open>MttDrvrMap\<close>.\<close>

definition map_Tasks :: "nat \<Rightarrow> nat" where "map_Tasks i = 0x30 + 16 * i"
definition map_GlobalMem :: "int \<Rightarrow> int" where "map_GlobalMem r = 0x30 + 16 * int MttDrvrTASKS + 4 * r"
definition map_LocalMem :: "nat \<Rightarrow> nat \<Rightarrow> nat" where
  "map_LocalMem t r = 0x30 + 16 * MttDrvrTASKS + 4 * MttDrvrGRAM_SIZE + 4 * (MttDrvrLRAM_SIZE * t + r)"
definition map_ProgramMem :: "nat \<Rightarrow> nat" where
  "map_ProgramMem i = 0x30 + 16 * MttDrvrTASKS + 4 * MttDrvrGRAM_SIZE + 4 * MttDrvrLRAM_SIZE * MttDrvrTASKS + 8 * i"

datatype MttDrvrCommand = CommandRESET | CommandENABLE | CommandEXTERNAL_1KHZ | CommandUTC_SENDING_ON | CommandSET_UTC
  | CommandSET_OUT_DELAY | CommandSET_SYNC_PERIOD | CommandSEND_EVENT | CommandB1RATE | CommandSEND_EVENT_LOW

fun command_code :: "MttDrvrCommand \<Rightarrow> u32" where
  "command_code CommandRESET = 0" | "command_code CommandENABLE = 1" | "command_code CommandEXTERNAL_1KHZ = 2"
| "command_code CommandUTC_SENDING_ON = 3" | "command_code CommandSET_UTC = 4" | "command_code CommandSET_OUT_DELAY = 5"
| "command_code CommandSET_SYNC_PERIOD = 6" | "command_code CommandSEND_EVENT = 7" | "command_code CommandB1RATE = 8"
| "command_code CommandSEND_EVENT_LOW = 9"

record mtt_task =
  LoadAddress :: u32
  InstructionCount :: u32
  PcStart :: u32
  PcOffset :: u32
  Pc :: u32
  TaskName :: "u8 list"

record udata =
  EnabledOutput :: u32
  CableId :: u32
  External1KHZ :: u32
  UtcSending :: u32
  OutputDelay :: u32
  SyncPeriod :: u32
  BusError :: u32
  udFlashOpen :: u32
  Tasks :: "mtt_task list"
  iomap :: nat
  jtag :: nat

type_synonym 'h mtt_mcon = "(udata option, 'h) SkelDrvrModuleContext"

record MttDrvrTime =
  utcSecond :: u32
  MilliSecond :: u32

record MttDrvrEvent =
  Frame :: u32
  Priority :: u32

record MttDrvrTaskBlock =
  tbPc :: u32
  tbPcOffset :: u32
  TaskStatus :: u32
  ProcessorStatus :: u32

record MttDrvrTaskBuf =
  Task :: u32
  Fields :: u32
  bufLoadAddress :: u32
  bufInstructionCount :: u32
  bufPcStart :: u32
  ControlBlock :: MttDrvrTaskBlock
  bufName :: "u8 list"

record MttDrvrTaskRegBuf =
  trTask :: u32
  RegMask :: u32
  RegVals :: "u32 list"

record MttDrvrGlobalRegBuf =
  RegNum :: u32
  RegVal :: u32

record MttDrvrInstruction =
  insFields :: u32
  Srce1 :: u32

text \<open>\<open>Program\<close> and \<open>UserArray\<close> are the memory of the caller behind the pointer; a copy beyond it faults.\<close>

record MttDrvrProgramBuf =
  progLoadAddress :: u32
  progInstructionCount :: u32
  Program :: "MttDrvrInstruction list"

record MttDrvrRawIoBlock =
  rawSize :: u32
  rawOffset :: u32
  UserArray :: "u32 list"

datatype mtt_ioctl =
    MTT_IOCSCABLEID u32 | MTT_IOCGCABLEID u32 | MTT_IOCSUTC_SENDING u32 | MTT_IOCSEXT_1KHZ u32
  | MTT_IOCSOUT_DELAY u32 | MTT_IOCGOUT_DELAY u32 | MTT_IOCSOUT_ENABLE u32
  | MTT_IOCSSYNC_PERIOD u32 | MTT_IOCGSYNC_PERIOD u32 | MTT_IOCSUTC MttDrvrTime | MTT_IOCGUTC MttDrvrTime
  | MTT_IOCSSEND_EVENT MttDrvrEvent | MTT_IOCSTASKS_START u32 | MTT_IOCSTASKS_STOP u32
  | MTT_IOCSTASKS_CONT u32 | MTT_IOCGTASKS_CURR u32 | MTT_IOCSTCB MttDrvrTaskBuf | MTT_IOCGTCB MttDrvrTaskBuf
  | MTT_IOCSGRVAL MttDrvrGlobalRegBuf | MTT_IOCGGRVAL MttDrvrGlobalRegBuf
  | MTT_IOCSTRVAL MttDrvrTaskRegBuf | MTT_IOCGTRVAL MttDrvrTaskRegBuf
  | MTT_IOCSPROGRAM MttDrvrProgramBuf | MTT_IOCGPROGRAM MttDrvrProgramBuf | MTT_IOCGSTATUS u32
  | MTT_IOCRAW_WRITE MttDrvrRawIoBlock | MTT_IOCRAW_READ MttDrvrRawIoBlock | MTT_IOCGVERSION u32 u32
  | MTT_FIRST_OR_LAST

type_synonym 'h mtt_result = "((errno option + mtt_ioctl) \<times> 'h mtt_mcon) option"

subsection \<open>Access to registers\<close>

definition io_write :: "'h vme_device \<Rightarrow> nat \<Rightarrow> u32 \<Rightarrow> 'h mtt_mcon \<Rightarrow> 'h mtt_mcon" where
  "io_write dev a v m = m\<lparr>hardware := dev_write dev (hardware m) a 32 True v\<rparr>"

definition io_read :: "'h vme_device \<Rightarrow> nat \<Rightarrow> 'h mtt_mcon \<Rightarrow> u32 \<times> 'h mtt_mcon" where
  "io_read dev a m = (let (v, h) = dev_read dev (hardware m) a 32 True in (v, m\<lparr>hardware := h\<rparr>))"

definition mtt_writew :: "'h vme_device \<Rightarrow> nat \<Rightarrow> u32 \<Rightarrow> 'h mtt_mcon \<Rightarrow> 'h mtt_mcon option" where
  "mtt_writew dev offs v m = do { u \<leftarrow> UserData m; Some (io_write dev (iomap u + offs) v m) }"

definition mtt_readw :: "'h vme_device \<Rightarrow> nat \<Rightarrow> 'h mtt_mcon \<Rightarrow> (u32 \<times> 'h mtt_mcon) option" where
  "mtt_readw dev offs m = do { u \<leftarrow> UserData m; Some (io_read dev (iomap u + offs) m) }"

definition mtt_writes :: "'h vme_device \<Rightarrow> nat \<Rightarrow> u32 \<Rightarrow> 'h mtt_mcon \<Rightarrow> 'h mtt_mcon option" where
  "mtt_writes dev offs v m = do {
     u \<leftarrow> UserData m; Some (m\<lparr>hardware := dev_write dev (hardware m) (jtag u + offs) 16 True (take_bit 16 v)\<rparr>) }"

definition mtt_reads :: "'h vme_device \<Rightarrow> nat \<Rightarrow> 'h mtt_mcon \<Rightarrow> (u32 \<times> 'h mtt_mcon) option" where
  "mtt_reads dev offs m = do {
     u \<leftarrow> UserData m;
     (let (v, h) = dev_read dev (hardware m) (jtag u + offs) 16 True in Some (take_bit 16 v, m\<lparr>hardware := h\<rparr>)) }"

definition mtt_orw :: "'h vme_device \<Rightarrow> nat \<Rightarrow> u32 \<Rightarrow> 'h mtt_mcon \<Rightarrow> 'h mtt_mcon option" where
  "mtt_orw dev offs v m = do { (regval, m1) \<leftarrow> mtt_readw dev offs m; mtt_writew dev offs (regval OR v) m1 }"

definition mtt_cmd :: "'h vme_device \<Rightarrow> MttDrvrCommand \<Rightarrow> u32 \<Rightarrow> 'h mtt_mcon \<Rightarrow> 'h mtt_mcon option" where
  "mtt_cmd dev c v m = do { m1 \<leftarrow> mtt_writew dev MTT_COMMAND_VAL v m; mtt_writew dev MTT_COMMAND (command_code c) m1 }"

definition set_udata :: "udata \<Rightarrow> 'h mtt_mcon \<Rightarrow> 'h mtt_mcon" where
  "set_udata u m = m\<lparr>UserData := Some u\<rparr>"

text \<open>\<open>mtt_ping\<close> on Linux, where no bus error is reported.\<close>

definition mtt_ping :: "'h vme_device \<Rightarrow> 'h mtt_mcon \<Rightarrow> 'h mtt_mcon option" where
  "mtt_ping dev m = do { (_, m1) \<leftarrow> mtt_readw dev MTT_VHDL m; Some m1 }"

definition mtt_get_status :: "'h vme_device \<Rightarrow> 'h mtt_mcon \<Rightarrow> (u32 \<times> 'h mtt_mcon) option" where
  "mtt_get_status dev m = do {
     (s, m1) \<leftarrow> mtt_readw dev MTT_STATUS m;
     u \<leftarrow> UserData m1;
     (let s = (if udFlashOpen u \<noteq> 0 then s OR 0x200 else s) in
      if BusError u \<noteq> 0 then Some (s OR 0x100, set_udata (u\<lparr>BusError := 0\<rparr>) m1) else Some (s, m1)) }"

subsection \<open>The functions of the framework\<close>

definition mtt_GetModuleVersion :: "'h vme_device \<Rightarrow> 'h mtt_mcon \<Rightarrow> (string option \<times> 'h mtt_mcon) option" where
  "mtt_GetModuleVersion dev m = do {
     m1 \<leftarrow> mtt_ping dev m; (v, m2) \<leftarrow> mtt_readw dev MTT_VHDL m1; Some (Some (fmt_d v), m2) }"

definition mtt_GetHardwareStatus :: "'h mtt_mcon \<Rightarrow> (u32 \<times> 'h mtt_mcon) option" where
  "mtt_GetHardwareStatus m = Some (StandardStatus m, m)"

definition mtt_gs_utc :: "'h vme_device \<Rightarrow> MttDrvrTime \<Rightarrow> bool \<Rightarrow> 'h mtt_mcon \<Rightarrow> (MttDrvrTime \<times> 'h mtt_mcon) option" where
  "mtt_gs_utc dev utc st m =
     (if st then do { m1 \<leftarrow> mtt_cmd dev CommandSET_UTC (utcSecond utc) m; Some (utc, m1) }
      else do {
        (ms, m1) \<leftarrow> mtt_readw dev MTT_MSEC m;
        (s, m2) \<leftarrow> mtt_readw dev MTT_SEC m1;
        Some (\<lparr>utcSecond = s, MilliSecond = ms\<rparr>, m2) })"

text \<open>\<open>mtt_gs_utc_skel\<close> for reading the time, the only way it is used.\<close>

definition mtt_GetUtc :: "'h vme_device \<Rightarrow> 'h mtt_mcon \<Rightarrow> (SkelDrvrTime \<times> 'h mtt_mcon) option" where
  "mtt_GetUtc dev m = do {
     (utc, m1) \<leftarrow> mtt_gs_utc dev \<lparr>utcSecond = 0, MilliSecond = 0\<rparr> False m;
     Some (\<lparr>Second = utcSecond utc, NanoSecond = MilliSecond utc * 1000\<rparr>, m1) }"

definition mtt_quiesce :: "'h vme_device \<Rightarrow> 'h mtt_mcon \<Rightarrow> 'h mtt_mcon option" where
  "mtt_quiesce dev m = do { m1 \<leftarrow> mtt_writew dev MTT_INTEN 0 m; (_, m2) \<leftarrow> mtt_readw dev MTT_INTSR m1; Some m2 }"

definition mtt_shift_intr_level :: "u32 \<Rightarrow> u32" where
  "mtt_shift_intr_level level = (if level = 3 then 0x300 else 0x200)"

definition mtt_reset :: "'h vme_device \<Rightarrow> 'h mtt_mcon \<Rightarrow> 'h mtt_mcon option" where
  "mtt_reset dev m = do {
     m1 \<leftarrow> mtt_quiesce dev m;
     m2 \<leftarrow> mtt_cmd dev CommandRESET 1 m1;
     m3 \<leftarrow> mtt_cmd dev CommandENABLE 1 m2;
     u \<leftarrow> UserData m3;
     (let m4 = set_udata (u\<lparr>EnabledOutput := 1\<rparr>) m3 in
      case Isr (Modld m4) of None \<Rightarrow> Some m4
      | Some isr \<Rightarrow> mtt_writew dev MTT_INTR (Vector isr OR mtt_shift_intr_level (Level isr)) m4) }"

definition cmd_if :: "'h vme_device \<Rightarrow> (udata \<Rightarrow> u32) \<Rightarrow> MttDrvrCommand \<Rightarrow> (udata \<Rightarrow> u32) \<Rightarrow> 'h mtt_mcon \<Rightarrow> 'h mtt_mcon option" where
  "cmd_if dev f c v m = do { u \<leftarrow> UserData m; (if f u \<noteq> 0 then mtt_cmd dev c (v u) m else Some m) }"

definition udata_set_defaults :: "'h vme_device \<Rightarrow> 'h mtt_mcon \<Rightarrow> 'h mtt_mcon option" where
  "udata_set_defaults dev m = do {
     u \<leftarrow> UserData m;
     m1 \<leftarrow> cmd_if dev EnabledOutput CommandENABLE (\<lambda>_. 1) (set_udata (u\<lparr>udFlashOpen := 0, UtcSending := 0, BusError := 0\<rparr>) m);
     m2 \<leftarrow> cmd_if dev External1KHZ CommandEXTERNAL_1KHZ (\<lambda>_. 1) m1;
     m3 \<leftarrow> cmd_if dev SyncPeriod CommandSET_SYNC_PERIOD SyncPeriod m2;
     cmd_if dev OutputDelay CommandSET_OUT_DELAY OutputDelay m3 }"

definition mtt_HardwareReset :: "'h vme_device \<Rightarrow> 'h mtt_mcon \<Rightarrow> 'h mtt_mcon option" where
  "mtt_HardwareReset dev m = do { m1 \<leftarrow> mtt_reset dev m; udata_set_defaults dev m1 }"

definition mtt_GetInterruptSource :: "'h vme_device \<Rightarrow> 'h mtt_mcon \<Rightarrow> (SkelDrvrTime \<times> u32 \<times> 'h mtt_mcon) option" where
  "mtt_GetInterruptSource dev m = do {
     (src, m1) \<leftarrow> mtt_readw dev MTT_INTSR m; (t, m2) \<leftarrow> mtt_GetUtc dev m1; Some (t, src, m2) }"

definition mtt_EnableInterrupts :: "'h vme_device \<Rightarrow> 'h mtt_mcon \<Rightarrow> u32 \<Rightarrow> 'h mtt_mcon option" where
  "mtt_EnableInterrupts dev m msk = mtt_orw dev MTT_INTEN (msk AND MttDrvrIntMASK) m"

definition mtt_HardwareEnable :: "'h mtt_mcon \<Rightarrow> u32 \<Rightarrow> (SkelUserReturn \<times> 'h mtt_mcon) option" where
  "mtt_HardwareEnable m flag = Some (SkelUserReturnNOT_IMPLEMENTED, m)"

definition mtt_JtagReadByte :: "'h vme_device \<Rightarrow> 'h mtt_mcon \<Rightarrow> (SkelUserReturn \<times> u32 \<times> 'h mtt_mcon) option" where
  "mtt_JtagReadByte dev m = do { (v, m1) \<leftarrow> mtt_reads dev 0 m; Some (SkelUserReturnOK, v, m1) }"

definition mtt_JtagWriteByte :: "'h vme_device \<Rightarrow> 'h mtt_mcon \<Rightarrow> u32 \<Rightarrow> (SkelUserReturn \<times> 'h mtt_mcon) option" where
  "mtt_JtagWriteByte dev m v = do { m1 \<leftarrow> mtt_writes dev 0 v m; Some (SkelUserReturnOK, m1) }"

definition zero_udata :: udata where
  "zero_udata = \<lparr>EnabledOutput = 0, CableId = 0, External1KHZ = 0, UtcSending = 0, OutputDelay = 0, SyncPeriod = 0,
     BusError = 0, udFlashOpen = 0,
     Tasks = replicate MttDrvrTASKS \<lparr>LoadAddress = 0, InstructionCount = 0, PcStart = 0, PcOffset = 0, Pc = 0, TaskName = replicate MttDrvrNameSIZE 0\<rparr>,
     iomap = 0, jtag = 0\<rparr>"

text \<open>\<open>alloc\<close> tells whether there is memory. When an address space is missing the data is freed, and the
  module context keeps the pointer to it.\<close>

definition mtt_ModuleInit :: "'h vme_device \<Rightarrow> bool \<Rightarrow> 'h mtt_mcon \<Rightarrow> (SkelUserReturn \<times> 'h mtt_mcon) option" where
  "mtt_ModuleInit dev alloc m =
     (if \<not> alloc then Some (SkelUserReturnFAILED, m)
      else case get_vmemap_addr m 0x39 32 of None \<Rightarrow> Some (SkelUserReturnFAILED, m\<lparr>UserData := None\<rparr>)
      | Some io \<Rightarrow>
          (case get_vmemap_addr m 0x29 16 of None \<Rightarrow> Some (SkelUserReturnFAILED, m\<lparr>UserData := None\<rparr>)
           | Some jt \<Rightarrow> do {
               m1 \<leftarrow> mtt_HardwareReset dev (set_udata (zero_udata\<lparr>iomap := io, jtag := jt\<rparr>) m);
               Some (SkelUserReturnOK, m1) }))"

definition mtt_ModuleRelease :: "'h vme_device \<Rightarrow> 'h mtt_mcon \<Rightarrow> 'h mtt_mcon option" where
  "mtt_ModuleRelease dev m = do { m1 \<leftarrow> mtt_quiesce dev m; Some (m1\<lparr>UserData := None\<rparr>) }"

subsection \<open>Ioctls\<close>

text \<open>A command that stores a value and sends it to the hardware.\<close>

definition store_cmd :: "'h vme_device \<Rightarrow> (u32 \<Rightarrow> udata \<Rightarrow> udata) \<Rightarrow> MttDrvrCommand \<Rightarrow> u32 \<Rightarrow> 'h mtt_mcon \<Rightarrow> 'h mtt_mcon option" where
  "store_cmd dev upd c v m = do { u \<leftarrow> UserData m; mtt_cmd dev c v (set_udata (upd v u) m) }"

definition flag_value :: "u32 \<Rightarrow> u32" where
  "flag_value v = (if v = 0 then 0 else 1)"

definition ok_with :: "mtt_ioctl \<Rightarrow> 'h mtt_mcon option \<Rightarrow> 'h mtt_result" where
  "ok_with r m = map_option (Pair (Inr r)) m"

definition mtt_gs_cableid_ioctl :: "u32 \<Rightarrow> bool \<Rightarrow> 'h mtt_mcon \<Rightarrow> 'h mtt_result" where
  "mtt_gs_cableid_ioctl v st m = do {
     u \<leftarrow> UserData m;
     Some (if st then (Inr (MTT_IOCSCABLEID v), set_udata (u\<lparr>CableId := v\<rparr>) m) else (Inr (MTT_IOCGCABLEID (CableId u)), m)) }"

definition mtt_utc_sending_ioctl :: "'h vme_device \<Rightarrow> u32 \<Rightarrow> 'h mtt_mcon \<Rightarrow> 'h mtt_result" where
  "mtt_utc_sending_ioctl dev v m =
     ok_with (MTT_IOCSUTC_SENDING v) (store_cmd dev (\<lambda>v. UtcSending_update (\<lambda>_. v)) CommandUTC_SENDING_ON (flag_value v) m)"

definition mtt_ext_1khz_ioctl :: "'h vme_device \<Rightarrow> u32 \<Rightarrow> 'h mtt_mcon \<Rightarrow> 'h mtt_result" where
  "mtt_ext_1khz_ioctl dev v m =
     ok_with (MTT_IOCSEXT_1KHZ v) (store_cmd dev (\<lambda>v. External1KHZ_update (\<lambda>_. v)) CommandEXTERNAL_1KHZ (flag_value v) m)"

definition mtt_gs_out_delay_ioctl :: "'h vme_device \<Rightarrow> u32 \<Rightarrow> bool \<Rightarrow> 'h mtt_mcon \<Rightarrow> 'h mtt_result" where
  "mtt_gs_out_delay_ioctl dev v st m =
     (if st then ok_with (MTT_IOCSOUT_DELAY v) (store_cmd dev (\<lambda>v. OutputDelay_update (\<lambda>_. v)) CommandSET_OUT_DELAY v m)
      else do { u \<leftarrow> UserData m; Some (Inr (MTT_IOCGOUT_DELAY (OutputDelay u)), m) })"

definition mtt_out_enable_ioctl :: "'h vme_device \<Rightarrow> u32 \<Rightarrow> 'h mtt_mcon \<Rightarrow> 'h mtt_result" where
  "mtt_out_enable_ioctl dev v m =
     ok_with (MTT_IOCSOUT_ENABLE v) (store_cmd dev (\<lambda>v. EnabledOutput_update (\<lambda>_. v)) CommandENABLE (flag_value v) m)"

definition mtt_gs_sync_period_ioctl :: "'h vme_device \<Rightarrow> u32 \<Rightarrow> bool \<Rightarrow> 'h mtt_mcon \<Rightarrow> 'h mtt_result" where
  "mtt_gs_sync_period_ioctl dev v st m =
     (if st then ok_with (MTT_IOCSSYNC_PERIOD v) (store_cmd dev (\<lambda>v. SyncPeriod_update (\<lambda>_. v)) CommandSET_SYNC_PERIOD v m)
      else do { u \<leftarrow> UserData m; Some (Inr (MTT_IOCGSYNC_PERIOD (SyncPeriod u)), m) })"

definition mtt_gs_utc_ioctl :: "'h vme_device \<Rightarrow> MttDrvrTime \<Rightarrow> bool \<Rightarrow> 'h mtt_mcon \<Rightarrow> 'h mtt_result" where
  "mtt_gs_utc_ioctl dev t st m = do {
     (t', m') \<leftarrow> mtt_gs_utc dev t st m; Some (Inr (if st then MTT_IOCSUTC t' else MTT_IOCGUTC t'), m') }"

definition mtt_supports_prio :: "'h vme_device \<Rightarrow> 'h mtt_mcon \<Rightarrow> (bool \<times> 'h mtt_mcon) option" where
  "mtt_supports_prio dev m = do { (v, m1) \<leftarrow> mtt_readw dev MTT_VHDL m; Some (v \<ge> MTT_REV_PRIO, m1) }"

definition mtt_send_event_ioctl :: "'h vme_device \<Rightarrow> MttDrvrEvent \<Rightarrow> 'h mtt_mcon \<Rightarrow> 'h mtt_result" where
  "mtt_send_event_ioctl dev ev m =
     (if Priority ev \<notin> {0, 1} then Some (Inl (Some EINVAL), m)
      else do {
        (low, m1) \<leftarrow> (if Priority ev \<noteq> 0 then mtt_supports_prio dev m else Some (False, m));
        ok_with (MTT_IOCSSEND_EVENT ev) (mtt_cmd dev (if low then CommandSEND_EVENT_LOW else CommandSEND_EVENT) (Frame ev) m1) })"

definition start_task :: "'h vme_device \<Rightarrow> nat \<Rightarrow> 'h mtt_mcon \<Rightarrow> 'h mtt_mcon option" where
  "start_task dev i m = do {
     m1 \<leftarrow> mtt_writew dev MTT_TASKS_STOP (push_bit i 1) m;
     u \<leftarrow> UserData m1;
     mtt_writew dev MTT_TASKS_START (push_bit i 1) (io_write dev (iomap u + map_Tasks i) (PcStart (Tasks u ! i)) m1) }"

definition mtt_tasks_start_ioctl :: "'h vme_device \<Rightarrow> u32 \<Rightarrow> 'h mtt_mcon \<Rightarrow> 'h mtt_result" where
  "mtt_tasks_start_ioctl dev v m =
     (if v AND MttDrvrTASK_MASK = 0 then Some (Inl (Some EINVAL), m)
      else ok_with (MTT_IOCSTASKS_START v)
             (each_interrupt (\<lambda>i m. if bit v i then start_task dev i m else Some m) [0 ..< MttDrvrTASKS] m))"

definition mtt_set_tasks :: "'h vme_device \<Rightarrow> nat \<Rightarrow> u32 \<Rightarrow> mtt_ioctl \<Rightarrow> 'h mtt_mcon \<Rightarrow> 'h mtt_result" where
  "mtt_set_tasks dev reg v r m =
     (if v AND MttDrvrTASK_MASK = 0 then Some (Inl (Some EINVAL), m)
      else ok_with r (mtt_writew dev reg (v AND MttDrvrTASK_MASK) m))"

definition mtt_get_tasks :: "'h vme_device \<Rightarrow> nat \<Rightarrow> 'h mtt_mcon \<Rightarrow> 'h mtt_result" where
  "mtt_get_tasks dev reg m = do {
     (v, m1) \<leftarrow> mtt_readw dev reg m; Some (Inr (MTT_IOCGTASKS_CURR (v AND MttDrvrTASK_MASK)), m1) }"

text \<open>\<open>strncpy\<close> of a name: up to its terminating zero, padded with zeros.\<close>

definition strncpy_name :: "u8 list \<Rightarrow> u8 list" where
  "strncpy_name src = (let s = takeWhile (\<lambda>c. c \<noteq> 0) (take MttDrvrNameSIZE src) in s @ replicate (MttDrvrNameSIZE - length s) 0)"

definition upd_task :: "nat \<Rightarrow> (mtt_task \<Rightarrow> mtt_task) \<Rightarrow> 'h mtt_mcon \<Rightarrow> 'h mtt_mcon option" where
  "upd_task i f m = do { u \<leftarrow> UserData m; Some (set_udata (u\<lparr>Tasks := (Tasks u)[i := f (Tasks u ! i)]\<rparr>) m) }"

text \<open>\<open>__mtt_set_tcb\<close> for bit \<open>k\<close> of the fields of task \<open>i\<close> (counted from 0).\<close>

definition mtt_set_tcb :: "'h vme_device \<Rightarrow> MttDrvrTaskBuf \<Rightarrow> nat \<Rightarrow> nat \<Rightarrow> 'h mtt_mcon \<Rightarrow> 'h mtt_mcon option" where
  "mtt_set_tcb dev tb i k m =
     (if k = 0 then upd_task i (\<lambda>t. t\<lparr>LoadAddress := bufLoadAddress tb\<rparr>) m
      else if k = 1 then upd_task i (\<lambda>t. t\<lparr>InstructionCount := bufInstructionCount tb\<rparr>) m
      else if k = 2 then upd_task i (\<lambda>t. t\<lparr>PcStart := bufPcStart tb\<rparr>) m
      else if k = 3 then do {
        m1 \<leftarrow> upd_task i (\<lambda>t. t\<lparr>PcOffset := tbPcOffset (ControlBlock tb)\<rparr>) m;
        mtt_writew dev (map_Tasks i + 4) (tbPcOffset (ControlBlock tb)) m1 }
      else if k = 4 then do {
        m1 \<leftarrow> upd_task i (\<lambda>t. t\<lparr>Pc := tbPc (ControlBlock tb)\<rparr>) m;
        mtt_writew dev (map_Tasks i) (tbPc (ControlBlock tb)) m1 }
      else upd_task i (\<lambda>t. t\<lparr>TaskName := strncpy_name (bufName tb)\<rparr>) m)"

definition mtt_get_tcb :: "'h vme_device \<Rightarrow> MttDrvrTaskBuf \<Rightarrow> nat \<Rightarrow> 'h mtt_mcon \<Rightarrow> (MttDrvrTaskBuf \<times> 'h mtt_mcon) option" where
  "mtt_get_tcb dev tb i m = do {
     u \<leftarrow> UserData m;
     (pc, m1) \<leftarrow> mtt_readw dev (map_Tasks i) m;
     (off, m2) \<leftarrow> mtt_readw dev (map_Tasks i + 4) m1;
     (ts, m3) \<leftarrow> mtt_readw dev (map_Tasks i + 8) m2;
     (ps, m4) \<leftarrow> mtt_readw dev (map_Tasks i + 12) m3;
     (let t = Tasks u ! i in
      Some (tb\<lparr>bufLoadAddress := LoadAddress t, bufInstructionCount := InstructionCount t, bufPcStart := PcStart t,
               Fields := 0x3F, bufName := strncpy_name (TaskName t),
               ControlBlock := \<lparr>tbPc = pc, tbPcOffset = off, TaskStatus = ts, ProcessorStatus = ps\<rparr>\<rparr>, m4)) }"

definition mtt_gs_tcb_ioctl :: "'h vme_device \<Rightarrow> MttDrvrTaskBuf \<Rightarrow> bool \<Rightarrow> 'h mtt_mcon \<Rightarrow> 'h mtt_result" where
  "mtt_gs_tcb_ioctl dev tb st m =
     (if \<not> (1 \<le> unat (Task tb) \<and> unat (Task tb) \<le> MttDrvrTASKS) then Some (Inl (Some EINVAL), m)
      else let i = unat (Task tb) - 1 in
           if st then ok_with (MTT_IOCSTCB tb)
             (each_interrupt (\<lambda>k m. if bit (Fields tb) k then mtt_set_tcb dev tb i k m else Some m) [0 ..< 6] m)
           else do { (tb', m') \<leftarrow> mtt_get_tcb dev tb i m; Some (Inr (MTT_IOCGTCB tb'), m') })"

text \<open>A pointer into the module is an address of 32 bits, and wraps when the offset that a caller asks for is too
  large.\<close>

definition io_ptr :: "udata \<Rightarrow> int \<Rightarrow> u32" where
  "io_ptr u k = of_nat (iomap u) + of_int k"

text \<open>The register number is compared as a signed number.\<close>

definition mtt_gs_grval_ioctl :: "'h vme_device \<Rightarrow> MttDrvrGlobalRegBuf \<Rightarrow> bool \<Rightarrow> 'h mtt_mcon \<Rightarrow> 'h mtt_result" where
  "mtt_gs_grval_ioctl dev rb st m =
     (if sint (RegNum rb) \<ge> int MttDrvrGRAM_SIZE then Some (Inl (Some EINVAL), m)
      else do {
        u \<leftarrow> UserData m;
        (let a = unat (io_ptr u (map_GlobalMem (sint (RegNum rb)))) in
         if st then Some (Inr (MTT_IOCSGRVAL rb), io_write dev a (RegVal rb) m)
         else let (v, m') = io_read dev a m in Some (Inr (MTT_IOCGGRVAL (rb\<lparr>RegVal := v\<rparr>)), m')) })"

fun read_words :: "'h vme_device \<Rightarrow> u32 \<Rightarrow> nat \<Rightarrow> 'h mtt_mcon \<Rightarrow> u32 list \<times> 'h mtt_mcon" where
  "read_words dev a 0 m = ([], m)"
| "read_words dev a (Suc n) m = (let (v, m1) = io_read dev (unat a) m; (vs, m2) = read_words dev (a + 4) n m1 in (v # vs, m2))"

fun write_words :: "'h vme_device \<Rightarrow> u32 \<Rightarrow> u32 list \<Rightarrow> 'h mtt_mcon \<Rightarrow> 'h mtt_mcon" where
  "write_words dev a [] m = m"
| "write_words dev a (v # vs) m = write_words dev (a + 4) vs (io_write dev (unat a) v m)"

text \<open>Setting registers stops after the first one of the mask.\<close>

definition mtt_gs_trval_ioctl :: "'h vme_device \<Rightarrow> MttDrvrTaskRegBuf \<Rightarrow> bool \<Rightarrow> 'h mtt_mcon \<Rightarrow> 'h mtt_result" where
  "mtt_gs_trval_ioctl dev tr st m =
     (if \<not> (1 \<le> sint (trTask tr) \<and> sint (trTask tr) \<le> int MttDrvrTASKS) then Some (Inl (Some EINVAL), m)
      else do {
        u \<leftarrow> UserData m;
        (let t = unat (trTask tr) - 1 in
         if st then
           (case find (\<lambda>i. bit (RegMask tr) i) [0 ..< MttDrvrLRAM_SIZE] of
              None \<Rightarrow> Some (Inl (Some EINVAL), m)
            | Some i \<Rightarrow> Some (Inr (MTT_IOCSTRVAL tr), io_write dev (unat (io_ptr u (int (map_LocalMem t i)))) (RegVals tr ! i) m))
         else let (vs, m') = read_words dev (io_ptr u (int (map_LocalMem t 0))) MttDrvrLRAM_SIZE m
              in Some (Inr (MTT_IOCGTRVAL (tr\<lparr>RegVals := vs, RegMask := 0xffffffff\<rparr>)), m')) })"

text \<open>\<open>__mtt_io\<close>: the number of words from a size in bytes that may have wrapped.\<close>

definition word_count :: "u32 \<Rightarrow> nat" where
  "word_count sz = nat (sint (sz * 4)) div 4"

definition mtt_rawio_ioctl :: "'h vme_device \<Rightarrow> bool \<Rightarrow> MttDrvrRawIoBlock \<Rightarrow> bool \<Rightarrow> 'h mtt_mcon \<Rightarrow> 'h mtt_result" where
  "mtt_rawio_ioctl dev alloc io wr m = do {
     u \<leftarrow> UserData m;
     (let n = word_count (rawSize io); a = io_ptr u (4 * uint (rawOffset io)) in
      if \<not> alloc then Some (Inl (Some ENOMEM), m)
      else if wr then
        (if length (UserArray io) < n then Some (Inl (Some EFAULT), m)
         else Some (Inr (MTT_IOCRAW_WRITE io), write_words dev a (take n (UserArray io)) m))
      else let (vs, m') = read_words dev a n m in
        if length (UserArray io) < n then Some (Inl (Some EFAULT), m')
        else Some (Inr (MTT_IOCRAW_READ (io\<lparr>UserArray := vs @ drop n (UserArray io)\<rparr>)), m')) }"

text \<open>The first word of an instruction, a group of four bytes, is written in the order of the host.\<close>

fun mtt_set_program :: "'h vme_device \<Rightarrow> u32 \<Rightarrow> MttDrvrInstruction list \<Rightarrow> 'h mtt_mcon \<Rightarrow> 'h mtt_mcon" where
  "mtt_set_program dev a [] m = m"
| "mtt_set_program dev a (x # xs) m =
     mtt_set_program dev (a + 8) xs
       (io_write dev (unat (a + 4)) (Srce1 x) (m\<lparr>hardware := dev_write dev (hardware m) (unat a) 32 False (insFields x)\<rparr>))"

fun mtt_get_program :: "'h vme_device \<Rightarrow> u32 \<Rightarrow> nat \<Rightarrow> 'h mtt_mcon \<Rightarrow> MttDrvrInstruction list \<times> 'h mtt_mcon" where
  "mtt_get_program dev a 0 m = ([], m)"
| "mtt_get_program dev a (Suc n) m =
     (let (f, h) = dev_read dev (hardware m) (unat a) 32 False;
          (s, m1) = io_read dev (unat (a + 4)) (m\<lparr>hardware := h\<rparr>);
          (xs, m2) = mtt_get_program dev (a + 8) n m1
      in (\<lparr>insFields = f, Srce1 = s\<rparr> # xs, m2))"

text \<open>From \<open>2 ^ 29\<close> instructions on, the size of the kernel buffer wraps and the loop leaves the buffer.\<close>

definition mtt_gs_program_ioctl :: "'h vme_device \<Rightarrow> bool \<Rightarrow> MttDrvrProgramBuf \<Rightarrow> bool \<Rightarrow> 'h mtt_mcon \<Rightarrow> 'h mtt_result" where
  "mtt_gs_program_ioctl dev alloc p st m = do {
     u \<leftarrow> UserData m;
     (let n = unat (progInstructionCount p); a = io_ptr u (int (map_ProgramMem (unat (progLoadAddress p)))) in
      if \<not> alloc then Some (Inl (Some ENOMEM), m)
      else if n \<ge> 2 ^ 29 then None
      else if st then
        (if length (Program p) < n then Some (Inl (Some EFAULT), m)
         else Some (Inr (MTT_IOCSPROGRAM p), mtt_set_program dev a (take n (Program p)) m))
      else let (xs, m') = mtt_get_program dev a n m in
        if length (Program p) < n then Some (Inl (Some EFAULT), m')
        else Some (Inr (MTT_IOCGPROGRAM (p\<lparr>Program := xs @ drop n (Program p)\<rparr>)), m')) }"

definition mtt_status_ioctl :: "'h vme_device \<Rightarrow> 'h mtt_mcon \<Rightarrow> 'h mtt_result" where
  "mtt_status_ioctl dev m = do {
     m1 \<leftarrow> mtt_ping dev m; (s, m2) \<leftarrow> mtt_get_status dev m1; Some (Inr (MTT_IOCGSTATUS s), m2) }"

text \<open>\<open>ct\<close> is the compilation time of the driver.\<close>

definition mtt_version_ioctl :: "'h vme_device \<Rightarrow> u32 \<Rightarrow> 'h mtt_mcon \<Rightarrow> 'h mtt_result" where
  "mtt_version_ioctl dev ct m = do {
     m1 \<leftarrow> mtt_ping dev m; (v, m2) \<leftarrow> mtt_readw dev MTT_VHDL m1; Some (Inr (MTT_IOCGVERSION v ct), m2) }"

text \<open>A number that no case handles fails without an error code.\<close>

fun mtt_Ioctls :: "'h vme_device \<Rightarrow> u32 \<Rightarrow> bool \<Rightarrow> 'h mtt_mcon \<Rightarrow> mtt_ioctl \<Rightarrow> 'h mtt_result" where
  "mtt_Ioctls dev ct al m (MTT_IOCSCABLEID v) = mtt_gs_cableid_ioctl v True m"
| "mtt_Ioctls dev ct al m (MTT_IOCGCABLEID v) = mtt_gs_cableid_ioctl v False m"
| "mtt_Ioctls dev ct al m (MTT_IOCSUTC_SENDING v) = mtt_utc_sending_ioctl dev v m"
| "mtt_Ioctls dev ct al m (MTT_IOCSEXT_1KHZ v) = mtt_ext_1khz_ioctl dev v m"
| "mtt_Ioctls dev ct al m (MTT_IOCSOUT_DELAY v) = mtt_gs_out_delay_ioctl dev v True m"
| "mtt_Ioctls dev ct al m (MTT_IOCGOUT_DELAY v) = mtt_gs_out_delay_ioctl dev v False m"
| "mtt_Ioctls dev ct al m (MTT_IOCSOUT_ENABLE v) = mtt_out_enable_ioctl dev v m"
| "mtt_Ioctls dev ct al m (MTT_IOCSSYNC_PERIOD v) = mtt_gs_sync_period_ioctl dev v True m"
| "mtt_Ioctls dev ct al m (MTT_IOCGSYNC_PERIOD v) = mtt_gs_sync_period_ioctl dev v False m"
| "mtt_Ioctls dev ct al m (MTT_IOCSUTC t) = mtt_gs_utc_ioctl dev t True m"
| "mtt_Ioctls dev ct al m (MTT_IOCGUTC t) = mtt_gs_utc_ioctl dev t False m"
| "mtt_Ioctls dev ct al m (MTT_IOCSSEND_EVENT e) = mtt_send_event_ioctl dev e m"
| "mtt_Ioctls dev ct al m (MTT_IOCSTASKS_START v) = mtt_tasks_start_ioctl dev v m"
| "mtt_Ioctls dev ct al m (MTT_IOCSTASKS_STOP v) = mtt_set_tasks dev MTT_TASKS_STOP v (MTT_IOCSTASKS_STOP v) m"
| "mtt_Ioctls dev ct al m (MTT_IOCSTASKS_CONT v) = mtt_set_tasks dev MTT_TASKS_START v (MTT_IOCSTASKS_CONT v) m"
| "mtt_Ioctls dev ct al m (MTT_IOCGTASKS_CURR v) = mtt_get_tasks dev MTT_TASKS_CURR m"
| "mtt_Ioctls dev ct al m (MTT_IOCSTCB tb) = mtt_gs_tcb_ioctl dev tb True m"
| "mtt_Ioctls dev ct al m (MTT_IOCGTCB tb) = mtt_gs_tcb_ioctl dev tb False m"
| "mtt_Ioctls dev ct al m (MTT_IOCSGRVAL rb) = mtt_gs_grval_ioctl dev rb True m"
| "mtt_Ioctls dev ct al m (MTT_IOCGGRVAL rb) = mtt_gs_grval_ioctl dev rb False m"
| "mtt_Ioctls dev ct al m (MTT_IOCSTRVAL tr) = mtt_gs_trval_ioctl dev tr True m"
| "mtt_Ioctls dev ct al m (MTT_IOCGTRVAL tr) = mtt_gs_trval_ioctl dev tr False m"
| "mtt_Ioctls dev ct al m (MTT_IOCSPROGRAM p) = mtt_gs_program_ioctl dev al p True m"
| "mtt_Ioctls dev ct al m (MTT_IOCGPROGRAM p) = mtt_gs_program_ioctl dev al p False m"
| "mtt_Ioctls dev ct al m (MTT_IOCGSTATUS v) = mtt_status_ioctl dev m"
| "mtt_Ioctls dev ct al m (MTT_IOCRAW_WRITE io) = mtt_rawio_ioctl dev al io True m"
| "mtt_Ioctls dev ct al m (MTT_IOCRAW_READ io) = mtt_rawio_ioctl dev al io False m"
| "mtt_Ioctls dev ct al m (MTT_IOCGVERSION v d) = mtt_version_ioctl dev ct m"
| "mtt_Ioctls dev ct al m MTT_FIRST_OR_LAST = Some (Inl None, m)"

text \<open>The user part of the driver: \<open>ualloc\<close> and \<open>balloc\<close> tell whether there is memory for the private data and for
  the buffers of the transfers.\<close>

definition mtt_user :: "'h vme_device \<Rightarrow> u32 \<Rightarrow> bool \<Rightarrow> bool \<Rightarrow> (udata option, 'h, mtt_ioctl) skel_user" where
  "mtt_user dev ct ualloc balloc = \<lparr>
     SkelUserModuleInit = mtt_ModuleInit dev ualloc,
     SkelUserModuleRelease = mtt_ModuleRelease dev,
     SkelUserClientInit = (\<lambda>_. SkelUserReturnNOT_IMPLEMENTED),
     SkelUserClientRelease = Some,
     SkelUserGetModuleVersion = mtt_GetModuleVersion dev,
     SkelUserGetHardwareStatus = mtt_GetHardwareStatus,
     SkelUserGetUtc = mtt_GetUtc dev,
     SkelUserHardwareReset = mtt_HardwareReset dev,
     SkelUserGetInterruptSource = mtt_GetInterruptSource dev,
     SkelUserEnableInterrupts = mtt_EnableInterrupts dev,
     SkelUserHardwareEnable = mtt_HardwareEnable,
     SkelUserJtagReadByte = mtt_JtagReadByte dev,
     SkelUserJtagWriteByte = mtt_JtagWriteByte dev,
     SkelUserIoctls = mtt_Ioctls dev ct balloc\<rparr>"

end
