(* ===== verification/Skel_Props.thy ===== *)
theory Skel_Props
  imports Skel
begin

text \<open>
  The queue of a client refines a bounded list that drops its oldest entry, and an interrupt delivers to
  every connected client one event per raised source, in the order of the sources.
\<close>

subsection \<open>A bounded queue that drops the oldest\<close>

definition last_n :: "nat \<Rightarrow> 'a list \<Rightarrow> 'a list" where
  "last_n n xs = drop (length xs - n) xs"

lemma length_last_n [simp]: "length (last_n n xs) = min n (length xs)"
  by (simp add: last_n_def min_def)

lemma last_n_id [simp]: "length xs \<le> n \<Longrightarrow> last_n n xs = xs"
  by (simp add: last_n_def)

lemma last_n_append: "last_n n (last_n n xs @ ys) = last_n n (xs @ ys)"
  by (cases "length xs \<le> n") (simp_all add: last_n_def add.commute)

locale lossy_queue =
  fixes ok :: "'q \<Rightarrow> bool" and events :: "'q \<Rightarrow> 'e list"
    and put :: "'e \<Rightarrow> 'q \<Rightarrow> 'q" and get :: "'q \<Rightarrow> 'e \<times> 'q" and room :: nat
  assumes put_ok: "ok q \<Longrightarrow> ok (put e q)"
    and get_ok: "ok q \<Longrightarrow> ok (snd (get q))"
    and bounded: "ok q \<Longrightarrow> length (events q) \<le> room"
    and put_events: "ok q \<Longrightarrow> events (put e q) = last_n room (events q @ [e])"
    and get_events: "ok q \<Longrightarrow> events q = e # es \<Longrightarrow> fst (get q) = e \<and> events (snd (get q)) = es"
begin

lemma puts_ok: "ok q \<Longrightarrow> ok (fold put es q)"
  by (induction es arbitrary: q) (simp_all add: put_ok)

lemma puts_events: "ok q \<Longrightarrow> events (fold put es q) = last_n room (events q @ es)"
proof (induction es arbitrary: q)
  case Nil
  then show ?case by (simp add: bounded)
next
  case (Cons e es)
  then show ?case by (simp add: put_ok put_events last_n_append)
qed

primrec gets :: "nat \<Rightarrow> 'q \<Rightarrow> 'e list \<times> 'q" where
  "gets 0 q = ([], q)"
| "gets (Suc n) q = (let (e, q') = get q; (es, q'') = gets n q' in (e # es, q''))"

lemma gets_events: "ok q \<Longrightarrow> events q = es @ fs \<Longrightarrow> fst (gets (length es) q) = es \<and> events (snd (gets (length es) q)) = fs"
proof (induction es arbitrary: q)
  case (Cons e es)
  then have "fst (get q) = e" "events (snd (get q)) = es @ fs" "ok (snd (get q))"
    using get_events[of q e "es @ fs"] get_ok by auto
  then show ?case using Cons.IH[of "snd (get q)"] by (simp add: split_beta Let_def)
qed simp

end

subsection \<open>The queue of a client\<close>

definition q_ok :: "SkelDrvrQueue \<Rightarrow> bool" where
  "q_ok q \<longleftrightarrow> length (Entries q) = SkelDrvrQUEUE_SIZE \<and> Size q \<le> SkelDrvrQUEUE_SIZE \<and>
     RdPntr q < SkelDrvrQUEUE_SIZE \<and> WrPntr q = (RdPntr q + Size q) mod SkelDrvrQUEUE_SIZE"

definition q_events :: "SkelDrvrQueue \<Rightarrow> SkelDrvrReadBuf list" where
  "q_events q = map (\<lambda>k. Entries q ! ((RdPntr q + k) mod SkelDrvrQUEUE_SIZE)) [0 ..< Size q]"

lemma length_q_events [simp]: "length (q_events q) = Size q"
  by (simp add: q_events_def)

lemma mod_slot_neq: "(a + k) mod 32 \<noteq> (a + n) mod 32" if "k < n" "n < k + 32" for a k n :: nat
proof
  assume "(a + k) mod 32 = (a + n) mod 32"
  then have "(a + n - (a + k)) mod 32 = 0" by (metis mod_eq_dvd_iff_nat[of "a + k" "a + n" 32] that(1) nat_add_left_cancel_le less_imp_le mod_0_imp_dvd dvd_imp_mod_0)
  with that show False by simp
qed

lemma q_ok_put: "q_ok (Queue (q_put rb c))" if "q_ok (Queue c)"
  using that by (auto simp: q_ok_def q_put_def Let_def skel_sizes mod_simps add.assoc)

lemma q_ok_get: "q_ok (Queue (snd (q_get c)))" if "q_ok (Queue c)"
  using that by (cases "Size (Queue c)") (auto simp: q_ok_def q_get_def Let_def skel_sizes mod_simps)

lemma q_events_put: "q_events (Queue (q_put rb c)) = last_n SkelDrvrQUEUE_SIZE (q_events (Queue c) @ [rb])" if "q_ok (Queue c)"
proof (cases "Size (Queue c) < SkelDrvrQUEUE_SIZE")
  case True
  with that show ?thesis
    by (intro nth_equalityI)
      (auto simp: q_ok_def q_put_def Let_def skel_sizes q_events_def last_n_def nth_append nth_list_update
        less_Suc_eq dest: mod_slot_neq[of _ "Size (Queue c)" "RdPntr (Queue c)"])
next
  case False
  with that have full: "Size (Queue c) = 32" "WrPntr (Queue c) = RdPntr (Queue c)" "RdPntr (Queue c) < 32"
    "length (Entries (Queue c)) = 32" by (auto simp: q_ok_def skel_sizes)
  show ?thesis
  proof (rule nth_equalityI)
    fix k assume "k < length (q_events (Queue (q_put rb c)))"
    then have k: "k < 32" using full by (simp add: q_put_def Let_def skel_sizes)
    show "q_events (Queue (q_put rb c)) ! k = last_n SkelDrvrQUEUE_SIZE (q_events (Queue c) @ [rb]) ! k"
    proof (cases "k = 31")
      case True
      then show ?thesis using full
        by (simp add: q_put_def Let_def skel_sizes q_events_def last_n_def nth_append mod_simps)
    next
      case False
      with k have k31: "k < 31" by simp
      then have "(RdPntr (Queue c) + Suc k) mod 32 \<noteq> RdPntr (Queue c)"
        using mod_slot_neq[of 0 "Suc k" "RdPntr (Queue c)"] full(3) by simp
      then show ?thesis using full k31
        by (simp add: q_put_def Let_def skel_sizes q_events_def last_n_def nth_append mod_simps nth_list_update)
    qed
  qed (use full in \<open>simp add: q_put_def Let_def skel_sizes\<close>)
qed

lemma q_events_get: "fst (q_get c) = e \<and> q_events (Queue (snd (q_get c))) = es"
  if "q_ok (Queue c)" "q_events (Queue c) = e # es"
proof -
  from that(2) have sz: "Size (Queue c) = Suc (length es)" by (metis length_q_events length_Cons)
  then have "q_events (Queue c) = Entries (Queue c) ! (RdPntr (Queue c) mod 32) #
      map (\<lambda>k. Entries (Queue c) ! ((RdPntr (Queue c) + Suc k) mod 32)) [0 ..< length es]"
    by (simp add: q_events_def skel_sizes upt_conv_Cons map_Suc_upt[symmetric] del: upt_Suc)
  then show ?thesis using that sz
    by (simp add: q_get_def Let_def q_events_def q_ok_def skel_sizes mod_simps)
qed

interpretation cq: lossy_queue "\<lambda>c. q_ok (Queue c)" "\<lambda>c. q_events (Queue c)" q_put q_get SkelDrvrQUEUE_SIZE
proof
  fix c :: SkelDrvrClientContext assume "q_ok (Queue c)"
  then show "length (q_events (Queue c)) \<le> SkelDrvrQUEUE_SIZE" by (simp add: q_ok_def)
qed (simp_all add: q_ok_put q_ok_get q_events_put q_events_get)

subsection \<open>Delivery of events\<close>

definition conn_ok :: "nat set \<Rightarrow> SkelDrvrModConn \<Rightarrow> bool" where
  "conn_ok A conn \<longleftrightarrow> length (conn_clients conn) = SkelDrvrINTERRUPTS \<and>
     (\<forall>as\<in>set (conn_clients conn). distinct as \<and> set as \<subseteq> A)"

text \<open>The events for a client: one per raised source that the client is connected to.\<close>

definition deliveries :: "nat list \<Rightarrow> SkelDrvrModConn \<Rightarrow> SkelDrvrReadBuf \<Rightarrow> u32 \<Rightarrow> nat \<Rightarrow> SkelDrvrReadBuf list" where
  "deliveries is conn rb imask a =
     map (\<lambda>i. rb\<lparr>Connection := (Connection rb)\<lparr>ConMask := 2 ^ i\<rparr>\<rparr>)
       (filter (\<lambda>i. bit imask i \<and> a \<in> set (conn_clients conn ! i)) is)"

lemma conn_okD: "conn_ok A conn \<Longrightarrow> i < 32 \<Longrightarrow> distinct (conn_clients conn ! i)"
  "conn_ok A conn \<Longrightarrow> i < 32 \<Longrightarrow> set (conn_clients conn ! i) \<subseteq> A"
  by (simp_all add: conn_ok_def skel_sizes)

lemma conn_ok_mono: "conn_ok A conn \<Longrightarrow> A \<subseteq> B \<Longrightarrow> conn_ok B conn"
  by (force simp: conn_ok_def)

lemma source_bit: "w AND 2 ^ i = (if bit w i then 2 ^ i else 0)" if "i < 32" for w :: u32
  using that by (auto intro!: bit_eqI simp: bit_simps)

lemma source_bit_nz: "2 ^ i \<noteq> (0 :: u32)" if "i < 32"
  using that by (auto simp: bit_eq_iff bit_simps)

lemma put_queues_eq: "put_queues rb as h = Some (\<lambda>a. if a \<in> set as then map_option (q_put rb) (h a) else h a)"
  if "distinct as" "set as \<subseteq> dom h"
  using that
proof (induction as arbitrary: h)
  case (Cons a as)
  then obtain c where "h a = Some c" by auto
  with Cons show ?case by (auto simp: subset_iff intro!: ext)
qed simp

lemma fill_loop_eq: "fill_loop is conn rb imask h = Some (\<lambda>a. map_option (fold q_put (deliveries is conn rb imask a)) (h a))"
  if "conn_ok A conn" "A \<subseteq> dom h" "set is \<subseteq> {..<32}"
  using that
proof (induction "is" arbitrary: h)
  case Nil
  then show ?case by (simp add: deliveries_def option.map_ident)
next
  case (Cons i "is")
  let ?h = "\<lambda>a. if a \<in> set (conn_clients conn ! i)
    then map_option (q_put (rb\<lparr>Connection := (Connection rb)\<lparr>ConMask := 2 ^ i\<rparr>\<rparr>)) (h a) else h a"
  have i: "i < 32" and sub: "set (conn_clients conn ! i) \<subseteq> dom h" "distinct (conn_clients conn ! i)"
    using Cons.prems conn_okD[of A conn i] by auto
  have "dom ?h = dom h" by (auto simp: dom_def)
  then have IH: "fill_loop is conn rb imask ?h = Some (\<lambda>a. map_option (fold q_put (deliveries is conn rb imask a)) (?h a))"
    "fill_loop is conn rb imask h = Some (\<lambda>a. map_option (fold q_put (deliveries is conn rb imask a)) (h a))"
    using Cons by simp_all
  show ?case
    using IH sub i by (auto simp: Let_def source_bit[OF i] source_bit_nz[OF i] put_queues_eq deliveries_def option.map_comp comp_def intro!: ext)
qed

lemma fill_clients_queues_eq:
  "fill_clients_queues conn rb imask h = Some (\<lambda>a. map_option (fold q_put (deliveries [0 ..< 32] conn rb imask a)) (h a))"
  if "conn_ok A conn" "A \<subseteq> dom h"
  using fill_loop_eq[OF that, of "[0 ..< 32]"] by (simp add: fill_clients_queues_def skel_sizes atLeast0LessThan)

end
