(* ===== verification/Skel_Inv.thy ===== *)
theory Skel_Inv
  imports Skel_Props Skel_Entry
begin

text \<open>
  The contract of the user part of a driver, as a locale, and what the framework gives on top of it:
  connections, delivery of interrupts, and an invariant of the working area that every entry point keeps.
\<close>

subsection \<open>The contract of the user part\<close>

text \<open>The functions work on a module whose private data is \<open>ready\<close>; they change nothing of the module
  context but the private data and the hardware.\<close>

definition user_only :: "('u \<Rightarrow> bool) \<Rightarrow> ('u, 'h) SkelDrvrModuleContext \<Rightarrow> ('u, 'h) SkelDrvrModuleContext \<Rightarrow> bool" where
  "user_only ready m m' \<longleftrightarrow> (\<exists>u h. m' = m\<lparr>UserData := u, hardware := h\<rparr> \<and> ready u)"

locale user_part =
  fixes us :: "('u, 'h, 'a) skel_user" and ready :: "'u \<Rightarrow> bool"
  assumes enable: "ready (UserData m) \<Longrightarrow> \<exists>m'. SkelUserEnableInterrupts us m e = Some m' \<and> user_only ready m m'"
    and source: "ready (UserData m) \<Longrightarrow> \<exists>t s m'. SkelUserGetInterruptSource us m = Some (t, s, m') \<and> user_only ready m m'"
    and utc: "ready (UserData m) \<Longrightarrow> \<exists>t m'. SkelUserGetUtc us m = Some (t, m') \<and> user_only ready m m'"
    and reset: "ready (UserData m) \<Longrightarrow> \<exists>m'. SkelUserHardwareReset us m = Some m' \<and> user_only ready m m'"
    and version: "ready (UserData m) \<Longrightarrow> \<exists>v m'. SkelUserGetModuleVersion us m = Some (v, m') \<and> user_only ready m m'"
    and status: "ready (UserData m) \<Longrightarrow> \<exists>s m'. SkelUserGetHardwareStatus us m = Some (s, m') \<and> user_only ready m m'"
    and hwenable: "ready (UserData m) \<Longrightarrow> \<exists>r m'. SkelUserHardwareEnable us m f = Some (r, m') \<and> user_only ready m m'"
    and jtag_read: "ready (UserData m) \<Longrightarrow> \<exists>r v m'. SkelUserJtagReadByte us m = Some (r, v, m') \<and> user_only ready m m'"
    and jtag_write: "ready (UserData m) \<Longrightarrow> \<exists>r m'. SkelUserJtagWriteByte us m w = Some (r, m') \<and> user_only ready m m'"
    and ioctls: "ready (UserData m) \<Longrightarrow> SkelUserIoctls us m a = Some (r, m') \<Longrightarrow> user_only ready m m'"
    and release: "\<exists>c'. SkelUserClientRelease us c = Some c'"

subsection \<open>Connections as functions on the lists\<close>

definition conn_add :: "(nat \<Rightarrow> bool) \<Rightarrow> nat \<Rightarrow> u32 \<Rightarrow> nat \<Rightarrow> SkelDrvrModConn \<Rightarrow> SkelDrvrModConn" where
  "conn_add alloc c imsk j conn =
     (let cl = conn_clients conn ! j in
      if \<not> bit imsk j \<or> c \<notin> set cl \<and> \<not> alloc j then conn
      else let conn' = (if c \<in> set cl then conn else conn\<lparr>conn_clients := (conn_clients conn)[j := c # cl]\<rparr>)
           in conn'\<lparr>enabled_ints := enabled_ints conn' OR imsk\<rparr>)"

definition conn_del :: "nat \<Rightarrow> u32 \<Rightarrow> nat \<Rightarrow> SkelDrvrModConn \<Rightarrow> SkelDrvrModConn" where
  "conn_del c imsk j conn =
     (let cl = conn_clients conn ! j in
      if \<not> bit imsk j \<or> c \<notin> set cl then conn
      else let conn' = conn\<lparr>conn_clients := (conn_clients conn)[j := remove1 c cl]\<rparr>
           in if remove1 c cl = [] then conn'\<lparr>enabled_ints := enabled_ints conn' AND NOT imsk\<rparr> else conn')"

lemma length_conn_add [simp]: "length (conn_clients (conn_add alloc c imsk j conn)) = length (conn_clients conn)"
  by (simp add: conn_add_def Let_def)

lemma length_conn_del [simp]: "length (conn_clients (conn_del c imsk j conn)) = length (conn_clients conn)"
  by (simp add: conn_del_def Let_def)

lemma length_fold_conn [simp]: "length (conn_clients (fold (conn_add alloc c imsk) js conn)) = length (conn_clients conn)"
  "length (conn_clients (fold (conn_del c imsk) js conn)) = length (conn_clients conn)"
  by (induction js arbitrary: conn) simp_all

lemma conn_add_nth: "conn_clients (conn_add alloc c imsk j conn) ! i =
    (if i = j \<and> bit imsk j \<and> c \<notin> set (conn_clients conn ! j) \<and> alloc j then c # conn_clients conn ! j else conn_clients conn ! i)"
  if "j < length (conn_clients conn)"
  using that by (auto simp: conn_add_def Let_def nth_list_update)

lemma conn_del_nth: "conn_clients (conn_del c imsk j conn) ! i =
    (if i = j \<and> bit imsk j then remove1 c (conn_clients conn ! j) else conn_clients conn ! i)"
  if "j < length (conn_clients conn)"
  using that by (auto simp: conn_del_def Let_def nth_list_update remove1_idem)

text \<open>Going once through the interrupts changes each list once.\<close>

lemma fold_once_nth:
  assumes "distinct js" "\<And>j. j \<in> set js \<Longrightarrow> j < n" "n \<le> length (conn_clients conn)"
    and len: "\<And>j conn. length (conn_clients (g j conn)) = length (conn_clients conn)"
    and nth: "\<And>j i conn. j < length (conn_clients conn) \<Longrightarrow>
      conn_clients (g j conn) ! i = (if i = j then h j (conn_clients conn ! j) else conn_clients conn ! i)"
  shows "conn_clients (fold g js conn) ! i = (if i \<in> set js then h i (conn_clients conn ! i) else conn_clients conn ! i)"
  using assms(1-3)
proof (induction js arbitrary: conn)
  case (Cons j js)
  have j: "j < length (conn_clients conn)" using Cons.prems(2)[of j] Cons.prems(3) by simp
  have "conn_clients (fold g js (g j conn)) ! i = (if i \<in> set js then h i (conn_clients (g j conn) ! i) else conn_clients (g j conn) ! i)"
    by (rule Cons.IH) (use Cons.prems len in auto)
  then show ?case using Cons.prems(1) j by (auto simp: nth)
qed simp

lemma fold_conn_add_nth: "conn_clients (fold (conn_add alloc c imsk) [0 ..< 32] conn) ! i =
    (if i < 32 \<and> bit imsk i \<and> c \<notin> set (conn_clients conn ! i) \<and> alloc i then c # conn_clients conn ! i else conn_clients conn ! i)"
  if "length (conn_clients conn) = 32"
proof -
  have "conn_clients (fold (conn_add alloc c imsk) [0 ..< 32] conn) ! i =
      (if i \<in> set [0 ..< 32] then (\<lambda>j cl. if bit imsk j \<and> c \<notin> set cl \<and> alloc j then c # cl else cl) i (conn_clients conn ! i)
       else conn_clients conn ! i)"
    by (rule fold_once_nth[of _ 32]) (use that in \<open>auto simp: conn_add_nth\<close>)
  then show ?thesis by simp
qed

lemma fold_conn_del_nth: "conn_clients (fold (conn_del c imsk) [0 ..< 32] conn) ! i =
    (if i < 32 \<and> bit imsk i then remove1 c (conn_clients conn ! i) else conn_clients conn ! i)"
  if "length (conn_clients conn) = 32"
proof -
  have "conn_clients (fold (conn_del c imsk) [0 ..< 32] conn) ! i =
      (if i \<in> set [0 ..< 32] then (\<lambda>j cl. if bit imsk j then remove1 c cl else cl) i (conn_clients conn ! i) else conn_clients conn ! i)"
    by (rule fold_once_nth[of _ 32]) (use that in \<open>auto simp: conn_del_nth\<close>)
  then show ?thesis by simp
qed

lemma fold_conn_add_enabled: "enabled_ints (fold (conn_add alloc c imsk) js conn) =
    enabled_ints conn OR (if \<exists>j\<in>set js. bit imsk j \<and> (c \<in> set (conn_clients conn ! j) \<or> alloc j) then imsk else 0)"
  if "distinct js" "\<forall>j\<in>set js. j < length (conn_clients conn)"
  using that
proof (induction js arbitrary: conn)
  case (Cons j js)
  have same: "conn_clients (conn_add alloc c imsk j conn) ! k = conn_clients conn ! k" if "k \<in> set js" for k
    using that Cons.prems(1) by (cases "k = j") (simp_all add: conn_add_def Let_def)
  have "enabled_ints (conn_add alloc c imsk j conn) =
      enabled_ints conn OR (if bit imsk j \<and> (c \<in> set (conn_clients conn ! j) \<or> alloc j) then imsk else 0)"
    by (simp add: conn_add_def Let_def)
  with Cons.IH[of "conn_add alloc c imsk j conn"] Cons.prems same show ?case by (auto simp: or.assoc)
qed simp

lemma conn_ok_fold_add: "conn_ok A (fold (conn_add alloc c imsk) [0 ..< 32] conn)" if "conn_ok A conn" "c \<in> A"
  using that by (auto simp: conn_ok_def skel_sizes all_set_conv_all_nth fold_conn_add_nth)

lemma conn_ok_fold_del: "conn_ok A (fold (conn_del c imsk) [0 ..< 32] conn)" if "conn_ok A conn"
  using that by (auto simp: conn_ok_def skel_sizes all_set_conv_all_nth fold_conn_del_nth set_remove1_eq subset_iff)

lemma conn_ok_fold_del_all: "conn_ok (A - {c}) (fold (conn_del c (NOT 0)) [0 ..< 32] conn)" if "conn_ok A conn"
  using that by (auto simp: conn_ok_def skel_sizes all_set_conv_all_nth fold_conn_del_nth set_remove1_eq subset_iff)

subsection \<open>Modules and working area\<close>

definition mod_ok :: "('u \<Rightarrow> bool) \<Rightarrow> nat set \<Rightarrow> ('u, 'h) SkelDrvrModuleContext \<Rightarrow> bool" where
  "mod_ok ready A m \<longleftrightarrow> ready (UserData m) \<and> conn_ok A (Connected m)"

text \<open>What the connections may change of a module.\<close>

definition conn_only :: "('u \<Rightarrow> bool) \<Rightarrow> SkelDrvrModConn \<Rightarrow> ('u, 'h) SkelDrvrModuleContext \<Rightarrow> ('u, 'h) SkelDrvrModuleContext \<Rightarrow> bool" where
  "conn_only ready conn m m' \<longleftrightarrow> (\<exists>u h. m' = m\<lparr>Connected := conn, UserData := u, hardware := h\<rparr> \<and> ready u)"

lemma user_onlyD: "user_only ready m m' \<Longrightarrow> ready (UserData m')" "user_only ready m m' \<Longrightarrow> Connected m' = Connected m"
  "user_only ready m m' \<Longrightarrow> ModNumber m' = ModNumber m" "user_only ready m m' \<Longrightarrow> InUse m' = InUse m"
  by (auto simp: user_only_def)

lemma conn_onlyD: "conn_only ready conn m m' \<Longrightarrow> ready (UserData m')" "conn_only ready conn m m' \<Longrightarrow> Connected m' = conn"
  "conn_only ready conn m m' \<Longrightarrow> ModNumber m' = ModNumber m" "conn_only ready conn m m' \<Longrightarrow> InUse m' = InUse m"
  by (auto simp: conn_only_def)

lemma conn_only_set: "ready (UserData m) \<Longrightarrow> conn_only ready conn m (m\<lparr>Connected := conn\<rparr>)"
  unfolding conn_only_def by (rule exI[of _ "UserData m"], rule exI[of _ "hardware m"]) simp

lemma conn_only_refl: "ready (UserData m) \<Longrightarrow> conn_only ready (Connected m) m m"
  using conn_only_set[of ready m "Connected m"] by simp

lemma conn_only_trans: "conn_only ready c1 m m1 \<Longrightarrow> conn_only ready c2 m1 m2 \<Longrightarrow> conn_only ready c2 m m2"
  unfolding conn_only_def by (elim exE conjE, intro exI conjI, assumption?) simp_all

lemma each_interrupt_fold:
  assumes "\<And>j m. ready (UserData m) \<Longrightarrow> \<exists>m'. f j m = Some m' \<and> conn_only ready (g j (Connected m)) m m'"
    and "ready (UserData m)"
  shows "\<exists>m'. each_interrupt f js m = Some m' \<and> conn_only ready (fold g js (Connected m)) m m'"
  using assms(2)
proof (induction js arbitrary: m)
  case Nil
  then show ?case by (simp add: conn_only_refl)
next
  case (Cons j js)
  obtain m1 where m1: "f j m = Some m1" "conn_only ready (g j (Connected m)) m m1" using assms(1)[OF Cons.prems, of j] by auto
  obtain m2 where "each_interrupt f js m1 = Some m2" "conn_only ready (fold g js (Connected m1)) m1 m2"
    using Cons.IH[OF conn_onlyD(1)[OF m1(2)]] by auto
  then show ?case using m1 conn_onlyD(2)[OF m1(2)] by (auto intro: conn_only_trans)
qed

context user_part
begin

lemma enable_on_conn: "\<exists>m'. enable_on us e m = Some m' \<and> conn_only ready ((Connected m)\<lparr>enabled_ints := e\<rparr>) m m'" if "ready (UserData m)"
  using enable[of "m\<lparr>Connected := (Connected m)\<lparr>enabled_ints := e\<rparr>\<rparr>" e] that
  by (auto simp: enable_on_def user_only_def conn_only_def)

lemma connect_one_conn: "\<exists>m'. connect_one us alloc c imsk j m = Some m' \<and> conn_only ready (conn_add alloc c imsk j (Connected m)) m m'"
  if "ready (UserData m)"
proof (cases "\<not> bit imsk j \<or> c \<notin> set (conn_clients (Connected m) ! j) \<and> \<not> alloc j")
  case True
  then show ?thesis using conn_only_refl[of ready m] that by (auto simp: connect_one_def conn_add_def Let_def)
next
  case False
  let ?cl = "conn_clients (Connected m) ! j"
  let ?m1 = "if c \<in> set ?cl then m else set_clients j (c # ?cl) m"
  have r: "ready (UserData ?m1)" using that by (simp add: set_clients_def)
  from enable_on_conn[OF r] obtain m' where
    m': "enable_on us (enabled_ints (Connected ?m1) OR imsk) ?m1 = Some m'"
        "conn_only ready ((Connected ?m1)\<lparr>enabled_ints := enabled_ints (Connected ?m1) OR imsk\<rparr>) ?m1 m'" by blast
  have "conn_only ready (Connected ?m1) m ?m1" using that by (simp add: set_clients_def conn_only_set conn_only_refl)
  then have "conn_only ready ((Connected ?m1)\<lparr>enabled_ints := enabled_ints (Connected ?m1) OR imsk\<rparr>) m m'"
    using m'(2) by (rule conn_only_trans)
  moreover have "(Connected ?m1)\<lparr>enabled_ints := enabled_ints (Connected ?m1) OR imsk\<rparr> = conn_add alloc c imsk j (Connected m)"
    using False by (auto simp: conn_add_def Let_def set_clients_def)
  ultimately show ?thesis using False m'(1) by (auto simp: connect_one_def Let_def)
qed

lemma disconnect_one_conn: "\<exists>m'. disconnect_one us c imsk j m = Some m' \<and> conn_only ready (conn_del c imsk j (Connected m)) m m'"
  if "ready (UserData m)"
proof (cases "\<not> bit imsk j \<or> c \<notin> set (conn_clients (Connected m) ! j)")
  case True
  then show ?thesis using conn_only_refl[of ready m] that by (auto simp: disconnect_one_def conn_del_def Let_def)
next
  case False
  let ?cl = "remove1 c (conn_clients (Connected m) ! j)"
  let ?m1 = "set_clients j ?cl m"
  have r: "ready (UserData ?m1)" and same: "conn_only ready (Connected ?m1) m ?m1"
    using that by (simp_all add: set_clients_def conn_only_set)
  from enable_on_conn[OF r] obtain m' where
    m': "enable_on us (enabled_ints (Connected ?m1) AND NOT imsk) ?m1 = Some m'"
        "conn_only ready ((Connected ?m1)\<lparr>enabled_ints := enabled_ints (Connected ?m1) AND NOT imsk\<rparr>) ?m1 m'" by blast
  from conn_only_trans[OF same this(2)] same
  show ?thesis using False m'(1)
    by (cases "?cl = []") (auto simp: disconnect_one_def conn_del_def Let_def set_clients_def)
qed

end

subsection \<open>The invariant of the working area\<close>

definition installed :: "('u, 'h) SkelDrvrWorkingArea \<Rightarrow> ('u, 'h) SkelDrvrModuleContext list" where
  "installed wa = take (InstalledModules wa) (Modules wa)"

definition numbers :: "('u, 'h) SkelDrvrWorkingArea \<Rightarrow> u32 list" where
  "numbers wa = map ModNumber (installed wa)"

definition client_ok :: "u32 set \<Rightarrow> SkelDrvrClientContext \<Rightarrow> bool" where
  "client_ok N ccon \<longleftrightarrow> q_ok (Queue ccon) \<and> Semaphore ccon = Size (Queue ccon) \<and> ModuleNumber ccon \<in> N"

text \<open>Modules are installed, ready and numbered from 1 without repetition; links lead to open clients, at most
  one from an interrupt to a client; the queue of a client is in order, its semaphore counts the events, and
  its module is installed.\<close>

definition wa_inv :: "('u \<Rightarrow> bool) \<Rightarrow> ('u, 'h) SkelDrvrWorkingArea \<Rightarrow> bool" where
  "wa_inv ready wa \<longleftrightarrow> 0 < InstalledModules wa \<and> InstalledModules wa \<le> length (Modules wa) \<and>
     (\<forall>m\<in>set (installed wa). mod_ok ready (set (clients wa)) m) \<and>
     (\<forall>m\<in>set (drop (InstalledModules wa) (Modules wa)). \<not> InUse m) \<and>
     distinct (numbers wa) \<and> 0 \<notin> set (numbers wa) \<and>
     distinct (clients wa) \<and> set (clients wa) = dom (ccons wa) \<and>
     (\<forall>ccon\<in>ran (ccons wa). client_ok (set (numbers wa)) ccon)"

lemma wa_invD:
  assumes "wa_inv ready wa"
  shows "i < InstalledModules wa \<Longrightarrow> mod_ok ready (set (clients wa)) (Modules wa ! i)"
    and "i < InstalledModules wa \<Longrightarrow> i < length (Modules wa)"
    and "a \<in> set (clients wa) \<Longrightarrow> \<exists>ccon. ccons wa a = Some ccon \<and> client_ok (set (numbers wa)) ccon"
    and "ccons wa a = Some ccon \<Longrightarrow> client_ok (set (numbers wa)) ccon"
  using assms by (auto simp: wa_inv_def installed_def all_set_conv_all_nth ran_def)

lemma mcon_index_Some: "mcon_index n ms k = Some i \<Longrightarrow> k \<le> i \<and> i - k < length ms \<and> ModNumber (ms ! (i - k)) = n"
  by (induction ms arbitrary: k) (fastforce simp: Suc_diff_le Suc_le_eq nth_Cons' split: if_splits)+

lemma mcon_index_None: "mcon_index n ms k = None \<longleftrightarrow> n \<notin> ModNumber ` set ms"
  by (induction ms arbitrary: k) auto

lemma get_mcon_Some: "get_mcon n wa = Some i \<Longrightarrow> i < InstalledModules wa \<and> ModNumber (Modules wa ! i) = n"
  by (auto simp: get_mcon_def dest!: mcon_index_Some)

lemma get_mcon_None: "get_mcon n wa = None \<longleftrightarrow> n \<notin> set (numbers wa)"
  by (simp add: get_mcon_def mcon_index_None numbers_def installed_def)

lemma get_mcon_number: "wa_inv ready wa \<Longrightarrow> i < InstalledModules wa \<Longrightarrow> get_mcon (ModNumber (Modules wa ! i)) wa = Some i"
proof -
  assume inv: "wa_inv ready wa" and i: "i < InstalledModules wa"
  have n: "ModNumber (Modules wa ! i) = numbers wa ! i" "length (numbers wa) = InstalledModules wa"
    using inv i by (simp_all add: numbers_def installed_def wa_inv_def)
  then have "get_mcon (ModNumber (Modules wa ! i)) wa \<noteq> None" using i by (simp add: get_mcon_None)
  then obtain k where k: "get_mcon (ModNumber (Modules wa ! i)) wa = Some k" by auto
  then have "numbers wa ! k = numbers wa ! i" "k < InstalledModules wa"
    using get_mcon_Some[OF k] inv n(1) by (simp_all add: numbers_def installed_def wa_inv_def)
  then show ?thesis using k inv i n(2) by (simp add: wa_inv_def nth_eq_iff_index_eq)
qed

lemma wa_inv_set_mcon:
  assumes inv: "wa_inv ready wa" and i: "i < InstalledModules wa"
    and m: "mod_ok ready (set (clients wa)) m" "ModNumber m = ModNumber (Modules wa ! i)"
  shows "wa_inv ready (set_mcon i m wa)"
proof -
  have len: "i < length (Modules wa)" using wa_invD(2)[OF inv i] .
  have inst: "installed (set_mcon i m wa) = (installed wa)[i := m]"
    using i by (simp add: installed_def set_mcon_def take_update_swap)
  have "ModNumber m = numbers wa ! i" using i m(2) len by (simp add: numbers_def installed_def)
  then have "numbers (set_mcon i m wa) = numbers wa" using inst by (simp add: numbers_def map_update)
  moreover have "\<forall>x\<in>set ((installed wa)[i := m]). mod_ok ready (set (clients wa)) x"
    using inv m(1) by (auto simp: wa_inv_def dest!: subsetD[OF set_update_subset_insert])
  ultimately show ?thesis using inv i inst by (simp add: wa_inv_def set_mcon_def)
qed

lemma wa_inv_set_ccon: "wa_inv ready (set_ccon c ccon wa)" if "wa_inv ready wa" "c \<in> set (clients wa)" "client_ok (set (numbers wa)) ccon"
proof -
  have "insert c (dom (ccons wa)) = dom (ccons wa)" using that by (auto simp: wa_inv_def)
  moreover have "\<forall>x\<in>ran ((ccons wa)(c \<mapsto> ccon)). client_ok (set (numbers wa)) x"
    using that by (auto simp: wa_inv_def ran_def split: if_splits)
  ultimately show ?thesis using that(1) by (auto simp: wa_inv_def set_ccon_def numbers_def installed_def)
qed

lemma client_ok_put: "client_ok N (q_put rb c)" if "client_ok N c"
proof -
  have "Semaphore (q_put rb c) = Size (Queue (q_put rb c))" "ModuleNumber (q_put rb c) = ModuleNumber c"
    using that by (simp_all add: client_ok_def q_put_def Let_def)
  then show ?thesis using that q_ok_put by (simp add: client_ok_def)
qed

lemma client_ok_puts: "client_ok N (fold q_put rbs c)" if "client_ok N c"
  using that by (induction rbs arbitrary: c) (simp_all add: client_ok_put)

lemma wa_inv_deliver: "wa_inv ready (wa\<lparr>ccons := (\<lambda>a. map_option (fold q_put (d a)) (ccons wa a))\<rparr>)" if "wa_inv ready wa"
  using that by (auto simp: wa_inv_def numbers_def installed_def dom_def ran_def intro!: client_ok_puts)

end
