(* ===== verification/Skel_Ops.thy ===== *)
theory Skel_Ops
  imports Skel_Inv
begin

text \<open>
  The operations of the framework on a working area in its invariant, for any user part that keeps the
  contract: interrupts, connecting and disconnecting, the entry points.
\<close>

lemma mod_ok_user: "user_only ready m m' \<Longrightarrow> mod_ok ready A m \<Longrightarrow> mod_ok ready A m'"
  by (auto simp: mod_ok_def user_only_def)

lemma mod_ok_conn: "conn_only ready conn m m' \<Longrightarrow> conn_ok A conn \<Longrightarrow> mod_ok ready A m'"
  by (auto simp: mod_ok_def conn_only_def)

lemma set_mcon_simps [simp]: "clients (set_mcon i m wa) = clients wa" "ccons (set_mcon i m wa) = ccons wa"
  "InstalledModules (set_mcon i m wa) = InstalledModules wa" "Modules (set_mcon i m wa) = (Modules wa)[i := m]"
  "Drvrd (set_mcon i m wa) = Drvrd wa"
  by (simp_all add: set_mcon_def)

text \<open>The module of a connection, for an open client.\<close>

lemma target_module_eq: "ccons wa c = Some ccon \<Longrightarrow>
    target_module c conx wa = Some (get_mcon (if Module conx = 0 then ModuleNumber ccon else Module conx) wa)"
  by (simp add: target_module_def)

lemma target_module_total: "wa_inv ready wa \<Longrightarrow> c \<in> set (clients wa) \<Longrightarrow> \<exists>t. target_module c conx wa = Some t"
  using wa_invD(3) by (fastforce simp: target_module_def)

lemma number_nonzero: "wa_inv ready wa \<Longrightarrow> i < InstalledModules wa \<Longrightarrow> ModNumber (Modules wa ! i) \<noteq> 0"
  using get_mcon_number[of ready wa i] get_mcon_None[of "ModNumber (Modules wa ! i)" wa] by (auto simp: wa_inv_def)

context user_part
begin

subsection \<open>Interrupts\<close>

lemma intr_handler:
  assumes inv: "wa_inv ready wa" and i: "i < InstalledModules wa"
  shows "\<exists>t s m wa'. SkelUserGetInterruptSource us (Modules wa ! i) = Some (t, s, m) \<and> IntrHandler us i wa = Some wa' \<and>
     wa_inv ready wa' \<and> clients wa' = clients wa \<and>
     (\<forall>a. ccons wa' a = map_option (fold q_put (deliveries [0 ..< 32] (Connected (Modules wa ! i))
        \<lparr>Connection = \<lparr>Module = ModNumber (Modules wa ! i), ConMask = 0\<rparr>, Time = t\<rparr> s a)) (ccons wa a))"
proof -
  have ok: "mod_ok ready (set (clients wa)) (Modules wa ! i)" using wa_invD(1)[OF inv i] .
  then have r: "ready (UserData (Modules wa ! i))" by (simp add: mod_ok_def)
  obtain t s m where src: "SkelUserGetInterruptSource us (Modules wa ! i) = Some (t, s, m)" "user_only ready (Modules wa ! i) m"
    using source[OF r] by blast
  note same = user_onlyD[OF src(2)]
  have inv1: "wa_inv ready (set_mcon i m wa)" using wa_inv_set_mcon[OF inv i mod_ok_user[OF src(2) ok] same(3)] .
  let ?rb = "\<lparr>Connection = \<lparr>Module = ModNumber (Modules wa ! i), ConMask = 0\<rparr>, Time = t\<rparr>"
  have fill: "fill_clients_queues (Connected (Modules wa ! i)) ?rb s (ccons wa) =
      Some (\<lambda>a. map_option (fold q_put (deliveries [0 ..< 32] (Connected (Modules wa ! i)) ?rb s a)) (ccons wa a))"
    using ok inv by (intro fill_clients_queues_eq[of "set (clients wa)"]) (simp_all add: mod_ok_def wa_inv_def)
  show ?thesis
  proof (cases "s = 0")
    case True
    then have "deliveries [0 ..< 32] conn rb s a = []" for conn rb a by (simp add: deliveries_def)
    then show ?thesis using src(1) inv1 True by (simp add: IntrHandler_def set_mcon_def option.map_id)
  next
    case False
    then show ?thesis using src(1) same fill wa_inv_deliver[OF inv1] by (simp add: IntrHandler_def set_mcon_def)
  qed
qed

lemma write_ok:
  assumes inv: "wa_inv ready wa"
  shows "\<exists>r wa'. SkelDrvrWrite us conx wa = Some (r, wa') \<and> wa_inv ready wa' \<and> clients wa' = clients wa"
proof (cases "get_mcon (Module conx) wa")
  case None
  then show ?thesis using inv by (simp add: SkelDrvrWrite_def)
next
  case (Some i)
  then have i: "i < InstalledModules wa" using get_mcon_Some by blast
  have ok: "mod_ok ready (set (clients wa)) (Modules wa ! i)" using wa_invD(1)[OF inv i] .
  then have r: "ready (UserData (Modules wa ! i))" by (simp add: mod_ok_def)
  obtain t m where u: "SkelUserGetUtc us (Modules wa ! i) = Some (t, m)" "user_only ready (Modules wa ! i) m"
    using utc[OF r] by blast
  note same = user_onlyD[OF u(2)]
  have inv1: "wa_inv ready (set_mcon i m wa)" using wa_inv_set_mcon[OF inv i mod_ok_user[OF u(2) ok] same(3)] .
  have "fill_clients_queues (Connected m) rb w (ccons wa) =
      Some (\<lambda>a. map_option (fold q_put (deliveries [0 ..< 32] (Connected m) rb w a)) (ccons wa a))" for rb w
    using ok inv same(2) by (intro fill_clients_queues_eq[of "set (clients wa)"]) (simp_all add: mod_ok_def wa_inv_def)
  then show ?thesis using Some u(1) wa_inv_deliver[OF inv1] by (simp add: SkelDrvrWrite_def set_mcon_def)
qed

subsection \<open>Connections\<close>

lemma connect_module: "ready (UserData m) \<Longrightarrow> \<exists>m'. each_interrupt (connect_one us alloc c imsk) [0 ..< 32] m = Some m' \<and>
    conn_only ready (fold (conn_add alloc c imsk) [0 ..< 32] (Connected m)) m m'"
  by (rule each_interrupt_fold) (rule connect_one_conn)

lemma disconnect_module: "ready (UserData m) \<Longrightarrow> \<exists>m'. each_interrupt (disconnect_one us c imsk) [0 ..< 32] m = Some m' \<and>
    conn_only ready (fold (conn_del c imsk) [0 ..< 32] (Connected m)) m m'"
  by (rule each_interrupt_fold) (rule disconnect_one_conn)

lemma connect_at:
  assumes inv: "wa_inv ready wa" and c: "c \<in> set (clients wa)" and t: "target_module c conx wa = Some (Some i)"
  shows "\<exists>m. Connect us alloc c conx wa = Some (set_mcon i m wa) \<and>
     conn_only ready (fold (conn_add alloc c (ConMask conx)) [0 ..< 32] (Connected (Modules wa ! i))) (Modules wa ! i) m \<and>
     wa_inv ready (set_mcon i m wa)"
proof -
  have i: "i < InstalledModules wa" using t by (auto simp: target_module_def dest!: get_mcon_Some split: option.splits bind_splits)
  have ok: "mod_ok ready (set (clients wa)) (Modules wa ! i)" using wa_invD(1)[OF inv i] .
  then have r: "ready (UserData (Modules wa ! i))" by (simp add: mod_ok_def)
  obtain m where m: "each_interrupt (connect_one us alloc c (ConMask conx)) [0 ..< 32] (Modules wa ! i) = Some m"
      "conn_only ready (fold (conn_add alloc c (ConMask conx)) [0 ..< 32] (Connected (Modules wa ! i))) (Modules wa ! i) m"
    using connect_module[OF r] by blast
  have "mod_ok ready (set (clients wa)) m" using ok c by (intro mod_ok_conn[OF m(2)] conn_ok_fold_add) (simp_all add: mod_ok_def)
  then have "wa_inv ready (set_mcon i m wa)" using wa_inv_set_mcon[OF inv i] conn_onlyD(3)[OF m(2)] by blast
  then show ?thesis using t m by (auto simp: Connect_def skel_sizes set_mcon_def)
qed

lemma disconnect_at:
  assumes inv: "wa_inv ready wa" and t: "target_module c conx wa = Some (Some i)"
  shows "\<exists>m. DisConnect us c conx wa = Some (set_mcon i m wa) \<and>
     conn_only ready (fold (conn_del c (if ConMask conx = 0 then NOT 0 else ConMask conx)) [0 ..< 32] (Connected (Modules wa ! i))) (Modules wa ! i) m \<and>
     wa_inv ready (set_mcon i m wa)"
proof -
  let ?msk = "if ConMask conx = 0 then NOT 0 else ConMask conx"
  have i: "i < InstalledModules wa" using t by (auto simp: target_module_def dest!: get_mcon_Some split: option.splits bind_splits)
  have ok: "mod_ok ready (set (clients wa)) (Modules wa ! i)" using wa_invD(1)[OF inv i] .
  then have r: "ready (UserData (Modules wa ! i))" by (simp add: mod_ok_def)
  obtain m where m: "each_interrupt (disconnect_one us c ?msk) [0 ..< 32] (Modules wa ! i) = Some m"
      "conn_only ready (fold (conn_del c ?msk) [0 ..< 32] (Connected (Modules wa ! i))) (Modules wa ! i) m"
    using disconnect_module[OF r] by blast
  have "mod_ok ready (set (clients wa)) m" using ok by (intro mod_ok_conn[OF m(2)] conn_ok_fold_del) (simp add: mod_ok_def)
  then have "wa_inv ready (set_mcon i m wa)" using wa_inv_set_mcon[OF inv i] conn_onlyD(3)[OF m(2)] by blast
  then show ?thesis using t m by (auto simp: DisConnect_def skel_sizes set_mcon_def)
qed

lemma connect_any: "\<exists>wa'. Connect us alloc c conx wa = Some wa' \<and> wa_inv ready wa' \<and> clients wa' = clients wa"
  if "wa_inv ready wa" "c \<in> set (clients wa)"
proof -
  from target_module_total[OF that] obtain t where t: "target_module c conx wa = Some t" by blast
  show ?thesis
  proof (cases t)
    case None
    then show ?thesis using t that by (simp add: Connect_def)
  next
    case (Some i)
    from connect_at[OF that, of conx i alloc] show ?thesis using t Some by force
  qed
qed

lemma disconnect_any: "\<exists>wa'. DisConnect us c conx wa = Some wa' \<and> wa_inv ready wa' \<and> clients wa' = clients wa"
  if "wa_inv ready wa" "c \<in> set (clients wa)"
proof -
  from target_module_total[OF that] obtain t where t: "target_module c conx wa = Some t" by blast
  show ?thesis
  proof (cases t)
    case None
    then show ?thesis using t that by (simp add: DisConnect_def)
  next
    case (Some i)
    from disconnect_at[OF that(1), of c conx i] show ?thesis using t Some by force
  qed
qed

text \<open>Disconnecting a client from every interrupt of some modules.\<close>

lemma disconnect_loop_modules:
  assumes "wa_inv ready wa" "c \<in> set (clients wa)" "distinct is" "\<forall>i\<in>set is. i < InstalledModules wa"
  shows "\<exists>wa'. disconnect_loop us c is wa = Some wa' \<and> wa_inv ready wa' \<and> wa' = wa\<lparr>Modules := Modules wa'\<rparr> \<and>
     (\<forall>i. if i \<in> set is then conn_only ready (fold (conn_del c (NOT 0)) [0 ..< 32] (Connected (Modules wa ! i))) (Modules wa ! i) (Modules wa' ! i)
          else Modules wa' ! i = Modules wa ! i) \<and> length (Modules wa') = length (Modules wa)"
  using assms
proof (induction "is" arbitrary: wa)
  case Nil
  then show ?case by simp
next
  case (Cons i "is")
  let ?conx = "\<lparr>Module = ModNumber (Modules wa ! i), ConMask = 0\<rparr>"
  have i: "i < InstalledModules wa" "i < length (Modules wa)" using Cons.prems wa_invD(2) by auto
  have num: "ModNumber (Modules wa ! i) \<noteq> 0" using number_nonzero[OF Cons.prems(1) i(1)] .
  obtain ccon where "ccons wa c = Some ccon" using wa_invD(3)[OF Cons.prems(1,2)] by auto
  then have "target_module c ?conx wa = Some (Some i)"
    using num get_mcon_number[OF Cons.prems(1) i(1)] by (simp add: target_module_eq)
  from disconnect_at[OF Cons.prems(1) this] obtain m where m: "DisConnect us c ?conx wa = Some (set_mcon i m wa)"
      "conn_only ready (fold (conn_del c (NOT 0)) [0 ..< 32] (Connected (Modules wa ! i))) (Modules wa ! i) m"
      "wa_inv ready (set_mcon i m wa)" by auto
  have "\<exists>wa'. disconnect_loop us c is (set_mcon i m wa) = Some wa' \<and> wa_inv ready wa' \<and> wa' = (set_mcon i m wa)\<lparr>Modules := Modules wa'\<rparr> \<and>
     (\<forall>k. if k \<in> set is then conn_only ready (fold (conn_del c (NOT 0)) [0 ..< 32] (Connected (Modules (set_mcon i m wa) ! k))) (Modules (set_mcon i m wa) ! k) (Modules wa' ! k)
          else Modules wa' ! k = Modules (set_mcon i m wa) ! k) \<and> length (Modules wa') = length (Modules (set_mcon i m wa))"
    by (rule Cons.IH) (use Cons.prems m in auto)
  then obtain wa' where wa': "disconnect_loop us c is (set_mcon i m wa) = Some wa'" "wa_inv ready wa'"
      "wa' = (set_mcon i m wa)\<lparr>Modules := Modules wa'\<rparr>" "length (Modules wa') = length (Modules wa)"
      "\<And>k. k \<in> set is \<Longrightarrow> conn_only ready (fold (conn_del c (NOT 0)) [0 ..< 32] (Connected (Modules (set_mcon i m wa) ! k))) (Modules (set_mcon i m wa) ! k) (Modules wa' ! k)"
      "\<And>k. k \<notin> set is \<Longrightarrow> Modules wa' ! k = Modules (set_mcon i m wa) ! k" by (auto split: if_splits)
  have "wa' = wa\<lparr>Modules := Modules wa'\<rparr>" using wa'(3) by (simp add: set_mcon_def)
  moreover have "if k \<in> set (i # is) then conn_only ready (fold (conn_del c (NOT 0)) [0 ..< 32] (Connected (Modules wa ! k))) (Modules wa ! k) (Modules wa' ! k)
          else Modules wa' ! k = Modules wa ! k" for k
    using wa'(5)[of k] wa'(6)[of k] m(2) Cons.prems(3) i(2) by (cases "k = i") auto
  moreover have "disconnect_loop us c (i # is) wa = Some wa'" using m(1) wa'(1) by simp
  ultimately show ?case using wa'(2,4) by blast
qed

lemma disconnect_all:
  assumes "wa_inv ready wa" "c \<in> set (clients wa)"
  shows "\<exists>wa'. DisConnectAll us c wa = Some wa' \<and> wa_inv ready wa' \<and> wa' = wa\<lparr>Modules := Modules wa'\<rparr> \<and>
     (\<forall>i<InstalledModules wa. conn_only ready (fold (conn_del c (NOT 0)) [0 ..< 32] (Connected (Modules wa ! i))) (Modules wa ! i) (Modules wa' ! i)) \<and>
     (\<forall>i\<ge>InstalledModules wa. Modules wa' ! i = Modules wa ! i) \<and> length (Modules wa') = length (Modules wa)"
proof -
  let ?is = "[0 ..< InstalledModules wa]"
  have "distinct ?is" "\<forall>i\<in>set ?is. i < InstalledModules wa" by auto
  from disconnect_loop_modules[OF assms this] obtain wa' where wa': "disconnect_loop us c ?is wa = Some wa'" "wa_inv ready wa'"
      "wa' = wa\<lparr>Modules := Modules wa'\<rparr>" "length (Modules wa') = length (Modules wa)"
      "\<And>i. if i \<in> set ?is then conn_only ready (fold (conn_del c (NOT 0)) [0 ..< 32] (Connected (Modules wa ! i))) (Modules wa ! i) (Modules wa' ! i)
          else Modules wa' ! i = Modules wa ! i" by blast
  then have "i < InstalledModules wa \<Longrightarrow> conn_only ready (fold (conn_del c (NOT 0)) [0 ..< 32] (Connected (Modules wa ! i))) (Modules wa ! i) (Modules wa' ! i)"
    "i \<ge> InstalledModules wa \<Longrightarrow> Modules wa' ! i = Modules wa ! i" for i
    using wa'(5)[of i] by auto
  then show ?thesis using wa'(1-4) unfolding DisConnectAll_def by blast
qed

lemma close_ok:
  assumes inv: "wa_inv ready wa" and c: "c \<in> set (clients wa)"
  shows "\<exists>wa'. do_close us c wa = Some wa' \<and> wa_inv ready wa' \<and> clients wa' = remove1 c (clients wa) \<and>
     ccons wa' = (ccons wa)(c := None) \<and> InstalledModules wa' = InstalledModules wa \<and>
     (\<forall>i<InstalledModules wa. \<forall>j<32. conn_clients (Connected (Modules wa' ! i)) ! j = remove1 c (conn_clients (Connected (Modules wa ! i)) ! j))"
proof -
  from disconnect_all[OF assms] obtain wa1 where wa1: "DisConnectAll us c wa = Some wa1" "wa_inv ready wa1"
      "wa1 = wa\<lparr>Modules := Modules wa1\<rparr>"
      "\<And>i. i < InstalledModules wa \<Longrightarrow> conn_only ready (fold (conn_del c (NOT 0)) [0 ..< 32] (Connected (Modules wa ! i))) (Modules wa ! i) (Modules wa1 ! i)"
      by blast
  have same: "clients wa1 = clients wa" "ccons wa1 = ccons wa" "InstalledModules wa1 = InstalledModules wa"
    by (subst wa1(3), simp)+
  obtain ccon where ccon: "ccons wa c = Some ccon" using wa_invD(3)[OF assms] by blast
  obtain ccon' where rel: "SkelUserClientRelease us ccon = Some ccon'" using release by blast
  let ?wa' = "wa1\<lparr>clients := remove1 c (clients wa), ccons := (ccons wa)(c := None)\<rparr>"
  have run: "do_close us c wa = Some ?wa'"
    using wa1(1) same ccon rel by (simp add: do_close_def skel_remove_ccon_def Let_def)
  have conn: "Connected (Modules wa1 ! i) = fold (conn_del c (NOT 0)) [0 ..< 32] (Connected (Modules wa ! i))"
    if "i < InstalledModules wa" for i using conn_onlyD(2)[OF wa1(4)[OF that]] .
  have len: "length (conn_clients (Connected (Modules wa ! i))) = 32" if "i < InstalledModules wa" for i
    using wa_invD(1)[OF inv that] by (simp add: mod_ok_def conn_ok_def skel_sizes)
  have "mod_ok ready (set (clients wa) - {c}) (Modules wa1 ! i)" if "i < InstalledModules wa" for i
    using wa_invD(1)[OF inv that] by (intro mod_ok_conn[OF wa1(4)[OF that]] conn_ok_fold_del_all) (simp add: mod_ok_def)
  moreover have "set (remove1 c (clients wa)) = set (clients wa) - {c}" using inv by (simp add: wa_inv_def set_remove1_eq)
  ultimately have "\<forall>m\<in>set (installed ?wa'). mod_ok ready (set (remove1 c (clients wa))) m"
    using same wa1(2) by (auto simp: installed_def all_set_conv_all_nth wa_inv_def)
  moreover have "ran ((ccons wa)(c := None)) \<subseteq> ran (ccons wa)" by (auto simp: ran_def)
  ultimately have "wa_inv ready ?wa'"
    using wa1(2) same \<open>set (remove1 c (clients wa)) = set (clients wa) - {c}\<close>
    by (auto simp: wa_inv_def installed_def numbers_def)
  moreover have "conn_clients (Connected (Modules wa1 ! i)) ! j = remove1 c (conn_clients (Connected (Modules wa ! i)) ! j)"
    if "i < InstalledModules wa" "j < 32" for i j using conn[OF that(1)] fold_conn_del_nth[OF len[OF that(1)]] that(2) by simp
  ultimately show ?thesis using run same by auto
qed

end

subsection \<open>Clients\<close>

lemma find_ccon_some: "set as \<subseteq> dom h \<Longrightarrow> \<exists>r. find_ccon h flp as = Some r \<and>
    (case r of None \<Rightarrow> True | Some c \<Rightarrow> c \<in> set as \<and> cdcmf (the (h c)) = flp)"
  by (induction as) (force split: option.splits)+

lemma skel_get_ccon_some: "wa_inv ready wa \<Longrightarrow> \<exists>r. skel_get_ccon flp wa = Some r \<and>
    (case r of None \<Rightarrow> True | Some c \<Rightarrow> c \<in> set (clients wa) \<and> cdcmf (the (ccons wa c)) = flp)"
  using find_ccon_some[of "clients wa" "ccons wa" flp] by (simp add: skel_get_ccon_def wa_inv_def)

lemma first_number: "wa_inv ready wa \<Longrightarrow> ModNumber (Modules wa ! 0) \<in> set (numbers wa)"
  using get_mcon_number[of ready wa 0] get_mcon_None[of "ModNumber (Modules wa ! 0)" wa] by (auto simp: wa_inv_def)

lemma client_init_ok: "client_init us pid flp wa = Some ccon \<Longrightarrow> wa_inv ready wa \<Longrightarrow>
    client_ok (set (numbers wa)) ccon \<and> cdcmf ccon = flp \<and> Pid ccon = pid"
  using first_number[of ready wa]
  by (auto simp: client_init_def Let_def zero_ccon_def reset_queue_def client_ok_def q_ok_def skel_sizes wa_inv_def split: if_splits)

lemma wa_inv_add_client:
  assumes "wa_inv ready wa" "client_ok (set (numbers wa)) ccon" "a \<notin> dom (ccons wa)"
  shows "wa_inv ready (wa\<lparr>ccons := (ccons wa)(a \<mapsto> ccon), clients := a # clients wa\<rparr>)"
proof -
  have "mod_ok ready (insert a (set (clients wa))) m" if "m \<in> set (installed wa)" for m
    using that assms(1) by (auto simp: wa_inv_def mod_ok_def intro: conn_ok_mono)
  then show ?thesis using assms by (auto simp: wa_inv_def installed_def numbers_def ran_def split: if_splits)
qed

lemma open_ok:
  assumes inv: "wa_inv ready wa" and fresh: "\<forall>a. actx = Some a \<longrightarrow> a \<notin> dom (ccons wa)"
  shows "\<exists>wa'. snd (SkelDrvrOpen us actx alink pid flp (Some wa)) = Some wa' \<and> wa_inv ready wa'"
proof (cases actx)
  case None
  then show ?thesis using inv by (simp add: SkelDrvrOpen_def)
next
  case (Some a)
  show ?thesis
  proof (cases "client_init us pid flp wa")
    case None
    then show ?thesis using Some inv by (simp add: SkelDrvrOpen_def)
  next
    case (Some ccon)
    then show ?thesis using \<open>actx = Some a\<close> inv fresh wa_inv_add_client[OF inv, of ccon a] client_init_ok[OF Some inv]
      by (simp add: SkelDrvrOpen_def skel_add_ccon_def)
  qed
qed

lemma client_ok_finish: "client_ok N ccon \<Longrightarrow> Semaphore ccon \<noteq> 0 \<Longrightarrow>
    client_ok N (snd (read_finish (ccon\<lparr>Semaphore := Semaphore ccon - 1\<rparr>)))"
  using q_ok_get[of "ccon\<lparr>Semaphore := Semaphore ccon - 1\<rparr>"]
  by (auto simp: client_ok_def read_finish_def q_get_def Let_def)

lemma client_ok_abort: "client_ok N ccon \<Longrightarrow> Semaphore ccon = 0 \<Longrightarrow> client_ok N (read_abort ccon)"
  by (auto simp: client_ok_def read_abort_def client_timeout_def q_ok_def)

lemma client_ok_begin: "client_ok N ccon \<Longrightarrow> client_ok N (read_begin ccon)"
  by (auto simp: client_ok_def read_begin_def reset_queue_def q_ok_def skel_sizes)

lemma read_ok: "\<exists>r wa'. SkelDrvrRead flp wa = Some (r, wa') \<and> wa_inv ready wa'" if inv: "wa_inv ready wa"
proof -
  obtain r where r: "skel_get_ccon flp wa = Some r" "case r of None \<Rightarrow> True | Some c \<Rightarrow> c \<in> set (clients wa)"
    using skel_get_ccon_some[OF inv, of flp] by (auto split: option.splits)
  show ?thesis
  proof (cases r)
    case None
    then show ?thesis using r(1) inv by (simp add: SkelDrvrRead_def)
  next
    case (Some c)
    with r(2) have c: "c \<in> set (clients wa)" by simp
    obtain ccon where ccon: "ccons wa c = Some ccon" "client_ok (set (numbers wa)) ccon" using wa_invD(3)[OF inv c] by blast
    note ok = client_ok_begin[OF ccon(2)]
    note upd = wa_inv_set_ccon[OF inv c, unfolded set_ccon_def]
    show ?thesis
    proof (cases "Semaphore (read_begin ccon) = 0")
      case True
      then show ?thesis using r(1) Some ccon(1) upd[OF client_ok_abort[OF ok True]] by (simp add: SkelDrvrRead_def Let_def)
    next
      case False
      then show ?thesis using r(1) Some ccon(1) upd[OF client_ok_finish[OF ok False]]
        by (simp add: SkelDrvrRead_def Let_def split_beta)
    qed
  qed
qed

subsection \<open>Ioctl\<close>

definition mod_same :: "('u \<Rightarrow> bool) \<Rightarrow> ('u, 'h) SkelDrvrModuleContext \<Rightarrow> ('u, 'h) SkelDrvrModuleContext \<Rightarrow> bool" where
  "mod_same ready m m' \<longleftrightarrow> Connected m' = Connected m \<and> ModNumber m' = ModNumber m \<and> (ready (UserData m) \<longrightarrow> ready (UserData m'))"

lemma mod_same_user: "user_only ready m m' \<Longrightarrow> mod_same ready m m'"
  using user_onlyD[of ready m m'] by (simp add: mod_same_def)

lemma mod_same_trans: "mod_same ready m m1 \<Longrightarrow> mod_same ready m1 m2 \<Longrightarrow> mod_same ready m m2"
  by (simp add: mod_same_def)

lemma mod_same_ok: "mod_same ready m m' \<Longrightarrow> mod_ok ready A m \<Longrightarrow> mod_ok ready A m'"
  by (simp add: mod_same_def mod_ok_def)

lemma RawIo_same: "RawIo dev riob flag m = Some (r, m') \<Longrightarrow> mod_same ready m m'"
  by (auto simp: RawIo_def mod_same_def Let_def split: option.splits if_splits prod.splits bind_splits)

lemma RawIoBlock_same: "RawIoBlock dev al riob flag m = Some (r, m') \<Longrightarrow> mod_same ready m m'"
  by (auto simp: RawIoBlock_def mod_same_def Let_def split: option.splits if_splits prod.splits bind_splits)

fun raw_or_user :: "'a skel_ioctl \<Rightarrow> bool" where
  "raw_or_user (RAW_READ _) = True" | "raw_or_user (RAW_WRITE _) = True" | "raw_or_user (RAW_BLOCK_READ _) = True"
| "raw_or_user (RAW_BLOCK_WRITE _) = True" | "raw_or_user (USER_IOCTL _) = True" | "raw_or_user _ = False"

context user_part
begin

lemma Reset_same: "ready (UserData m) \<Longrightarrow> \<exists>m'. Reset us m = Some m' \<and> mod_same ready m m'"
proof -
  assume r: "ready (UserData m)"
  from reset[OF r] obtain m1 where m1: "SkelUserHardwareReset us m = Some m1" "user_only ready m m1" by blast
  from enable[OF user_onlyD(1)[OF m1(2)]] obtain m2 where
    m2: "SkelUserEnableInterrupts us m1 (enabled_ints (Connected m1)) = Some m2" "user_only ready m1 m2" by blast
  have "mod_same ready m m2" using m1 m2 by (blast intro: mod_same_trans mod_same_user)
  then show ?thesis using m1(1) m2(1) by (simp add: Reset_def mod_same_def)
qed

lemma module_ioctl_same: "mod_same ready m m'" if "ready (UserData m)" "module_ioctl us dev kalloc cm m = Some (r, m')"
proof (cases cm)
  case GET_VERSION
  then show ?thesis using that version[of m] by (auto dest: mod_same_user)
next
  case (ENABLE v)
  then show ?thesis using that hwenable[of m v] by (auto simp: mod_same_def dest!: mod_same_user)
next
  case RESET
  then show ?thesis using that Reset_same[of m] by auto
next
  case GET_STATUS
  then show ?thesis using that status[of m] by (auto simp: GetStatus_def dest: mod_same_user)
next
  case JTAG_OPEN
  then show ?thesis using that by (auto simp: LockModule_def mod_same_def Let_def split: if_splits)
next
  case JTAG_CLOSE
  then show ?thesis using that Reset_same[of "m\<lparr>StandardStatus := StandardStatus m AND NOT FLASH_OPEN, FlashOpen := 0\<rparr>"]
    by (auto simp: UnLockModule_def mod_same_def)
next
  case JTAG_READ_BYTE
  then show ?thesis using that jtag_read[of m] by (auto dest: mod_same_user split: if_splits) (auto simp: mod_same_def)
next
  case (JTAG_WRITE_BYTE v)
  then show ?thesis using that jtag_write[of m "v AND 0xFF"] by (auto dest: mod_same_user split: if_splits) (auto simp: mod_same_def)
next
  case (USER_IOCTL a)
  then show ?thesis using that ioctls[of m a] by (auto dest: mod_same_user split: bind_splits)
qed (use that in \<open>auto dest: RawIo_same RawIoBlock_same split: bind_splits\<close>, auto simp: mod_same_def)

lemma module_ioctl_total: "\<exists>r m'. module_ioctl us dev kalloc cm m = Some (r, m')" if "ready (UserData m)" "\<not> raw_or_user cm"
proof (cases cm)
  case GET_VERSION
  then show ?thesis using version[OF that(1)] by auto
next
  case (ENABLE v)
  then show ?thesis using hwenable[OF that(1), of v] by auto
next
  case RESET
  then show ?thesis using Reset_same[OF that(1)] by auto
next
  case GET_STATUS
  then show ?thesis using status[OF that(1)] by (auto simp: GetStatus_def)
next
  case JTAG_CLOSE
  then show ?thesis using Reset_same[of "m\<lparr>StandardStatus := StandardStatus m AND NOT FLASH_OPEN, FlashOpen := 0\<rparr>"] that(1) by auto
next
  case JTAG_READ_BYTE
  then show ?thesis using jtag_read[OF that(1)] by auto
next
  case (JTAG_WRITE_BYTE v)
  then show ?thesis using jtag_write[OF that(1), of "v AND 0xFF"] by auto
qed (use that(2) in \<open>auto simp: Let_def split_beta\<close>)

end

lemma pids_total: "set as \<subseteq> dom h \<Longrightarrow> \<exists>ps. pids h as = Some ps"
  by (induction as) auto

lemma fill_links_total: "set as \<subseteq> dom h \<Longrightarrow> \<exists>r. fill_links h pid n i as cs = Some r"
  by (induction as arbitrary: cs) (auto simp: Let_def)

lemma fill_interrupts_total: "\<forall>as\<in>set ass. set as \<subseteq> dom h \<Longrightarrow> \<exists>r. fill_interrupts h pid n i ass cs = Some r"
proof (induction ass arbitrary: i cs)
  case (Cons as ass)
  obtain full cs' where r: "fill_links h pid n i as cs = Some (full, cs')"
    using fill_links_total[of as h pid n i cs] Cons.prems by auto
  obtain q where "fill_interrupts h pid n (Suc i) ass cs' = Some q" using Cons.IH[of "Suc i" cs'] Cons.prems by auto
  with r show ?case by (cases full) auto
qed (simp, rule exI[of _ False], simp)

lemma fill_modules_total: "\<forall>m\<in>set ms. InUse m \<longrightarrow> conn_ok (dom h) (Connected m) \<Longrightarrow> \<exists>r. fill_modules h pid ms cs = Some r"
proof (induction ms arbitrary: cs)
  case (Cons m ms)
  show ?case
  proof (cases "InUse m")
    case True
    then have "\<forall>as\<in>set (conn_clients (Connected m)). set as \<subseteq> dom h" using Cons.prems by (simp add: conn_ok_def)
    from fill_interrupts_total[OF this] obtain full cs' where r: "skel_fill_client_connections h pid m cs = Some (full, cs')"
      unfolding skel_fill_client_connections_def by (metis surj_pair)
    obtain q where "fill_modules h pid ms cs' = Some q" using Cons.IH[of cs'] Cons.prems by auto
    with r True show ?thesis by (cases full) simp_all
  next
    case False
    then show ?thesis using Cons.IH[of cs] Cons.prems by simp
  qed
qed simp

lemma used_modules: "wa_inv ready wa \<Longrightarrow> m \<in> set (Modules wa) \<Longrightarrow> InUse m \<Longrightarrow> conn_ok (dom (ccons wa)) (Connected m)"
  by (subst (asm) append_take_drop_id[symmetric, of "Modules wa" "InstalledModules wa"])
    (auto simp: wa_inv_def installed_def mod_ok_def simp del: append_take_drop_id)

lemma client_list_total: "wa_inv ready wa \<Longrightarrow> \<exists>ps. skel_get_client_list wa = Some ps"
  unfolding skel_get_client_list_def by (rule pids_total) (auto simp: wa_inv_def dest!: in_set_takeD)

lemma client_connections_total: "wa_inv ready wa \<Longrightarrow> \<exists>r. skel_get_client_connections ccon pid wa = Some r"
  using fill_modules_total[of "Modules wa" "ccons wa" "if pid = 0 then Pid ccon else pid" "[]"] used_modules[of ready wa]
  by (auto simp: skel_get_client_connections_def Let_def)

lemma client_ioctl_ok: "\<exists>r wa'. client_ioctl cm c ccon wa = Some (r, wa') \<and> wa_inv ready wa'"
  if inv: "wa_inv ready wa" and c: "c \<in> set (clients wa)" and ok: "client_ok (set (numbers wa)) ccon"
proof -
  note upd = wa_inv_set_ccon[OF inv c]
  show ?thesis
  proof (cases cm)
    case (SET_MODULE v)
    then show ?thesis using inv ok get_mcon_None[of v wa]
      by (cases "get_mcon v wa") (auto intro!: upd simp: client_ok_def)
  next
    case GET_CLIENT_LIST
    then show ?thesis using inv client_list_total[OF inv] by auto
  next
    case (GET_CLIENT_CONNECTIONS p)
    then show ?thesis using inv client_connections_total[OF inv, of ccon p] by auto
  next
    case (SET_DEBUG f)
    then show ?thesis using ok by (auto intro!: upd simp: client_ok_def)
  next
    case (SET_TIMEOUT f)
    then show ?thesis using ok by (auto intro!: upd simp: client_ok_def)
  next
    case (SET_QUEUE_FLAG f)
    then show ?thesis using ok by (auto intro!: upd simp: client_ok_def set_queue_flag_def q_ok_def)
  next
    case GET_QUEUE_OVERFLOW
    then show ?thesis using ok by (auto intro!: upd simp: client_ok_def get_queue_overflow_def q_ok_def Let_def)
  qed (use inv in simp_all)
qed

context user_part
begin

lemma connect_ioctl_ok: "\<exists>r wa'. connect_ioctl us kalloc conx c wa = Some (r, wa') \<and> wa_inv ready wa'"
  if "wa_inv ready wa" "c \<in> set (clients wa)"
  using connect_any[OF that, of kalloc conx] disconnect_any[OF that, of conx] disconnect_all[OF that]
  by (auto simp: connect_ioctl_def)

text \<open>An ioctl of a client that has a module leads to a module command or to a client command.\<close>

lemma ioctl_module:
  assumes inv: "wa_inv ready wa" and c: "skel_get_ccon flp wa = Some (Some c)" "c \<in> set (clients wa)" and m: "is_module_ioctl cm"
  shows "\<exists>i. i < InstalledModules wa \<and> SkelDrvrIoctl us dev kalloc flp cm wa =
    map_option (\<lambda>(r, m). (r, set_mcon i m wa)) (module_ioctl us dev kalloc cm (Modules wa ! i))"
proof -
  obtain ccon where ccon: "ccons wa c = Some ccon" "client_ok (set (numbers wa)) ccon" using wa_invD(3)[OF inv c(2)] by blast
  then have "get_mcon (ModuleNumber ccon) wa \<noteq> None" by (simp add: client_ok_def get_mcon_None)
  then obtain i where i: "get_mcon (ModuleNumber ccon) wa = Some i" by blast
  have "SkelDrvrIoctl us dev kalloc flp cm wa =
      do { (r, m) \<leftarrow> module_ioctl us dev kalloc cm (Modules wa ! i); Some (r, set_mcon i m wa) }"
    using m c(1) ccon(1) i by (cases cm) (simp_all add: SkelDrvrIoctl_def)
  then show ?thesis using get_mcon_Some[OF i] by (cases "module_ioctl us dev kalloc cm (Modules wa ! i)") auto
qed

lemma ioctl_ok:
  assumes inv: "wa_inv ready wa"
  shows "SkelDrvrIoctl us dev kalloc flp cm wa = Some (r, wa') \<Longrightarrow> wa_inv ready wa'"
    and "\<not> raw_or_user cm \<Longrightarrow> \<exists>r wa'. SkelDrvrIoctl us dev kalloc flp cm wa = Some (r, wa')"
proof -
  obtain f where f: "skel_get_ccon flp wa = Some f" "case f of None \<Rightarrow> True | Some c \<Rightarrow> c \<in> set (clients wa)"
    using skel_get_ccon_some[OF inv, of flp] by (auto split: option.splits)
  have "(\<forall>r wa'. SkelDrvrIoctl us dev kalloc flp cm wa = Some (r, wa') \<longrightarrow> wa_inv ready wa') \<and>
      (\<not> raw_or_user cm \<longrightarrow> (\<exists>r wa'. SkelDrvrIoctl us dev kalloc flp cm wa = Some (r, wa')))"
  proof (cases f)
    case None
    then show ?thesis using f(1) inv by (simp add: SkelDrvrIoctl_def)
  next
    case (Some c)
    then have c: "skel_get_ccon flp wa = Some (Some c)" "c \<in> set (clients wa)" using f by simp_all
    obtain ccon where ccon: "ccons wa c = Some ccon" "client_ok (set (numbers wa)) ccon" using wa_invD(3)[OF inv c(2)] by blast
    show ?thesis
    proof (cases "is_module_ioctl cm")
      case True
      from ioctl_module[OF inv c True] obtain i where i: "i < InstalledModules wa"
        "SkelDrvrIoctl us dev kalloc flp cm wa = map_option (\<lambda>(r, m). (r, set_mcon i m wa)) (module_ioctl us dev kalloc cm (Modules wa ! i))"
        by blast
      have ok: "mod_ok ready (set (clients wa)) (Modules wa ! i)" using wa_invD(1)[OF inv i(1)] .
      then have rd: "ready (UserData (Modules wa ! i))" by (simp add: mod_ok_def)
      have "wa_inv ready (set_mcon i m wa)" if "module_ioctl us dev kalloc cm (Modules wa ! i) = Some (r, m)" for r m
        using module_ioctl_same[OF rd that] mod_same_ok[OF module_ioctl_same[OF rd that] ok]
        by (intro wa_inv_set_mcon[OF inv i(1)]) (simp_all add: mod_same_def)
      then show ?thesis using module_ioctl_total[OF rd, of cm dev kalloc] i(2) by auto
    next
      case False
      then have "SkelDrvrIoctl us dev kalloc flp cm wa = client_ioctl cm c ccon wa \<or>
          (\<exists>conx. SkelDrvrIoctl us dev kalloc flp cm wa = connect_ioctl us kalloc conx c wa)"
        using c(1) ccon(1) by (cases cm) (auto simp: SkelDrvrIoctl_def)
      then show ?thesis using client_ioctl_ok[OF inv c(2) ccon(2), of cm] connect_ioctl_ok[OF inv c(2), of kalloc]
        by (metis Pair_inject option.inject)
    qed
  qed
  then show "SkelDrvrIoctl us dev kalloc flp cm wa = Some (r, wa') \<Longrightarrow> wa_inv ready wa'"
    "\<not> raw_or_user cm \<Longrightarrow> \<exists>r wa'. SkelDrvrIoctl us dev kalloc flp cm wa = Some (r, wa')" by blast+
qed

end

end
