(* ===== verification/Mtt_Driver_Props.thy ===== *)
theory Mtt_Driver_Props
  imports Mtt_Driver Skel_Ops
begin

text \<open>
  The functions of the sequencer driver keep the contract of the framework, for every device; with that the
  results on the framework hold for the driver.
\<close>

subsection \<open>Results of partial functions\<close>

definition succeeds :: "'r option \<Rightarrow> ('r \<Rightarrow> bool) \<Rightarrow> bool" where
  "succeeds x Q \<longleftrightarrow> (\<exists>y. x = Some y \<and> Q y)"

definition if_some :: "'r option \<Rightarrow> ('r \<Rightarrow> bool) \<Rightarrow> bool" where
  "if_some x Q \<longleftrightarrow> (\<forall>y. x = Some y \<longrightarrow> Q y)"

lemma succeeds_Some [simp]: "succeeds (Some y) Q = Q y"
  by (simp add: succeeds_def)

lemma if_some_simps [simp]: "if_some (Some y) Q = Q y" "if_some None Q"
  by (simp_all add: if_some_def)

lemma succeeds_bind: "succeeds x P \<Longrightarrow> (\<And>y. P y \<Longrightarrow> succeeds (f y) Q) \<Longrightarrow> succeeds (Option.bind x f) Q"
  by (auto simp: succeeds_def)

lemma if_some_bind: "if_some x P \<Longrightarrow> (\<And>y. P y \<Longrightarrow> if_some (f y) Q) \<Longrightarrow> if_some (Option.bind x f) Q"
  by (cases x) auto

lemma succeeds_if_some: "succeeds x Q \<Longrightarrow> if_some x Q"
  by (auto simp: succeeds_def if_some_def)

lemma if_some_map: "if_some x (\<lambda>y. Q (f y)) \<Longrightarrow> if_some (map_option f x) Q"
  by (cases x) auto

subsection \<open>What a function of the driver changes\<close>

definition has_data :: "udata option \<Rightarrow> bool" where
  "has_data u \<longleftrightarrow> u \<noteq> None"

abbreviation keeps :: "'h mtt_mcon \<Rightarrow> 'h mtt_mcon \<Rightarrow> bool" where
  "keeps m m' \<equiv> user_only has_data m m'"

lemma keeps_refl: "has_data (UserData m) \<Longrightarrow> keeps m m"
  unfolding user_only_def by (rule exI[of _ "UserData m"], rule exI[of _ "hardware m"]) simp

lemma keeps_data: "keeps m0 m \<Longrightarrow> \<exists>u. UserData m = Some u"
  by (auto simp: user_only_def has_data_def)

lemma keepsI: "keeps m (m\<lparr>UserData := Some u, hardware := h\<rparr>)"
  by (auto simp: user_only_def has_data_def)

lemma keepsE: "keeps m m' \<Longrightarrow> \<exists>u h. m' = m\<lparr>UserData := Some u, hardware := h\<rparr>"
  by (auto simp: user_only_def has_data_def)

lemma keeps_hardware: "keeps m0 (m\<lparr>hardware := h\<rparr>)" if "keeps m0 m"
proof -
  from keepsE[OF that] obtain u h' where "m = m0\<lparr>UserData := Some u, hardware := h'\<rparr>" by blast
  then have "m\<lparr>hardware := h\<rparr> = m0\<lparr>UserData := Some u, hardware := h\<rparr>" by simp
  then show ?thesis by (simp only: keepsI)
qed

lemma keeps_udata: "keeps m0 (set_udata u m)" if "keeps m0 m"
proof -
  from keepsE[OF that] obtain u' h where "m = m0\<lparr>UserData := Some u', hardware := h\<rparr>" by blast
  then have "set_udata u m = m0\<lparr>UserData := Some u, hardware := h\<rparr>" by (simp add: set_udata_def)
  then show ?thesis by (simp only: keepsI)
qed

lemma keeps_write: "keeps m0 m \<Longrightarrow> keeps m0 (io_write dev a v m)"
  by (simp add: io_write_def keeps_hardware)

lemma keeps_read: "keeps m0 m \<Longrightarrow> keeps m0 (snd (io_read dev a m))"
  by (simp add: io_read_def split_beta keeps_hardware)

lemmas keeps_intros = keeps_refl keeps_hardware keeps_udata keeps_write keeps_read

lemma data_bind: "keeps m0 m \<Longrightarrow> (\<And>u. UserData m = Some u \<Longrightarrow> succeeds (f u) Q) \<Longrightarrow> succeeds (Option.bind (UserData m) f) Q"
  using keeps_data by fastforce

lemma writew_keeps: "keeps m0 m \<Longrightarrow> succeeds (mtt_writew dev offs v m) (keeps m0)"
  unfolding mtt_writew_def by (rule data_bind) (simp_all add: keeps_write)

lemma readw_keeps: "keeps m0 m \<Longrightarrow> succeeds (mtt_readw dev offs m) (\<lambda>(_, m'). keeps m0 m')"
  unfolding mtt_readw_def by (rule data_bind) (simp_all add: keeps_read split_beta)

lemma writes_keeps: "keeps m0 m \<Longrightarrow> succeeds (mtt_writes dev offs v m) (keeps m0)"
  unfolding mtt_writes_def by (rule data_bind) (simp_all add: keeps_hardware)

lemma reads_keeps: "keeps m0 m \<Longrightarrow> succeeds (mtt_reads dev offs m) (\<lambda>(_, m'). keeps m0 m')"
  unfolding mtt_reads_def by (rule data_bind) (simp_all add: keeps_hardware split_beta)

lemma cmd_keeps: "keeps m0 m \<Longrightarrow> succeeds (mtt_cmd dev c v m) (keeps m0)"
  unfolding mtt_cmd_def by (blast intro: succeeds_bind writew_keeps)

lemma orw_keeps: "keeps m0 m \<Longrightarrow> succeeds (mtt_orw dev offs v m) (keeps m0)"
  unfolding mtt_orw_def by (rule succeeds_bind, erule readw_keeps) (auto intro: writew_keeps)

lemma quiesce_keeps: "keeps m0 m \<Longrightarrow> succeeds (mtt_quiesce dev m) (keeps m0)"
  unfolding mtt_quiesce_def
  by (rule succeeds_bind, erule writew_keeps, rule succeeds_bind, erule readw_keeps) auto

lemma ping_keeps: "keeps m0 m \<Longrightarrow> succeeds (mtt_ping dev m) (keeps m0)"
  unfolding mtt_ping_def by (rule succeeds_bind, erule readw_keeps) auto

lemma cmd_if_keeps: "keeps m0 m \<Longrightarrow> succeeds (cmd_if dev f c v m) (keeps m0)"
  unfolding cmd_if_def by (rule data_bind, assumption) (simp add: cmd_keeps)

lemma reset_keeps: "keeps m0 m \<Longrightarrow> succeeds (mtt_reset dev m) (keeps m0)"
  unfolding mtt_reset_def
  by (rule succeeds_bind, erule quiesce_keeps, rule succeeds_bind, erule cmd_keeps, rule succeeds_bind, erule cmd_keeps,
      rule data_bind, assumption) (simp add: Let_def keeps_udata writew_keeps split: option.split)

lemma defaults_keeps: "keeps m0 m \<Longrightarrow> succeeds (udata_set_defaults dev m) (keeps m0)"
  unfolding udata_set_defaults_def
  by (rule data_bind, assumption) (blast intro: succeeds_bind cmd_if_keeps keeps_udata)

lemma hardware_reset_keeps: "keeps m0 m \<Longrightarrow> succeeds (mtt_HardwareReset dev m) (keeps m0)"
  unfolding mtt_HardwareReset_def by (blast intro: succeeds_bind reset_keeps defaults_keeps)

lemma gs_utc_keeps: "keeps m0 m \<Longrightarrow> succeeds (mtt_gs_utc dev t st m) (\<lambda>(_, m'). keeps m0 m')"
proof (cases st)
  case True
  assume "keeps m0 m"
  then show ?thesis using True by (auto simp: mtt_gs_utc_def intro!: succeeds_bind[OF cmd_keeps])
next
  case False
  assume "keeps m0 m"
  then show ?thesis using False
    by (auto simp: mtt_gs_utc_def intro!: succeeds_bind[OF readw_keeps])
qed

lemma get_utc_keeps: "keeps m0 m \<Longrightarrow> succeeds (mtt_GetUtc dev m) (\<lambda>(_, m'). keeps m0 m')"
  unfolding mtt_GetUtc_def by (rule succeeds_bind, erule gs_utc_keeps) auto

lemma source_keeps: "keeps m0 m \<Longrightarrow> succeeds (mtt_GetInterruptSource dev m) (\<lambda>(_, _, m'). keeps m0 m')"
  unfolding mtt_GetInterruptSource_def
  by (rule succeeds_bind, erule readw_keeps) (auto intro!: succeeds_bind[OF get_utc_keeps])

subsection \<open>Ioctls\<close>

abbreviation keeps_result :: "'h mtt_mcon \<Rightarrow> 'h mtt_result \<Rightarrow> bool" where
  "keeps_result m0 x \<equiv> if_some x (\<lambda>(_, m'). keeps m0 m')"

lemma ok_with_keeps: "succeeds x (keeps m0) \<Longrightarrow> keeps_result m0 (ok_with r x)"
  by (auto simp: ok_with_def succeeds_def)

lemma data_bind_if: "keeps m0 m \<Longrightarrow> (\<And>u. UserData m = Some u \<Longrightarrow> if_some (f u) Q) \<Longrightarrow> if_some (Option.bind (UserData m) f) Q"
  using keeps_data by fastforce

lemma store_keeps: "keeps m0 m \<Longrightarrow> succeeds (store_cmd dev upd c v m) (keeps m0)"
  unfolding store_cmd_def by (rule data_bind, assumption) (simp add: cmd_keeps keeps_udata)

lemma each_keeps: "(\<And>k m. keeps m0 m \<Longrightarrow> succeeds (f k m) (keeps m0)) \<Longrightarrow> keeps m0 m \<Longrightarrow> succeeds (each_interrupt f ks m) (keeps m0)"
  by (induction ks arbitrary: m) (auto intro: succeeds_bind)

lemma start_task_keeps: "keeps m0 m \<Longrightarrow> succeeds (start_task dev i m) (keeps m0)"
  unfolding start_task_def
  by (rule succeeds_bind, erule writew_keeps, rule data_bind, assumption) (simp add: writew_keeps keeps_write)

lemma upd_task_keeps: "keeps m0 m \<Longrightarrow> succeeds (upd_task i f m) (keeps m0)"
  unfolding upd_task_def by (rule data_bind, assumption) (simp add: keeps_udata)

lemma set_tcb_keeps: "keeps m0 m \<Longrightarrow> succeeds (mtt_set_tcb dev tb i k m) (keeps m0)"
  unfolding mtt_set_tcb_def by (auto intro: succeeds_bind upd_task_keeps writew_keeps)

lemma get_tcb_keeps: "keeps m0 m \<Longrightarrow> succeeds (mtt_get_tcb dev tb i m) (\<lambda>(_, m'). keeps m0 m')"
  unfolding mtt_get_tcb_def
  by (rule data_bind, assumption) (auto simp: Let_def intro!: succeeds_bind[OF readw_keeps])

lemma read_words_keeps: "keeps m0 m \<Longrightarrow> keeps m0 (snd (read_words dev a n m))"
  by (induction n arbitrary: a m) (simp_all add: split_beta Let_def keeps_read)

lemma write_words_keeps: "keeps m0 m \<Longrightarrow> keeps m0 (write_words dev a vs m)"
  by (induction vs arbitrary: a m) (simp_all add: keeps_write)

lemma set_program_keeps: "keeps m0 m \<Longrightarrow> keeps m0 (mtt_set_program dev a xs m)"
  by (induction xs arbitrary: a m) (simp_all add: keeps_write keeps_hardware)

lemma get_program_keeps: "keeps m0 m \<Longrightarrow> keeps m0 (snd (mtt_get_program dev a n m))"
  by (induction n arbitrary: a m) (simp_all add: split_beta Let_def keeps_read keeps_hardware)

lemma status_keeps: "keeps m0 m \<Longrightarrow> succeeds (mtt_get_status dev m) (\<lambda>(_, m'). keeps m0 m')"
  unfolding mtt_get_status_def
  by (rule succeeds_bind, erule readw_keeps) (auto simp: Let_def keeps_udata intro!: data_bind)

lemma send_event_keeps: "keeps m0 m \<Longrightarrow> keeps_result m0 (mtt_send_event_ioctl dev ev m)"
proof -
  assume k: "keeps m0 m"
  have "succeeds (mtt_supports_prio dev m) (\<lambda>(_, m'). keeps m0 m')"
    using k by (auto simp: mtt_supports_prio_def intro!: succeeds_bind[OF readw_keeps])
  note low = if_some_bind[OF succeeds_if_some[OF this]]
  show ?thesis unfolding mtt_send_event_ioctl_def
    by (cases "Priority ev \<notin> {0, 1}") (use k in \<open>auto intro!: low ok_with_keeps cmd_keeps\<close>)
qed

lemma tasks_keeps: assumes "keeps m0 m"
  shows "keeps_result m0 (mtt_tasks_start_ioctl dev v m)" "keeps_result m0 (mtt_set_tasks dev reg v r m)"
    "keeps_result m0 (mtt_get_tasks dev reg m)" "keeps_result m0 (mtt_gs_tcb_ioctl dev tb st m)"
  using assms
  by (auto simp: mtt_tasks_start_ioctl_def mtt_set_tasks_def mtt_get_tasks_def mtt_gs_tcb_ioctl_def Let_def
      intro!: ok_with_keeps each_keeps start_task_keeps writew_keeps set_tcb_keeps
        if_some_bind[OF succeeds_if_some[OF readw_keeps]] if_some_bind[OF succeeds_if_some[OF get_tcb_keeps]])

lemma memory_keeps: assumes "keeps m0 m"
  shows "keeps_result m0 (mtt_gs_grval_ioctl dev rb st m)" "keeps_result m0 (mtt_gs_trval_ioctl dev tr st m)"
    "keeps_result m0 (mtt_rawio_ioctl dev al io st m)" "keeps_result m0 (mtt_gs_program_ioctl dev al p st m)"
  using assms read_words_keeps[OF assms] get_program_keeps[OF assms] keeps_read[OF assms]
  by (auto simp: mtt_gs_grval_ioctl_def mtt_gs_trval_ioctl_def mtt_rawio_ioctl_def mtt_gs_program_ioctl_def Let_def
      split_beta keeps_write write_words_keeps set_program_keeps split: option.split intro!: data_bind_if)

lemma ioctls_keep: assumes "keeps m0 m" shows "keeps_result m0 (mtt_Ioctls dev ct al m a)"
  using assms tasks_keeps[OF assms] memory_keeps[OF assms] send_event_keeps[OF assms] store_keeps[OF assms]
  by (cases a) (auto simp: mtt_gs_cableid_ioctl_def mtt_utc_sending_ioctl_def mtt_ext_1khz_ioctl_def mtt_gs_out_delay_ioctl_def
      mtt_out_enable_ioctl_def mtt_gs_sync_period_ioctl_def mtt_gs_utc_ioctl_def mtt_status_ioctl_def mtt_version_ioctl_def keeps_udata
      intro!: ok_with_keeps data_bind_if if_some_bind[OF succeeds_if_some[OF gs_utc_keeps]]
        if_some_bind[OF succeeds_if_some[OF ping_keeps]] if_some_bind[OF succeeds_if_some[OF readw_keeps]]
        if_some_bind[OF succeeds_if_some[OF status_keeps]])

subsection \<open>The driver as the user part\<close>

lemma version_keeps: "keeps m0 m \<Longrightarrow> succeeds (mtt_GetModuleVersion dev m) (\<lambda>(_, m'). keeps m0 m')"
  unfolding mtt_GetModuleVersion_def
  by (rule succeeds_bind, erule ping_keeps, rule succeeds_bind, erule readw_keeps) auto

lemma succeedsE: "succeeds x Q \<Longrightarrow> \<exists>y. x = Some y \<and> Q y"
  by (simp add: succeeds_def)

interpretation mtt: user_part "mtt_user dev ct ualloc balloc" has_data for dev ct ualloc balloc
proof
  fix m :: "'a mtt_mcon" assume "has_data (UserData m)"
  then have k: "keeps m m" by (rule keeps_refl)
  note d = mtt_user_def
  show "\<exists>m'. SkelUserEnableInterrupts (mtt_user dev ct ualloc balloc) m e = Some m' \<and> keeps m m'" for e
    using succeedsE[OF orw_keeps[OF k]] by (simp add: d mtt_EnableInterrupts_def)
  show "\<exists>t s m'. SkelUserGetInterruptSource (mtt_user dev ct ualloc balloc) m = Some (t, s, m') \<and> keeps m m'"
    using succeedsE[OF source_keeps[OF k]] by (fastforce simp: d)
  show "\<exists>t m'. SkelUserGetUtc (mtt_user dev ct ualloc balloc) m = Some (t, m') \<and> keeps m m'"
    using succeedsE[OF get_utc_keeps[OF k]] by (fastforce simp: d)
  show "\<exists>m'. SkelUserHardwareReset (mtt_user dev ct ualloc balloc) m = Some m' \<and> keeps m m'"
    using succeedsE[OF hardware_reset_keeps[OF k]] by (simp add: d)
  show "\<exists>v m'. SkelUserGetModuleVersion (mtt_user dev ct ualloc balloc) m = Some (v, m') \<and> keeps m m'"
    using succeedsE[OF version_keeps[OF k]] by (fastforce simp: d)
  show "\<exists>s m'. SkelUserGetHardwareStatus (mtt_user dev ct ualloc balloc) m = Some (s, m') \<and> keeps m m'"
    using k by (simp add: d mtt_GetHardwareStatus_def)
  show "\<exists>r m'. SkelUserHardwareEnable (mtt_user dev ct ualloc balloc) m f = Some (r, m') \<and> keeps m m'" for f
    using k by (simp add: d mtt_HardwareEnable_def)
  show "\<exists>r v m'. SkelUserJtagReadByte (mtt_user dev ct ualloc balloc) m = Some (r, v, m') \<and> keeps m m'"
    using succeedsE[OF reads_keeps[OF k, of dev 0]] by (auto simp: d mtt_JtagReadByte_def)
  show "\<exists>r m'. SkelUserJtagWriteByte (mtt_user dev ct ualloc balloc) m w = Some (r, m') \<and> keeps m m'" for w
    using succeedsE[OF writes_keeps[OF k, of dev 0 w]] by (auto simp: d mtt_JtagWriteByte_def)
  show "SkelUserIoctls (mtt_user dev ct ualloc balloc) m a = Some (r, m') \<Longrightarrow> keeps m m'" for a r m'
    using ioctls_keep[OF k] by (fastforce simp: d if_some_def)
next
  show "\<exists>c'. SkelUserClientRelease (mtt_user dev ct ualloc balloc) c = Some c'" for c
    by (simp add: mtt_user_def)
qed

end
