(* ===== verification/Skel_Install_Props.thy ===== *)
theory Skel_Install_Props
  imports Skel_Ops Skel_Install "HOL-Library.Multiset"
begin

text \<open>
  Installing the modules establishes the invariant of the working area, and keeps a balance between what a
  module holds (mappings, an interrupt vector) and what was taken from the bus.
\<close>

subsection \<open>A bus with a ledger\<close>

text \<open>The bus of the driver, with a record of the mappings (address and size) and vectors handed out and not yet
  given back.\<close>

type_synonym 'b ledger = "'b \<times> (nat \<times> u32) multiset \<times> u32 multiset"

definition ledger :: "'b vme_bus \<Rightarrow> 'b ledger vme_bus" where
  "ledger bus = \<lparr>
     bus_find_controller = (\<lambda>(b, M, V) base sz a dw. case bus_find_controller bus b base sz a dw of
        (None, b') \<Rightarrow> (None, b', M, V) | (Some p, b') \<Rightarrow> (Some p, b', add_mset (p, sz) M, V)),
     bus_return_controller = (\<lambda>(b, M, V) p sz. let (ok, b') = bus_return_controller bus b p sz
        in (ok, b', if ok then M - {#(p, sz)#} else M, V)),
     bus_intset = (\<lambda>(b, M, V) v i. let (ok, b') = bus_intset bus b v i in (ok, b', M, if ok then add_mset v V else V)),
     bus_intclr = (\<lambda>(b, M, V) v. let (ok, b') = bus_intclr bus b v in (ok, b', M, if ok then V - {#v#} else V))\<rparr>"

definition held_space :: "InsLibVmeAddressSpace \<Rightarrow> (nat \<times> u32) multiset" where
  "held_space v = (case Mapped v of None \<Rightarrow> {#} | Some p \<Rightarrow> {#(p, WindowSize v)#})"

definition held_spaces :: "InsLibVmeAddressSpace list \<Rightarrow> (nat \<times> u32) multiset" where
  "held_spaces vs = sum_list (map held_space vs)"

definition held :: "('u, 'h) SkelDrvrModuleContext \<Rightarrow> (nat \<times> u32) multiset" where
  "held m = (case ModuleAddress (Modld m) of None \<Rightarrow> {#} | Some vs \<Rightarrow> held_spaces vs)"

definition vectors :: "('u, 'h) SkelDrvrModuleContext \<Rightarrow> u32 multiset" where
  "vectors m = (if StandardStatus m AND NO_ISR \<noteq> 0 then {#} else case Isr (Modld m) of None \<Rightarrow> {#} | Some d \<Rightarrow> {#Vector d#})"

text \<open>A module that is not emulated and has an interrupt descriptor when an interrupt is installed.\<close>

definition real_module :: "('u, 'h) SkelDrvrModuleContext \<Rightarrow> bool" where
  "real_module m \<longleftrightarrow> StandardStatus m AND EMULATION = 0 \<and> (StandardStatus m AND NO_ISR = 0 \<longrightarrow> Isr (Modld m) \<noteq> None)"

lemma held_spaces_simps [simp]: "held_spaces [] = {#}" "held_spaces (v # vs) = held_space v + held_spaces vs"
  "held_spaces (us @ vs) = held_spaces us + held_spaces vs"
  by (simp_all add: held_spaces_def)

lemma held_set_spaces [simp]: "held (set_spaces vs m) = held_spaces vs" "vectors (set_spaces vs m) = vectors m"
  "StandardStatus (set_spaces vs m) = StandardStatus m" "Isr (Modld (set_spaces vs m)) = Isr (Modld m)"
  "BusType (Modld (set_spaces vs m)) = BusType (Modld m)" "IgnoreErrors (Modld (set_spaces vs m)) = IgnoreErrors (Modld m)"
  by (simp_all add: held_def set_spaces_def vectors_def)

lemma unmap_spaces_balance:
  assumes "unmap_spaces (ledger bus) force vs (b, M, V) = (vs', b', M', V')" "held_spaces vs \<subseteq># M"
  shows "M' + held_spaces vs = M + held_spaces vs' \<and> V' = V"
  using assms
proof (induction vs arbitrary: b M V vs')
  case (Cons v vs)
  show ?case
  proof (cases "Mapped v \<noteq> None \<and> (force \<or> FreeModifierFlag v) \<and> fst (bus_return_controller bus b (the (Mapped v)) (WindowSize v))")
    case True
    then obtain p b1 where p: "Mapped v = Some p" "force \<or> FreeModifierFlag v" "bus_return_controller bus b p (WindowSize v) = (True, b1)"
      by (metis option.collapse prod.collapse)
    then obtain us where us: "unmap_spaces (ledger bus) force vs (b1, M - {#(p, WindowSize v)#}, V) = (us, b', M', V')"
      "vs' = v\<lparr>Mapped := None\<rparr> # us"
      using Cons.prems(1) by (auto simp: ledger_def Let_def split_beta prod_eq_iff split: if_splits)
    have m: "(p, WindowSize v) \<in># M" "held_spaces vs \<subseteq># M - {#(p, WindowSize v)#}"
      using Cons.prems(2) p(1) by (auto simp: held_space_def insert_subset_eq_iff)
    have "M' + held_spaces vs = M - {#(p, WindowSize v)#} + held_spaces us \<and> V' = V" using Cons.IH[OF us(1) m(2)] .
    then show ?thesis using us(2) p(1) m(1) by (simp add: held_space_def)
  next
    case False
    then obtain b1 us where us: "unmap_spaces (ledger bus) force vs (b1, M, V) = (us, b', M', V')" "vs' = v # us"
      using Cons.prems(1) by (cases "Mapped v") (auto simp: ledger_def Let_def split_beta prod_eq_iff split: if_splits)
    have "held_spaces vs \<subseteq># M" using Cons.prems(2) by (metis held_spaces_simps(2) mset_subset_eq_add_right subset_mset.order_trans)
    from Cons.IH[OF us(1) this] show ?thesis using us(2) by simp
  qed
qed simp

lemma held_spaces_none: "\<forall>v\<in>set vs. Mapped v = None \<Longrightarrow> held_spaces vs = {#}"
  by (induction vs) (simp_all add: held_space_def)

lemma map_spaces_balance:
  assumes "map_spaces (ledger bus) dn vs m (b, M, V) = (cc, m', b', M', V')"
    "StandardStatus m AND EMULATION = 0" "\<forall>v\<in>set vs. Mapped v = None"
  shows "M' + held_spaces dn = M + held m' \<and> V' = V \<and> (\<exists>us. m' = set_spaces us m)"
  using assms
proof (induction vs arbitrary: dn b M V)
  case Nil
  then show ?case by auto
next
  case (Cons v vs)
  let ?v = "v\<lparr>BigEndian := True\<rparr>"
  have rest: "held_spaces vs = {#}" using Cons.prems(3) by (simp add: held_spaces_none)
  show ?case
  proof (cases "region_is_a_block ?v")
    case True
    then have "map_spaces (ledger bus) (dn @ [?v]) vs m (b, M, V) = (cc, m', b', M', V')"
      using Cons.prems by (simp add: map_vmeas_def Let_def)
    then show ?thesis using Cons.IH[of "dn @ [?v]" b M V] Cons.prems(2,3) by (simp add: held_space_def)
  next
    case False
    obtain p b1 where f: "bus_find_controller bus b (BaseAddress v) (WindowSize v) (AddressModifier v) (DataWidth v div 8) = (p, b1)"
      by (cases "bus_find_controller bus b (BaseAddress v) (WindowSize v) (AddressModifier v) (DataWidth v div 8)") auto
    show ?thesis
    proof (cases p)
      case None
      then show ?thesis using Cons.prems Cons.IH[of "dn @ [?v\<lparr>Mapped := None\<rparr>]" b1 M V] f False rest
        by (auto simp: map_vmeas_def Let_def do_vme_mapping_def ledger_def held_space_def split: if_splits)
    next
      case (Some q)
      then have "map_spaces (ledger bus) (dn @ [?v\<lparr>Mapped := Some q\<rparr>]) vs m (b1, add_mset (q, WindowSize v) M, V) = (cc, m', b', M', V')"
        using Cons.prems f False by (simp add: map_vmeas_def Let_def do_vme_mapping_def ledger_def)
      then show ?thesis using Cons.IH[of "dn @ [?v\<lparr>Mapped := Some q\<rparr>]" b1 "add_mset (q, WindowSize v) M" V] Cons.prems(2,3)
        by (auto simp: held_space_def)
    qed
  qed
qed

text \<open>What the bus functions may change of a module context.\<close>

definition bus_only :: "('u, 'h) SkelDrvrModuleContext \<Rightarrow> ('u, 'h) SkelDrvrModuleContext \<Rightarrow> bool" where
  "bus_only m m' \<longleftrightarrow> Connected m' = Connected m \<and> ModNumber m' = ModNumber m \<and> InUse m' = InUse m \<and> UserData m' = UserData m \<and>
     Isr (Modld m') = Isr (Modld m) \<and> BusType (Modld m') = BusType (Modld m) \<and>
     StandardStatus m' AND EMULATION = StandardStatus m AND EMULATION \<and>
     (StandardStatus m' AND NO_ISR = 0 \<longrightarrow> StandardStatus m AND NO_ISR = 0 \<or> Isr (Modld m) \<noteq> None)"

definition gives_back :: "'b vme_bus \<Rightarrow> bool" where
  "gives_back bus \<longleftrightarrow> (\<forall>b p sz. fst (bus_return_controller bus b p sz)) \<and> (\<forall>b v. fst (bus_intclr bus b v))"

lemma isr_bits: "(s OR NO_ISR) AND EMULATION = s AND EMULATION" "(s AND NOT NO_ISR) AND EMULATION = s AND EMULATION"
  "(s OR NO_ISR) AND NO_ISR = NO_ISR" "(s AND NOT NO_ISR) AND NO_ISR = 0" "NO_ISR \<noteq> 0" for s :: u32
  by (simp_all add: status_bits bit.conj_disj_distrib2 and.assoc)

lemma unmap_spaces_all: "gives_back bus \<Longrightarrow> held_spaces (fst (unmap_spaces (ledger bus) True vs l)) = {#}"
proof (induction vs arbitrary: l)
  case (Cons v vs)
  obtain b M V where l: "l = (b, M, V)" by (cases l) auto
  show ?case
  proof (cases "Mapped v")
    case None
    then show ?thesis using Cons.IH[OF Cons.prems, of l] by (simp add: held_space_def split_beta Let_def)
  next
    case (Some p)
    obtain b1 where "bus_return_controller bus b p (WindowSize v) = (True, b1)"
      using Cons.prems unfolding gives_back_def by (metis prod.collapse)
    then show ?thesis using Some l Cons.IH[OF Cons.prems, of "(b1, M - {#(p, WindowSize v)#}, V)"]
      by (simp add: held_space_def split_beta Let_def ledger_def)
  qed
qed simp

lemma unmap_vmeas_balance:
  assumes "unmap_vmeas (ledger bus) force m (b, M, V) = (m', b', M', V')" "held m \<subseteq># M"
  shows "M' + held m = M + held m' \<and> V' = V \<and> vectors m' = vectors m \<and> bus_only m m'"
  using assms unmap_spaces_balance[of bus force _ b M V _ b' M' V']
  by (auto simp: unmap_vmeas_def held_def set_spaces_def vectors_def bus_only_def split: option.splits prod.splits)

lemma unmap_vmeas_all: "gives_back bus \<Longrightarrow> held (fst (unmap_vmeas (ledger bus) True m l)) = {#}"
  using unmap_spaces_all[of bus _ l]
  by (auto simp: unmap_vmeas_def held_def set_spaces_def split: option.splits prod.splits) (metis fst_conv)

text \<open>Taking an interrupt back.\<close>

definition clear_isr :: "'b vme_bus \<Rightarrow> ('u, 'h) SkelDrvrModuleContext \<Rightarrow> 'b \<Rightarrow> (('u, 'h) SkelDrvrModuleContext \<times> 'b) option" where
  "clear_isr bus mcon b =
     (if StandardStatus mcon AND NO_ISR = 0
      then do {
        intrd \<leftarrow> Isr (Modld mcon);
        (let (ok, b') = bus_intclr bus b (Vector intrd)
         in Some (if ok then mcon\<lparr>StandardStatus := StandardStatus mcon OR NO_ISR\<rparr> else mcon, b')) }
      else Some (mcon, b))"

lemma RemoveVmeModule_alt: "RemoveVmeModule bus m b = do { (m1, b1) \<leftarrow> clear_isr bus m b; Some (unmap_vmeas bus True m1 b1) }"
  by (simp add: RemoveVmeModule_def clear_isr_def)

lemma clear_isr_balance:
  assumes "real_module m" "vectors m \<subseteq># V"
  shows "\<exists>m' b' V'. clear_isr (ledger bus) m (b, M, V) = Some (m', b', M, V') \<and> V' + vectors m = V + vectors m' \<and>
     held m' = held m \<and> bus_only m m' \<and> (gives_back bus \<longrightarrow> vectors m' = {#})"
proof (cases "StandardStatus m AND NO_ISR = 0")
  case True
  then obtain d where d: "Isr (Modld m) = Some d" using assms(1) by (auto simp: real_module_def)
  obtain ok b1 where c: "bus_intclr bus b (Vector d) = (ok, b1)" by (cases "bus_intclr bus b (Vector d)") auto
  have v: "vectors m = {#Vector d#}" using True d by (simp add: vectors_def)
  show ?thesis
  proof (cases ok)
    case ok: True
    let ?m = "m\<lparr>StandardStatus := StandardStatus m OR NO_ISR\<rparr>"
    have "clear_isr (ledger bus) m (b, M, V) = Some (?m, b1, M, V - {#Vector d#})"
      using True d c ok by (simp add: clear_isr_def ledger_def)
    moreover have "vectors ?m = {#}" "held ?m = held m" "bus_only m ?m"
      by (simp_all add: vectors_def held_def bus_only_def isr_bits)
    ultimately show ?thesis using v assms(2) by auto
  next
    case False
    then have "clear_isr (ledger bus) m (b, M, V) = Some (m, b1, M, V)" using True d c by (simp add: clear_isr_def ledger_def)
    moreover have "\<not> gives_back bus" using c False by (auto simp: gives_back_def) (metis fst_conv)
    ultimately show ?thesis by (auto simp: bus_only_def)
  qed
next
  case False
  then show ?thesis by (auto simp: clear_isr_def vectors_def bus_only_def)
qed

lemma bus_only_trans: "bus_only m m1 \<Longrightarrow> bus_only m1 m2 \<Longrightarrow> bus_only m m2"
  by (auto simp: bus_only_def)

lemma bus_only_real: "bus_only m m' \<Longrightarrow> real_module m \<Longrightarrow> real_module m'"
  by (auto simp: bus_only_def real_module_def)

lemma remove_vme_balance:
  assumes real: "real_module m" and sub: "held m \<subseteq># M" "vectors m \<subseteq># V"
  shows "\<exists>m' b' M' V'. RemoveVmeModule (ledger bus) m (b, M, V) = Some (m', b', M', V') \<and>
     M' + held m = M + held m' \<and> V' + vectors m = V + vectors m' \<and> bus_only m m' \<and>
     (gives_back bus \<longrightarrow> held m' = {#} \<and> vectors m' = {#})"
proof -
  from clear_isr_balance[OF real sub(2), of bus b M] obtain m1 b1 V1 where
    m1: "clear_isr (ledger bus) m (b, M, V) = Some (m1, b1, M, V1)" "V1 + vectors m = V + vectors m1"
       "held m1 = held m" "bus_only m m1" "gives_back bus \<Longrightarrow> vectors m1 = {#}" by blast
  obtain m2 b2 M2 V2 where m2: "unmap_vmeas (ledger bus) True m1 (b1, M, V1) = (m2, b2, M2, V2)"
    by (cases "unmap_vmeas (ledger bus) True m1 (b1, M, V1)") auto
  have "M2 + held m1 = M + held m2 \<and> V2 = V1 \<and> vectors m2 = vectors m1 \<and> bus_only m1 m2"
    using unmap_vmeas_balance[OF m2] sub(1) m1(3) by simp
  moreover have "gives_back bus \<Longrightarrow> held m2 = {#}" using unmap_vmeas_all[of bus m1 "(b1, M, V1)"] m2 by simp
  ultimately show ?thesis using m1 m2 bus_only_trans[OF m1(4)] by (auto simp: RemoveVmeModule_alt)
qed

subsection \<open>Adding a module\<close>

definition unmapped :: "InsLibModlDesc \<Rightarrow> bool" where
  "unmapped d \<longleftrightarrow> (case ModuleAddress d of None \<Rightarrow> True | Some vs \<Rightarrow> \<forall>v\<in>set vs. Mapped v = None)"

definition fresh_module :: "('u, 'h) SkelDrvrModuleContext \<Rightarrow> bool" where
  "fresh_module m \<longleftrightarrow> StandardStatus m AND EMULATION = 0 \<and> StandardStatus m AND NO_ISR \<noteq> 0 \<and> unmapped (Modld m)"

lemma fresh_moduleD: assumes "fresh_module m"
  shows "held m = {#}" "vectors m = {#}" "real_module m"
  using assms by (auto simp: fresh_module_def unmapped_def held_def vectors_def real_module_def held_spaces_none split: option.splits)

lemma ledger_intset: "bus_intset bus b v i = (ok, b') \<Longrightarrow>
    bus_intset (ledger bus) (b, M, V) v i = (ok, b', M, if ok then add_mset v V else V)"
  by (simp add: ledger_def)

lemma add_vme_balance:
  assumes fresh: "fresh_module m" and run: "AddVmeModule (ledger bus) i m (b, M, V) = Some (cc, m', b', M', V')"
  shows "M' = M + held m' \<and> V' = V + vectors m' \<and> bus_only m m' \<and> (\<not> cc \<longrightarrow> gives_back bus \<longrightarrow> held m' = {#} \<and> vectors m' = {#})"
proof -
  note f = fresh_moduleD[OF fresh]
  obtain ok m1 b1 M1 V1 where 1: "(case ModuleAddress (Modld m) of None \<Rightarrow> (True, m, b, M, V)
      | Some vs \<Rightarrow> map_spaces (ledger bus) [] vs m (b, M, V)) = (ok, m1, b1, M1, V1)" by (metis prod_cases5)
  have m1: "M1 = M + held m1 \<and> V1 = V \<and> vectors m1 = {#} \<and> bus_only m m1"
  proof (cases "ModuleAddress (Modld m)")
    case None
    then show ?thesis using 1 f by (auto simp: bus_only_def)
  next
    case (Some vs)
    then have "map_spaces (ledger bus) [] vs m (b, M, V) = (ok, m1, b1, M1, V1)" using 1 by simp
    from map_spaces_balance[OF this] fresh Some f show ?thesis
      by (auto simp: fresh_module_def unmapped_def bus_only_def set_spaces_def vectors_def)
  qed
  have real1: "real_module m1" using m1 f(3) bus_only_real by blast
  have rem: "\<exists>m' b' M' V'. RemoveVmeModule (ledger bus) m1 (b2, M1, V1) = Some (m', b', M', V') \<and> M' = M + held m' \<and> V' = V + vectors m' \<and>
      bus_only m m' \<and> (gives_back bus \<longrightarrow> held m' = {#} \<and> vectors m' = {#})" for b2
  proof -
    have "held m1 \<subseteq># M1" "vectors m1 \<subseteq># V1" using m1 by simp_all
    from remove_vme_balance[OF real1 this, of bus b2] show ?thesis using m1 by (auto dest: bus_only_trans simp: add.commute)
  qed
  show ?thesis
  proof (cases "ok \<and> (\<exists>d. Isr (Modld m1) = Some d \<and> IsrFlag d)")
    case True
    then obtain d where d: "ok" "Isr (Modld m1) = Some d" "IsrFlag d" by blast
    obtain o2 b2 where i: "bus_intset bus b1 (Vector d) i = (o2, b2)" by (cases "bus_intset bus b1 (Vector d) i") auto
    show ?thesis
    proof (cases "o2 \<or> IgnoreErrors (Modld m1)")
      case True
      have "bus_only m1 (m1\<lparr>StandardStatus := StandardStatus m1 AND NOT NO_ISR\<rparr>)" using d(2) by (simp add: bus_only_def isr_bits)
      moreover have "vectors (m1\<lparr>StandardStatus := StandardStatus m1 AND NOT NO_ISR\<rparr>) = {#Vector d#}"
        "held (m1\<lparr>StandardStatus := StandardStatus m1 AND NOT NO_ISR\<rparr>) = held m1" using d(2) by (simp_all add: vectors_def held_def isr_bits)
      ultimately show ?thesis using run 1 d ledger_intset[OF i] True m1
        by (auto simp: AddVmeModule_def Let_def split: if_splits intro: bus_only_trans)
    next
      case False
      then have "do { (m', b') \<leftarrow> RemoveVmeModule (ledger bus) m1 (b2, M1, V1); Some (False, m', b') } = Some (cc, m', b', M', V')"
        using run 1 d ledger_intset[OF i] by (simp add: AddVmeModule_def Let_def)
      then show ?thesis using rem[of b2] by auto
    qed
  next
    case False
    show ?thesis
    proof (cases ok)
      case True
      then have "(cc, m', b', M', V') = (True, m1, b1, M1, V1)"
        using run 1 False by (auto simp: AddVmeModule_def Let_def split: option.splits)
      then show ?thesis using m1 by simp
    next
      case False
      then have "do { (m', b') \<leftarrow> RemoveVmeModule (ledger bus) m1 (b1, M1, V1); Some (False, m', b') } = Some (cc, m', b', M', V')"
        using run 1 by (simp add: AddVmeModule_def Let_def)
      then show ?thesis using rem[of b1] by auto
    qed
  qed
qed

subsection \<open>A module with all its spaces mapped\<close>

lemma map_spaces_same:
  "map_spaces bus dn vs m b = (cc, m', b') \<Longrightarrow> StandardStatus m AND EMULATION = 0 \<Longrightarrow> \<exists>us. m' = set_spaces us m"
proof (induction vs arbitrary: dn b)
  case (Cons v vs)
  then show ?case by (auto simp: map_vmeas_def Let_def split: if_splits prod.splits)
qed auto

text \<open>Adding a module returns: the error exit finds no interrupt installed.\<close>

lemma AddVmeModule_total:
  assumes "fresh_module m"
  shows "\<exists>r. AddVmeModule bus i m b = Some r"
proof -
  obtain cc m1 b1 where 1: "(case ModuleAddress (Modld m) of None \<Rightarrow> (True, m, b) | Some vs \<Rightarrow> map_spaces bus [] vs m b) = (cc, m1, b1)"
    by (metis prod_cases3)
  have "StandardStatus m1 AND NO_ISR \<noteq> 0"
  proof (cases "ModuleAddress (Modld m)")
    case None
    then show ?thesis using 1 assms by (simp add: fresh_module_def)
  next
    case (Some vs)
    then obtain us where "m1 = set_spaces us m"
      using 1 assms map_spaces_same[of bus "[]" vs m b cc m1 b1] by (auto simp: fresh_module_def)
    then show ?thesis using assms by (simp add: fresh_module_def)
  qed
  then have rem: "RemoveVmeModule bus m1 b' = Some (unmap_vmeas bus True m1 b')" for b' by (simp add: RemoveVmeModule_def)
  show ?thesis unfolding AddVmeModule_def 1 by (simp add: rem Let_def split_beta split: option.split) blast
qed

definition space_key :: "InsLibVmeAddressSpace \<Rightarrow> u32 \<times> u32" where
  "space_key v = (AddressModifier v, DataWidth v)"

definition space_ready :: "InsLibVmeAddressSpace \<Rightarrow> bool" where
  "space_ready v \<longleftrightarrow> region_is_a_block v \<or> Mapped v \<noteq> None"

lemma map_spaces_ready:
  "map_spaces bus dn vs m b = (True, m', b') \<Longrightarrow> StandardStatus m AND EMULATION = 0 \<Longrightarrow> \<not> IgnoreErrors (Modld m) \<Longrightarrow>
     list_all space_ready dn \<Longrightarrow>
     \<exists>us. m' = set_spaces us m \<and> list_all space_ready us \<and> map space_key us = map space_key (dn @ vs)"
proof (induction vs arbitrary: dn b)
  case (Cons v vs)
  obtain v' b1 where v': "map_vmeas bus v m b = (True, v', m, b1)" "space_ready v'" "space_key v' = space_key v"
      "map_spaces bus (dn @ [v']) vs m b1 = (True, m', b')"
    using Cons.prems(1-3)
    by (auto simp: map_vmeas_def Let_def space_ready_def space_key_def region_is_a_block_def split: if_splits prod.splits)
  from Cons.IH[OF v'(4) Cons.prems(2,3)] Cons.prems(4) v'(2,3) show ?case by auto
qed auto

lemma find_vmeas_keys: "map space_key us = map space_key vs \<Longrightarrow> (find_vmeas a dw us = None) = (find_vmeas a dw vs = None)"
proof (induction us arbitrary: vs)
  case (Cons u us)
  then obtain v vs' where "vs = v # vs'" "space_key u = space_key v" "map space_key us = map space_key vs'" by (cases vs) auto
  then show ?case using Cons.IH[OF \<open>map space_key us = map space_key vs'\<close>] by (auto simp: space_key_def)
qed simp

lemma find_vmeas_in: "find_vmeas a dw vs = Some v \<Longrightarrow> v \<in> set vs \<and> AddressModifier v = a"
  by (induction vs) (auto split: if_splits)

lemma AddVmeModule_ready:
  assumes fresh: "fresh_module m" and run: "AddVmeModule bus i m b = Some (True, m', b')" and strict: "\<not> IgnoreErrors (Modld m)"
    and vs: "ModuleAddress (Modld m) = Some vs" "find_vmeas a dw vs \<noteq> None"
    and a: "a \<notin> {0x00, 0x03, 0x08, 0x0b, 0x0c, 0x0f, 0x37, 0x38, 0x3b, 0x3c, 0x3f}"
  shows "get_vmemap_addr m' a dw \<noteq> None"
proof -
  obtain cc m1 b1 where 1: "map_spaces bus [] vs m b = (cc, m1, b1)" by (metis prod_cases3)
  have cc: "cc" "Modld m' = Modld m1"
    using run 1 vs(1) by (auto simp: AddVmeModule_def Let_def split: if_splits option.splits bind_splits prod.splits)
  then obtain us where us: "m1 = set_spaces us m" "list_all space_ready us" "map space_key us = map space_key vs"
    using map_spaces_ready[of bus "[]" vs m b m1 b1] 1 fresh strict by (auto simp: fresh_module_def)
  then obtain v where v: "find_vmeas a dw us = Some v" using vs(2) find_vmeas_keys[OF us(3), of a dw] by (cases "find_vmeas a dw us") auto
  then have "Mapped v \<noteq> None"
    using find_vmeas_in[OF v] us(2) a by (auto simp: list_all_iff space_ready_def region_is_a_block_def)
  then show ?thesis using v us(1) cc(2) by (simp add: get_vmemap_addr_def set_spaces_def)
qed

subsection \<open>The contract of installation\<close>

locale module_part = user_part us ready for us :: "('u, 'h, 'a) skel_user" and ready :: "'u \<Rightarrow> bool" +
  assumes init: "SkelUserModuleInit us m = Some (r, m') \<Longrightarrow>
      (\<exists>u h. m' = m\<lparr>UserData := u, hardware := h\<rparr>) \<and> (r \<noteq> SkelUserReturnFAILED \<longrightarrow> ready (UserData m'))"
    and module_release: "SkelUserModuleRelease us m = Some m' \<Longrightarrow> \<exists>u h. m' = m\<lparr>UserData := u, hardware := h\<rparr>"
    and module_release_total: "ready (UserData m) \<Longrightarrow> \<exists>m'. SkelUserModuleRelease us m = Some m'"

lemma user_fields: "held (m\<lparr>UserData := u, hardware := h\<rparr>) = held m" "vectors (m\<lparr>UserData := u, hardware := h\<rparr>) = vectors m"
  "real_module (m\<lparr>UserData := u, hardware := h\<rparr>) = real_module m"
  by (simp_all add: held_def vectors_def real_module_def)

definition skel_fields :: "('u, 'h) SkelDrvrModuleContext \<Rightarrow> ('u, 'h) SkelDrvrModuleContext \<Rightarrow> bool" where
  "skel_fields m m' \<longleftrightarrow> Connected m' = Connected m \<and> ModNumber m' = ModNumber m \<and> InUse m' = InUse m \<and>
     StandardStatus m' AND EMULATION = StandardStatus m AND EMULATION"

context module_part
begin

lemma add_module_balance:
  assumes fresh: "fresh_module m" and run: "AddModule us (ledger bus) i m (b, M, V) = Some (ok, m', b', M', V')"
  shows "skel_fields m m' \<and> (ok \<longrightarrow> M' = M + held m' \<and> V' = V + vectors m' \<and> real_module m' \<and> BusType (Modld m') = BusVME \<and> ready (UserData m')) \<and>
     (\<not> ok \<longrightarrow> gives_back bus \<longrightarrow> M' = M \<and> V' = V)"
proof (cases "BusType (Modld m) = BusVME")
  case False
  then show ?thesis using run by (cases "BusType (Modld m)") (auto simp: AddModule_def skel_fields_def)
next
  case True
  then obtain cc m1 b1 M1 V1 where 1: "AddVmeModule (ledger bus) i m (b, M, V) = Some (cc, m1, b1, M1, V1)"
    using run by (auto simp: AddModule_def split: bind_splits)
  from add_vme_balance[OF fresh 1] have b1: "M1 = M + held m1" "V1 = V + vectors m1" "bus_only m m1"
    "\<not> cc \<Longrightarrow> gives_back bus \<Longrightarrow> held m1 = {#} \<and> vectors m1 = {#}" by auto
  have real1: "real_module m1" using bus_only_real[OF b1(3) fresh_moduleD(3)[OF fresh]] .
  have vme1: "BusType (Modld m1) = BusVME" using b1(3) True by (simp add: bus_only_def)
  show ?thesis
  proof (cases cc)
    case False
    then show ?thesis using run True 1 b1 by (auto simp: AddModule_def skel_fields_def bus_only_def)
  next
    case cc: True
    obtain r m2 where 2: "SkelUserModuleInit us m1 = Some (r, m2)" using run True 1 cc by (auto simp: AddModule_def split: bind_splits)
    from init[OF 2] obtain u h where m2: "m2 = m1\<lparr>UserData := u, hardware := h\<rparr>" "r \<noteq> SkelUserReturnFAILED \<Longrightarrow> ready u" by auto
    have real2: "real_module m2" "BusType (Modld m2) = BusVME" "held m2 = held m1" "vectors m2 = vectors m1"
      using m2(1) real1 vme1 by (simp_all add: user_fields)
    show ?thesis
    proof (cases "r = SkelUserReturnFAILED")
      case True
      then obtain m3 where 3: "SkelUserModuleRelease us m2 = Some m3" "RemoveVmeModule (ledger bus) m3 (b1, M1, V1) = Some (m', b', M', V')" "\<not> ok"
        using run \<open>BusType (Modld m) = BusVME\<close> 1 cc 2 real2 module_release
        by (fastforce simp: AddModule_def RemoveModule_def real_module_def split: bind_splits)
      from module_release[OF 3(1)] obtain u' h' where m3: "m3 = m2\<lparr>UserData := u', hardware := h'\<rparr>" by blast
      have "real_module m3" "held m3 \<subseteq># M1" "vectors m3 \<subseteq># V1" using m3 real2 b1 by (simp_all add: user_fields)
      from remove_vme_balance[OF this, of bus b1] 3(2) have "M' + held m3 = M1 + held m'" "V' + vectors m3 = V1 + vectors m'"
        "bus_only m3 m'" "gives_back bus \<Longrightarrow> held m' = {#} \<and> vectors m' = {#}" by auto
      then show ?thesis using 3(3) m3 m2(1) b1 by (auto simp: user_fields skel_fields_def bus_only_def)
    next
      case False
      then have 3: "unmap_vmeas (ledger bus) False m2 (b1, M1, V1) = (m', b', M', V')" "ok"
        using run \<open>BusType (Modld m) = BusVME\<close> 1 cc 2 real2(2) by (auto simp: AddModule_def unmap_flagged_def split: prod.splits)
      have "M' + held m2 = M1 + held m' \<and> V' = V1 \<and> vectors m' = vectors m2 \<and> bus_only m2 m'"
        using unmap_vmeas_balance[OF 3(1)] real2 b1 by simp
      then show ?thesis using 3(2) real2 b1 m2(1) m2(2)[OF False] bus_only_real[of m2 m'] by (auto simp: skel_fields_def bus_only_def)
    qed
  qed
qed

end

subsection \<open>Installing and removing the driver\<close>

definition good_module :: "('u \<Rightarrow> bool) \<Rightarrow> ('u, 'h) SkelDrvrModuleContext \<Rightarrow> bool" where
  "good_module ready m \<longleftrightarrow> real_module m \<and> BusType (Modld m) = BusVME \<and> ready (UserData m) \<and>
     conn_clients (Connected m) = replicate 32 []"

definition held_all :: "('u, 'h) SkelDrvrModuleContext list \<Rightarrow> (nat \<times> u32) multiset" where
  "held_all ms = sum_list (map held ms)"

definition vectors_all :: "('u, 'h) SkelDrvrModuleContext list \<Rightarrow> u32 multiset" where
  "vectors_all ms = sum_list (map vectors ms)"

definition installing :: "('u \<Rightarrow> bool) \<Rightarrow> InsLibModlDesc list \<Rightarrow> ('u, 'h) SkelDrvrWorkingArea \<Rightarrow> bool" where
  "installing ready ms wa \<longleftrightarrow> InstalledModules wa \<le> length (Modules wa) \<and> ModuleCount (Drvrd wa) \<le> length (Modules wa) \<and>
     \<not> EmulationFlags (Drvrd wa) \<and> (\<forall>m\<in>set (installed wa). good_module ready m) \<and>
     (\<forall>m\<in>set (drop (InstalledModules wa) (Modules wa)). \<not> InUse m \<and> StandardStatus m AND EMULATION = 0) \<and>
     (\<forall>d\<in>set ms. unmapped d) \<and> distinct (numbers wa @ map ModlNumber ms) \<and> 0 \<notin> set (numbers wa @ map ModlNumber ms)"

lemma defaults_fresh: "fresh_module (set_mcon_defaults dd m)" "conn_clients (Connected (set_mcon_defaults dd m)) = replicate 32 []"
    "ModNumber (set_mcon_defaults dd m) = ModNumber m" "InUse (set_mcon_defaults dd m) = InUse m"
  if "\<not> EmulationFlags dd" "StandardStatus m AND EMULATION = 0" "unmapped (Modld m)"
  using that by (simp_all add: fresh_module_def set_mcon_defaults_def Let_def isr_bits skel_sizes)

lemma in_set_drop_update: "m \<in> set (drop i (xs[i := x])) \<Longrightarrow> m = x \<or> m \<in> set (drop i xs)"
  by (metis drop_update_swap insert_iff le_refl set_update_subset_insert subsetD)

context module_part
begin

lemma install_loop_balance:
  assumes "install_loop us (ledger bus) hw ms (InstalledModules wa) wa (b, M, V) = Some (wa', b', M', V')" "installing ready ms wa"
  shows "installing ready [] wa' \<and> clients wa' = clients wa \<and> ccons wa' = ccons wa \<and>
     (gives_back bus \<longrightarrow> M' + held_all (installed wa) = M + held_all (installed wa') \<and>
        V' + vectors_all (installed wa) = V + vectors_all (installed wa'))"
  using assms
proof (induction ms arbitrary: wa b M V)
  case Nil
  then show ?case by simp
next
  case (Cons d ms)
  let ?i = "InstalledModules wa"
  show ?case
  proof (cases "?i \<ge> ModuleCount (Drvrd wa)")
    case True
    then show ?thesis using Cons.prems by (auto simp: installing_def)
  next
    case False
    then have i: "?i < length (Modules wa)" using Cons.prems(2) by (simp add: installing_def)
    let ?ctx = "(Modules wa ! ?i)\<lparr>Modld := d, ModNumber := ModlNumber d, hardware := hw d\<rparr>"
    let ?m = "set_mcon_defaults (Drvrd wa) ?ctx"
    have old: "\<not> InUse (Modules wa ! ?i)" "StandardStatus (Modules wa ! ?i) AND EMULATION = 0"
      using Cons.prems(2) i by (auto simp: installing_def Cons_nth_drop_Suc[symmetric])
    have pre: "\<not> EmulationFlags (Drvrd wa)" "StandardStatus ?ctx AND EMULATION = 0" "unmapped (Modld ?ctx)"
      using old(2) Cons.prems(2) by (simp_all add: installing_def)
    have m: "fresh_module ?m" "conn_clients (Connected ?m) = replicate 32 []" "ModNumber ?m = ModlNumber d" "\<not> InUse ?m"
      using defaults_fresh[OF pre] old(1) by simp_all
    obtain ok m' b1 M1 V1 where add: "AddModule us (ledger bus) ?i ?m (b, M, V) = Some (ok, m', b1, M1, V1)"
      using Cons.prems(1) False by (auto simp: Let_def split: bind_splits)
    from add_module_balance[OF m(1) add] have am: "skel_fields ?m m'"
      "ok \<Longrightarrow> M1 = M + held m' \<and> V1 = V + vectors m' \<and> real_module m' \<and> BusType (Modld m') = BusVME \<and> ready (UserData m')"
      "\<not> ok \<Longrightarrow> gives_back bus \<Longrightarrow> M1 = M \<and> V1 = V" by auto
    show ?thesis
    proof (cases ok)
      case True
      let ?m'' = "m'\<lparr>InUse := True\<rparr>"
      let ?wa = "wa\<lparr>Modules := (Modules wa)[?i := ?m''], InstalledModules := ?i + 1\<rparr>"
      have inst: "installed ?wa = installed wa @ [?m'']" using i by (simp add: installed_def take_Suc_conv_app_nth)
      have num: "numbers ?wa = numbers wa @ [ModlNumber d]" using inst am(1) m(3) by (simp add: numbers_def skel_fields_def)
      have good: "good_module ready ?m''" "held ?m'' = held m'" "vectors ?m'' = vectors m'"
        using am(1) am(2)[OF True] m(2) by (simp_all add: good_module_def skel_fields_def real_module_def held_def vectors_def)
      have "set (drop (?i + 1) ((Modules wa)[?i := ?m''])) \<subseteq> set (drop ?i (Modules wa))"
        by (simp add: set_drop_subset_set_drop)
      then have "installing ready ms ?wa" using Cons.prems(2) inst num good(1) i by (auto simp: installing_def)
      moreover have "install_loop us (ledger bus) hw ms (InstalledModules ?wa) ?wa (b1, M1, V1) = Some (wa', b', M', V')"
        using Cons.prems(1) False add True by (simp add: Let_def)
      ultimately show ?thesis using Cons.IH[of ?wa b1 M1 V1] inst good am(2)[OF True]
        by (auto simp: held_all_def vectors_all_def ac_simps)
    next
      case False
      let ?wa = "wa\<lparr>Modules := (Modules wa)[?i := m']\<rparr>"
      have inst: "installed ?wa = installed wa" by (simp add: installed_def)
      have "\<not> InUse m'" "StandardStatus m' AND EMULATION = 0" using am(1) m(1,4) by (simp_all add: skel_fields_def fresh_module_def)
      then have "installing ready ms ?wa" using Cons.prems(2) inst
        by (auto simp: installing_def numbers_def dest!: in_set_drop_update)
      moreover have "install_loop us (ledger bus) hw ms (InstalledModules ?wa) ?wa (b1, M1, V1) = Some (wa', b', M', V')"
        using Cons.prems(1) \<open>\<not> ?i \<ge> ModuleCount (Drvrd wa)\<close> add False by (simp add: Let_def)
      ultimately show ?thesis using Cons.IH[of ?wa b1 M1 V1] inst am(3)[OF False] by auto
    qed
  qed
qed

lemma remove_module_balance:
  assumes good: "real_module m" "BusType (Modld m) = BusVME" "ready (UserData m)" and sub: "held m \<subseteq># M" "vectors m \<subseteq># V"
    and gb: "gives_back bus"
  shows "\<exists>m' b' M' V'. RemoveModule us (ledger bus) m (b, M, V) = Some (m', b', M', V') \<and> M' + held m = M \<and> V' + vectors m = V"
proof -
  from module_release_total[OF good(3)] obtain m1 where m1: "SkelUserModuleRelease us m = Some m1" by blast
  from module_release[OF m1] obtain u h where u: "m1 = m\<lparr>UserData := u, hardware := h\<rparr>" by blast
  have "real_module m1" "held m1 \<subseteq># M" "vectors m1 \<subseteq># V" using u good sub by (simp_all add: user_fields)
  from remove_vme_balance[OF this, of bus b] obtain m' b' M' V' where
    "RemoveVmeModule (ledger bus) m1 (b, M, V) = Some (m', b', M', V')" "M' + held m1 = M + held m'" "V' + vectors m1 = V + vectors m'"
    "held m' = {#}" "vectors m' = {#}" using gb by blast
  then show ?thesis using m1 u good(1,2) by (auto simp: RemoveModule_def real_module_def user_fields)
qed

lemma uninstall_loop_balance:
  assumes "distinct is" "\<forall>i\<in>set is. i < length (Modules wa) \<and> good_module ready (Modules wa ! i)" "gives_back bus"
    "held_all (map (\<lambda>i. Modules wa ! i) is) \<subseteq># M" "vectors_all (map (\<lambda>i. Modules wa ! i) is) \<subseteq># V"
  shows "\<exists>wa' b' M' V'. uninstall_loop us (ledger bus) is wa (b, M, V) = Some (wa', b', M', V') \<and>
     M' + held_all (map (\<lambda>i. Modules wa ! i) is) = M \<and> V' + vectors_all (map (\<lambda>i. Modules wa ! i) is) = V"
  using assms
proof (induction "is" arbitrary: wa b M V)
  case Nil
  then show ?case by (simp add: held_all_def vectors_all_def)
next
  case (Cons i "is")
  let ?m = "Modules wa ! i"
  have sub: "held ?m \<subseteq># M" "vectors ?m \<subseteq># V"
    using Cons.prems(4,5) by (simp_all add: held_all_def vectors_all_def) (metis mset_subset_eq_add_left subset_mset.order_trans)+
  have good: "real_module ?m" "BusType (Modld ?m) = BusVME" "ready (UserData ?m)" using Cons.prems(2) by (simp_all add: good_module_def)
  from remove_module_balance[OF good sub Cons.prems(3), of b] obtain m' b1 M1 V1 where
    m: "RemoveModule us (ledger bus) ?m (b, M, V) = Some (m', b1, M1, V1)" "M1 + held ?m = M" "V1 + vectors ?m = V" by blast
  have same: "map (\<lambda>k. Modules (set_mcon i m' wa) ! k) is = map (\<lambda>k. Modules wa ! k) is"
    using Cons.prems(1) by (auto intro: nth_list_update_neq)
  have "\<exists>wa' b' M' V'. uninstall_loop us (ledger bus) is (set_mcon i m' wa) (b1, M1, V1) = Some (wa', b', M', V') \<and>
     M' + held_all (map (\<lambda>k. Modules (set_mcon i m' wa) ! k) is) = M1 \<and> V' + vectors_all (map (\<lambda>k. Modules (set_mcon i m' wa) ! k) is) = V1"
  proof (rule Cons.IH)
    show "held_all (map ((!) (Modules (set_mcon i m' wa))) is) \<subseteq># M1" "vectors_all (map ((!) (Modules (set_mcon i m' wa))) is) \<subseteq># V1"
      using Cons.prems(4,5) m(2,3) unfolding same by (auto simp: held_all_def vectors_all_def add.commute)
  qed (use Cons.prems in \<open>auto simp: nth_list_update\<close>)
  then show ?case using m unfolding same by (auto simp: held_all_def vectors_all_def ac_simps)
qed

lemma wa_inv_installed: "wa_inv ready wa"
  if "installing ready [] wa" "InstalledModules wa \<noteq> 0" "clients wa = []" "ccons wa = Map.empty"
  using that by (auto simp: wa_inv_def installing_def mod_ok_def good_module_def conn_ok_def skel_sizes)

lemma install_uninstall:
  assumes run: "SkelDrvrInstall us (ledger bus) hw u0 h0 (Some dd) True (b, {#}, {#}) = Some (r, b', M', V')"
    and desc: "\<not> EmulationFlags dd" "\<forall>d\<in>set (DrvrModules dd). unmapped d"
      "distinct (map ModlNumber (DrvrModules dd))" "0 \<notin> set (map ModlNumber (DrvrModules dd))"
    and gb: "gives_back bus"
  shows "case r of Inl _ \<Rightarrow> M' = {#} \<and> V' = {#}
     | Inr wa \<Rightarrow> wa_inv ready wa \<and> (\<exists>b''. SkelDrvrUninstall us (ledger bus) (Some wa) (b', M', V') = Some (OK, None, b'', {#}, {#}))"
proof -
  let ?w = "wa_init u0 h0 dd"
  have w: "InstalledModules ?w = 0" "installed ?w = []" "Drvrd ?w = dd" "clients ?w = []" "ccons ?w = Map.empty"
    by (simp_all add: wa_init_def installed_def)
  show ?thesis
  proof (cases "ModuleCount dd = 0 \<or> ModuleCount dd > 8")
    case True
    then show ?thesis using run w by (auto simp: SkelDrvrInstall_def modules_install_def skel_sizes split: if_splits)
  next
    case False
    then obtain wa where wa: "install_loop us (ledger bus) hw (DrvrModules dd) (InstalledModules ?w) ?w (b, {#}, {#}) = Some (wa, b', M', V')"
      "r = (if InstalledModules wa = 0 then Inl ENODEV else Inr wa)"
      using run w by (auto simp: SkelDrvrInstall_def modules_install_def skel_sizes split: if_splits bind_splits)
    have "installing ready (DrvrModules dd) ?w" using desc False
      by (auto simp: installing_def wa_init_def skel_sizes zero_mcon_def numbers_def installed_def simp flip: set_map)
    from install_loop_balance[OF wa(1) this] have i: "installing ready [] wa" "clients wa = []" "ccons wa = Map.empty"
      "M' = held_all (installed wa)" "V' = vectors_all (installed wa)" using gb w by (auto simp: held_all_def vectors_all_def)
    show ?thesis
    proof (cases "InstalledModules wa = 0")
      case True
      then show ?thesis using wa(2) i(4,5) by (simp add: installed_def held_all_def vectors_all_def)
    next
      case False
      have inst: "map (\<lambda>i. Modules wa ! i) [0 ..< InstalledModules wa] = installed wa"
        using i(1) by (auto simp: installed_def installing_def intro!: nth_equalityI)
      have "\<forall>k\<in>set [0 ..< InstalledModules wa]. k < length (Modules wa) \<and> good_module ready (Modules wa ! k)"
        using i(1) by (auto simp: installing_def installed_def all_set_conv_all_nth)
      from uninstall_loop_balance[OF _ this gb, of M' V' b'] inst i(4,5) obtain wa2 b2 where
        "uninstall_loop us (ledger bus) [0 ..< InstalledModules wa] wa (b', M', V') = Some (wa2, b2, {#}, {#})" by auto
      then show ?thesis using wa(2) False i wa_inv_installed[OF i(1)]
        by (auto simp: SkelDrvrUninstall_def modules_uninstall_def)
    qed
  qed
qed

lemma install_inv:
  assumes run: "SkelDrvrInstall us (ledger bus) hw u0 h0 (Some dd) True (b, {#}, {#}) = Some (Inr wa, b', M', V')"
    and desc: "\<not> EmulationFlags dd" "\<forall>d\<in>set (DrvrModules dd). unmapped d"
      "distinct (map ModlNumber (DrvrModules dd))" "0 \<notin> set (map ModlNumber (DrvrModules dd))"
  shows "wa_inv ready wa"
proof -
  let ?w = "wa_init u0 h0 dd"
  have w: "InstalledModules ?w = 0" "Drvrd ?w = dd" "clients ?w = []" "ccons ?w = Map.empty" by (simp_all add: wa_init_def)
  have c: "ModuleCount dd \<le> 8" "InstalledModules wa \<noteq> 0"
    "install_loop us (ledger bus) hw (DrvrModules dd) (InstalledModules ?w) ?w (b, {#}, {#}) = Some (wa, b', M', V')"
    using run w by (auto simp: SkelDrvrInstall_def modules_install_def skel_sizes split: if_splits bind_splits)
  have "installing ready (DrvrModules dd) ?w" using desc c(1)
    by (auto simp: installing_def wa_init_def skel_sizes zero_mcon_def numbers_def installed_def simp flip: set_map)
  from install_loop_balance[OF c(3) this] show ?thesis using wa_inv_installed[of wa] c(2) w by simp
qed

end

end
