(* ===== verification/Skel_Read.thy ===== *)
theory Skel_Read
  imports Skel_Ops
begin

text \<open>
  A read interleaved with interrupts. The reader of a client goes through the steps of \<open>SkelDrvrRead\<close>, each under
  the lock of the queue or the semaphore; events arrive at any moment in between.
\<close>

datatype reader = Idle | Waiting | Failed | Woken

text \<open>The wait fails (timeout, or a signal when there is no timeout) only while the semaphore is 0.\<close>

inductive read_step :: "SkelDrvrClientContext \<times> reader \<Rightarrow> SkelDrvrClientContext \<times> reader \<Rightarrow> bool" where
  event: "read_step (c, p) (q_put rb c, p)"
| start: "read_step (c, Idle) (read_begin c, Waiting)"
| wake: "Semaphore c > 0 \<Longrightarrow> read_step (c, Waiting) (c\<lparr>Semaphore := Semaphore c - 1\<rparr>, Woken)"
| fail: "Semaphore c = 0 \<Longrightarrow> read_step (c, Waiting) (c, Failed)"
| finish: "read_step (c, Woken) (snd (read_finish c), Idle)"
| abort: "read_step (c, Failed) (read_abort c, Idle)"

inductive_cases read_stepE: "read_step (c, p) s"

definition read_inv :: "SkelDrvrClientContext \<times> reader \<Rightarrow> bool" where
  "read_inv s \<longleftrightarrow> (case s of (c, p) \<Rightarrow> Size (Queue c) \<le> Semaphore c + of_bool (p = Woken))"

lemma read_inv_step: "read_step s s' \<Longrightarrow> read_inv s \<Longrightarrow> read_inv s'"
  by (induction rule: read_step.induct)
    (auto simp: read_inv_def q_put_def read_begin_def reset_queue_def read_finish_def q_get_def read_abort_def client_timeout_def Let_def)

lemma read_inv_steps: "read_step\<^sup>*\<^sup>* s s' \<Longrightarrow> read_inv s \<Longrightarrow> read_inv s'"
  by (induction rule: rtranclp_induct) (auto intro: read_inv_step)

text \<open>C23: In every interleaving of a reader with interrupts, its own timeouts included, a
reader that waits while an event is counted in its queue can go on.\<close>

theorem queued_event_wakes_reader:
  assumes "client_init us pid flp wa = Some c0" "read_step\<^sup>*\<^sup>* (c0, Idle) (c, Waiting)" "Size (Queue c) > 0"
  shows "\<exists>c'. read_step (c, Waiting) (c', Woken) \<and> Queue c' = Queue c"
proof -
  have "read_inv (c0, Idle)" using assms(1)
    by (auto simp: read_inv_def client_init_def reset_queue_def zero_ccon_def Let_def split: if_splits)
  from read_inv_steps[OF assms(2) this] assms(3) have "Semaphore c > 0" by (simp add: read_inv_def)
  from wake[OF this] show ?thesis by force
qed

text \<open>An event that arrives between a timeout and its handling is dropped from the count but not from the buffer:
  the next read returns it in place of the newer event, which the read after that does not find.\<close>

definition sample_event :: "u32 \<Rightarrow> SkelDrvrReadBuf" where
  "sample_event k = \<lparr>Connection = \<lparr>Module = 1, ConMask = k\<rparr>, Time = \<lparr>Second = 7, NanoSecond = 0\<rparr>\<rparr>"

definition late_client :: SkelDrvrClientContext where
  "late_client = q_put (sample_event 2) (client_timeout (q_put (sample_event 1) (zero_ccon\<lparr>Timeout := 2000\<rparr>)))"

lemma late_client_reached: "read_step\<^sup>*\<^sup>* (zero_ccon\<lparr>Timeout := 2000\<rparr>, Idle) (late_client\<lparr>Semaphore := 1\<rparr>, Woken)"
proof -
  let ?c0 = "zero_ccon\<lparr>Timeout := 2000\<rparr>" and ?e1 = "sample_event 1" and ?e2 = "sample_event 2"
  have q: "read_begin ?c0 = ?c0" "Semaphore ?c0 = 0" by (simp_all add: read_begin_def zero_ccon_def)
  have a: "read_abort (q_put ?e1 ?c0) = client_timeout (q_put ?e1 ?c0)"
    by (simp add: read_abort_def q_put_def Let_def zero_ccon_def)
  have l: "read_begin late_client = late_client" "Semaphore late_client = 2"
    by (simp_all add: late_client_def read_begin_def q_put_def client_timeout_def Let_def zero_ccon_def skel_sizes)
  have "read_step (?c0, Idle) (?c0, Waiting)" using start[of ?c0] q(1) by simp
  moreover have "read_step (?c0, Waiting) (?c0, Failed)" using fail[OF q(2)] .
  moreover have "read_step (?c0, Failed) (q_put ?e1 ?c0, Failed)" by (rule event)
  moreover have "read_step (q_put ?e1 ?c0, Failed) (client_timeout (q_put ?e1 ?c0), Idle)" using abort[of "q_put ?e1 ?c0"] a by simp
  moreover have "read_step (client_timeout (q_put ?e1 ?c0), Idle) (late_client, Idle)" unfolding late_client_def by (rule event)
  moreover have "read_step (late_client, Idle) (late_client, Waiting)" using start[of late_client] l(1) by simp
  moreover have "read_step (late_client, Waiting) (late_client\<lparr>Semaphore := 1\<rparr>, Woken)" using wake[of late_client] l(2) by simp
  ultimately show ?thesis by (meson converse_rtranclp_into_rtranclp rtranclp.rtrancl_refl)
qed

lemma stale_event_read:
  "fst (read_finish (late_client\<lparr>Semaphore := 1\<rparr>)) = Some (sample_event 1)"
  "fst (read_finish ((snd (read_finish (late_client\<lparr>Semaphore := 1\<rparr>)))\<lparr>Semaphore := 0\<rparr>)) = None"
  by (simp_all add: late_client_def read_finish_def q_get_def q_put_def client_timeout_def Let_def zero_ccon_def skel_sizes
      sample_event_def zero_rb_def)

end
