(* ===== verification/Mtt_Driver_Spec.thy ===== *)
theory Mtt_Driver_Spec
  imports Mtt_Driver_Props Skel_Install_Props Skel_Read
begin

text \<open>
  The properties of the sequencer driver: the driver framework with the functions of \<open>mtt-skel.c\<close> as its user
  part, on any device and any bus.
\<close>

subsection \<open>Installation\<close>

lemma data_fields:
  fixes m :: "('u, 'h) SkelDrvrModuleContext"
  shows "\<exists>u h. m = m\<lparr>UserData := u, hardware := h\<rparr>" "\<exists>u h. m\<lparr>UserData := b\<rparr> = m\<lparr>UserData := u, hardware := h\<rparr>"
    "\<exists>u h. m\<lparr>hardware := a, UserData := b\<rparr> = m\<lparr>UserData := u, hardware := h\<rparr>"
proof -
  show "\<exists>u h. m = m\<lparr>UserData := u, hardware := h\<rparr>" by (rule exI[of _ "UserData m"], rule exI[of _ "hardware m"]) simp
  show "\<exists>u h. m\<lparr>UserData := b\<rparr> = m\<lparr>UserData := u, hardware := h\<rparr>" by (rule exI[of _ b], rule exI[of _ "hardware m"]) simp
  show "\<exists>u h. m\<lparr>hardware := a, UserData := b\<rparr> = m\<lparr>UserData := u, hardware := h\<rparr>" by (rule exI[of _ b], rule exI[of _ a]) simp
qed

lemma quiesce_release: "mtt_ModuleRelease dev m = Some m' \<Longrightarrow> \<exists>u h. m' = m\<lparr>UserData := u, hardware := h\<rparr>"
proof -
  assume run: "mtt_ModuleRelease dev m = Some m'"
  then have "has_data (UserData m)"
    by (auto simp: mtt_ModuleRelease_def mtt_quiesce_def mtt_writew_def has_data_def split: bind_splits)
  from succeedsE[OF quiesce_keeps[OF keeps_refl[OF this]]] obtain m1 where
    "mtt_quiesce dev m = Some m1" "keeps m m1" by blast
  then show ?thesis using run keepsE[of m m1] by (auto simp: mtt_ModuleRelease_def data_fields)
qed

lemma module_init_fields:
  assumes "mtt_ModuleInit dev al m = Some (r, m')"
  shows "(\<exists>u h. m' = m\<lparr>UserData := u, hardware := h\<rparr>) \<and> (r \<noteq> SkelUserReturnFAILED \<longrightarrow> has_data (UserData m'))"
proof -
  show ?thesis
  proof (cases "al \<and> get_vmemap_addr m 0x39 32 \<noteq> None \<and> get_vmemap_addr m 0x29 16 \<noteq> None")
    case False
    then show ?thesis using assms by (auto simp: mtt_ModuleInit_def data_fields split: if_splits option.splits)
  next
    case True
    then obtain io jt where a: "get_vmemap_addr m 0x39 32 = Some io" "get_vmemap_addr m 0x29 16 = Some jt" by auto
    let ?m = "set_udata (zero_udata\<lparr>iomap := io, jtag := jt\<rparr>) m"
    have "has_data (UserData ?m)" by (simp add: set_udata_def has_data_def)
    from succeedsE[OF hardware_reset_keeps[OF keeps_refl[OF this]]] obtain m1 where
      m1: "mtt_HardwareReset dev ?m = Some m1" "keeps ?m m1" by blast
    then have "m' = m1" using assms True a by (simp add: mtt_ModuleInit_def)
    then show ?thesis using keepsE[OF m1(2)] by (auto simp: set_udata_def has_data_def)
  qed
qed

interpretation mttm: module_part "mtt_user dev ct ualloc balloc" has_data for dev ct ualloc balloc
proof
  fix m m' :: "'a mtt_mcon" and r
  show "SkelUserModuleInit (mtt_user dev ct ualloc balloc) m = Some (r, m') \<Longrightarrow>
      (\<exists>u h. m' = m\<lparr>UserData := u, hardware := h\<rparr>) \<and> (r \<noteq> SkelUserReturnFAILED \<longrightarrow> has_data (UserData m'))"
    using module_init_fields[of dev ualloc m r m'] by (simp add: mtt_user_def)
  show "SkelUserModuleRelease (mtt_user dev ct ualloc balloc) m = Some m' \<Longrightarrow> \<exists>u h. m' = m\<lparr>UserData := u, hardware := h\<rparr>"
    using quiesce_release[of dev m m'] by (simp add: mtt_user_def)
  assume "has_data (UserData m)"
  from succeedsE[OF quiesce_keeps[OF keeps_refl[OF this], of dev]]
  show "\<exists>m'. SkelUserModuleRelease (mtt_user dev ct ualloc balloc) m = Some m'" by (auto simp: mtt_user_def mtt_ModuleRelease_def)
qed

text \<open>The description of a sequencer module: both address spaces, and errors are not ignored.\<close>

definition mtt_descriptor :: "InsLibModlDesc \<Rightarrow> bool" where
  "mtt_descriptor d \<longleftrightarrow> \<not> IgnoreErrors d \<and>
     (case ModuleAddress d of None \<Rightarrow> False | Some vs \<Rightarrow> find_vmeas 0x39 32 vs \<noteq> None \<and> find_vmeas 0x29 16 vs \<noteq> None)"

lemma add_module_returns:
  assumes fresh: "fresh_module m" and d: "mtt_descriptor (Modld m)"
  shows "\<exists>r. AddModule (mtt_user dev ct True ba) bus i m b = Some r"
proof (cases "BusType (Modld m) = BusVME")
  case False
  then show ?thesis by (cases "BusType (Modld m)") (auto simp: AddModule_def)
next
  case True
  obtain cc m1 b1 where 1: "AddVmeModule bus i m b = Some (cc, m1, b1)" using AddVmeModule_total[OF fresh, of bus i b] by auto
  show ?thesis
  proof (cases cc)
    case False
    then show ?thesis using True 1 by (auto simp: AddModule_def)
  next
    case cc: True
    obtain vs where vs: "ModuleAddress (Modld m) = Some vs" "find_vmeas 0x39 32 vs \<noteq> None" "find_vmeas 0x29 16 vs \<noteq> None" "\<not> IgnoreErrors (Modld m)"
      using d by (auto simp: mtt_descriptor_def split: option.splits)
    obtain io jt where a: "get_vmemap_addr m1 0x39 32 = Some io" "get_vmemap_addr m1 0x29 16 = Some jt"
      using AddVmeModule_ready[OF fresh 1[unfolded eqTrueI[OF cc]] vs(4,1,2)] AddVmeModule_ready[OF fresh 1[unfolded eqTrueI[OF cc]] vs(4,1,3)] by auto
    have "has_data (UserData (set_udata (zero_udata\<lparr>iomap := io, jtag := jt\<rparr>) m1))" by (simp add: set_udata_def has_data_def)
    from succeedsE[OF hardware_reset_keeps[OF keeps_refl[OF this], of dev]] obtain m2 where
      "mtt_HardwareReset dev (set_udata (zero_udata\<lparr>iomap := io, jtag := jt\<rparr>) m1) = Some m2" by blast
    then have "mtt_ModuleInit dev True m1 = Some (SkelUserReturnOK, m2)" using a by (simp add: mtt_ModuleInit_def)
    then show ?thesis using True 1 cc by (auto simp: AddModule_def mtt_user_def split_beta Let_def)
  qed
qed

lemma install_loop_returns:
  "\<forall>d\<in>set ms. unmapped d \<and> mtt_descriptor d \<Longrightarrow> \<not> EmulationFlags (Drvrd wa) \<Longrightarrow> ModuleCount (Drvrd wa) \<le> length (Modules wa) \<Longrightarrow>
     \<forall>m\<in>set (drop i (Modules wa)). StandardStatus m AND EMULATION = 0 \<Longrightarrow>
     \<exists>r. install_loop (mtt_user dev ct True ba) (ledger bus) hw ms i wa (b, M, V) = Some r"
proof (induction ms arbitrary: i wa b M V)
  case (Cons d ms)
  show ?case
  proof (cases "i \<ge> ModuleCount (Drvrd wa)")
    case True
    then show ?thesis by simp
  next
    case False
    let ?ctx = "(Modules wa ! i)\<lparr>Modld := d, ModNumber := ModlNumber d, hardware := hw d\<rparr>"
    let ?m = "set_mcon_defaults (Drvrd wa) ?ctx"
    have i: "i < length (Modules wa)" using False Cons.prems(3) by simp
    then have "StandardStatus (Modules wa ! i) AND EMULATION = 0" using Cons.prems(4) by (auto simp: Cons_nth_drop_Suc[symmetric])
    then have fresh: "fresh_module ?m" using Cons.prems(1,2) by (intro defaults_fresh(1)) simp_all
    have "mtt_descriptor (Modld ?m)" using Cons.prems(1) by (simp add: set_mcon_defaults_def Let_def)
    from add_module_returns[OF fresh this, of dev ct ba "ledger bus" i "(b, M, V)"] obtain ok m' b1 M1 V1 where
      add: "AddModule (mtt_user dev ct True ba) (ledger bus) i ?m (b, M, V) = Some (ok, m', b1, M1, V1)" by (metis surj_pair)
    have m': "StandardStatus m' AND EMULATION = 0"
      using mttm.add_module_balance[OF fresh add] fresh by (simp add: skel_fields_def fresh_module_def)
    let ?wa = "wa\<lparr>Modules := (Modules wa)[i := m'\<lparr>InUse := True\<rparr>], InstalledModules := InstalledModules wa + 1\<rparr>"
    have later: "\<forall>m\<in>set (drop (Suc i) (Modules ?wa)). StandardStatus m AND EMULATION = 0"
      using Cons.prems(4) set_drop_subset_set_drop[of i "Suc i" "Modules wa"] by auto
    have again: "\<forall>m\<in>set (drop i (Modules (wa\<lparr>Modules := (Modules wa)[i := m']\<rparr>))). StandardStatus m AND EMULATION = 0"
      using Cons.prems(4) m' by (auto dest!: in_set_drop_update)
    show ?thesis
      using False add Cons.IH[of ?wa "Suc i" b1 M1 V1] Cons.IH[of "wa\<lparr>Modules := (Modules wa)[i := m']\<rparr>" i b1 M1 V1] later again Cons.prems(1-3)
      by (cases ok) (simp_all add: Let_def)
  qed
qed simp

lemma install_returns:
  assumes "\<not> EmulationFlags dd" "\<forall>d\<in>set (DrvrModules dd). unmapped d \<and> mtt_descriptor d"
  shows "\<exists>r. SkelDrvrInstall (mtt_user dev ct True ba) (ledger bus) hw None h0 (Some dd) True (b, {#}, {#}) = Some r"
proof (cases "ModuleCount dd = 0 \<or> ModuleCount dd > 8")
  case True
  then show ?thesis by (auto simp: SkelDrvrInstall_def modules_install_def wa_init_def skel_sizes)
next
  case False
  then obtain wa l where "install_loop (mtt_user dev ct True ba) (ledger bus) hw (DrvrModules dd) 0 (wa_init None h0 dd) (b, {#}, {#}) = Some (wa, l)"
    using install_loop_returns[of "DrvrModules dd" "wa_init None h0 dd" 0 dev ct ba bus hw b "{#}" "{#}"] assms
    by (auto simp: wa_init_def skel_sizes zero_mcon_def)
  then show ?thesis using False by (cases l) (simp add: SkelDrvrInstall_def modules_install_def skel_sizes wa_init_def)
qed

subsection \<open>Steps of the driver\<close>

text \<open>The calls of processes and the interrupts of installed modules, in any order; a new context is at an address
  that is not in use.\<close>

inductive drv_step :: "('u, 'h, 'a) skel_user \<Rightarrow> 'h vme_device \<Rightarrow> ('u, 'h) SkelDrvrWorkingArea \<Rightarrow> ('u, 'h) SkelDrvrWorkingArea \<Rightarrow> bool"
  for us :: "('u, 'h, 'a) skel_user" and dev :: "'h vme_device" where
  ds_opened: "\<forall>a. actx = Some a \<longrightarrow> a \<notin> dom (ccons wa) \<Longrightarrow> snd (SkelDrvrOpen us actx alink pid flp (Some wa)) = Some wa' \<Longrightarrow> drv_step us dev wa wa'"
| ds_closed: "SkelDrvrClose us flp wa = Some (r, wa') \<Longrightarrow> drv_step us dev wa wa'"
| ds_read: "SkelDrvrRead flp wa = Some (r', wa') \<Longrightarrow> drv_step us dev wa wa'"
| ds_write: "SkelDrvrWrite us conx wa = Some (r, wa') \<Longrightarrow> drv_step us dev wa wa'"
| ds_ioctl: "SkelDrvrIoctl us dev kalloc flp cm wa = Some (q, wa') \<Longrightarrow> drv_step us dev wa wa'"
| ds_interrupt: "i < InstalledModules wa \<Longrightarrow> IntrHandler us i wa = Some wa' \<Longrightarrow> drv_step us dev wa wa'"

context user_part
begin

lemma close_entry: "\<exists>r wa'. SkelDrvrClose us flp wa = Some (r, wa') \<and> wa_inv ready wa'" if inv: "wa_inv ready wa"
proof -
  obtain f where f: "skel_get_ccon flp wa = Some f" "case f of None \<Rightarrow> True | Some c \<Rightarrow> c \<in> set (clients wa)"
    using skel_get_ccon_some[OF inv, of flp] by (auto split: option.splits)
  show ?thesis
  proof (cases f)
    case None
    then show ?thesis using f(1) inv by (simp add: SkelDrvrClose_def)
  next
    case (Some c)
    then show ?thesis using f close_ok[OF inv, of c] by (auto simp: SkelDrvrClose_def)
  qed
qed

lemma step_inv: "drv_step us dev wa wa' \<Longrightarrow> wa_inv ready wa \<Longrightarrow> wa_inv ready wa'"
proof (induction rule: drv_step.induct)
  case (ds_opened actx wa alink pid flp wa')
  then show ?case using open_ok[of ready wa actx us alink pid flp] by auto
next
  case (ds_closed flp wa r wa')
  then show ?case using close_entry[of wa flp] by auto
next
  case (ds_read flp wa r' wa')
  then show ?case using read_ok[of ready wa flp] by auto
next
  case (ds_write conx wa r wa')
  then show ?case using write_ok[of wa conx] by auto
next
  case (ds_ioctl kalloc flp cm wa q wa')
  then show ?case using ioctl_ok(1)[of wa dev kalloc flp cm q wa'] by auto
next
  case (ds_interrupt i wa wa')
  then show ?case using intr_handler[of wa i] by auto
qed

lemma steps_inv: "(drv_step us dev)\<^sup>*\<^sup>* wa wa' \<Longrightarrow> wa_inv ready wa \<Longrightarrow> wa_inv ready wa'"
  by (induction rule: rtranclp_induct) (auto intro: step_inv)

lemma select_entry: "wa_inv ready wa \<Longrightarrow> \<exists>r. SkelDrvrSelect flp rd wa = Some (r, wa)"
  using skel_get_ccon_some[of ready wa flp] by (auto simp: SkelDrvrSelect_def split: option.splits)

end

subsection \<open>A small driver\<close>

text \<open>A module with its two address spaces and an interrupt, on a bus that grants everything and a device that
  reads 8 everywhere.\<close>

definition sample_space :: "u32 \<Rightarrow> u32 \<Rightarrow> u32 \<Rightarrow> InsLibVmeAddressSpace" where
  "sample_space a dw base = \<lparr>Mapped = None, AddressModifier = a, WindowSize = 0x10000, DataWidth = dw, BigEndian = False,
     BaseAddress = base, FreeModifierFlag = False\<rparr>"

definition sample_modld :: InsLibModlDesc where
  "sample_modld = \<lparr>BusType = BusVME, ModlNumber = 1, IgnoreErrors = False, Isr = Some \<lparr>IsrFlag = True, Vector = 0xb8, Level = 2\<rparr>,
     ModuleAddress = Some [sample_space 0x39 32 0x100000, sample_space 0x29 16 0x1000]\<rparr>"

definition sample_drvrd :: InsLibDrvrDesc where
  "sample_drvrd = \<lparr>DrvrModules = [sample_modld], DebugFlags = 0, EmulationFlags = False, ModuleCount = 1\<rparr>"

definition sample_bus :: "unit vme_bus" where
  "sample_bus = \<lparr>bus_find_controller = (\<lambda>b base sz a dw. (Some (unat base), b)), bus_return_controller = (\<lambda>b p sz. (True, b)),
     bus_intset = (\<lambda>b v i. (True, b)), bus_intclr = (\<lambda>b v. (True, b))\<rparr>"

definition sample_device :: "unit vme_device" where
  "sample_device = \<lparr>dev_read = (\<lambda>h a w e. (8, h)), dev_write = (\<lambda>h a w e v. h)\<rparr>"

abbreviation sample_us :: "(udata option, unit, mtt_ioctl) skel_user" where
  "sample_us \<equiv> mtt_user sample_device 0 True True"

text \<open>A working area with one module and two clients, one of them connected to source 3.\<close>

definition sample_client :: "nat \<Rightarrow> SkelDrvrClientContext" where
  "sample_client flp = zero_ccon\<lparr>cdcmf := flp, Timeout := 2000, Pid := 100, ModuleNumber := 1\<rparr>"

definition sample_mcon :: "(udata option, unit) SkelDrvrModuleContext" where
  "sample_mcon = (zero_mcon (Some (zero_udata\<lparr>iomap := 0x100000\<rparr>)) ())\<lparr>ModNumber := 1, InUse := True, Modld := sample_modld, ModSemaphore := 1,
     Connected := \<lparr>conn_clients = (replicate 32 [])[3 := [5]], enabled_ints = 8\<rparr>, StandardStatus := NO_ISR\<rparr>"

definition sample_wa :: "(udata option, unit) SkelDrvrWorkingArea" where
  "sample_wa = \<lparr>Drvrd = sample_drvrd, InstalledModules = 1, clients = [5, 6], Modules = [sample_mcon],
     ccons = [5 \<mapsto> sample_client 50, 6 \<mapsto> sample_client 60]\<rparr>"

lemma sample_wa_inv: "wa_inv has_data sample_wa"
proof -
  have "client_ok {1} (sample_client f)" for f
    by (simp add: client_ok_def sample_client_def zero_ccon_def q_ok_def skel_sizes)
  moreover have "mod_ok has_data {5, 6} sample_mcon"
    by (auto simp: mod_ok_def sample_mcon_def zero_mcon_def has_data_def conn_ok_def skel_sizes dest!: subsetD[OF set_update_subset_insert])
  ultimately show ?thesis
    by (auto simp: wa_inv_def sample_wa_def installed_def numbers_def ran_def sample_mcon_def zero_mcon_def split: if_splits)
qed

lemma sample_ccon: "skel_get_ccon 50 sample_wa = Some (Some 5)" "skel_get_ccon 60 sample_wa = Some (Some 6)"
  by (simp_all add: skel_get_ccon_def sample_wa_def sample_client_def)

lemma sample_installs: "\<exists>wa l. SkelDrvrInstall sample_us (ledger sample_bus) (\<lambda>_. ()) None () (Some sample_drvrd) True ((), {#}, {#}) = Some (Inr wa, l)"
  by (simp add: SkelDrvrInstall_def modules_install_def wa_init_def sample_drvrd_def skel_sizes sample_modld_def set_mcon_defaults_def zero_mcon_def
      Let_def AddModule_def AddVmeModule_def sample_space_def map_vmeas_def region_is_a_block_def do_vme_mapping_def ledger_def sample_bus_def set_spaces_def
      status_bits mtt_user_def mtt_ModuleInit_def get_vmemap_addr_def mtt_HardwareReset_def mtt_reset_def mtt_quiesce_def mtt_writew_def mtt_readw_def
      set_udata_def io_write_def io_read_def sample_device_def mtt_cmd_def udata_set_defaults_def cmd_if_def zero_udata_def unmap_flagged_def unmap_vmeas_def)

subsection \<open>Properties of the driver\<close>

text \<open>C5: After a successful installation of the sequencer driver, without emulation, on
module descriptors with no mapping yet and with distinct numbers other than 0, every sequence of
open, close, read, write, ioctl and interrupt, each running to its end before the next (an
interrupt during the wait of a read is not among the steps), keeps the invariant of the working
area: modules ready and numbered without repetition, links only to open clients and at most one
per interrupt and client, queues in order with their semaphore counting the events, and clients on
installed modules.\<close>

theorem mtt_driver_invariant:
  assumes "SkelDrvrInstall (mtt_user dev ct ua ba) (ledger bus) hw None h0 (Some dd) True (b, {#}, {#}) = Some (Inr wa0, b', M', V')"
    and "\<not> EmulationFlags dd" "\<forall>d\<in>set (DrvrModules dd). unmapped d"
      "distinct (map ModlNumber (DrvrModules dd))" "0 \<notin> set (map ModlNumber (DrvrModules dd))"
    and "(drv_step (mtt_user dev ct ua ba) dev)\<^sup>*\<^sup>* wa0 wa"
  shows "wa_inv has_data wa"
  by (rule mtt.steps_inv[OF assms(6) mttm.install_inv[OF assms(1-5)]])

theorem mtt_driver_invariant_witness:
  "\<exists>wa l. SkelDrvrInstall sample_us (ledger sample_bus) (\<lambda>_. ()) None () (Some sample_drvrd) True ((), {#}, {#}) = Some (Inr wa, l) \<and> wa_inv has_data wa"
proof -
  obtain wa b' M' V' where run: "SkelDrvrInstall sample_us (ledger sample_bus) (\<lambda>_. ()) None () (Some sample_drvrd) True ((), {#}, {#}) = Some (Inr wa, b', M', V')"
    using sample_installs by (metis surj_pair)
  have "wa_inv has_data wa"
    by (rule mtt_driver_invariant[OF run _ _ _ _ rtranclp.rtrancl_refl]) (simp_all add: sample_drvrd_def sample_modld_def sample_space_def unmapped_def)
  then show ?thesis using run by blast
qed

text \<open>C11: From a working area in the invariant, after any sequence of calls and interrupts,
no close, read, write, select, interrupt or ioctl other than the raw and module specific ones
follows a link to a client that was freed or to a module that is not there.\<close>

theorem driver_follows_no_stale_link:
  assumes "wa_inv has_data wa0" "(drv_step (mtt_user dev ct ua ba) dev)\<^sup>*\<^sup>* wa0 wa"
  shows "SkelDrvrClose (mtt_user dev ct ua ba) flp wa \<noteq> None \<and> SkelDrvrRead flp wa \<noteq> None \<and>
     SkelDrvrWrite (mtt_user dev ct ua ba) conx wa \<noteq> None \<and> SkelDrvrSelect flp rd wa \<noteq> None \<and>
     (i < InstalledModules wa \<longrightarrow> IntrHandler (mtt_user dev ct ua ba) i wa \<noteq> None) \<and>
     (\<not> raw_or_user cm \<longrightarrow> SkelDrvrIoctl (mtt_user dev ct ua ba) dev kalloc flp cm wa \<noteq> None)"
proof -
  have inv: "wa_inv has_data wa" by (rule mtt.steps_inv[OF assms(2,1)])
  have io: "\<not> raw_or_user cm \<Longrightarrow> \<exists>r wa'. SkelDrvrIoctl (mtt_user dev ct ua ba) dev kalloc flp cm wa = Some (r, wa')"
    by (rule mtt.ioctl_ok(2)[OF inv])
  show ?thesis
    using mtt.close_entry[OF inv, of dev ct ua ba flp] read_ok[OF inv, of flp] mtt.write_ok[OF inv, of dev ct ua ba conx]
      mtt.select_entry[OF inv, of flp rd] mtt.intr_handler[OF inv, of i dev ct ua ba] io
    by fastforce
qed

theorem driver_follows_no_stale_link_witness:
  "SkelDrvrClose sample_us 50 sample_wa \<noteq> None \<and> IntrHandler sample_us 0 sample_wa \<noteq> None \<and>
   SkelDrvrIoctl sample_us sample_device (\<lambda>_. True) 50 RESET sample_wa \<noteq> None"
  using driver_follows_no_stale_link[OF sample_wa_inv rtranclp.rtrancl_refl, of sample_device 0 True True 50 "\<lparr>Module = 1, ConMask = 1\<rparr>" True 0 RESET "\<lambda>_. True"]
  by (simp add: sample_wa_def)

text \<open>The events of an interrupt for a client, with the module number and the time.\<close>

definition interrupt_events :: "('u, 'h) SkelDrvrModuleContext \<Rightarrow> SkelDrvrTime \<Rightarrow> u32 \<Rightarrow> nat \<Rightarrow> SkelDrvrReadBuf list" where
  "interrupt_events m t src a =
     map (\<lambda>k. \<lparr>Connection = \<lparr>Module = ModNumber m, ConMask = 2 ^ k\<rparr>, Time = t\<rparr>)
       (filter (\<lambda>k. bit src k \<and> a \<in> set (conn_clients (Connected m) ! k)) [0 ..< 32])"

text \<open>C9: From a working area in the invariant (queues in order, semaphores equal to their
sizes), an interrupt of an installed module appends to the queue of every client one event per
raised source that the client is connected to, in the order of the sources, with the module number
and the time; the queue keeps the last 32 events and the semaphore still counts them.\<close>

theorem interrupt_delivers_events:
  assumes inv: "wa_inv has_data wa" and i: "i < InstalledModules wa" and a: "ccons wa a = Some ccon"
  shows "\<exists>t src m wa' ccon'. mtt_GetInterruptSource dev (Modules wa ! i) = Some (t, src, m) \<and>
     IntrHandler (mtt_user dev ct ua ba) i wa = Some wa' \<and> ccons wa' a = Some ccon' \<and>
     q_events (Queue ccon') = last_n SkelDrvrQUEUE_SIZE (q_events (Queue ccon) @ interrupt_events (Modules wa ! i) t src a) \<and>
     Semaphore ccon' = Size (Queue ccon')"
proof -
  from mtt.intr_handler[OF inv i, of dev ct ua ba] obtain t src m wa' where
    r: "mtt_GetInterruptSource dev (Modules wa ! i) = Some (t, src, m)" "IntrHandler (mtt_user dev ct ua ba) i wa = Some wa'"
       "wa_inv has_data wa'"
       "ccons wa' a = map_option (fold q_put (deliveries [0 ..< 32] (Connected (Modules wa ! i))
          \<lparr>Connection = \<lparr>Module = ModNumber (Modules wa ! i), ConMask = 0\<rparr>, Time = t\<rparr> src a)) (ccons wa a)"
    by (auto simp: mtt_user_def)
  have "deliveries [0 ..< 32] (Connected (Modules wa ! i)) \<lparr>Connection = \<lparr>Module = ModNumber (Modules wa ! i), ConMask = 0\<rparr>, Time = t\<rparr> src a =
      interrupt_events (Modules wa ! i) t src a" by (simp add: deliveries_def interrupt_events_def)
  then have c: "ccons wa' a = Some (fold q_put (interrupt_events (Modules wa ! i) t src a) ccon)" using r(4) a by simp
  have "q_ok (Queue ccon)" using wa_invD(4)[OF inv a] by (simp add: client_ok_def)
  from cq.puts_events[OF this] wa_invD(4)[OF r(3) c] show ?thesis using r(1,2) c by (auto simp: client_ok_def)
qed

theorem interrupt_delivers_events_witness:
  "\<exists>wa' ccon'. IntrHandler sample_us 0 sample_wa = Some wa' \<and> ccons wa' 5 = Some ccon' \<and>
     q_events (Queue ccon') = [\<lparr>Connection = \<lparr>Module = 1, ConMask = 8\<rparr>, Time = \<lparr>Second = 8, NanoSecond = 8000\<rparr>\<rparr>]"
proof -
  have b: "bit (8 :: u32) k \<longleftrightarrow> k = 3" for k
    using bit_exp_iff[where 'a = u32, of 3 k] by auto
  have f: "filter (\<lambda>k. k = 3 \<and> P k) [0 ..< 32] = (if P 3 then [3] else [])" for P by (simp add: upt_rec numeral_3_eq_3)
  have ev: "interrupt_events (Modules sample_wa ! 0) \<lparr>Second = 8, NanoSecond = 8000\<rparr> 8 5 =
      [\<lparr>Connection = \<lparr>Module = 1, ConMask = 8\<rparr>, Time = \<lparr>Second = 8, NanoSecond = 8000\<rparr>\<rparr>]"
    unfolding interrupt_events_def b f by (simp add: sample_wa_def sample_mcon_def zero_mcon_def)
  have "ccons sample_wa 5 = Some (sample_client 50)" "0 < InstalledModules sample_wa" by (simp_all add: sample_wa_def)
  from interrupt_delivers_events[OF sample_wa_inv this(2,1), of sample_device 0 True True] ev show ?thesis
    by (auto simp: mtt_GetInterruptSource_def mtt_readw_def mtt_GetUtc_def mtt_gs_utc_def io_read_def sample_device_def sample_wa_def
        sample_mcon_def zero_mcon_def sample_client_def zero_ccon_def q_events_def skel_sizes)
qed

text \<open>C19: From a working area in the invariant, closing the file of a client removes the
client from the list, frees its context and takes exactly its links out of every interrupt of
every module, in the order of the others.\<close>

theorem close_removes_client:
  assumes inv: "wa_inv has_data wa" and f: "skel_get_ccon flp wa = Some (Some c)"
  shows "\<exists>wa'. SkelDrvrClose (mtt_user dev ct ua ba) flp wa = Some (Inr (), wa') \<and> clients wa' = remove1 c (clients wa) \<and>
     ccons wa' = (ccons wa)(c := None) \<and>
     (\<forall>i<InstalledModules wa. \<forall>j<32. conn_clients (Connected (Modules wa' ! i)) ! j = remove1 c (conn_clients (Connected (Modules wa ! i)) ! j) \<and>
        c \<notin> set (conn_clients (Connected (Modules wa' ! i)) ! j))"
proof -
  have c: "c \<in> set (clients wa)" using skel_get_ccon_some[OF inv, of flp] f by simp
  from mtt.close_ok[OF inv c, of dev ct ua ba] obtain wa' where w: "do_close (mtt_user dev ct ua ba) c wa = Some wa'"
    "clients wa' = remove1 c (clients wa)" "ccons wa' = (ccons wa)(c := None)"
    "\<And>i j. i < InstalledModules wa \<Longrightarrow> j < 32 \<Longrightarrow> conn_clients (Connected (Modules wa' ! i)) ! j = remove1 c (conn_clients (Connected (Modules wa ! i)) ! j)"
    by blast
  have "distinct (conn_clients (Connected (Modules wa ! i)) ! j)" if "i < InstalledModules wa" "j < 32" for i j
    using conn_okD(1)[OF _ that(2)] wa_invD(1)[OF inv that(1)] by (auto simp: mod_ok_def)
  then show ?thesis using w f by (auto simp: SkelDrvrClose_def set_remove1_eq)
qed

theorem close_removes_client_witness:
  "\<exists>wa'. SkelDrvrClose sample_us 50 sample_wa = Some (Inr (), wa') \<and> clients wa' = [6] \<and>
     conn_clients (Connected (Modules wa' ! 0)) ! 3 = []"
proof -
  from close_removes_client[OF sample_wa_inv sample_ccon(1), of sample_device 0 True True] obtain wa' where
    "SkelDrvrClose sample_us 50 sample_wa = Some (Inr (), wa')" "clients wa' = remove1 5 (clients sample_wa)"
    "\<And>i j. i < InstalledModules sample_wa \<Longrightarrow> j < 32 \<Longrightarrow>
      conn_clients (Connected (Modules wa' ! i)) ! j = remove1 5 (conn_clients (Connected (Modules sample_wa ! i)) ! j)" by blast
  then show ?thesis by (auto simp: sample_wa_def sample_mcon_def)
qed

text \<open>C29: From a working area in the invariant, a connect request of an open client with a
mask that is not 0 and a module that exists adds the client in front of the list of every
interrupt of the mask in which it is not yet and for which a link can be allocated, and leaves all
other lists alone; the interrupts of the mask are enabled when the client was or is now in the
list of at least one of them, and otherwise none is.\<close>

theorem connect_adds_client:
  assumes inv: "wa_inv has_data wa" and f: "skel_get_ccon flp wa = Some (Some c)" and ccon: "ccons wa c = Some ccon"
    and t: "get_mcon (if Module conx = 0 then ModuleNumber ccon else Module conx) wa = Some i" and msk: "ConMask conx \<noteq> 0"
  shows "\<exists>m. SkelDrvrIoctl (mtt_user dev ct ua ba) dev alloc flp (CONNECT conx) wa = Some (Inr Rnone, set_mcon i m wa) \<and>
     enabled_ints (Connected m) = enabled_ints (Connected (Modules wa ! i)) OR
       (if \<exists>j<32. bit (ConMask conx) j \<and> (c \<in> set (conn_clients (Connected (Modules wa ! i)) ! j) \<or> alloc j) then ConMask conx else 0) \<and>
     (\<forall>j<32. conn_clients (Connected m) ! j = (let cl = conn_clients (Connected (Modules wa ! i)) ! j in
        if bit (ConMask conx) j \<and> c \<notin> set cl \<and> alloc j then c # cl else cl))"
proof -
  have c: "c \<in> set (clients wa)" using skel_get_ccon_some[OF inv, of flp] f by simp
  have "target_module c conx wa = Some (Some i)" using ccon t by (simp add: target_module_eq)
  from mtt.connect_at[OF inv c this, of dev ct ua ba alloc] obtain m where
    m: "Connect (mtt_user dev ct ua ba) alloc c conx wa = Some (set_mcon i m wa)"
      "conn_only has_data (fold (conn_add alloc c (ConMask conx)) [0 ..< 32] (Connected (Modules wa ! i))) (Modules wa ! i) m" by blast
  have i: "i < InstalledModules wa" using get_mcon_Some[OF t] by simp
  have len: "length (conn_clients (Connected (Modules wa ! i))) = 32" using wa_invD(1)[OF inv i] by (simp add: mod_ok_def conn_ok_def skel_sizes)
  have "enabled_ints (Connected m) = enabled_ints (Connected (Modules wa ! i)) OR
       (if \<exists>j<32. bit (ConMask conx) j \<and> (c \<in> set (conn_clients (Connected (Modules wa ! i)) ! j) \<or> alloc j) then ConMask conx else 0)"
    using conn_onlyD(2)[OF m(2)] fold_conn_add_enabled[of "[0 ..< 32]" "Connected (Modules wa ! i)" alloc c "ConMask conx"] len by (simp add: Bex_def)
  moreover have "conn_clients (Connected m) ! j = (let cl = conn_clients (Connected (Modules wa ! i)) ! j in
      if bit (ConMask conx) j \<and> c \<notin> set cl \<and> alloc j then c # cl else cl)" if "j < 32" for j
    using conn_onlyD(2)[OF m(2)] fold_conn_add_nth[OF len, of alloc c "ConMask conx" j] that by (simp add: Let_def)
  moreover have "SkelDrvrIoctl (mtt_user dev ct ua ba) dev alloc flp (CONNECT conx) wa = Some (Inr Rnone, set_mcon i m wa)"
    using m(1) f ccon msk by (simp add: SkelDrvrIoctl_def connect_ioctl_def)
  ultimately show ?thesis by blast
qed

theorem connect_adds_client_witness:
  "\<exists>m. SkelDrvrIoctl sample_us sample_device (\<lambda>_. True) 60 (CONNECT \<lparr>Module = 0, ConMask = 8\<rparr>) sample_wa = Some (Inr Rnone, set_mcon 0 m sample_wa) \<and>
     conn_clients (Connected m) ! 3 = [6, 5]"
proof -
  have b: "bit (8 :: u32) 3" by simp
  have "ccons sample_wa 6 = Some (sample_client 60)"
    "get_mcon (if Module \<lparr>Module = 0, ConMask = 8\<rparr> = 0 then ModuleNumber (sample_client 60) else Module \<lparr>Module = 0, ConMask = 8\<rparr>) sample_wa = Some 0"
    by (simp_all add: sample_wa_def sample_client_def get_mcon_def sample_mcon_def)
  from connect_adds_client[OF sample_wa_inv sample_ccon(2) this, of sample_device 0 True True "\<lambda>_. True"] b show ?thesis
    by (auto simp: sample_wa_def sample_mcon_def Let_def)
qed

text \<open>C15: For module descriptors with no mapping yet and with distinct numbers other than
0, without emulation, on a bus that takes back what it gave and with memory for the description
and the working area: the installation of the sequencer driver returns when the private data can
be allocated and every descriptor has both address spaces and does not ignore errors (otherwise a
failed set-up of a module can follow a null pointer); whenever it returns, a failed installation
leaves no mapping and no interrupt vector taken, and the removal after a successful one succeeds
and gives back every mapping and vector.\<close>

theorem install_uninstall_balance:
  assumes "\<not> EmulationFlags dd" "\<forall>d\<in>set (DrvrModules dd). unmapped d"
      "distinct (map ModlNumber (DrvrModules dd))" "0 \<notin> set (map ModlNumber (DrvrModules dd))" "gives_back bus"
  shows "(ua \<and> (\<forall>d\<in>set (DrvrModules dd). mtt_descriptor d) \<longrightarrow>
       SkelDrvrInstall (mtt_user dev ct ua ba) (ledger bus) hw None h0 (Some dd) True (b, {#}, {#}) \<noteq> None) \<and>
     (\<forall>r b' M' V'. SkelDrvrInstall (mtt_user dev ct ua ba) (ledger bus) hw None h0 (Some dd) True (b, {#}, {#}) = Some (r, b', M', V') \<longrightarrow>
       (case r of Inl _ \<Rightarrow> M' = {#} \<and> V' = {#}
        | Inr wa \<Rightarrow> (\<exists>b''. SkelDrvrUninstall (mtt_user dev ct ua ba) (ledger bus) (Some wa) (b', M', V') = Some (OK, None, b'', {#}, {#}))))"
proof (intro conjI allI impI)
  assume "ua \<and> (\<forall>d\<in>set (DrvrModules dd). mtt_descriptor d)"
  then show "SkelDrvrInstall (mtt_user dev ct ua ba) (ledger bus) hw None h0 (Some dd) True (b, {#}, {#}) \<noteq> None"
    using install_returns[of dd dev ct ba bus hw h0 b] assms(1,2) by auto
next
  fix r b' M' V'
  assume "SkelDrvrInstall (mtt_user dev ct ua ba) (ledger bus) hw None h0 (Some dd) True (b, {#}, {#}) = Some (r, b', M', V')"
  from mttm.install_uninstall[OF this assms] show "case r of Inl _ \<Rightarrow> M' = {#} \<and> V' = {#}
     | Inr wa \<Rightarrow> (\<exists>b''. SkelDrvrUninstall (mtt_user dev ct ua ba) (ledger bus) (Some wa) (b', M', V') = Some (OK, None, b'', {#}, {#}))"
    by (auto split: sum.splits)
qed

theorem install_uninstall_balance_witness:
  "SkelDrvrInstall sample_us (ledger sample_bus) (\<lambda>_. ()) None () (Some sample_drvrd) True ((), {#}, {#}) \<noteq> None \<and>
   (\<exists>wa b' M' V'. SkelDrvrInstall sample_us (ledger sample_bus) (\<lambda>_. ()) None () (Some sample_drvrd) True ((), {#}, {#}) = Some (Inr wa, b', M', V') \<and>
     (\<exists>b''. SkelDrvrUninstall sample_us (ledger sample_bus) (Some wa) (b', M', V') = Some (OK, None, b'', {#}, {#})))"
proof -
  have d: "\<not> EmulationFlags sample_drvrd" "\<forall>d\<in>set (DrvrModules sample_drvrd). unmapped d"
    "distinct (map ModlNumber (DrvrModules sample_drvrd))" "0 \<notin> set (map ModlNumber (DrvrModules sample_drvrd))" "gives_back sample_bus"
    "\<forall>d\<in>set (DrvrModules sample_drvrd). mtt_descriptor d"
    by (simp_all add: sample_drvrd_def sample_modld_def sample_space_def unmapped_def gives_back_def sample_bus_def mtt_descriptor_def)
  note both = install_uninstall_balance[OF d(1-5), of True sample_device 0 True "\<lambda>_. ()" "()" "()"]
  obtain wa b' M' V' where run: "SkelDrvrInstall sample_us (ledger sample_bus) (\<lambda>_. ()) None () (Some sample_drvrd) True ((), {#}, {#}) = Some (Inr wa, b', M', V')"
    using sample_installs by (metis surj_pair)
  then show ?thesis using both d(6) by fastforce
qed

text \<open>C21: The queue of a client is a list bounded to 32 entries: whatever events are put
into a queue that is empty and in order (the write pointer at the read pointer plus the size, as
after opening; a timeout sets the size to 0 without the pointers), taking as many as there are, at
most 32, returns the last 32 of them in order.\<close>

theorem client_queue_keeps_last:
  assumes "q_ok (Queue c)" "Size (Queue c) = 0"
  shows "fst (cq.gets (min SkelDrvrQUEUE_SIZE (length rbs)) (fold q_put rbs c)) = last_n SkelDrvrQUEUE_SIZE rbs"
proof -
  have e: "q_events (Queue c) = []" using assms(2) by (simp add: q_events_def)
  have p: "q_events (Queue (fold q_put rbs c)) = last_n SkelDrvrQUEUE_SIZE rbs" using cq.puts_events[OF assms(1), of rbs] e by simp
  from cq.gets_events[OF cq.puts_ok[OF assms(1)], of rbs "last_n SkelDrvrQUEUE_SIZE rbs" "[]"] p show ?thesis by simp
qed

theorem client_queue_keeps_last_witness:
  "fst (cq.gets 2 (fold q_put [sample_event 1, sample_event 2] zero_ccon)) = [sample_event 1, sample_event 2]"
  using client_queue_keeps_last[of zero_ccon "[sample_event 1, sample_event 2]"]
  by (simp add: zero_ccon_def q_ok_def skel_sizes numeral_2_eq_2)

theorem queued_event_wakes_reader_witness:
  "\<exists>c'. read_step (q_put (sample_event 1) (read_begin (reset_queue (sample_client 50))), Waiting) (c', Woken) \<and>
     Queue c' = Queue (q_put (sample_event 1) (read_begin (reset_queue (sample_client 50))))"
proof (rule queued_event_wakes_reader)
  show "client_init sample_us 100 50 sample_wa = Some (reset_queue (sample_client 50))"
    by (simp add: client_init_def sample_wa_def sample_mcon_def Let_def mtt_user_def sample_client_def zero_ccon_def SkelDrvrDEFAULT_CLIENT_TIMEOUT_def)
  show "read_step\<^sup>*\<^sup>* (reset_queue (sample_client 50), Idle) (q_put (sample_event 1) (read_begin (reset_queue (sample_client 50))), Waiting)"
    by (rule rtranclp.rtrancl_into_rtrancl, rule r_into_rtranclp, rule start, rule event)
  show "0 < Size (Queue (q_put (sample_event 1) (read_begin (reset_queue (sample_client 50)))))"
    by (simp add: q_put_def read_begin_def reset_queue_def Let_def sample_client_def zero_ccon_def skel_sizes)
qed

subsection \<open>Loading a program\<close>

text \<open>The device is memory at the given addresses: a word reads as it was last written, and reading changes
  nothing.\<close>

definition memory_cells :: "'h vme_device \<Rightarrow> nat set \<Rightarrow> bool" where
  "memory_cells dev A \<longleftrightarrow>
     (\<forall>h. \<forall>a\<in>A. \<forall>e v. fst (dev_read dev (dev_write dev h a 32 e v) a 32 e) = v) \<and>
     (\<forall>h. \<forall>a\<in>A. \<forall>b\<in>A. b \<noteq> a \<longrightarrow> (\<forall>e f v. fst (dev_read dev (dev_write dev h a 32 e v) b 32 f) = fst (dev_read dev h b 32 f))) \<and>
     (\<forall>h. \<forall>a\<in>A. \<forall>e. snd (dev_read dev h a 32 e) = h)"

definition program_cells :: "u32 \<Rightarrow> nat \<Rightarrow> nat set" where
  "program_cells a n = (\<lambda>k. unat (a + of_nat (4 * k))) ` {..<2 * n}"

lemma program_cells_Suc: "program_cells a (Suc n) = insert (unat a) (insert (unat (a + 4)) (program_cells (a + 8) n))"
  by (simp add: program_cells_def lessThan_Suc_eq_insert_0 image_image ac_simps)

text \<open>Fewer than \<open>2 ^ 29\<close> instructions do not run round into each other, even when the addresses wrap.\<close>

lemma program_cells_apart:
  assumes "n < 2 ^ 29 - 1"
  shows "unat a \<notin> program_cells (a + 8) n" "unat (a + 4) \<notin> program_cells (a + 8) n"
proof -
  have "(of_nat j :: u32) \<noteq> 0" if "0 < j" "j < 2 ^ 32" for j :: nat
    using that by (simp add: word_unat_eq_iff unsigned_of_nat take_bit_nat_eq_self)
  from this[of "4 * k + 8" for k] this[of "4 * k + 4" for k]
  have "unat (a + 8 + of_nat (4 * k)) \<noteq> unat a" "unat (a + 8 + of_nat (4 * k)) \<noteq> unat (a + 4)" if "k < 2 * n" for k
    using that assms unfolding word_unat_eq_iff[symmetric] by (simp_all add: add_eq_0_iff algebra_simps)
  then show "unat a \<notin> program_cells (a + 8) n" "unat (a + 4) \<notin> program_cells (a + 8) n"
    by (fastforce simp: program_cells_def)+
qed

lemma set_program_frame:
  "memory_cells dev A \<Longrightarrow> program_cells a (length xs) \<subseteq> A \<Longrightarrow> b \<in> A \<Longrightarrow> b \<notin> program_cells a (length xs) \<Longrightarrow>
     fst (dev_read dev (hardware (mtt_set_program dev a xs m)) b 32 e) = fst (dev_read dev (hardware m) b 32 e)"
proof (induction xs arbitrary: a m)
  case (Cons x xs)
  then show ?case by (simp add: program_cells_Suc io_write_def memory_cells_def)
qed simp

lemma set_program_same: "UserData (mtt_set_program dev a xs m) = UserData m"
  by (induction xs arbitrary: a m) (simp_all add: io_write_def)

lemma get_set_program:
  assumes "memory_cells dev A" "program_cells a (length xs) \<subseteq> A" "length xs < 2 ^ 29"
  shows "mtt_get_program dev a (length xs) (mtt_set_program dev a xs m) = (xs, mtt_set_program dev a xs m)"
  using assms(2,3)
proof (induction xs arbitrary: a m)
  case (Cons x xs)
  let ?m1 = "io_write dev (unat (a + 4)) (Srce1 x) (m\<lparr>hardware := dev_write dev (hardware m) (unat a) 32 False (insFields x)\<rparr>)"
  let ?m = "mtt_set_program dev (a + 8) xs ?m1"
  have A: "unat a \<in> A" "unat (a + 4) \<in> A" "program_cells (a + 8) (length xs) \<subseteq> A" using Cons.prems(1) by (simp_all add: program_cells_Suc)
  have out: "unat a \<notin> program_cells (a + 8) (length xs)" "unat (a + 4) \<notin> program_cells (a + 8) (length xs)"
    using program_cells_apart[of "length xs" a] Cons.prems(2) by simp_all
  have "unat (a + 4) \<noteq> unat a" by (simp add: word_unat_eq_iff[symmetric])
  then have "fst (dev_read dev (hardware ?m) (unat a) 32 False) = insFields x" "fst (dev_read dev (hardware ?m) (unat (a + 4)) 32 True) = Srce1 x"
    using set_program_frame[OF assms(1) A(3) A(1) out(1), of ?m1 False] set_program_frame[OF assms(1) A(3) A(2) out(2), of ?m1 True] assms(1) A
    by (simp_all add: io_write_def memory_cells_def)
  moreover have "snd (dev_read dev h (unat a) 32 False) = h" "snd (dev_read dev h (unat (a + 4)) 32 True) = h" for h
    using assms(1) A by (simp_all add: memory_cells_def)
  ultimately have "dev_read dev (hardware ?m) (unat a) 32 False = (insFields x, hardware ?m)" "dev_read dev (hardware ?m) (unat (a + 4)) 32 True = (Srce1 x, hardware ?m)"
    by (simp_all add: prod_eq_iff)
  then show ?case using Cons.IH[OF A(3), of ?m1] Cons.prems(2) by (simp add: io_read_def)
qed simp

text \<open>C27: A program of fewer than 2^29 instructions loaded into the memory of a module by
one ioctl is read back unchanged by the other; for every load address, with the address arithmetic
of the code wrapping at 32 bits, when the kernel buffers are allocated, the arrays of the caller
have the length of the count, and the device behaves as plain memory at the words the program
occupies (the code does not check that these lie in the program memory).\<close>

theorem program_roundtrip:
  assumes u: "UserData m = Some u" and n: "length (Program p) = unat (progInstructionCount p)" "unat (progInstructionCount p) < 2 ^ 29"
    and mem: "memory_cells dev (program_cells (io_ptr u (int (map_ProgramMem (unat (progLoadAddress p))))) (length (Program p)))"
    and buf: "length ys = length (Program p)"
  shows "\<exists>m'. mtt_Ioctls dev ct True m (MTT_IOCSPROGRAM p) = Some (Inr (MTT_IOCSPROGRAM p), m') \<and>
     mtt_Ioctls dev ct True m' (MTT_IOCGPROGRAM (p\<lparr>Program := ys\<rparr>)) = Some (Inr (MTT_IOCGPROGRAM p), m')"
proof -
  let ?a = "io_ptr u (int (map_ProgramMem (unat (progLoadAddress p))))"
  let ?m = "mtt_set_program dev ?a (Program p) m"
  have "mtt_get_program dev ?a (length (Program p)) ?m = (Program p, ?m)" using get_set_program[OF mem subset_refl] n by simp
  then show ?thesis using u n buf by (simp add: mtt_gs_program_ioctl_def set_program_same)
qed

definition ram_device :: "(nat \<Rightarrow> u32) vme_device" where
  "ram_device = \<lparr>dev_read = (\<lambda>h a w e. (h a, h)), dev_write = (\<lambda>h a w e v. h(a := v))\<rparr>"

theorem program_roundtrip_witness:
  "\<exists>m'. mtt_Ioctls ram_device 0 True ((zero_mcon (Some zero_udata) (\<lambda>_. 0))) (MTT_IOCSPROGRAM \<lparr>progLoadAddress = 3, progInstructionCount = 1, Program = [\<lparr>insFields = 5, Srce1 = 6\<rparr>]\<rparr>) =
       Some (Inr (MTT_IOCSPROGRAM \<lparr>progLoadAddress = 3, progInstructionCount = 1, Program = [\<lparr>insFields = 5, Srce1 = 6\<rparr>]\<rparr>), m') \<and>
     mtt_Ioctls ram_device 0 True m' (MTT_IOCGPROGRAM \<lparr>progLoadAddress = 3, progInstructionCount = 1, Program = [\<lparr>insFields = 0, Srce1 = 0\<rparr>]\<rparr>) =
       Some (Inr (MTT_IOCGPROGRAM \<lparr>progLoadAddress = 3, progInstructionCount = 1, Program = [\<lparr>insFields = 5, Srce1 = 6\<rparr>]\<rparr>), m')"
proof -
  have "memory_cells ram_device A" for A by (simp add: memory_cells_def ram_device_def)
  then show ?thesis
    using program_roundtrip[of "zero_mcon (Some zero_udata) (\<lambda>_. 0)" zero_udata
        "\<lparr>progLoadAddress = 3, progInstructionCount = 1, Program = [\<lparr>insFields = 5, Srce1 = 6\<rparr>]\<rparr>" ram_device "[\<lparr>insFields = 0, Srce1 = 0\<rparr>]" 0]
    by (simp add: zero_mcon_def)
qed

subsection \<open>What goes wrong\<close>

text \<open>Closing the JTAG access of a module that was locked leaves its semaphore at 2, so that two users may then lock
  it.\<close>

lemma jtag_close_unlocks_twice:
  "module_ioctl us dev kalloc JTAG_CLOSE m = Some (Inr Rnone, m') \<Longrightarrow> ModSemaphore m' = 2"
  by (auto simp: Reset_def UnLockModule_def split: bind_splits)

text \<open>A module whose set-up fails is released through private data that is not there any more.\<close>

lemma failed_init_uses_freed_data:
  assumes "mtt_ModuleInit dev al m = Some (SkelUserReturnFAILED, m')" "UserData m = None" "StandardStatus m AND EMULATION = 0"
  shows "RemoveModule (mtt_user dev ct ua ba) bus m' b = None"
proof -
  have "UserData m' = None \<and> StandardStatus m' = StandardStatus m"
    using assms(1,2) by (auto simp: mtt_ModuleInit_def split: if_splits option.splits bind_splits)
  then show ?thesis using assms(3)
    by (simp add: RemoveModule_def mtt_user_def mtt_ModuleRelease_def mtt_quiesce_def mtt_writew_def)
qed

text \<open>Enabling an interrupt mask never disables: the register keeps what it had.\<close>

lemma enable_interrupts_only_adds:
  assumes "UserData m = Some u"
  shows "mtt_EnableInterrupts dev m e =
    (let (v, h) = dev_read dev (hardware m) (iomap u + MTT_INTEN) 32 True
     in Some (m\<lparr>hardware := dev_write dev h (iomap u + MTT_INTEN) 32 True (v OR (e AND MttDrvrIntMASK))\<rparr>))"
  using assms by (simp add: mtt_EnableInterrupts_def mtt_orw_def mtt_readw_def mtt_writew_def io_read_def io_write_def split_beta Let_def)

text \<open>A client that leaves source 0 as its last client takes source 1 away from another client.\<close>

lemma disconnect_disables_others:
  "fold (conn_del 5 (NOT 0)) [0, 1] \<lparr>conn_clients = [[5], [6]], enabled_ints = 3\<rparr> = \<lparr>conn_clients = [[], [6]], enabled_ints = 0\<rparr>"
  by (simp add: conn_del_def)

text \<open>A block transfer with a width below 8 bits divides by 0.\<close>

lemma narrow_block_divides_by_zero:
  assumes "get_addr_space (Modld m) (rit_SpaceNumber riob) 0 = Some anyas" "WindowSize anyas = 0" "rit_DataWidth riob = 4"
  shows "RawIoBlock dev al riob flag m = None"
  using assms by (simp add: RawIoBlock_def Let_def)

text \<open>A global register number with the top bit set is accepted and reaches the registers before the array.\<close>

lemma negative_global_register:
  assumes "UserData m = Some u"
  shows "mtt_gs_grval_ioctl dev \<lparr>RegNum = 0xFFFFFFFF, RegVal = v\<rparr> True m =
    Some (Inr (MTT_IOCSGRVAL \<lparr>RegNum = 0xFFFFFFFF, RegVal = v\<rparr>), io_write dev (unat (io_ptr u (int (map_Tasks 15 + 12)))) v m)"
proof -
  have "sint (0xFFFFFFFF :: u32) = - 1" by code_simp
  then show ?thesis using assms by (simp add: mtt_gs_grval_ioctl_def mtt_sizes map_GlobalMem_def map_Tasks_def)
qed

text \<open>Enabling the hardware of a sequencer module marks it as disabled.\<close>

lemma enable_marks_disabled:
  "module_ioctl (mtt_user dev ct ua ba) dev kalloc (ENABLE v) m = Some (Inr Rnone, m\<lparr>StandardStatus := StandardStatus m OR DISABLED\<rparr>)"
  by (simp add: mtt_user_def mtt_HardwareEnable_def)

text \<open>Only the lowest register of the mask is set.\<close>

lemma first_task_register_only:
  assumes "UserData m = Some u" "bit (RegMask tr) 0" "trTask tr = 1"
  shows "mtt_gs_trval_ioctl dev tr True m = Some (Inr (MTT_IOCSTRVAL tr), io_write dev (unat (io_ptr u (int (map_LocalMem 0 0)))) (RegVals tr ! 0) m)"
proof -
  have "find (\<lambda>i. bit (RegMask tr) i) [0 ..< MttDrvrLRAM_SIZE] = Some 0"
    using assms(2) by (simp add: mtt_sizes upt_rec)
  then show ?thesis using assms by (simp add: mtt_gs_trval_ioctl_def mtt_sizes)
qed

end
