(* ===== verification/Spec2Isabelle.thy ===== *)
theory Spec2Isabelle
  imports Vme_Window_Spec Vme_Dma_Conc Vme_Irq_Props Vme_Bridge_Props Libvmebus_Props
    Mtt_Emu_Spec Mtt_Asm_Spec Mtt_Driver_Spec
begin

text \<open>
  A verification library for three parts of this repository: the PCI-VME bridge, that is the Linux
  driver for the Tundra TSI148 chip (\<open>src/vmebridge/driver\<close>) with its user library
  (\<open>src/vmebridge/lib\<close>); the framework for drivers of modules on the bus (\<open>src/skel/driver\<close>) with the
  driver of the multi-tasking timing sequencer that is built on it (\<open>src/mttn/driver\<close>); and the tools
  of the sequencer, its assembler and emulator (\<open>src/mttn/tools\<close>, \<open>src/mttn/lib/opcodes.c\<close>).

  \<^bold>\<open>The bridge.\<close> The driver gives processes and other drivers access to a VME bus. The chip has eight
  outbound windows that translate PCI address ranges to VME addresses, two DMA engines that follow
  linked lists of descriptors in memory, and an interrupt controller. On top of it the driver keeps

    \<^item> a table of windows with the logical mappings inside them (\<open>vme_window.c\<close>): mappings are looked
      up or created by processes and kernel clients, mapped into user space, and released one by one
      or when a file is closed;
    \<^item> DMA channels under a counting semaphore, with scatter-gather lists of user or kernel pages
      (\<open>vme_dma.c\<close>, \<open>tsi148.c\<close>);
    \<^item> an interrupt routine with counters, a table of 256 interrupt vectors and handlers for bus
      errors (\<open>vme_irq.c\<close>, \<open>vme_misc.c\<close>);
    \<^item> device files, start-up and removal, an emulation of an older interface, and a bus of stacked
      drivers (\<open>vme_bridge.c\<close>, \<open>vme_cesif.c\<close>).

  The library opens the device files and combines ioctl and mmap into \<open>vme_map\<close> and \<open>vme_unmap\<close>.

  \<^bold>\<open>The sequencer driver.\<close> The framework (\<open>skeldrvr.c\<close>) keeps a working area with the installed modules
  and the open clients. Installation maps the address spaces of each module and hooks its interrupt
  (\<open>skelvme.h\<close>); a client connects to interrupts of a module, and the interrupt handler puts an event
  into the queue of every connected client, a ring buffer of 32 entries with a semaphore on which
  \<open>read\<close> waits. What depends on the module is left to a user part with a fixed set of functions
  (\<open>SkelUserModuleInit\<close>, \<open>SkelUserIoctls\<close>, ...), which \<open>mtt-skel.c\<close> provides for the sequencer: its
  registers, commands, tasks, local and global memory and programs.

  \<^bold>\<open>The sequencer tools.\<close> The assembler (\<open>asm.c\<close>) cuts a source into atoms, translates them with a symbol
  table, two expression stacks and a list of forward references, resolves the references in a second
  pass, and writes the program as an object file in text form; it also disassembles such a file. The
  emulator (\<open>emu.c\<close>) loads an object file and, driven by commands, lists it, edits the 256 registers
  and executes instructions. Both use the tables of the instruction set and of the registers
  (\<open>opcodes.c\<close>).

  \<^bold>\<open>The theories.\<close> A definition has the name of the C function it translates; a part of a function
  that is a definition of its own (the body of a loop, an error exit, the section under a lock) is
  named after what it does.

    \<^item> \<open>Prelude\<close>: word widths, error codes and results, alignment lemmas, the locales
      \<open>partial_codec\<close> (an encoder with a partial inverse) and \<open>inv_machine\<close> (operations that keep
      an invariant).
    \<^item> \<open>Vmebus\<close> (\<open>vmebus.h\<close>), \<open>Tsi148_Regs\<close> (\<open>tsi148.h\<close>): the descriptors and enumerations, the register
      file of the chip as a record, its accessors.
    \<^item> \<open>Tsi148_Attr\<close>, \<open>Tsi148_Window\<close> (\<open>tsi148.c\<close>): attribute words, programming, reading back and removal
      of windows as ordered register writes, CRG and start-up; what a programmed window decodes and
      translates. The attribute coder interprets \<open>partial_codec\<close>.
    \<^item> \<open>Vme_Window\<close>, \<open>Vme_Window_Props\<close>, \<open>Vme_Window_Spec\<close> (\<open>vme_window.c\<close>): the window manager. It uses the
      chip through the locale \<open>window_hw\<close>, which the chip's routines interpret. The invariant
      \<open>wins_inv\<close> ties the table, the chip, the locks and the kernel's resources together; the
      properties follow from one case lemma per entry point.
    \<^item> \<open>Tsi148_Dma\<close>, \<open>Tsi148_Dma_Props\<close> (\<open>tsi148.c\<close>): construction of descriptor lists in an explicit
      descriptor memory with its pool, and the chip as a machine that follows them.
    \<^item> \<open>Vme_Dma\<close>, \<open>Vme_Dma_Props\<close> (\<open>vme_dma.c\<close>): scatter-gather lists, channels, a whole transfer with
      its clean-up. \<open>Vme_Dma_Conc\<close>: acquisition and release as an inductive relation of atomic steps
      of any number of tasks, with an invariant by rule induction.
    \<^item> \<open>Vme_Irq\<close>, \<open>Vme_Irq_Props\<close> (\<open>vme_irq.c\<close>, \<open>vme_misc.c\<close>): interrupts and bus errors. The vector table
      interprets the locale \<open>exclusive_table\<close>, which gives its refinement of a map.
    \<^item> \<open>Vme_Bridge\<close>, \<open>Vme_Bridge_Props\<close> (\<open>vme_bridge.c\<close>, \<open>vme_cesif.c\<close>, the ioctls of \<open>vme_window.c\<close>): the
      driver as a whole. The components share one chip; each sees it through a view of its own state.
      \<open>bop_step\<close> is every way into the driver as one state machine.
    \<^item> \<open>Libvmebus\<close>, \<open>Libvmebus_Props\<close> (\<open>libvmebus.c\<close>): the library on top of the driver, with the
      descriptors, open files and page table of a process.
    \<^item> \<open>C_Strings\<close>: what the tools use of the C library on strings (\<open>strtoul\<close>, \<open>printf\<close> conversions, \<open>fgets\<close>).
    \<^item> \<open>Mtt_Opcodes\<close>, \<open>Mtt_Opcodes_Props\<close> (\<open>opcodes.c\<close> and what both tools share): the tables, register
      names, instructions as text, object files.
    \<^item> \<open>Mtt_Emu\<close>, \<open>Mtt_Emu_Props\<close>, \<open>Mtt_Emu_Spec\<close> (\<open>emu.c\<close>): the machine as a record, \<open>Execute\<close> with a part per
      group of instructions, the command loop on a list of input lines. Undefined behaviour is \<open>None\<close>;
      \<open>checked_program\<close> is a static check under which it does not occur.
    \<^item> \<open>Mtt_Asm\<close>, \<open>Mtt_Asm_Inv\<close>, \<open>Mtt_Asm_Props\<close>, \<open>Mtt_Asm_Spec\<close> (\<open>asm.c\<close>): the assembler as a computation that
      ends with a value, \<open>exit\<close> or undefined behaviour. The invariant \<open>asm_inv\<close> is proved with one rule
      per operation for what it returns (\<open>returns\<close>); the translation of a listing is followed line by
      line through the lexer and the translator.
    \<^item> \<open>Skel\<close>, \<open>Skel_Entry\<close>, \<open>Skel_Install\<close> (\<open>skeldrvr.c\<close>, \<open>skelvme.h\<close>): the working area as a record, queues,
      delivery of interrupts and connections; the entry points with every standard ioctl; mapping,
      installation and removal. The user part is a record of functions (\<open>skel_user\<close>). A link to a
      client that is freed, or to a module that is not there, makes an operation \<open>None\<close>.
    \<^item> \<open>Skel_Props\<close>: the ring buffer interprets the locale \<open>lossy_queue\<close>, a queue that keeps the last
      entries; what an interrupt delivers. \<open>Skel_Inv\<close>, \<open>Skel_Ops\<close>: the locale \<open>user_part\<close> (what the framework
      relies on of a user part) and, inside it, the invariant \<open>wa_inv\<close> of the working area with one
      lemma per operation. \<open>Skel_Install_Props\<close>: the locale \<open>module_part\<close> and the balance of mappings and
      interrupts on a bus that keeps a ledger of them. \<open>Skel_Read\<close>: a read interleaved with interrupts,
      as an inductive relation.
    \<^item> \<open>Mtt_Driver\<close>, \<open>Mtt_Driver_Props\<close>, \<open>Mtt_Driver_Spec\<close> (\<open>mtt-skel.c\<close>): the user part of the sequencer over a
      device that answers reads and writes. It interprets \<open>user_part\<close> and \<open>module_part\<close>, which gives the
      theorems about the driver as a whole.

  \<^bold>\<open>What is shown.\<close> The invariant of the windows under every sequence of window operations and, for the
  composed driver, under every sequence of file operations, interrupts, DMA requests and kernel
  clients, from start-up on. Addresses: a mapping is decoded and translated by the chip to the VME
  range that was asked for, and a user address obtained from \<open>vme_map\<close> reaches it through the page
  table. DMA: a descriptor list performs exactly the transfer, respects the block boundaries of the
  bus, and everything taken for a request is given back on every path; channels are exclusive in
  every interleaving. Interrupts: exact counters and calls. Errors: failed creations, registrations
  and library calls undo what they did; what a failed start-up leaves behind is bounded. Round trips
  of creation and destruction, find and release, map and unmap.

  For the sequencer driver: after installation every sequence of calls and interrupts keeps the
  invariant of the working area, so that no link to a freed client is followed; an interrupt appends
  exactly the events of the connected clients, of which the queue keeps the last 32; a reader that
  waits can go on when an event is counted; connection and close change exactly the lists they should;
  installation returns for complete module descriptions, and removal gives back every mapping and
  interrupt that it took; programs read back.

  For the sequencer tools: the listing of a program assembles to the same program, through the object file,
  and a program whose branches go forward then halts in the emulator; registers and object files read
  back; the tables of the assembler stay within their arrays for every source, forward references get
  the final values of their symbols, and the instructions are those of the source in order; checked
  programs never run into undefined behaviour, branches follow the last result, relative waits
  complete. Several theorems show where the
  code does not do what it means to (wrap-around of range tests, unaligned requests, leaks on error
  exits, addresses above 4G in DMA descriptors, the value of an expression, undefined labels, masks of interrupts, the semaphore of a module, values that a timeout leaves in a queue).

  \<^bold>\<open>Environment.\<close> What is not code of the driver is a parameter: the allocators, \<open>ioremap\<close> and mmap
  services of the kernel (\<open>kernel\<close>, \<open>dma_kernel\<close>, \<open>pci_env\<close>, \<open>user_env\<close>), the chip's own actions (latched
  errors, the registers after a transfer), signals and allocation failures as lists of outcomes.
  What a theorem needs of them is a named hypothesis (\<open>fresh_pool\<close>, \<open>maps_sg\<close>, \<open>request_ok\<close>,
  \<open>quiet_wait\<close>, \<open>fresh_fds\<close>, \<open>free_areas\<close>), and its witness gives an instance. Words have the widths of
  the C types and wrap. For the sequencer driver the parameters are the device (\<open>vme_device\<close>), the bus
  (\<open>vme_bus\<close>: mapping and interrupt hooks that may fail) and the outcomes of allocations. It is
  taken as built for Linux, where bus errors are not reported to the driver, with 32-bit \<open>long\<close>, for the
  VME bus only and with no handlers of its own in place of the framework's (\<open>SkelConf\<close> is empty). Modules in
  emulation mode are modelled and excluded from the theorem about removal.

  \<^bold>\<open>Bounds.\<close> The loop that builds a descriptor list is a \<open>partial_function\<close> over options; that it
  returns is part of the theorem about it. A call that sleeps for ever is \<open>None\<close>. All other loops
  are structural, or end by a measure (the lexer by the text left, the emulator's loop by the input
  lines left). The emulator's loop ends when the input does, where \<open>fgets\<close> would repeat the last line. The
  tools are taken as built for their ILP32 targets with unsigned \<open>char\<close>. The interrupt routine takes the list of rounds that the device raises.

  \<^bold>\<open>Not modelled.\<close> The procfs listings and debug output of the driver, power management callbacks, the
  byte-swapping inlines and the test programs of the library, and interleavings of window operations
  (they run under the mutex of a window, except for the scan for an unused window). Of the framework and the
  sequencer driver, the spin locks and mutexes (each operation runs alone: in \<open>drv_step\<close> a
  read is one step; a read with interrupts during its wait is the relation \<open>read_step\<close>, where the lemma
  \<open>stale_event_read\<close> shows that an event between a timeout and its handling breaks the order of the queue), tracing, the clean-up of dead processes on LynxOS, the variants for PCI and carrier
  boards, and the copy of the framework in \<open>vd80\<close>. Of the sequencer, the user library (\<open>libmtt.c\<close>), which
  wraps the ioctls, the printed diagnostics of the assembler, and
  the handling of arguments and file names in \<open>main\<close>. The other
  drivers of the repository are independent programs and are not part of this library.
\<close>

end
